(* ===== verification/Prelude.thy ===== *)
theory Prelude
  imports Main "HOL-Library.Word" "HOL-Library.Monad_Syntax"
begin

text \<open>
  Shared vocabulary of the development: the machine integer types of the C++ sources, byte
  strings (\<^verbatim>\<open>char*\<close> buffers and \<^verbatim>\<open>std::string\<close> values that
  travel on the wire), checked access to a buffer, C integer conversions, and the lemma
  collections that carry the component proofs.
\<close>

unbundle bit_operations_syntax

section \<open>Types\<close>

type_synonym u8 = "8 word"
type_synonym u16 = "16 word"
type_synonym u32 = "32 word"
type_synonym u64 = "64 word"
type_synonym bytes = "8 word list"

named_theorems byte_simps \<open>facts on encoding and decoding machine words as bytes\<close>
named_theorems reader_simps \<open>facts on the unread part of a byte reader\<close>
named_theorems wire_length \<open>lengths of encoded values\<close>

text \<open>The bytes of a C string literal.\<close>

definition bytes_of :: "string \<Rightarrow> bytes" where
  "bytes_of s = map of_char s"

lemma length_bytes_of [simp, wire_length]: "length (bytes_of s) = length s"
  by (simp add: bytes_of_def)

section \<open>Checked buffer access\<close>

text \<open>
  \<open>mem_read d off n\<close> is a read of \<open>n\<close> bytes at offset \<open>off\<close> of a buffer
  \<open>d\<close> through a raw pointer; \<open>None\<close> is a read that leaves the buffer, which in
  the C++ source is undefined behaviour.  A theorem that a routine never yields \<open>None\<close>
  is a memory-safety theorem.
\<close>

definition mem_read :: "bytes \<Rightarrow> nat \<Rightarrow> nat \<Rightarrow> bytes option" where
  "mem_read d off n = (if off + n \<le> length d then Some (take n (drop off d)) else None)"

lemma mem_read_in_bounds [simp]:
  "off + n \<le> length d \<Longrightarrow> mem_read d off n = Some (take n (drop off d))"
  by (simp add: mem_read_def)

lemma mem_read_out_of_bounds [simp]: "length d < off + n \<Longrightarrow> mem_read d off n = None"
  by (simp add: mem_read_def)

lemma mem_read_eq_Some_iff:
  "mem_read d off n = Some xs \<longleftrightarrow> off + n \<le> length d \<and> xs = take n (drop off d)"
  by (auto simp: mem_read_def)

lemma mem_read_SomeD: "mem_read d off n = Some xs \<Longrightarrow> length xs = n"
  by (auto simp: mem_read_eq_Some_iff)

lemma mem_read_append_right:
  "mem_read (xs @ ys) (length xs + k) n = mem_read ys k n"
  by (simp add: mem_read_def)

section \<open>Programs that do not fail\<close>

text \<open>\<open>safely Q r\<close>: the run \<open>r\<close> has no undefined behaviour and ends in a state with \<open>Q\<close>.\<close>

definition safely :: "('a \<Rightarrow> bool) \<Rightarrow> 'a option \<Rightarrow> bool" where
  "safely Q r \<longleftrightarrow> (case r of None \<Rightarrow> False | Some x \<Rightarrow> Q x)"

lemma safely_Some [simp]: "safely Q (Some x) = Q x"
  and safely_None [simp]: "safely Q None = False"
  by (simp_all add: safely_def)

lemma safelyE: "safely Q r \<Longrightarrow> (\<And>x. r = Some x \<Longrightarrow> Q x \<Longrightarrow> R) \<Longrightarrow> R"
  by (cases r) auto

lemma safely_mono: "safely Q r \<Longrightarrow> (\<And>x. Q x \<Longrightarrow> R x) \<Longrightarrow> safely R r"
  by (cases r) auto

lemma safely_bind: "safely Q r \<Longrightarrow> (\<And>x. Q x \<Longrightarrow> safely R (f x)) \<Longrightarrow> safely R (r \<bind> f)"
  by (cases r) auto

lemma safely_if: "(b \<Longrightarrow> safely Q r) \<Longrightarrow> (\<not> b \<Longrightarrow> safely Q s) \<Longrightarrow> safely Q (if b then r else s)"
  by simp

lemma safely_map [simp]: "safely Q (map_option f r) = safely (\<lambda>x. Q (f x)) r"
  by (cases r) auto

text \<open>\<open>yields Q r\<close>: if the run \<open>r\<close> ends, it ends in a state with \<open>Q\<close>.\<close>

definition yields :: "('a \<Rightarrow> bool) \<Rightarrow> 'a option \<Rightarrow> bool" where
  "yields Q r \<longleftrightarrow> (\<forall>x. r = Some x \<longrightarrow> Q x)"

lemma yields_simps [simp]: "yields Q None" "yields Q (Some x) = Q x" "yields Q (map_option f r) = yields (\<lambda>x. Q (f x)) r"
  by (auto simp: yields_def)

lemma yieldsD: "yields Q r \<Longrightarrow> r = Some x \<Longrightarrow> Q x"
  by (simp add: yields_def)

lemma yields_bind: "yields Q r \<Longrightarrow> (\<And>x. Q x \<Longrightarrow> yields R (f x)) \<Longrightarrow> yields R (r \<bind> f)"
  by (cases r) simp_all

lemma yields_keep: "yields Q r \<Longrightarrow> (\<And>x. Q x \<Longrightarrow> yields Q (f x)) \<Longrightarrow> yields Q (r \<bind> f)"
  by (rule yields_bind)

lemma yields_read: "(\<And>x. r = Some x \<Longrightarrow> yields R (f x)) \<Longrightarrow> yields R (r \<bind> f)"
  by (cases r) simp_all

lemma yields_mono: "yields Q r \<Longrightarrow> (\<And>x. Q x \<Longrightarrow> R x) \<Longrightarrow> yields R r"
  by (simp add: yields_def)

lemma yields_if: "(b \<Longrightarrow> yields Q r) \<Longrightarrow> (\<not> b \<Longrightarrow> yields Q s) \<Longrightarrow> yields Q (if b then r else s)"
  by simp

section \<open>C integer conversions\<close>

text \<open>
  \<open>c_int\<close> is the conversion of an integer to the 32-bit \<^verbatim>\<open>int\<close>, as the
  source's narrowing assignments perform it (modulo \<open>2 ^ 32\<close>, two's complement).
\<close>

definition c_int :: "int \<Rightarrow> int" where
  "c_int x = signed_take_bit 31 x"

lemma c_int_id: "- (2 ^ 31) \<le> x \<Longrightarrow> x < 2 ^ 31 \<Longrightarrow> c_int x = x"
  by (simp add: c_int_def signed_take_bit_int_eq_self)

lemma c_int_range: "- (2 ^ 31) \<le> c_int x" "c_int x < 2 ^ 31"
  using signed_take_bit_int_greater_eq_minus_exp [of 31 x]
    signed_take_bit_int_less_exp [of 31 x]
  by (simp_all add: c_int_def)

lemma c_int_wrap:
  assumes "2 ^ 31 \<le> x" "x < 2 ^ 32" shows "c_int x = x - 2 ^ 32"
proof -
  have "x div 2 ^ 31 = 1" using assms by (intro int_div_pos_eq [where r = "x - 2 ^ 31"]) simp_all
  then have "bit x 31" by (simp only: bit_iff_odd) simp
  then show ?thesis
    using assms by (simp add: c_int_def signed_take_bit_eq_take_bit_minus take_bit_int_eq_self)
qed

text \<open>C division and remainder truncate towards zero.\<close>

definition c_div :: "int \<Rightarrow> int \<Rightarrow> int" where
  "c_div a b = sgn a * sgn b * (\<bar>a\<bar> div \<bar>b\<bar>)"

definition c_mod :: "int \<Rightarrow> int \<Rightarrow> int" where
  "c_mod a b = a - b * c_div a b"

lemma c_div_nonneg: "0 \<le> a \<Longrightarrow> 0 < b \<Longrightarrow> c_div a b = a div b"
  by (cases "a = 0") (simp_all add: c_div_def)

lemma c_mod_nonneg: "0 \<le> a \<Longrightarrow> 0 < b \<Longrightarrow> c_mod a b = a mod b"
  by (simp add: c_mod_def c_div_nonneg minus_mult_div_eq_mod)

section \<open>Padding to a multiple of four\<close>

text \<open>The padding computation shared by every attribute of a STUN message.\<close>

definition pad4 :: "nat \<Rightarrow> nat" where
  "pad4 n = (if n mod 4 \<noteq> 0 then n + (4 - n mod 4) else n)"

lemma pad4_ge: "n \<le> pad4 n"
  unfolding pad4_def by presburger

lemma pad4_less: "pad4 n < n + 4"
  unfolding pad4_def by presburger

lemma pad4_mod [simp]: "pad4 n mod 4 = 0"
  unfolding pad4_def by presburger

lemma pad4_fixed [simp]: "n mod 4 = 0 \<Longrightarrow> pad4 n = n"
  by (simp add: pad4_def)

section \<open>Lists\<close>

lemma take_append_length [simp]: "n = length xs \<Longrightarrow> take n (xs @ ys) = xs"
  by simp

lemma drop_append_length [simp]: "n = length xs \<Longrightarrow> drop n (xs @ ys) = ys"
  by simp

lemma split_at: "n \<le> length xs \<Longrightarrow> \<exists>ys zs. xs = ys @ zs \<and> length ys = n"
  by (metis append_take_drop_id length_take min.absorb2)

lemma find_append:
  "find P (xs @ ys) = (case find P xs of None \<Rightarrow> find P ys | Some x \<Rightarrow> Some x)"
  by (induction xs) auto

lemma find_filter_None: "(\<And>x. P x \<Longrightarrow> Q x) \<Longrightarrow> find P (filter Q xs) = find P xs"
  by (induction xs) auto

end
