(* ===== verification/ByteBuffer.thy ===== *)
theory ByteBuffer
  imports Prelude
begin

text \<open>
  The byte-order helpers of \<^verbatim>\<open>rtc_base/byte_order.h\<close> and the
  \<^verbatim>\<open>ByteBufferReader\<close> and \<^verbatim>\<open>ByteBufferWriter\<close> of
  \<^verbatim>\<open>rtc_base/byte_buffer.h\<close> and \<^verbatim>\<open>.cc\<close>, which the STUN codec
  is written against.  The locale \<open>byte_source\<close> states what a reader promises in terms of
  its unread bytes; the interpretation at the end discharges it for the position-based reader
  of the library.
\<close>

section \<open>Big-endian words\<close>

definition be16_join :: "u8 \<Rightarrow> u8 \<Rightarrow> u16" where
  "be16_join a b = push_bit 8 (ucast a) OR ucast b"

definition be16_split :: "u16 \<Rightarrow> bytes" where
  "be16_split v = [ucast (drop_bit 8 v), ucast v]"

definition be32_join :: "u8 \<Rightarrow> u8 \<Rightarrow> u8 \<Rightarrow> u8 \<Rightarrow> u32" where
  "be32_join a b c d =
     push_bit 24 (ucast a) OR push_bit 16 (ucast b) OR push_bit 8 (ucast c) OR ucast d"

definition be32_split :: "u32 \<Rightarrow> bytes" where
  "be32_split v =
     [ucast (drop_bit 24 v), ucast (drop_bit 16 v), ucast (drop_bit 8 v), ucast v]"

definition be64_split :: "u64 \<Rightarrow> bytes" where
  "be64_split v = be32_split (ucast (drop_bit 32 v)) @ be32_split (ucast v)"

text \<open>
  The words of a buffer, high byte first.  The lists these are applied to have the right
  length; the last equations only make the functions total.
\<close>

fun be16_of :: "bytes \<Rightarrow> u16" where
  "be16_of [a, b] = be16_join a b"
| "be16_of _ = 0"

fun be32_of :: "bytes \<Rightarrow> u32" where
  "be32_of [a, b, c, d] = be32_join a b c d"
| "be32_of _ = 0"

definition be64_of :: "bytes \<Rightarrow> u64" where
  "be64_of xs = push_bit 32 (ucast (be32_of (take 4 xs))) OR ucast (be32_of (drop 4 xs))"

lemma be16_join_split [byte_simps]: "be16_join (ucast (drop_bit 8 v)) (ucast v) = v"
  unfolding be16_join_def by (rule bit_word_eqI) (auto simp: bit_simps)

lemma be16_of_split [simp, byte_simps]: "be16_of (be16_split v) = v"
  by (simp add: be16_split_def be16_join_split)

lemma be32_join_split [byte_simps]:
  "be32_join (ucast (drop_bit 24 v)) (ucast (drop_bit 16 v)) (ucast (drop_bit 8 v)) (ucast v) = v"
proof (rule bit_word_eqI)
  fix n assume "n < LENGTH(32)"
  then show "bit (be32_join (ucast (drop_bit 24 v)) (ucast (drop_bit 16 v))
      (ucast (drop_bit 8 v)) (ucast v)) n = bit v n"
    unfolding be32_join_def
    by (cases "n < 8"; cases "n < 16"; cases "n < 24"; auto simp: bit_simps)
qed

lemma be32_of_split [simp, byte_simps]: "be32_of (be32_split v) = v"
  by (simp add: be32_split_def be32_join_split)

lemma length_be16_split [simp, wire_length]: "length (be16_split v) = 2"
  by (simp add: be16_split_def)

lemma length_be32_split [simp, wire_length]: "length (be32_split v) = 4"
  by (simp add: be32_split_def)

lemma length_be64_split [simp, wire_length]: "length (be64_split v) = 8"
  by (simp add: be64_split_def)

lemma be64_of_split [simp, byte_simps]: "be64_of (be64_split v) = v"
proof -
  have "push_bit 32 (ucast (ucast (drop_bit 32 v) :: u32)) OR ucast (ucast v :: u32) = v"
    by (rule bit_word_eqI) (auto simp: bit_simps)
  then show ?thesis by (simp add: be64_of_def be64_split_def)
qed

lemma be16_split_join [byte_simps]: "be16_split (be16_join a b) = [a, b]"
proof -
  have "ucast (drop_bit 8 (be16_join a b)) = a"
    unfolding be16_join_def
    by (rule bit_word_eqI) (auto simp: bit_simps dest: bit_imp_le_length)
  moreover have "ucast (be16_join a b) = b"
    unfolding be16_join_def by (rule bit_word_eqI) (auto simp: bit_simps)
  ultimately show ?thesis by (simp add: be16_split_def)
qed

lemma be16_split_of [byte_simps]: "length xs = 2 \<Longrightarrow> be16_split (be16_of xs) = xs"
  by (auto simp: numeral_2_eq_2 length_Suc_conv be16_split_join)

lemma length_4_conv: "length xs = 4 \<longleftrightarrow> (\<exists>a b c d. xs = [a, b, c, d])"
  by (auto simp: numeral_eq_Suc length_Suc_conv)

lemma be32_split_of [byte_simps]: "length xs = 4 \<Longrightarrow> be32_split (be32_of xs) = xs"
proof -
  assume "length xs = 4"
  then obtain a b c d where xs: "xs = [a, b, c, d]" by (auto simp: length_4_conv)
  have "ucast (drop_bit 24 (be32_join a b c d)) = a" "ucast (drop_bit 16 (be32_join a b c d)) = b"
    "ucast (drop_bit 8 (be32_join a b c d)) = c" "ucast (be32_join a b c d) = d"
    unfolding be32_join_def
    by (rule bit_word_eqI; auto simp: bit_simps dest: bit_imp_le_length)+
  with xs show ?thesis by (simp add: be32_split_def)
qed

section \<open>Access through a pointer\<close>

definition GetBE16 :: "bytes \<Rightarrow> nat \<Rightarrow> u16 option" where
  "GetBE16 d off = map_option be16_of (mem_read d off 2)"

definition GetBE32 :: "bytes \<Rightarrow> nat \<Rightarrow> u32 option" where
  "GetBE32 d off = map_option be32_of (mem_read d off 4)"

definition SetBE16 :: "bytes \<Rightarrow> nat \<Rightarrow> u16 \<Rightarrow> bytes option" where
  "SetBE16 d off v =
     (if off + 2 \<le> length d then Some (take off d @ be16_split v @ drop (off + 2) d) else None)"

lemma GetBE16_in_bounds: "off + 2 \<le> length d \<Longrightarrow> \<exists>v. GetBE16 d off = Some v"
  by (simp add: GetBE16_def)

lemma GetBE32_in_bounds: "off + 4 \<le> length d \<Longrightarrow> \<exists>v. GetBE32 d off = Some v"
  by (simp add: GetBE32_def)

lemma GetBE16_at [byte_simps]:
  "off = length xs \<Longrightarrow> GetBE16 (xs @ be16_split v @ ys) off = Some v"
  by (simp add: GetBE16_def)

lemma GetBE32_at [byte_simps]:
  "off = length xs \<Longrightarrow> GetBE32 (xs @ be32_split v @ ys) off = Some v"
  by (simp add: GetBE32_def)

lemma GetBE16_chunk:
  "off = length xs \<Longrightarrow> length a = 2 \<Longrightarrow> GetBE16 (xs @ a @ ys) off = Some (be16_of a)"
  by (simp add: GetBE16_def)

lemma GetBE32_chunk:
  "off = length xs \<Longrightarrow> length a = 4 \<Longrightarrow> GetBE32 (xs @ a @ ys) off = Some (be32_of a)"
  by (simp add: GetBE32_def)

lemma SetBE16_Get [byte_simps]:
  "SetBE16 d off v = Some d' \<Longrightarrow> GetBE16 d' off = Some v"
  by (auto simp: SetBE16_def min_def split: if_splits intro!: GetBE16_at)

lemma length_SetBE16 [wire_length]: "SetBE16 d off v = Some d' \<Longrightarrow> length d' = length d"
  by (auto simp: SetBE16_def split: if_splits)

section \<open>ByteBufferWriter\<close>

text \<open>
  The writer is the contents of its growing buffer; every write appends.  Capacity and
  reallocation are not observable.
\<close>

type_synonym ByteBufferWriter = bytes

definition WriteBytes :: "ByteBufferWriter \<Rightarrow> bytes \<Rightarrow> ByteBufferWriter" where
  "WriteBytes w xs = w @ xs"

definition WriteUInt8 :: "ByteBufferWriter \<Rightarrow> u8 \<Rightarrow> ByteBufferWriter" where
  "WriteUInt8 w v = WriteBytes w [v]"

definition WriteUInt16 :: "ByteBufferWriter \<Rightarrow> u16 \<Rightarrow> ByteBufferWriter" where
  "WriteUInt16 w v = WriteBytes w (be16_split v)"

definition WriteUInt32 :: "ByteBufferWriter \<Rightarrow> u32 \<Rightarrow> ByteBufferWriter" where
  "WriteUInt32 w v = WriteBytes w (be32_split v)"

definition WriteUInt64 :: "ByteBufferWriter \<Rightarrow> u64 \<Rightarrow> ByteBufferWriter" where
  "WriteUInt64 w v = WriteBytes w (be64_split v)"

definition WriteString :: "ByteBufferWriter \<Rightarrow> bytes \<Rightarrow> ByteBufferWriter" where
  "WriteString w s = WriteBytes w s"

lemmas writer_defs =
  WriteBytes_def WriteUInt8_def WriteUInt16_def WriteUInt32_def WriteUInt64_def WriteString_def

section \<open>ByteBufferReader\<close>

record ByteBufferReader =
  rd_bytes :: bytes
  rd_size :: nat
  rd_start :: nat
  rd_end :: nat

definition Construct :: "bytes \<Rightarrow> ByteBufferReader" where
  "Construct bs = \<lparr>rd_bytes = bs, rd_size = length bs, rd_start = 0, rd_end = length bs\<rparr>"

definition Length :: "ByteBufferReader \<Rightarrow> nat" where
  "Length r = rd_end r - rd_start r"

definition ReadBytes :: "ByteBufferReader \<Rightarrow> nat \<Rightarrow> (bytes \<times> ByteBufferReader) option" where
  "ReadBytes r len =
     (if len > Length r then None
      else Some (take len (drop (rd_start r) (rd_bytes r)), r\<lparr>rd_start := rd_start r + len\<rparr>))"

definition ReadString :: "ByteBufferReader \<Rightarrow> nat \<Rightarrow> (bytes \<times> ByteBufferReader) option" where
  "ReadString r len =
     (if len > Length r then None
      else Some (take len (drop (rd_start r) (rd_bytes r)), r\<lparr>rd_start := rd_start r + len\<rparr>))"

definition ReadUInt8 :: "ByteBufferReader \<Rightarrow> (u8 \<times> ByteBufferReader) option" where
  "ReadUInt8 r = map_option (map_prod hd id) (ReadBytes r 1)"

definition ReadUInt16 :: "ByteBufferReader \<Rightarrow> (u16 \<times> ByteBufferReader) option" where
  "ReadUInt16 r = map_option (map_prod be16_of id) (ReadBytes r 2)"

definition ReadUInt32 :: "ByteBufferReader \<Rightarrow> (u32 \<times> ByteBufferReader) option" where
  "ReadUInt32 r = map_option (map_prod be32_of id) (ReadBytes r 4)"

definition ReadUInt64 :: "ByteBufferReader \<Rightarrow> (u64 \<times> ByteBufferReader) option" where
  "ReadUInt64 r = map_option (map_prod be64_of id) (ReadBytes r 8)"

definition Consume :: "ByteBufferReader \<Rightarrow> nat \<Rightarrow> ByteBufferReader option" where
  "Consume r n = (if n > Length r then None else Some (r\<lparr>rd_start := rd_start r + n\<rparr>))"

text \<open>The positions stay inside the buffer; the unread bytes are the reader's abstraction.\<close>

definition reader_inv :: "ByteBufferReader \<Rightarrow> bool" where
  "reader_inv r \<longleftrightarrow> rd_start r \<le> rd_end r \<and> rd_end r \<le> length (rd_bytes r)"

definition rest :: "ByteBufferReader \<Rightarrow> bytes" where
  "rest r = take (rd_end r - rd_start r) (drop (rd_start r) (rd_bytes r))"

section \<open>What a byte source promises\<close>

locale byte_source =
  fixes inv :: "'r \<Rightarrow> bool"
    and unread :: "'r \<Rightarrow> bytes"
    and remaining :: "'r \<Rightarrow> nat"
    and read_bytes :: "'r \<Rightarrow> nat \<Rightarrow> (bytes \<times> 'r) option"
    and consume :: "'r \<Rightarrow> nat \<Rightarrow> 'r option"
  assumes remaining_unread: "inv r \<Longrightarrow> remaining r = length (unread r)"
    and read_bytes_fail: "inv r \<Longrightarrow> length (unread r) < n \<Longrightarrow> read_bytes r n = None"
    and read_bytes_ok: "inv r \<Longrightarrow> n \<le> length (unread r) \<Longrightarrow>
      \<exists>r'. read_bytes r n = Some (take n (unread r), r') \<and> inv r' \<and> unread r' = drop n (unread r)"
    and consume_fail: "inv r \<Longrightarrow> length (unread r) < n \<Longrightarrow> consume r n = None"
    and consume_ok: "inv r \<Longrightarrow> n \<le> length (unread r) \<Longrightarrow>
      \<exists>r'. consume r n = Some r' \<and> inv r' \<and> unread r' = drop n (unread r)"
begin

lemma read_bytes_SomeE:
  assumes "inv r" and "read_bytes r n = Some (xs, r')"
  shows "n \<le> length (unread r) \<and> xs = take n (unread r) \<and> inv r' \<and> unread r' = drop n (unread r)"
proof (cases "n \<le> length (unread r)")
  case True
  with read_bytes_ok [OF assms(1)] assms(2) show ?thesis by fastforce
next
  case False
  with read_bytes_fail [OF assms(1)] assms(2) show ?thesis by simp
qed

lemma consume_SomeE:
  assumes "inv r" and "consume r n = Some r'"
  shows "n \<le> length (unread r) \<and> inv r' \<and> unread r' = drop n (unread r)"
proof (cases "n \<le> length (unread r)")
  case True
  with consume_ok [OF assms(1)] assms(2) show ?thesis by fastforce
next
  case False
  with consume_fail [OF assms(1)] assms(2) show ?thesis by simp
qed

text \<open>A prefix is read back exactly, and what follows it stays unread.\<close>

lemma read_bytes_prefix:
  assumes "inv r" and "unread r = xs @ ys"
  obtains r' where "read_bytes r (length xs) = Some (xs, r')" "inv r'" "unread r' = ys"
  using read_bytes_ok [OF assms(1), of "length xs"] assms(2) by auto

lemma consume_prefix:
  assumes "inv r" and "unread r = xs @ ys"
  obtains r' where "consume r (length xs) = Some r'" "inv r'" "unread r' = ys"
  using consume_ok [OF assms(1), of "length xs"] assms(2) by auto

end

lemma length_rest: "reader_inv r \<Longrightarrow> length (rest r) = Length r"
  by (auto simp: reader_inv_def rest_def Length_def)

lemma take_rest: "reader_inv r \<Longrightarrow> n \<le> Length r \<Longrightarrow>
    take n (drop (rd_start r) (rd_bytes r)) = take n (rest r)"
  by (auto simp: reader_inv_def rest_def Length_def min_def)

lemma rest_advance:
  assumes "reader_inv r" and "n \<le> Length r"
  shows "reader_inv (r\<lparr>rd_start := rd_start r + n\<rparr>)"
    and "rest (r\<lparr>rd_start := rd_start r + n\<rparr>) = drop n (rest r)"
  using assms by (auto simp: reader_inv_def rest_def Length_def drop_take add.commute)

interpretation bbr: byte_source reader_inv rest Length ReadBytes Consume
  by unfold_locales (simp_all add: ReadBytes_def Consume_def length_rest take_rest rest_advance)

interpretation bbs: byte_source reader_inv rest Length ReadString Consume
  by unfold_locales (simp_all add: ReadString_def Consume_def length_rest take_rest rest_advance)

lemma reader_inv_Construct [simp]: "reader_inv (Construct bs)"
  by (simp add: reader_inv_def Construct_def)

lemma rest_Construct [simp, reader_simps]: "rest (Construct bs) = bs"
  by (simp add: rest_def Construct_def)

end
