(* ===== verification/Digest.thy ===== *)
theory Digest
  imports ByteBuffer
begin

text \<open>
  The two checksums a STUN message carries: the table-driven CRC-32 of
  \<^verbatim>\<open>rtc_base/crc32.cc\<close>, with its equivalence to a bit-serial reference, and the
  HMAC construction of \<^verbatim>\<open>rtc_base/message_digest.cc\<close>.  The hash function itself
  comes from OpenSSL, which is not part of the repository: it is a parameter \<open>sha1\<close> of
  the definitions that use it, and the theorems that need it assume only that a SHA-1 digest
  has 20 bytes.
\<close>

section \<open>CRC-32\<close>

definition kCrc32Polynomial :: u32 where
  "kCrc32Polynomial = 0xEDB88320"

text \<open>One pass of the inner loop of \<^verbatim>\<open>LoadCrc32Table\<close>.\<close>

definition crc_shift :: "u32 \<Rightarrow> u32" where
  "crc_shift c = (if c AND 1 \<noteq> 0 then kCrc32Polynomial XOR drop_bit 1 c else drop_bit 1 c)"

definition LoadCrc32Table :: "u32 list" where
  "LoadCrc32Table = map (\<lambda>i. (crc_shift ^^ 8) (of_nat i)) [0..<256]"

definition crc_step :: "u8 \<Rightarrow> u32 \<Rightarrow> u32" where
  "crc_step u c = LoadCrc32Table ! unat ((c XOR ucast u) AND 0xFF) XOR drop_bit 8 c"

definition UpdateCrc32 :: "u32 \<Rightarrow> bytes \<Rightarrow> u32" where
  "UpdateCrc32 start buf = fold crc_step buf (start XOR 0xFFFFFFFF) XOR 0xFFFFFFFF"

definition ComputeCrc32 :: "bytes \<Rightarrow> u32" where
  "ComputeCrc32 buf = UpdateCrc32 0 buf"

text \<open>
  The reference: a 32-bit feedback shift register fed one message bit at a time, least
  significant bit of each byte first.
\<close>

definition lfsr_bit :: "bool \<Rightarrow> u32 \<Rightarrow> u32" where
  "lfsr_bit b c = drop_bit 1 c XOR (if bit c 0 \<noteq> b then 0xEDB88320 else 0)"

definition byte_bits :: "u8 \<Rightarrow> bool list" where
  "byte_bits u = map (bit u) [0..<8]"

definition lfsr_crc32 :: "bytes \<Rightarrow> u32" where
  "lfsr_crc32 buf = NOT (fold lfsr_bit (concat (map byte_bits buf)) (NOT 0))"

subsection \<open>The table step is eight register steps\<close>

lemma crc_shift_alt: "crc_shift c = drop_bit 1 c XOR (if bit c 0 then kCrc32Polynomial else 0)"
proof -
  have "c AND 1 \<noteq> 0 \<longleftrightarrow> bit c 0"
    by (simp add: and_one_eq bit_0 odd_iff_mod_2_eq_one)
  then show ?thesis by (simp add: crc_shift_def xor.commute)
qed

lemma crc_shift_xor: "crc_shift (a XOR b) = crc_shift a XOR crc_shift b"
  by (auto simp: crc_shift_alt bit_xor_iff drop_bit_xor ac_simps)

lemma crc_shifts_xor: "(crc_shift ^^ n) (a XOR b) = (crc_shift ^^ n) a XOR (crc_shift ^^ n) b"
  by (induction n) (simp_all add: crc_shift_xor)

lemma crc_shift_even: "\<not> bit c 0 \<Longrightarrow> crc_shift c = drop_bit 1 c"
  by (simp add: crc_shift_alt)

lemma crc_shifts_high:
  "(\<And>k. k < n \<Longrightarrow> \<not> bit c k) \<Longrightarrow> (crc_shift ^^ n) c = drop_bit n c"
proof (induction n)
  case (Suc n)
  then have "(crc_shift ^^ n) c = drop_bit n c" by simp
  moreover have "\<not> bit (drop_bit n c) 0"
    using Suc.prems [of n] by (simp add: bit_drop_bit_eq)
  ultimately show ?case by (simp add: crc_shift_even)
qed simp

lemma lfsr_bit_shift: "lfsr_bit b c = crc_shift (c XOR of_bool b)"
proof -
  have "drop_bit 1 (c XOR of_bool b) = drop_bit 1 c"
    by (cases b) (rule bit_word_eqI; auto simp: bit_simps)+
  moreover have "bit (c XOR of_bool b) 0 \<longleftrightarrow> bit c 0 \<noteq> b"
    by (cases b) (auto simp: bit_simps)
  ultimately show ?thesis by (simp add: lfsr_bit_def crc_shift_alt kCrc32Polynomial_def)
qed

lemma nth_crc_table [simp]:
  "n < 256 \<Longrightarrow> LoadCrc32Table ! n = (crc_shift ^^ 8) (of_nat n)"
  by (simp add: LoadCrc32Table_def)

lemma mask8_word: "(0xFF :: u32) = mask 8"
  by (simp add: mask_eq_exp_minus_1)

lemma crc_step_shifts: "crc_step u c = (crc_shift ^^ 8) (c XOR ucast u)"
proof -
  let ?x = "c XOR ucast u :: u32"
  have idx: "unat (?x AND 0xFF) < 256"
    by (rule le_less_trans [OF word_and_le1 [THEN word_le_nat_alt [THEN iffD1]]]) simp
  have split: "?x = (?x AND 0xFF) XOR (c AND NOT 0xFF)"
    unfolding mask8_word
    by (rule bit_word_eqI) (auto simp: bit_simps dest: bit_imp_le_length)
  have "(crc_shift ^^ 8) (c AND NOT 0xFF) = drop_bit 8 (c AND NOT 0xFF)"
    unfolding mask8_word by (rule crc_shifts_high) (auto simp: bit_simps)
  also have "\<dots> = drop_bit 8 c"
    unfolding mask8_word
    by (rule bit_word_eqI) (auto simp: bit_simps dest: bit_imp_le_length)
  finally have high: "(crc_shift ^^ 8) (c AND NOT 0xFF) = drop_bit 8 c" .
  have "crc_step u c = (crc_shift ^^ 8) (?x AND 0xFF) XOR drop_bit 8 c"
    using idx by (simp add: crc_step_def)
  also have "\<dots> = (crc_shift ^^ 8) ((?x AND 0xFF) XOR (c AND NOT 0xFF))"
    by (simp only: crc_shifts_xor high)
  finally show ?thesis using split by simp
qed

lemma crc_shifts_push:
  assumes "k \<le> 8"
  shows "(crc_shift ^^ k) (push_bit k (of_bool b)) = of_bool b"
proof -
  have "(crc_shift ^^ k) (push_bit k (of_bool b)) = drop_bit k (push_bit k (of_bool b))"
    by (rule crc_shifts_high) (auto simp: bit_push_bit_iff)
  also have "\<dots> = of_bool b"
    using assms by (cases b; intro bit_word_eqI) (auto simp: bit_simps)
  finally show ?thesis .
qed

lemma lfsr_low_bits:
  "k \<le> 8 \<Longrightarrow>
    fold lfsr_bit (map (bit u) [0..<k]) c = (crc_shift ^^ k) (c XOR take_bit k (ucast (u :: u8)))"
proof (induction k)
  case (Suc k)
  let ?t = "take_bit k (ucast u) :: u32" and ?b = "of_bool (bit u k) :: u32"
  have merge: "take_bit (Suc k) (ucast u) = ?t XOR push_bit k ?b"
    using Suc.prems
    by (intro bit_word_eqI) (auto simp: bit_simps less_Suc_eq dest: bit_imp_le_length)
  have "fold lfsr_bit (map (bit u) [0..<Suc k]) c = crc_shift ((crc_shift ^^ k) (c XOR ?t) XOR ?b)"
    using Suc by (simp add: lfsr_bit_shift [of "bit u k"])
  also have "\<dots> = crc_shift ((crc_shift ^^ k) ((c XOR ?t) XOR push_bit k ?b))"
    using Suc.prems by (simp only: crc_shifts_xor crc_shifts_push)
  finally show ?case by (simp add: merge xor.assoc)
qed simp

lemma crc_step_lfsr: "crc_step u c = fold lfsr_bit (byte_bits u) c"
proof -
  have "take_bit 8 (ucast u :: u32) = ucast u"
    by (rule bit_word_eqI) (auto simp: bit_simps dest: bit_imp_le_length)
  then show ?thesis by (simp add: byte_bits_def lfsr_low_bits crc_step_shifts)
qed

lemma fold_crc_step: "fold crc_step buf c = fold lfsr_bit (concat (map byte_bits buf)) c"
  by (induction buf arbitrary: c) (simp_all add: crc_step_lfsr)

text \<open>The documented use of \<open>UpdateCrc32\<close>: a checksum continued over further bytes.\<close>

lemma UpdateCrc32_append:
  "UpdateCrc32 start (xs @ ys) = UpdateCrc32 (UpdateCrc32 start xs) ys"
  by (simp add: UpdateCrc32_def xor.assoc)

text \<open>
  C23. \<open>ComputeCrc32\<close>, with its table of 256 precomputed words, computes the same
  checksum as the bit-serial feedback shift register for the reversed polynomial 0xEDB88320.
\<close>

theorem ComputeCrc32_lfsr: "ComputeCrc32 buf = lfsr_crc32 buf"
proof -
  have ones: "(0xFFFFFFFF :: u32) = NOT 0"
    by simp
  show ?thesis
    by (simp add: ComputeCrc32_def UpdateCrc32_def lfsr_crc32_def fold_crc_step ones
        flip: not_eq_complement)
qed

section \<open>HMAC\<close>

definition kBlockSize :: nat where
  "kBlockSize = 64"

text \<open>
  \<open>ComputeHmac\<close> for the SHA-1 digest; \<open>sha1\<close> is the OpenSSL hash.  The
  result is \<open>None\<close> where the source returns 0 because the output buffer is shorter
  than the digest.
\<close>

definition hmac_key_block :: "(bytes \<Rightarrow> bytes) \<Rightarrow> bytes \<Rightarrow> bytes" where
  "hmac_key_block sha1 key =
     (let k = (if length key > kBlockSize then sha1 key else key)
      in k @ replicate (kBlockSize - length k) 0)"

definition ComputeHmac :: "(bytes \<Rightarrow> bytes) \<Rightarrow> bytes \<Rightarrow> bytes \<Rightarrow> nat \<Rightarrow> bytes option" where
  "ComputeHmac sha1 key input out_len =
     (let new_key = hmac_key_block sha1 key;
          o_pad = map (\<lambda>b. 0x5c XOR b) new_key;
          i_pad = map (\<lambda>b. 0x36 XOR b) new_key;
          inner = sha1 (i_pad @ input);
          out = sha1 (o_pad @ inner)
      in if out_len < length out then None else Some out)"

lemma ComputeHmac_length:
  "(\<And>x. length (sha1 x) = 20) \<Longrightarrow> 20 \<le> n \<Longrightarrow>
    \<exists>h. ComputeHmac sha1 key input n = Some h \<and> length h = 20"
  by (simp add: ComputeHmac_def Let_def)

end
