(* ===== verification/Stun.thy ===== *)
theory Stun
  imports Digest
begin

text \<open>
  STUN messages (\<^verbatim>\<open>rtcserver/src/ice/stun.h\<close>, \<^verbatim>\<open>stun.cpp\<close>): the
  attribute classes, the message object, its serialisation and parsing, the FINGERPRINT and
  MESSAGE-INTEGRITY attributes, and their checks.  Every read through a raw pointer goes through
  the checked access of the prelude, so \<open>None\<close> of \<open>validate_fingerprint\<close> and of
  the integrity check is an access outside the packet.  The \<^verbatim>\<open>printf\<close> debugging
  in \<^verbatim>\<open>StunMessage::read\<close> is not modelled.
\<close>

section \<open>Constants\<close>

definition k_stun_header_size :: nat where "k_stun_header_size = 20"
definition k_stun_attribute_header_size :: nat where "k_stun_attribute_header_size = 4"
definition k_stun_transaction_id_offset :: nat where "k_stun_transaction_id_offset = 8"
definition k_stun_transaction_id_length :: nat where "k_stun_transaction_id_length = 12"
definition k_stun_magic_cookie :: u32 where "k_stun_magic_cookie = 0x2112A442"
definition k_stun_magic_cookie_length :: nat where "k_stun_magic_cookie_length = 4"
definition k_stun_message_integrity_size :: nat where "k_stun_message_integrity_size = 20"
definition k_stun_type_mask :: int where "k_stun_type_mask = 0x0110"

lemmas stun_size_defs =
  k_stun_header_size_def k_stun_attribute_header_size_def k_stun_transaction_id_offset_def
  k_stun_transaction_id_length_def k_stun_magic_cookie_length_def k_stun_message_integrity_size_def

definition STUN_BINDING_REQUEST :: u16 where "STUN_BINDING_REQUEST = 0x0001"
definition STUN_BINDING_RESPONSE :: u16 where "STUN_BINDING_RESPONSE = 0x0101"
definition STUN_BINDING_ERROR_RESPONSE :: u16 where "STUN_BINDING_ERROR_RESPONSE = 0x0111"

lemmas stun_msg_type_defs =
  STUN_BINDING_REQUEST_def STUN_BINDING_RESPONSE_def STUN_BINDING_ERROR_RESPONSE_def

definition STUN_ATTR_USERNAME :: u16 where "STUN_ATTR_USERNAME = 0x0006"
definition STUN_ATTR_MESSAGE_INTEGRITY :: u16 where "STUN_ATTR_MESSAGE_INTEGRITY = 0x0008"
definition STUN_ATTR_ERROR_CODE :: u16 where "STUN_ATTR_ERROR_CODE = 0x0009"
definition STUN_ATTR_XOR_MAPPED_ADDRESS :: u16 where "STUN_ATTR_XOR_MAPPED_ADDRESS = 0x0020"
definition STUN_ATTR_PRIORITY :: u16 where "STUN_ATTR_PRIORITY = 0x0024"
definition STUN_ATTR_USE_CANDIDATE :: u16 where "STUN_ATTR_USE_CANDIDATE = 0x0025"
definition STUN_ATTR_FINGERPRINT :: u16 where "STUN_ATTR_FINGERPRINT = 0x8028"
definition STUN_ATTR_ICE_CONTROLLING :: u16 where "STUN_ATTR_ICE_CONTROLLING = 0x802A"

lemmas stun_attr_type_defs =
  STUN_ATTR_USERNAME_def STUN_ATTR_MESSAGE_INTEGRITY_def STUN_ATTR_ERROR_CODE_def
  STUN_ATTR_XOR_MAPPED_ADDRESS_def STUN_ATTR_PRIORITY_def STUN_ATTR_USE_CANDIDATE_def
  STUN_ATTR_FINGERPRINT_def STUN_ATTR_ICE_CONTROLLING_def

definition STUN_FINGERPRINT_XOR_VALUE :: u32 where "STUN_FINGERPRINT_XOR_VALUE = 0x5354554e"
definition EMPTY_TRANSACION_ID :: bytes where "EMPTY_TRANSACION_ID = bytes_of ''000000000000''"

datatype StunAttributeValueType =
  STUN_VALUE_UNKNOWN | STUN_VALUE_UINT32 | STUN_VALUE_BYTE_STRING

definition STUN_ERROR_BAD_REQUEST :: int where "STUN_ERROR_BAD_REQUEST = 400"
definition STUN_ERROR_UNAUTHORIZED :: int where "STUN_ERROR_UNAUTHORIZED = 401"
definition STUN_ERROR_UNKNOWN_ATTRIBUTE :: int where "STUN_ERROR_UNKNOWN_ATTRIBUTE = 420"
definition STUN_ERROR_SERVER_ERROR :: int where "STUN_ERROR_SERVER_ERROR = 500"
definition STUN_ERROR_GLOBAL_FAIL :: int where "STUN_ERROR_GLOBAL_FAIL = 600"

lemmas stun_error_defs =
  STUN_ERROR_BAD_REQUEST_def STUN_ERROR_UNAUTHORIZED_def STUN_ERROR_UNKNOWN_ATTRIBUTE_def
  STUN_ERROR_SERVER_ERROR_def STUN_ERROR_GLOBAL_FAIL_def

definition STUN_ERROR_REASON_BAD_REQUEST :: bytes where
  "STUN_ERROR_REASON_BAD_REQUEST = bytes_of ''Bad request''"
definition STUN_ERROR_REASON_UNAUTHORIZED :: bytes where
  "STUN_ERROR_REASON_UNAUTHORIZED = bytes_of ''Unauthorized''"
definition STUN_ERROR_REASON_SERVER_ERROR :: bytes where
  "STUN_ERROR_REASON_SERVER_ERROR = bytes_of ''Server error''"

section \<open>Addresses\<close>

text \<open>
  The family and address of \<^verbatim>\<open>rtc::IPAddress\<close>.  An IPv4 address is the number
  whose big-endian bytes are the \<^verbatim>\<open>in_addr\<close> in memory.
\<close>

datatype IPAddress = IPUnspec | IPv4 u32 | IPv6 bytes

record SocketAddress =
  ipaddr :: IPAddress
  sa_port :: u16

datatype StunAddressFamily = STUN_ADDRESS_UNDEF | STUN_ADDRESS_IPV4 | STUN_ADDRESS_IPV6

fun family_code :: "StunAddressFamily \<Rightarrow> u8" where
  "family_code STUN_ADDRESS_UNDEF = 0"
| "family_code STUN_ADDRESS_IPV4 = 1"
| "family_code STUN_ADDRESS_IPV6 = 2"

section \<open>Attributes\<close>

text \<open>
  One constructor per attribute class; the first two fields are the \<^verbatim>\<open>_type\<close> and
  \<^verbatim>\<open>_length\<close> of the base class \<^verbatim>\<open>StunAttribute\<close>.  The
  \<^verbatim>\<open>_bytes\<close> pointer of a byte string is its contents, \<open>[]\<close> while null.
\<close>

datatype StunAttribute =
    is_StunUInt32Attribute: StunUInt32Attribute (attr_type: u16) (attr_length: u16) (bits32: u32)
  | StunUInt64Attribute (attr_type: u16) (attr_length: u16) (bits64: u64)
  | is_StunByteStringAttribute: StunByteStringAttribute (attr_type: u16) (attr_length: u16) (attr_bytes: bytes)
  | StunErrorCodeAttribute (attr_type: u16) (attr_length: u16)
      (err_class: u8) (err_number: u8) (err_reason: bytes)
  | StunAddressAttribute (attr_type: u16) (attr_length: u16) (attr_address: SocketAddress)
  | StunXorAddressAttribute (attr_type: u16) (attr_length: u16) (attr_address: SocketAddress)

definition new_uint32 :: "u16 \<Rightarrow> u32 \<Rightarrow> StunAttribute" where
  "new_uint32 t v = StunUInt32Attribute t 4 v"

definition new_uint64 :: "u16 \<Rightarrow> u64 \<Rightarrow> StunAttribute" where
  "new_uint64 t v = StunUInt64Attribute t 8 v"

definition copy_bytes :: "StunAttribute \<Rightarrow> bytes \<Rightarrow> StunAttribute" where
  "copy_bytes a bs = StunByteStringAttribute (attr_type a) (of_nat (length bs)) bs"

definition new_byte_string :: "u16 \<Rightarrow> bytes \<Rightarrow> StunAttribute" where
  "new_byte_string t s = copy_bytes (StunByteStringAttribute t 0 []) s"

definition get_string :: "StunAttribute \<Rightarrow> bytes" where
  "get_string a = take (unat (attr_length a)) (attr_bytes a)"

definition address_family :: "IPAddress \<Rightarrow> StunAddressFamily" where
  "address_family ip = (case ip of IPv4 _ \<Rightarrow> STUN_ADDRESS_IPV4 | IPv6 _ \<Rightarrow> STUN_ADDRESS_IPV6
     | IPUnspec \<Rightarrow> STUN_ADDRESS_UNDEF)"

definition address_length :: "IPAddress \<Rightarrow> u16" where
  "address_length ip = (case address_family ip of STUN_ADDRESS_IPV4 \<Rightarrow> 8 | STUN_ADDRESS_IPV6 \<Rightarrow> 20
     | STUN_ADDRESS_UNDEF \<Rightarrow> 0)"

definition new_xor_address :: "u16 \<Rightarrow> SocketAddress \<Rightarrow> StunAttribute" where
  "new_xor_address t addr = StunXorAddressAttribute t (address_length (ipaddr addr)) addr"

definition create_error_code :: StunAttribute where
  "create_error_code = StunErrorCodeAttribute STUN_ATTR_ERROR_CODE 4 0 0 []"

definition set_code :: "StunAttribute \<Rightarrow> int \<Rightarrow> StunAttribute" where
  "set_code a code = StunErrorCodeAttribute (attr_type a) (attr_length a)
     (of_int (c_div code 100)) (of_int (c_mod code 100)) (err_reason a)"

definition attr_code :: "StunAttribute \<Rightarrow> int" where
  "attr_code a = uint (err_class a) * 100 + uint (err_number a)"

definition set_reason :: "StunAttribute \<Rightarrow> bytes \<Rightarrow> StunAttribute" where
  "set_reason a reason = StunErrorCodeAttribute (attr_type a) (of_nat (4 + length reason))
     (err_class a) (err_number a) reason"

subsection \<open>Writing attributes\<close>

definition write_padding :: "u16 \<Rightarrow> ByteBufferWriter \<Rightarrow> ByteBufferWriter" where
  "write_padding len w =
     (let remain = unat len mod 4
      in if remain > 0 then WriteBytes w (replicate (4 - remain) 0) else w)"

definition write_ip :: "IPAddress \<Rightarrow> ByteBufferWriter \<Rightarrow> ByteBufferWriter option" where
  "write_ip ip w = (case ip of IPv4 a \<Rightarrow> Some (WriteBytes w (be32_split a))
     | IPv6 bs \<Rightarrow> Some (WriteBytes w bs) | IPUnspec \<Rightarrow> None)"

definition get_xored_ip :: "IPAddress \<Rightarrow> IPAddress" where
  "get_xored_ip ip = (case ip of IPv4 a \<Rightarrow> IPv4 (a XOR k_stun_magic_cookie) | _ \<Rightarrow> IPUnspec)"

definition write_address :: "SocketAddress \<Rightarrow> ByteBufferWriter \<Rightarrow> ByteBufferWriter option" where
  "write_address addr w =
     (let fam = address_family (ipaddr addr)
      in if fam = STUN_ADDRESS_UNDEF then None
         else let w1 = WriteUInt8 w 0;
                  w2 = WriteUInt8 w1 (family_code fam);
                  w3 = WriteUInt16 w2 (sa_port addr)
              in write_ip (ipaddr addr) w3)"

definition write_xor_address :: "SocketAddress \<Rightarrow> ByteBufferWriter \<Rightarrow> ByteBufferWriter option" where
  "write_xor_address addr w =
     (let fam = address_family (ipaddr addr);
          xored_ip = get_xored_ip (ipaddr addr)
      in if fam = STUN_ADDRESS_UNDEF \<or> xored_ip = IPUnspec then None
         else let w1 = WriteUInt8 w 0;
                  w2 = WriteUInt8 w1 (family_code fam);
                  w3 = WriteUInt16 w2 (sa_port addr XOR ucast (drop_bit 16 k_stun_magic_cookie))
              in write_ip xored_ip w3)"

fun attr_write :: "StunAttribute \<Rightarrow> ByteBufferWriter \<Rightarrow> ByteBufferWriter option" where
  "attr_write (StunUInt32Attribute t l v) w = Some (WriteUInt32 w v)"
| "attr_write (StunUInt64Attribute t l v) w = Some (WriteUInt64 w v)"
| "attr_write (StunByteStringAttribute t l bs) w =
     Some (write_padding l (WriteBytes w (take (unat l) bs)))"
| "attr_write (StunErrorCodeAttribute t l c n reason) w =
     Some (write_padding l (WriteString (WriteUInt32 w (push_bit 8 (ucast c) OR ucast n)) reason))"
| "attr_write (StunAddressAttribute t l addr) w = write_address addr w"
| "attr_write (StunXorAddressAttribute t l addr) w = write_xor_address addr w"

subsection \<open>Reading attributes\<close>

definition consume_padding :: "u16 \<Rightarrow> ByteBufferReader \<Rightarrow> ByteBufferReader" where
  "consume_padding len r =
     (let remain = unat len mod 4
      in if remain > 0 then (case Consume r (4 - remain) of None \<Rightarrow> r | Some r' \<Rightarrow> r') else r)"

fun attr_read :: "StunAttribute \<Rightarrow> ByteBufferReader \<Rightarrow> (StunAttribute \<times> ByteBufferReader) option" where
  "attr_read (StunUInt32Attribute t l v) r =
     (if l \<noteq> 4 then None
      else case ReadUInt32 r of None \<Rightarrow> None | Some (v', r') \<Rightarrow> Some (StunUInt32Attribute t l v', r'))"
| "attr_read (StunUInt64Attribute t l v) r =
     (if l \<noteq> 8 then None
      else case ReadUInt64 r of None \<Rightarrow> None | Some (v', r') \<Rightarrow> Some (StunUInt64Attribute t l v', r'))"
| "attr_read (StunByteStringAttribute t l bs) r =
     (case ReadBytes r (unat l) of None \<Rightarrow> None
      | Some (bs', r') \<Rightarrow> Some (StunByteStringAttribute t l bs', consume_padding l r'))"
| "attr_read (StunErrorCodeAttribute t l c n reason) r = None"
| "attr_read (StunAddressAttribute t l addr) r = Some (StunAddressAttribute t l addr, r)"
| "attr_read (StunXorAddressAttribute t l addr) r = Some (StunXorAddressAttribute t l addr, r)"

definition get_attribute_value_type :: "u16 \<Rightarrow> StunAttributeValueType" where
  "get_attribute_value_type t =
     (if t = STUN_ATTR_USERNAME then STUN_VALUE_BYTE_STRING
      else if t = STUN_ATTR_MESSAGE_INTEGRITY then STUN_VALUE_BYTE_STRING
      else if t = STUN_ATTR_PRIORITY then STUN_VALUE_UINT32
      else STUN_VALUE_UNKNOWN)"

definition StunAttribute_create ::
    "StunAttributeValueType \<Rightarrow> u16 \<Rightarrow> u16 \<Rightarrow> StunAttribute option" where
  "StunAttribute_create vt t l = (case vt of
       STUN_VALUE_BYTE_STRING \<Rightarrow> Some (StunByteStringAttribute t l [])
     | STUN_VALUE_UINT32 \<Rightarrow> Some (StunUInt32Attribute t 4 0)
     | STUN_VALUE_UNKNOWN \<Rightarrow> None)"

definition create_attribute :: "u16 \<Rightarrow> u16 \<Rightarrow> StunAttribute option" where
  "create_attribute t l =
     (let vt = get_attribute_value_type t
      in if STUN_VALUE_UNKNOWN \<noteq> vt then StunAttribute_create vt t l else None)"

section \<open>Messages\<close>

datatype IntegrityStatus = k_not_set | k_no_integrity | k_integrity_ok | k_integrity_bad

record StunMessage =
  msg_type :: u16
  msg_length :: u16
  transaction_id :: bytes
  attrs :: "StunAttribute list"
  integrity :: IntegrityStatus
  msg_password :: bytes
  msg_buffer :: bytes

definition new_StunMessage :: StunMessage where
  "new_StunMessage = \<lparr>msg_type = 0, msg_length = 0, transaction_id = EMPTY_TRANSACION_ID,
     attrs = [], integrity = k_not_set, msg_password = [], msg_buffer = []\<rparr>"

definition integrity_ok :: "StunMessage \<Rightarrow> bool" where
  "integrity_ok m \<longleftrightarrow> integrity m = k_integrity_ok"

definition add_attribute :: "StunMessage \<Rightarrow> StunAttribute \<Rightarrow> StunMessage" where
  "add_attribute m a =
     (let attr_len = unat (attr_length a);
          attr_len = (if attr_len mod 4 \<noteq> 0 then attr_len + (4 - attr_len mod 4) else attr_len)
      in m\<lparr>msg_length := msg_length m + of_nat (attr_len + k_stun_attribute_header_size),
           attrs := attrs m @ [a]\<rparr>)"

definition get_attribute :: "StunMessage \<Rightarrow> u16 \<Rightarrow> StunAttribute option" where
  "get_attribute m t = find (\<lambda>a. attr_type a = t) (attrs m)"

definition get_uint32 :: "StunMessage \<Rightarrow> u16 \<Rightarrow> StunAttribute option" where
  "get_uint32 m t = get_attribute m t"

definition get_byte_string :: "StunMessage \<Rightarrow> u16 \<Rightarrow> StunAttribute option" where
  "get_byte_string m t = get_attribute m t"

definition get_error_code :: "StunMessage \<Rightarrow> StunAttribute option" where
  "get_error_code m = get_attribute m STUN_ATTR_ERROR_CODE"

definition get_error_code_value :: "StunMessage \<Rightarrow> int" where
  "get_error_code_value m = (case get_error_code m of
     None \<Rightarrow> STUN_ERROR_GLOBAL_FAIL | Some a \<Rightarrow> attr_code a)"

subsection \<open>Serialisation\<close>

fun write_attrs :: "StunAttribute list \<Rightarrow> ByteBufferWriter \<Rightarrow> ByteBufferWriter option" where
  "write_attrs [] w = Some w"
| "write_attrs (a # as) w =
     (let w1 = WriteUInt16 w (attr_type a);
          w2 = WriteUInt16 w1 (attr_length a)
      in case attr_write a w2 of None \<Rightarrow> None | Some w3 \<Rightarrow> write_attrs as w3)"

definition msg_write :: "StunMessage \<Rightarrow> ByteBufferWriter \<Rightarrow> ByteBufferWriter option" where
  "msg_write m w =
     (let w1 = WriteUInt16 w (msg_type m);
          w2 = WriteUInt16 w1 (msg_length m);
          w3 = WriteUInt32 w2 k_stun_magic_cookie;
          w4 = WriteString w3 (transaction_id m)
      in write_attrs (attrs m) w4)"

subsection \<open>Parsing\<close>

text \<open>The padding of an unknown attribute is added in the 16-bit \<^verbatim>\<open>attr_length\<close>.\<close>

definition pad_u16 :: "u16 \<Rightarrow> u16" where
  "pad_u16 l = (if l mod 4 \<noteq> 0 then l + (4 - l mod 4) else l)"

lemma ReadBytes_Length: "ReadBytes r n = Some (xs, r') \<Longrightarrow> Length r' = Length r - n \<and> n \<le> Length r"
  by (auto simp: ReadBytes_def Length_def split: if_splits)

lemma Consume_Length: "Consume r n = Some r' \<Longrightarrow> Length r' \<le> Length r"
  by (auto simp: Consume_def Length_def split: if_splits)

lemma ReadUInt16_Length: "ReadUInt16 r = Some (v, r') \<Longrightarrow> Length r' < Length r"
  by (auto simp: ReadUInt16_def dest!: ReadBytes_Length)

lemma consume_padding_Length: "Length (consume_padding l r) \<le> Length r"
  by (auto simp: consume_padding_def Let_def split: option.split dest: Consume_Length)

lemma attr_read_Length: "attr_read a r = Some (a', r') \<Longrightarrow> Length r' \<le> Length r"
  by (cases a)
    (fastforce simp: ReadUInt32_def ReadUInt64_def split: if_splits option.splits
      dest!: ReadBytes_Length intro: order.trans [OF consume_padding_Length])+

function read_attrs ::
    "ByteBufferReader \<Rightarrow> StunAttribute list \<Rightarrow> (StunAttribute list \<times> ByteBufferReader) option" where
  "read_attrs r acc =
     (if Length r > 0 then
        case ReadUInt16 r of None \<Rightarrow> None
        | Some (t, r1) \<Rightarrow>
          (case ReadUInt16 r1 of None \<Rightarrow> None
           | Some (l, r2) \<Rightarrow>
             (case create_attribute t l of
                None \<Rightarrow>
                  (case Consume r2 (unat (pad_u16 l)) of None \<Rightarrow> None
                   | Some r3 \<Rightarrow> read_attrs r3 acc)
              | Some a \<Rightarrow>
                  (case attr_read a r2 of None \<Rightarrow> None
                   | Some (a', r3) \<Rightarrow> read_attrs r3 (acc @ [a']))))
      else Some (acc, r))"
  by pat_completeness auto
termination
  by (relation "measure (\<lambda>(r, acc). Length r)")
    (auto dest!: ReadUInt16_Length Consume_Length attr_read_Length)

declare read_attrs.simps [simp del]

definition msg_read :: "StunMessage \<Rightarrow> ByteBufferReader \<Rightarrow> (StunMessage \<times> ByteBufferReader) option" where
  "msg_read m r = do {
     (t, r1) \<leftarrow> ReadUInt16 r;
     if t AND 0x0800 \<noteq> 0 then None else do {
       (l, r2) \<leftarrow> ReadUInt16 r1;
       (magic_cookie, r3) \<leftarrow> ReadString r2 k_stun_magic_cookie_length;
       (tid, r4) \<leftarrow> ReadString r3 k_stun_transaction_id_length;
       let tid = (if be32_of magic_cookie \<noteq> k_stun_magic_cookie then magic_cookie @ tid else tid);
       if Length r4 \<noteq> unat l then None else do {
         (as, r5) \<leftarrow> read_attrs r4 [];
         Some (m\<lparr>msg_type := t, msg_length := l, transaction_id := tid, attrs := as,
                 msg_buffer := rest r\<rparr>, r5)
       }
     }
   }"

section \<open>FINGERPRINT\<close>

definition validate_fingerprint :: "bytes \<Rightarrow> bool option" where
  "validate_fingerprint data =
     (let len = length data;
          fingerprint_attr_size = k_stun_attribute_header_size + 4
      in if len mod 4 \<noteq> 0 \<or> len < k_stun_header_size + fingerprint_attr_size then Some False
         else do {
           cookie \<leftarrow> GetBE32 data (k_stun_transaction_id_offset - k_stun_magic_cookie_length);
           if cookie \<noteq> k_stun_magic_cookie then Some False
           else do {
             let fp = len - fingerprint_attr_size;
             t \<leftarrow> GetBE16 data fp;
             l \<leftarrow> GetBE16 data (fp + 2);
             if t \<noteq> STUN_ATTR_FINGERPRINT \<or> l \<noteq> 4 then Some False
             else do {
               fingerprint \<leftarrow> GetBE32 data (fp + k_stun_attribute_header_size);
               Some ((fingerprint XOR STUN_FINGERPRINT_XOR_VALUE) = ComputeCrc32 (take fp data))
             }
           }
         })"

text \<open>
  The two \<^verbatim>\<open>add_\<close> functions return their success flag and the message, which
  they change also when they fail; their callers ignore the flag.
\<close>

definition add_fingerprint :: "StunMessage \<Rightarrow> bool \<times> StunMessage" where
  "add_fingerprint m =
     (let m1 = add_attribute m (new_uint32 STUN_ATTR_FINGERPRINT 0)
      in case msg_write m1 [] of
           None \<Rightarrow> (False, m1)
         | Some buf \<Rightarrow>
             let n = length buf - k_stun_attribute_header_size - 4;
                 c = ComputeCrc32 (take n buf)
             in (True, m1\<lparr>attrs := attrs m
                   @ [new_uint32 STUN_ATTR_FINGERPRINT (c XOR STUN_FINGERPRINT_XOR_VALUE)]\<rparr>))"

section \<open>MESSAGE-INTEGRITY\<close>

definition add_message_integrity_of_type ::
    "(bytes \<Rightarrow> bytes) \<Rightarrow> StunMessage \<Rightarrow> u16 \<Rightarrow> nat \<Rightarrow> bytes \<Rightarrow> bool \<times> StunMessage" where
  "add_message_integrity_of_type sha1 m mi_type mi_size key =
     (let mi_attr = new_byte_string mi_type (replicate mi_size 0x30);
          m1 = add_attribute m mi_attr
      in case msg_write m1 [] of
           None \<Rightarrow> (False, m1)
         | Some buf \<Rightarrow>
             let n = length buf - k_stun_attribute_header_size - unat (attr_length mi_attr)
             in case ComputeHmac sha1 key (take n buf) k_stun_message_integrity_size of
                  None \<Rightarrow> (False, m1)
                | Some hmac \<Rightarrow>
                    if length hmac \<noteq> k_stun_message_integrity_size then (False, m1)
                    else (True, m1\<lparr>attrs := attrs m @ [copy_bytes mi_attr hmac],
                                   msg_password := key, integrity := k_integrity_ok\<rparr>))"

definition add_message_integrity ::
    "(bytes \<Rightarrow> bytes) \<Rightarrow> StunMessage \<Rightarrow> bytes \<Rightarrow> bool \<times> StunMessage" where
  "add_message_integrity sha1 m password =
     add_message_integrity_of_type sha1 m STUN_ATTR_MESSAGE_INTEGRITY
       k_stun_message_integrity_size password"

text \<open>
  The search for the integrity attribute.  The outer \<open>None\<close> is an access outside the
  packet, the inner one that the loop ran off the end without finding the attribute.
\<close>

function find_mi :: "bytes \<Rightarrow> u16 \<Rightarrow> nat \<Rightarrow> nat option option" where
  "find_mi data mi_type current_pos =
     (if current_pos + k_stun_attribute_header_size \<le> length data then
        case GetBE16 data current_pos of None \<Rightarrow> None
        | Some t \<Rightarrow>
          (case GetBE16 data (current_pos + 2) of None \<Rightarrow> None
           | Some l \<Rightarrow>
               if t = mi_type then Some (Some current_pos)
               else let pos = current_pos + (k_stun_attribute_header_size + unat l);
                        pos = (if unat l mod 4 \<noteq> 0 then pos + (4 - unat l mod 4) else pos)
                    in find_mi data mi_type pos)
      else Some None)"
  by pat_completeness auto
termination
  by (relation "measure (\<lambda>(d, t, p). Suc (length d) - p)")
    (auto simp: k_stun_attribute_header_size_def)

declare find_mi.simps [simp del]

definition validate_message_integrity_of_type ::
    "(bytes \<Rightarrow> bytes) \<Rightarrow> u16 \<Rightarrow> nat \<Rightarrow> bytes \<Rightarrow> bytes \<Rightarrow> bool option" where
  "validate_message_integrity_of_type sha1 mi_type mi_size data password =
     (let size = length data
      in if size mod 4 \<noteq> 0 \<or> size < k_stun_header_size then Some False
         else do {
           len \<leftarrow> GetBE16 data 2;
           if unat len + k_stun_header_size \<noteq> size then Some False
           else do {
             found \<leftarrow> find_mi data mi_type k_stun_header_size;
             case found of None \<Rightarrow> Some False
             | Some mi_pos \<Rightarrow> do {
                 temp \<leftarrow> mem_read data 0 mi_pos;
                 temp_data \<leftarrow>
                   (if size > mi_pos + k_stun_attribute_header_size + mi_size
                    then let extra_pos = mi_pos + k_stun_attribute_header_size + mi_size;
                             extra_size = size - extra_pos;
                             adjust_new_len = size - extra_size - k_stun_header_size
                         in SetBE16 temp 2 (of_nat adjust_new_len)
                    else Some temp);
                 case ComputeHmac sha1 password temp_data k_stun_message_integrity_size of
                   None \<Rightarrow> Some False
                 | Some hmac \<Rightarrow>
                     if length hmac \<noteq> k_stun_message_integrity_size then Some False
                     else do {
                       mi \<leftarrow> mem_read data (mi_pos + k_stun_attribute_header_size) mi_size;
                       Some (mi = take mi_size hmac)
                     }
               }
           }
         })"

definition validate_message_integrity ::
    "(bytes \<Rightarrow> bytes) \<Rightarrow> StunMessage \<Rightarrow> bytes \<Rightarrow> StunMessage option" where
  "validate_message_integrity sha1 m password =
     (let m1 = m\<lparr>msg_password := password\<rparr>
      in case get_byte_string m1 STUN_ATTR_MESSAGE_INTEGRITY of
           None \<Rightarrow> Some (m1\<lparr>integrity := k_no_integrity\<rparr>)
         | Some _ \<Rightarrow> do {
             ok \<leftarrow> validate_message_integrity_of_type sha1 STUN_ATTR_MESSAGE_INTEGRITY
                     k_stun_message_integrity_size (msg_buffer m1) password;
             Some (m1\<lparr>integrity := (if ok then k_integrity_ok else k_integrity_bad)\<rparr>)
           })"

section \<open>Message types\<close>

definition is_stun_request_type :: "int \<Rightarrow> bool" where
  "is_stun_request_type req_type \<longleftrightarrow> req_type AND k_stun_type_mask = 0"

definition get_stun_success_response :: "int \<Rightarrow> int" where
  "get_stun_success_response req_type =
     (if is_stun_request_type req_type then req_type OR 0x100 else -1)"

definition get_stun_error_response :: "int \<Rightarrow> int" where
  "get_stun_error_response req_type =
     (if is_stun_request_type req_type then req_type OR 0x110 else -1)"

end
