(* ===== verification/Stun_Codec.thy ===== *)
theory Stun_Codec
  imports Stun
begin

text \<open>
  Correctness of the STUN codec: the wire format that \<open>msg_write\<close> produces, the round trip
  through \<open>msg_read\<close>, the FINGERPRINT and MESSAGE-INTEGRITY attributes of a message the
  server builds, memory safety of the two checks, and what a parsed message looks like.
\<close>

section \<open>The wire format\<close>

text \<open>Attributes whose length field agrees with their value, as the constructors build them.\<close>

fun attr_wf :: "StunAttribute \<Rightarrow> bool" where
  "attr_wf (StunUInt32Attribute t l v) = (l = 4)"
| "attr_wf (StunUInt64Attribute t l v) = (l = 8)"
| "attr_wf (StunByteStringAttribute t l bs) = (unat l = length bs)"
| "attr_wf (StunErrorCodeAttribute t l c n reason) = (unat l = 4 + length reason)"
| "attr_wf (StunAddressAttribute t l addr) = (case ipaddr addr of
     IPv4 _ \<Rightarrow> l = 8 | IPv6 bs \<Rightarrow> l = 20 \<and> length bs = 16 | IPUnspec \<Rightarrow> False)"
| "attr_wf (StunXorAddressAttribute t l addr) = (case ipaddr addr of IPv4 _ \<Rightarrow> l = 8 | _ \<Rightarrow> False)"

text \<open>Attributes whose class is the one the parser picks for their type.\<close>

fun attr_class_ok :: "StunAttribute \<Rightarrow> bool" where
  "attr_class_ok (StunUInt32Attribute t l v) = (get_attribute_value_type t \<noteq> STUN_VALUE_BYTE_STRING)"
| "attr_class_ok (StunByteStringAttribute t l bs) = (get_attribute_value_type t \<noteq> STUN_VALUE_UINT32)"
| "attr_class_ok a = (get_attribute_value_type (attr_type a) = STUN_VALUE_UNKNOWN)"

definition attr_known :: "StunAttribute \<Rightarrow> bool" where
  "attr_known a \<longleftrightarrow> get_attribute_value_type (attr_type a) \<noteq> STUN_VALUE_UNKNOWN"

definition attr_size :: "StunAttribute \<Rightarrow> nat" where
  "attr_size a = 4 + pad4 (unat (attr_length a))"

definition attrs_size :: "StunAttribute list \<Rightarrow> nat" where
  "attrs_size as = sum_list (map attr_size as)"

definition attr_wire :: "StunAttribute \<Rightarrow> bytes" where
  "attr_wire a = be16_split (attr_type a) @ be16_split (attr_length a) @ the (attr_write a [])"

definition header_wire :: "StunMessage \<Rightarrow> bytes" where
  "header_wire m = be16_split (msg_type m) @ be16_split (msg_length m)
     @ be32_split k_stun_magic_cookie @ transaction_id m"

definition msg_wire :: "StunMessage \<Rightarrow> bytes" where
  "msg_wire m = header_wire m @ concat (map attr_wire (attrs m))"

definition msg_wf :: "StunMessage \<Rightarrow> bool" where
  "msg_wf m \<longleftrightarrow> length (transaction_id m) = 12 \<and> list_all attr_wf (attrs m)
     \<and> attrs_size (attrs m) < 2 ^ 16 \<and> unat (msg_length m) = attrs_size (attrs m)"

lemma attrs_size_simps [simp]:
  "attrs_size [] = 0"
  "attrs_size (a # as) = attr_size a + attrs_size as"
  "attrs_size (as @ bs) = attrs_size as + attrs_size bs"
  by (simp_all add: attrs_size_def)

lemma attr_size_mod4: "attr_size a mod 4 = 0"
  by (simp add: attr_size_def mod_add_eq [symmetric] del: mod_add_eq)

lemma attrs_size_mod4: "attrs_size as mod 4 = 0"
proof (induction as)
  case (Cons a as)
  then show ?case using attr_size_mod4 [of a] by simp presburger
qed simp

lemma write_padding_append: "write_padding l w = w @ write_padding l []"
  by (simp add: write_padding_def writer_defs Let_def)

lemma length_write_padding: "length (write_padding l w) = length w + (pad4 (unat l) - unat l)"
  by (simp add: write_padding_def writer_defs Let_def pad4_def)

lemma attr_write_append: "attr_write a w = map_option ((@) w) (attr_write a [])"
proof (cases a)
  case (StunByteStringAttribute t l bs)
  then show ?thesis
    by (simp add: writer_defs) (metis append_assoc write_padding_append)
next
  case (StunErrorCodeAttribute t l c n reason)
  then show ?thesis
    by (simp add: writer_defs) (metis append_assoc write_padding_append)
qed (simp_all add: writer_defs write_address_def write_xor_address_def write_ip_def Let_def
    split: IPAddress.split)

lemma attr_write_wf:
  assumes "attr_wf a"
  shows "\<exists>b. attr_write a [] = Some b \<and> length b = pad4 (unat (attr_length a))"
  using assms pad4_ge [of "unat (attr_length a)"]
  by (cases a)
    (auto simp: writer_defs write_address_def write_xor_address_def write_ip_def get_xored_ip_def
      address_family_def length_write_padding split: IPAddress.splits)

lemma length_attr_wire: "attr_wf a \<Longrightarrow> length (attr_wire a) = attr_size a"
  using attr_write_wf [of a] by (auto simp: attr_wire_def attr_size_def)

lemma length_attrs_wire:
  "list_all attr_wf as \<Longrightarrow> length (concat (map attr_wire as)) = attrs_size as"
  by (induction as) (simp_all add: length_attr_wire)

lemma write_attrs_wf:
  "list_all attr_wf as \<Longrightarrow> write_attrs as w = Some (w @ concat (map attr_wire as))"
proof (induction as arbitrary: w)
  case (Cons a as)
  then obtain b where "attr_write a [] = Some b" using attr_write_wf [of a] by auto
  then show ?case
    using Cons attr_write_append [of a "(w @ be16_split (attr_type a)) @ be16_split (attr_length a)"]
    by (simp add: writer_defs attr_wire_def)
qed simp

lemma msg_write_wf: "list_all attr_wf (attrs m) \<Longrightarrow> msg_write m [] = Some (msg_wire m)"
  by (simp add: msg_write_def msg_wire_def header_wire_def write_attrs_wf writer_defs)

lemma length_header_wire: "msg_wf m \<Longrightarrow> length (header_wire m) = 20"
  by (simp add: header_wire_def msg_wf_def)

lemma length_msg_wire: "msg_wf m \<Longrightarrow> length (msg_wire m) = 20 + attrs_size (attrs m)"
  by (simp add: msg_wire_def length_header_wire length_attrs_wire msg_wf_def)

section \<open>Adding attributes\<close>

lemma add_attribute_sel [simp]:
  "attrs (add_attribute m a) = attrs m @ [a]"
  "msg_type (add_attribute m a) = msg_type m"
  "transaction_id (add_attribute m a) = transaction_id m"
  "integrity (add_attribute m a) = integrity m"
  "msg_password (add_attribute m a) = msg_password m"
  "msg_buffer (add_attribute m a) = msg_buffer m"
  by (simp_all add: add_attribute_def Let_def)

lemma msg_length_add_attribute:
  "msg_length (add_attribute m a) = msg_length m + of_nat (attr_size a)"
  by (simp add: add_attribute_def attr_size_def pad4_def k_stun_attribute_header_size_def add.commute
      Let_def)

lemma add_attribute_wf:
  assumes "msg_wf m" and "attr_wf a" and "attrs_size (attrs m) + attr_size a < 2 ^ 16"
  shows "msg_wf (add_attribute m a)"
proof -
  have "unat (msg_length (add_attribute m a)) = (unat (msg_length m) + attr_size a mod 2 ^ 16) mod 2 ^ 16"
    by (simp add: msg_length_add_attribute unat_word_ariths unat_of_nat)
  with assms show ?thesis by (simp add: msg_wf_def)
qed

lemma new_StunMessage_wf [simp]: "msg_wf (new_StunMessage\<lparr>msg_type := t\<rparr>)"
  by (simp add: msg_wf_def new_StunMessage_def EMPTY_TRANSACION_ID_def)

lemma msg_wf_set_header [simp]:
  "msg_wf (m\<lparr>msg_type := t\<rparr>) = msg_wf m"
  "length tid = 12 \<Longrightarrow> msg_wf m \<Longrightarrow> msg_wf (m\<lparr>transaction_id := tid\<rparr>)"
  by (simp_all add: msg_wf_def)

lemma constructors_wf [simp]:
  "attr_wf (new_uint32 t v)"
  "attr_wf (new_uint64 t w)"
  "length s < 2 ^ 16 \<Longrightarrow> attr_wf (new_byte_string t s)"
  "length reason + 4 < 2 ^ 16 \<Longrightarrow> attr_wf (set_reason e reason)"
  by (simp_all add: new_uint32_def new_uint64_def new_byte_string_def copy_bytes_def set_reason_def
      unat_of_nat take_bit_nat_eq_self del: of_nat_add)

lemma new_xor_address_wf [simp]: "ipaddr addr = IPv4 a \<Longrightarrow> attr_wf (new_xor_address t addr)"
  by (simp add: new_xor_address_def address_length_def address_family_def)

section \<open>Parsing what was written\<close>

lemma ReadUInt16_prefix:
  assumes "reader_inv r" and "rest r = be16_split v @ ys"
  shows "\<exists>r'. ReadUInt16 r = Some (v, r') \<and> reader_inv r' \<and> rest r' = ys"
  by (rule bbr.read_bytes_prefix [OF assms]) (simp add: ReadUInt16_def)

lemma ReadUInt32_prefix:
  assumes "reader_inv r" and "rest r = be32_split v @ ys"
  shows "\<exists>r'. ReadUInt32 r = Some (v, r') \<and> reader_inv r' \<and> rest r' = ys"
  by (rule bbr.read_bytes_prefix [OF assms]) (simp add: ReadUInt32_def)

lemma consume_padding_prefix:
  assumes inv: "reader_inv r" and rest: "rest r = write_padding l [] @ ys"
  shows "reader_inv (consume_padding l r) \<and> rest (consume_padding l r) = ys"
proof (cases "unat l mod 4 = 0")
  case True
  with assms show ?thesis by (simp add: consume_padding_def write_padding_def)
next
  case False
  with rest have "rest r = replicate (4 - unat l mod 4) 0 @ ys"
    by (simp add: write_padding_def writer_defs Let_def)
  with False show ?thesis
    by (rule_tac bbr.consume_prefix [OF inv]) (auto simp: consume_padding_def Let_def)
qed

lemma pad_u16_small:
  assumes "pad4 (unat l) < 2 ^ 16"
  shows "unat (pad_u16 l) = pad4 (unat l)"
proof (cases "unat l mod 4 = 0")
  case True
  then have "l mod 4 = 0" by (simp add: unat_mod flip: unat_eq_zero)
  with True show ?thesis by (simp add: pad_u16_def)
next
  case False
  have m: "unat (l mod 4) = unat l mod 4" by (simp add: unat_mod)
  have sub: "unat (4 - l mod 4) = 4 - unat l mod 4"
    using m by (subst unat_sub) (auto simp: word_le_nat_alt)
  have "unat (l + (4 - l mod 4)) = unat l + (4 - unat l mod 4)"
    using assms False sub by (subst unat_plus_if_size) (simp add: pad4_def word_size)
  moreover have "l mod 4 \<noteq> 0" using False m by (metis unat_0)
  ultimately show ?thesis using False by (simp add: pad_u16_def pad4_def)
qed

lemma attr_read_back:
  assumes "attr_known a" and "attr_wf a" and "attr_class_ok a"
    and inv: "reader_inv r" and rest: "rest r = the (attr_write a []) @ ys"
  shows "\<exists>a0 r'. create_attribute (attr_type a) (attr_length a) = Some a0
    \<and> attr_read a0 r = Some (a, r') \<and> reader_inv r' \<and> rest r' = ys"
proof (cases a)
  case (StunUInt32Attribute t l v)
  with assms(1-3) have "get_attribute_value_type t = STUN_VALUE_UINT32" "l = 4"
    by (auto simp: attr_known_def intro: StunAttributeValueType.exhaust [of "get_attribute_value_type t"])
  moreover have "\<exists>r'. ReadUInt32 r = Some (v, r') \<and> reader_inv r' \<and> rest r' = ys"
    using rest StunUInt32Attribute by (intro ReadUInt32_prefix [OF inv]) (simp add: writer_defs)
  ultimately show ?thesis
    using StunUInt32Attribute by (auto simp: create_attribute_def StunAttribute_create_def)
next
  case (StunByteStringAttribute t l bs)
  with assms(1-3) have vt: "get_attribute_value_type t = STUN_VALUE_BYTE_STRING" "unat l = length bs"
    by (auto simp: attr_known_def intro: StunAttributeValueType.exhaust [of "get_attribute_value_type t"])
  then have "rest r = bs @ write_padding l [] @ ys"
    using rest StunByteStringAttribute by (simp add: WriteBytes_def) (metis append_assoc write_padding_append)
  from bbr.read_bytes_prefix [OF inv this] obtain r1 where
    "ReadBytes r (length bs) = Some (bs, r1)" "reader_inv r1" "rest r1 = write_padding l [] @ ys"
    by metis
  with vt consume_padding_prefix [of r1 l ys] StunByteStringAttribute show ?thesis
    by (simp add: create_attribute_def StunAttribute_create_def)
qed (use assms(1,3) in \<open>simp_all add: attr_known_def\<close>)

text \<open>One attribute: it is appended if the parser knows its type and skipped otherwise.\<close>

lemma read_attrs_wire:
  assumes inv: "reader_inv r" and rest: "rest r = attr_wire a @ ys"
    and wf: "attr_wf a" and cls: "attr_class_ok a" and small: "attr_size a < 2 ^ 16"
  shows "\<exists>r'. read_attrs r acc = read_attrs r' (acc @ filter attr_known [a])
    \<and> reader_inv r' \<and> rest r' = ys"
proof -
  obtain b where b: "attr_write a [] = Some b" "length b = pad4 (unat (attr_length a))"
    using attr_write_wf [OF wf] by auto
  have pos: "Length r > 0"
    using length_rest [OF inv] rest by (simp add: attr_wire_def)
  obtain r1 where r1: "ReadUInt16 r = Some (attr_type a, r1)" "reader_inv r1"
    "rest r1 = be16_split (attr_length a) @ b @ ys"
    using ReadUInt16_prefix [OF inv, of "attr_type a"] rest b(1) by (auto simp: attr_wire_def)
  obtain r2 where r2: "ReadUInt16 r1 = Some (attr_length a, r2)" "reader_inv r2" "rest r2 = b @ ys"
    using ReadUInt16_prefix [OF r1(2,3)] by auto
  note step = read_attrs.simps [of r acc]
  show ?thesis
  proof (cases "attr_known a")
    case False
    then have none: "create_attribute (attr_type a) (attr_length a) = None"
      by (simp add: attr_known_def create_attribute_def)
    have "unat (pad_u16 (attr_length a)) = length b"
      using small b(2) by (simp add: pad_u16_small attr_size_def)
    then obtain r3 where "Consume r2 (unat (pad_u16 (attr_length a))) = Some r3" "reader_inv r3"
      "rest r3 = ys"
      using bbr.consume_prefix [OF r2(2,3)] by metis
    then show ?thesis
      using False pos r1 r2 none step by auto
  next
    case True
    with attr_read_back [OF True wf cls r2(2)] r2(3) b(1) obtain a0 r3 where
      "create_attribute (attr_type a) (attr_length a) = Some a0"
      "attr_read a0 r2 = Some (a, r3)" "reader_inv r3" "rest r3 = ys"
      by auto
    then show ?thesis
      using True pos r1 r2 step by auto
  qed
qed

lemma read_attrs_concat:
  "reader_inv r \<Longrightarrow> rest r = concat (map attr_wire as) \<Longrightarrow> list_all attr_wf as \<Longrightarrow>
    list_all attr_class_ok as \<Longrightarrow> attrs_size as < 2 ^ 16 \<Longrightarrow>
    \<exists>r'. read_attrs r acc = Some (acc @ filter attr_known as, r') \<and> reader_inv r' \<and> rest r' = []"
proof (induction as arbitrary: r acc)
  case Nil
  then have "Length r = 0" using length_rest [of r] by simp
  with Nil show ?case by (auto simp: read_attrs.simps [of r])
next
  case (Cons a as)
  then obtain r1 where "read_attrs r acc = read_attrs r1 (acc @ filter attr_known [a])"
    "reader_inv r1" "rest r1 = concat (map attr_wire as)"
    using read_attrs_wire [of r a "concat (map attr_wire as)" acc] by auto
  with Cons.IH [of r1 "acc @ filter attr_known [a]"] Cons.prems show ?case by auto
qed

text \<open>The header of a written message is read back, up to the start of the attributes.\<close>

lemma read_header:
  assumes "length tid = 12"
  shows "\<exists>r1 r2 r3 r4. ReadUInt16 (Construct (be16_split t @ be16_split l
        @ be32_split k_stun_magic_cookie @ tid @ ys)) = Some (t, r1)
    \<and> ReadUInt16 r1 = Some (l, r2)
    \<and> ReadString r2 4 = Some (be32_split k_stun_magic_cookie, r3)
    \<and> ReadString r3 12 = Some (tid, r4) \<and> reader_inv r4 \<and> rest r4 = ys"
proof -
  let ?r = "Construct (be16_split t @ be16_split l @ be32_split k_stun_magic_cookie @ tid @ ys)"
  obtain r1 where r1: "ReadUInt16 ?r = Some (t, r1)" "reader_inv r1"
    "rest r1 = be16_split l @ be32_split k_stun_magic_cookie @ tid @ ys"
    using ReadUInt16_prefix [of ?r t] by auto
  obtain r2 where r2: "ReadUInt16 r1 = Some (l, r2)" "reader_inv r2"
    "rest r2 = be32_split k_stun_magic_cookie @ tid @ ys"
    using ReadUInt16_prefix [OF r1(2,3)] by auto
  obtain r3 where r3: "ReadString r2 4 = Some (be32_split k_stun_magic_cookie, r3)" "reader_inv r3"
    "rest r3 = tid @ ys"
    using bbs.read_bytes_prefix [OF r2(2,3)] by (metis length_be32_split)
  obtain r4 where "ReadString r3 12 = Some (tid, r4)" "reader_inv r4" "rest r4 = ys"
    using bbs.read_bytes_prefix [OF r3(2,3)] assms by metis
  with r1 r2 r3 show ?thesis by blast
qed

lemma msg_read_wire:
  assumes wf: "msg_wf m" and cls: "list_all attr_class_ok (attrs m)"
    and ty: "msg_type m AND 0x0800 = 0"
  shows "\<exists>r'. msg_read m0 (Construct (msg_wire m)) =
      Some (m0\<lparr>msg_type := msg_type m, msg_length := msg_length m,
          transaction_id := transaction_id m, attrs := filter attr_known (attrs m),
          msg_buffer := msg_wire m\<rparr>, r') \<and> Length r' = 0"
proof -
  let ?body = "concat (map attr_wire (attrs m))"
  have tid: "length (transaction_id m) = 12" using wf by (simp add: msg_wf_def)
  have wire: "msg_wire m = be16_split (msg_type m) @ be16_split (msg_length m)
      @ be32_split k_stun_magic_cookie @ transaction_id m @ ?body"
    by (simp add: msg_wire_def header_wire_def)
  obtain r1 r2 r3 r4 where hdr: "ReadUInt16 (Construct (msg_wire m)) = Some (msg_type m, r1)"
      "ReadUInt16 r1 = Some (msg_length m, r2)"
      "ReadString r2 4 = Some (be32_split k_stun_magic_cookie, r3)"
      "ReadString r3 12 = Some (transaction_id m, r4)"
    and r4: "reader_inv r4" "rest r4 = ?body"
    using read_header [OF tid, of "msg_type m" "msg_length m" ?body] wire by auto
  have len: "Length r4 = unat (msg_length m)"
    using length_rest [OF r4(1)] r4(2) wf by (simp add: length_attrs_wire msg_wf_def)
  obtain r5 where r5: "read_attrs r4 [] = Some (filter attr_known (attrs m), r5)"
      "reader_inv r5" "rest r5 = []"
    using read_attrs_concat [OF r4, of "[]"] wf cls by (auto simp: msg_wf_def)
  have "Length r5 = 0" using length_rest [OF r5(2)] r5(3) by simp
  then show ?thesis
    using hdr len r5(1) ty
    by (simp add: msg_read_def k_stun_magic_cookie_length_def k_stun_transaction_id_length_def)
qed

text \<open>
  C11. Round trip of the STUN codec: a well-formed message is serialised, and parsing the bytes
  succeeds, consumes all of them, and recovers the type, the length, the transaction id and,
  in order and unchanged, every attribute whose type the parser knows; the raw bytes are kept
  for the integrity check.
\<close>

theorem stun_round_trip:
  assumes "msg_wf m" and "list_all attr_class_ok (attrs m)" and "msg_type m AND 0x0800 = 0"
  shows "\<exists>bs m' r'. msg_write m [] = Some bs \<and> msg_read new_StunMessage (Construct bs) = Some (m', r')
    \<and> Length r' = 0 \<and> msg_type m' = msg_type m \<and> msg_length m' = msg_length m
    \<and> transaction_id m' = transaction_id m \<and> attrs m' = filter attr_known (attrs m)
    \<and> msg_buffer m' = bs"
proof -
  have "msg_write m [] = Some (msg_wire m)"
    using assms(1) by (simp add: msg_write_wf msg_wf_def)
  moreover obtain r' where "msg_read new_StunMessage (Construct (msg_wire m)) =
      Some (new_StunMessage\<lparr>msg_type := msg_type m, msg_length := msg_length m,
        transaction_id := transaction_id m, attrs := filter attr_known (attrs m),
        msg_buffer := msg_wire m\<rparr>, r')" "Length r' = 0"
    using msg_read_wire [OF assms, of new_StunMessage] by blast
  ultimately show ?thesis by simp
qed

definition sample_request :: StunMessage where
  "sample_request = add_attribute (add_attribute (add_attribute
     (new_StunMessage\<lparr>msg_type := STUN_BINDING_REQUEST\<rparr>)
     (new_byte_string STUN_ATTR_USERNAME (bytes_of ''abcd:efg'')))
     (new_uint64 STUN_ATTR_ICE_CONTROLLING 0))
     (new_uint32 STUN_ATTR_PRIORITY 0x6e7f1eff)"

lemmas sample_request_simps =
  sample_request_def msg_wf_def add_attribute_def new_StunMessage_def new_byte_string_def
  copy_bytes_def new_uint64_def new_uint32_def bytes_of_def EMPTY_TRANSACION_ID_def
  k_stun_attribute_header_size_def attr_size_def pad4_def stun_msg_type_defs
  attr_known_def get_attribute_value_type_def stun_attr_type_defs

theorem stun_round_trip_witness:
  "\<exists>bs m' r'. msg_write sample_request [] = Some bs
    \<and> msg_read new_StunMessage (Construct bs) = Some (m', r') \<and> Length r' = 0
    \<and> length (attrs sample_request) = 3 \<and> length (attrs m') = 2"
proof -
  have wf: "msg_wf sample_request" by (simp add: sample_request_simps)
  have cls: "list_all attr_class_ok (attrs sample_request)" by (simp add: sample_request_simps)
  have ty: "msg_type sample_request AND 0x0800 = 0" by (simp add: sample_request_simps)
  have "length (attrs sample_request) = 3" "length (filter attr_known (attrs sample_request)) = 2"
    by (simp_all add: sample_request_simps)
  with stun_round_trip [OF wf cls ty] show ?thesis by auto
qed

section \<open>The FINGERPRINT check\<close>

text \<open>
  Memory safety of the demultiplexing check: whatever bytes arrive from the network,
  \<open>validate_fingerprint\<close> reads only inside the packet and returns an answer.
\<close>

theorem validate_fingerprint_safe: "\<exists>ok. validate_fingerprint data = Some ok"
proof (cases "length data mod 4 \<noteq> 0 \<or> length data < 28")
  case True
  then show ?thesis by (auto simp: validate_fingerprint_def stun_size_defs)
next
  case False
  then show ?thesis
    by (auto simp: validate_fingerprint_def stun_size_defs GetBE16_def GetBE32_def Let_def)
qed

lemma validate_fingerprint_wire:
  assumes "length pre mod 4 = 0" and "20 \<le> length pre"
    and "be32_of (take 4 (drop 4 pre)) = k_stun_magic_cookie"
  shows "validate_fingerprint
      (pre @ be16_split STUN_ATTR_FINGERPRINT @ be16_split 4 @ be32_split v) =
    Some ((v XOR STUN_FINGERPRINT_XOR_VALUE) = ComputeCrc32 pre)"
proof -
  let ?d = "pre @ be16_split STUN_ATTR_FINGERPRINT @ be16_split 4 @ be32_split v"
  have "GetBE32 ?d 4 = Some k_stun_magic_cookie"
    using assms by (simp add: GetBE32_def)
  moreover have "GetBE16 ?d (length pre) = Some STUN_ATTR_FINGERPRINT"
    by (rule GetBE16_at) simp
  moreover have "GetBE16 ?d (length pre + 2) = Some 4"
    using GetBE16_at [of "length pre + 2" "pre @ be16_split STUN_ATTR_FINGERPRINT" 4 "be32_split v"]
    by simp
  moreover have "GetBE32 ?d (length pre + 4) = Some v"
    using GetBE32_at [of "length pre + 4" "pre @ be16_split STUN_ATTR_FINGERPRINT @ be16_split 4" v "[]"]
    by simp
  moreover have "(length pre + 8) mod 4 = 0" using assms(1) by presburger
  ultimately show ?thesis
    using assms(2) by (simp add: validate_fingerprint_def stun_size_defs)
qed

abbreviation fp_attr :: "u32 \<Rightarrow> StunAttribute" where
  "fp_attr v \<equiv> new_uint32 STUN_ATTR_FINGERPRINT v"

lemma attr_wire_fp:
  "attr_wire (fp_attr v) = be16_split STUN_ATTR_FINGERPRINT @ be16_split 4 @ be32_split v"
  by (simp add: attr_wire_def new_uint32_def writer_defs)

lemma attr_size_fp [simp]: "attr_size (fp_attr v) = 8"
  by (simp add: attr_size_def new_uint32_def)

text \<open>The part of a fingerprinted message that the checksum covers.\<close>

definition fp_prefix :: "StunMessage \<Rightarrow> bytes" where
  "fp_prefix m = header_wire (add_attribute m (fp_attr 0)) @ concat (map attr_wire (attrs m))"

lemma header_wire_cong:
  "msg_type m = msg_type m' \<Longrightarrow> msg_length m = msg_length m' \<Longrightarrow>
    transaction_id m = transaction_id m' \<Longrightarrow> header_wire m = header_wire m'"
  by (simp add: header_wire_def)

lemma msg_wire_add_fp:
  "msg_wire (add_attribute m (fp_attr v)) = fp_prefix m @ attr_wire (fp_attr v)"
proof -
  have "header_wire (add_attribute m (fp_attr v)) = header_wire (add_attribute m (fp_attr 0))"
    by (rule header_wire_cong) (simp_all add: msg_length_add_attribute)
  then show ?thesis by (simp add: msg_wire_def fp_prefix_def)
qed

lemma add_fingerprint_eq:
  assumes "msg_wf m"
  shows "add_fingerprint m = (True, add_attribute m
    (fp_attr (ComputeCrc32 (fp_prefix m) XOR STUN_FINGERPRINT_XOR_VALUE)))"
proof -
  let ?v = "ComputeCrc32 (fp_prefix m) XOR STUN_FINGERPRINT_XOR_VALUE"
  have "msg_write (add_attribute m (fp_attr 0)) [] = Some (fp_prefix m @ attr_wire (fp_attr 0))"
    using assms by (subst msg_write_wf) (simp_all add: msg_wf_def msg_wire_add_fp)
  moreover have "(add_attribute m (fp_attr 0))\<lparr>attrs := attrs m @ [fp_attr ?v]\<rparr>
      = add_attribute m (fp_attr ?v)"
    by (simp add: add_attribute_def new_uint32_def)
  ultimately show ?thesis
    by (simp add: add_fingerprint_def length_attr_wire k_stun_attribute_header_size_def Let_def)
qed

lemma length_fp_prefix: "msg_wf m \<Longrightarrow> length (fp_prefix m) = 20 + attrs_size (attrs m)"
  by (simp add: fp_prefix_def header_wire_def length_attrs_wire msg_wf_def)

lemma cookie_fp_prefix: "be32_of (take 4 (drop 4 (fp_prefix m))) = k_stun_magic_cookie"
  by (simp add: fp_prefix_def header_wire_def)

lemma fingerprinted_wire_valid:
  assumes "msg_wf m"
  shows "validate_fingerprint (fp_prefix m @ attr_wire
    (fp_attr (ComputeCrc32 (fp_prefix m) XOR STUN_FINGERPRINT_XOR_VALUE))) = Some True"
proof -
  have "length (fp_prefix m) mod 4 = 0"
    using assms attrs_size_mod4 [of "attrs m"] by (simp add: length_fp_prefix) presburger
  then show ?thesis
    using assms by (simp add: attr_wire_fp validate_fingerprint_wire length_fp_prefix
        cookie_fp_prefix xor.assoc)
qed

text \<open>
  Every well-formed message to which \<open>add_fingerprint\<close> is applied is accepted by
  \<open>validate_fingerprint\<close> once serialised: the checksum the sender stores is the one the
  receiver recomputes.
\<close>

theorem add_fingerprint_validates:
  assumes "msg_wf m" and "add_fingerprint m = (ok, m')"
  shows "ok \<and> (\<exists>bs. msg_write m' [] = Some bs \<and> validate_fingerprint bs = Some True)"
proof -
  let ?m' = "add_attribute m (fp_attr (ComputeCrc32 (fp_prefix m) XOR STUN_FINGERPRINT_XOR_VALUE))"
  have "ok" "m' = ?m'" using assms by (simp_all add: add_fingerprint_eq)
  moreover have "msg_write ?m' [] = Some (msg_wire ?m')"
    using assms(1) by (intro msg_write_wf) (simp add: msg_wf_def)
  ultimately show ?thesis
    using fingerprinted_wire_valid [OF assms(1)] by (simp add: msg_wire_add_fp)
qed

theorem add_fingerprint_validates_witness:
  "fst (add_fingerprint sample_request) \<and>
    (\<exists>bs. msg_write (snd (add_fingerprint sample_request)) [] = Some bs
      \<and> validate_fingerprint bs = Some True)"
proof -
  have wf: "msg_wf sample_request" by (simp add: sample_request_simps)
  show ?thesis
    using add_fingerprint_validates [OF wf, of "fst (add_fingerprint sample_request)"
        "snd (add_fingerprint sample_request)"] by simp
qed

text \<open>
  C24. Exactly the packets that carry, as their last attribute, a FINGERPRINT equal to the
  CRC-32 of everything before it XOR 0x5354554e, with the magic cookie in place and a length
  that is a multiple of four, are taken for STUN.
\<close>

theorem validate_fingerprint_iff:
  "validate_fingerprint data = Some True \<longleftrightarrow>
    (\<exists>pre. data = pre @ be16_split STUN_ATTR_FINGERPRINT @ be16_split 4
        @ be32_split (ComputeCrc32 pre XOR STUN_FINGERPRINT_XOR_VALUE)
      \<and> length pre mod 4 = 0 \<and> 20 \<le> length pre
      \<and> be32_of (take 4 (drop 4 pre)) = k_stun_magic_cookie)"
  (is "?ok \<longleftrightarrow> ?shape")
proof
  assume ?shape
  then show ?ok by (auto simp: validate_fingerprint_wire xor.assoc)
next
  assume ok: ?ok
  have len: "length data mod 4 = 0" "28 \<le> length data"
    using ok by (auto simp: validate_fingerprint_def stun_size_defs Let_def split: if_splits)
  obtain pre ys where ys: "data = pre @ ys" "length pre = length data - 8"
    using split_at [OF diff_le_self] by blast
  have "length data = length pre + length ys" using ys(1) by simp
  then have "length ys = 8" using ys(2) len(2) by linarith
  then obtain a zs where a: "ys = a @ zs" "length a = 2" "length zs = 6"
    using split_at [of 2 ys] by auto
  then obtain b c where b: "zs = b @ c" "length b = 2" "length c = 4"
    using split_at [of 2 zs] by auto
  have data: "data = pre @ a @ b @ c" using ys(1) a(1) b(1) by simp
  have "8 \<le> length pre" using ys len by simp
  then have rd0: "GetBE32 data 4 = Some (be32_of (take 4 (drop 4 pre)))"
    unfolding data by (simp add: GetBE32_def)
  have rd1: "GetBE16 data (length pre) = Some (be16_of a)"
    unfolding data using a by (intro GetBE16_chunk) simp_all
  have rd2: "GetBE16 data (length pre + 2) = Some (be16_of b)"
    using GetBE16_chunk [of "length pre + 2" "pre @ a" b c] a b unfolding data by simp
  have rd3: "GetBE32 data (length pre + 4) = Some (be32_of c)"
    using GetBE32_chunk [of "length pre + 4" "pre @ a @ b" c "[]"] a b unfolding data by simp
  have fp: "length data - 8 = length pre" "take (length pre) data = pre"
    using ys by simp_all
  have cookie: "be32_of (take 4 (drop 4 pre)) = k_stun_magic_cookie" and "be16_of a = STUN_ATTR_FINGERPRINT"
    "be16_of b = 4" and crc: "be32_of c XOR STUN_FINGERPRINT_XOR_VALUE = ComputeCrc32 pre"
    using ok len
    by (simp_all add: validate_fingerprint_def stun_size_defs Let_def fp rd0 rd1 rd2 rd3
        del: add_2_eq_Suc' split: if_splits)
  moreover from crc have "be32_of c = ComputeCrc32 pre XOR STUN_FINGERPRINT_XOR_VALUE"
    by (metis xor.assoc xor_self_eq xor.right_neutral)
  ultimately have "a = be16_split STUN_ATTR_FINGERPRINT" "b = be16_split 4"
    "c = be32_split (ComputeCrc32 pre XOR STUN_FINGERPRINT_XOR_VALUE)"
    using a b by (metis be16_split_of, metis be16_split_of, metis be32_split_of)
  with data have shape: "data = pre @ be16_split STUN_ATTR_FINGERPRINT @ be16_split 4
      @ be32_split (ComputeCrc32 pre XOR STUN_FINGERPRINT_XOR_VALUE)"
    by simp
  have pre: "length pre mod 4 = 0" "20 \<le> length pre"
    using len ys(2) by (presburger, simp)
  show ?shape by (intro exI [of _ pre] conjI) (fact shape pre cookie)+
qed

section \<open>MESSAGE-INTEGRITY\<close>

abbreviation mi_attr :: "bytes \<Rightarrow> StunAttribute" where
  "mi_attr h \<equiv> new_byte_string STUN_ATTR_MESSAGE_INTEGRITY h"

lemma attr_size_mi [simp]: "length h = 20 \<Longrightarrow> attr_size (mi_attr h) = 24"
  by (simp add: attr_size_def new_byte_string_def copy_bytes_def)

lemma attr_wire_mi:
  "length h = 20 \<Longrightarrow>
    attr_wire (mi_attr h) = be16_split STUN_ATTR_MESSAGE_INTEGRITY @ be16_split 20 @ h"
  by (simp add: attr_wire_def new_byte_string_def copy_bytes_def write_padding_def writer_defs)

text \<open>
  The part of a message the HMAC covers: everything before the integrity attribute, with a length
  field that counts up to the end of that attribute.
\<close>

definition mi_prefix :: "StunMessage \<Rightarrow> bytes" where
  "mi_prefix m = be16_split (msg_type m) @ be16_split (msg_length m + 24)
     @ be32_split k_stun_magic_cookie @ transaction_id m @ concat (map attr_wire (attrs m))"

lemma msg_wire_add_mi:
  assumes "length h = 20"
  shows "msg_wire (add_attribute m (mi_attr h)) = mi_prefix m @ attr_wire (mi_attr h)"
  using assms by (simp add: msg_wire_def header_wire_def mi_prefix_def msg_length_add_attribute)

lemma add_message_integrity_eq:
  assumes "msg_wf m" and sha: "\<And>x. length (sha1 x) = 20"
  shows "\<exists>h. ComputeHmac sha1 key (mi_prefix m) 20 = Some h \<and> length h = 20
    \<and> add_message_integrity sha1 m key = (True, (add_attribute m (mi_attr h))
        \<lparr>msg_password := key, integrity := k_integrity_ok\<rparr>)"
proof -
  let ?z = "replicate 20 0x30 :: bytes"
  obtain h where h: "ComputeHmac sha1 key (mi_prefix m) 20 = Some h" "length h = 20"
    using ComputeHmac_length [of sha1 20 key "mi_prefix m", OF sha] by auto
  have "msg_write (add_attribute m (mi_attr ?z)) [] = Some (mi_prefix m @ attr_wire (mi_attr ?z))"
    using assms(1) by (subst msg_write_wf) (simp_all add: msg_wf_def msg_wire_add_mi)
  moreover have "(add_attribute m (mi_attr ?z))\<lparr>attrs := attrs m @ [mi_attr h]\<rparr>
      = add_attribute m (mi_attr h)"
    using h(2) by (simp add: add_attribute_def new_byte_string_def copy_bytes_def)
  moreover have "copy_bytes (mi_attr ?z) h = mi_attr h" "unat (attr_length (mi_attr ?z)) = 20"
    by (simp_all add: new_byte_string_def copy_bytes_def)
  ultimately show ?thesis
    using h by (simp add: add_message_integrity_def add_message_integrity_of_type_def stun_size_defs
        length_attr_wire Let_def)
qed

lemma find_mi_next:
  assumes "GetBE16 data pos = Some ty" and "GetBE16 data (pos + 2) = Some l"
    and "pos + 4 \<le> length data" and "ty \<noteq> t"
  shows "find_mi data t pos = find_mi data t (pos + (4 + pad4 (unat l)))"
  using assms by (subst find_mi.simps)
    (simp add: k_stun_attribute_header_size_def pad4_def Let_def add.assoc)

lemma find_mi_step:
  assumes "data = pre @ attr_wire a @ ys" and "attr_wf a" and "attr_type a \<noteq> t"
  shows "find_mi data t (length pre) = find_mi data t (length pre + attr_size a)"
proof -
  obtain b where b: "attr_write a [] = Some b" "length b = pad4 (unat (attr_length a))"
    using attr_write_wf [OF assms(2)] by auto
  have data: "data = pre @ be16_split (attr_type a) @ be16_split (attr_length a) @ b @ ys"
    using assms(1) b(1) by (simp add: attr_wire_def)
  have "GetBE16 data (length pre) = Some (attr_type a)"
    unfolding data by (rule GetBE16_at) simp
  moreover have "GetBE16 data (length pre + 2) = Some (attr_length a)"
    using GetBE16_at [of "length pre + 2" "pre @ be16_split (attr_type a)" "attr_length a" "b @ ys"]
    unfolding data by simp
  moreover have "length pre + 4 \<le> length data"
    unfolding data by simp
  ultimately show ?thesis
    unfolding attr_size_def using assms(3) by (rule find_mi_next)
qed

lemma find_mi_skip:
  "data = pre @ concat (map attr_wire as) @ ys \<Longrightarrow> list_all attr_wf as \<Longrightarrow>
    list_all (\<lambda>a. attr_type a \<noteq> t) as \<Longrightarrow>
    find_mi data t (length pre) = find_mi data t (length pre + attrs_size as)"
proof (induction as arbitrary: pre)
  case (Cons a as)
  have "find_mi data t (length pre) = find_mi data t (length (pre @ attr_wire a))"
    using Cons.prems find_mi_step [of data pre a "concat (map attr_wire as) @ ys" t]
    by (simp add: length_attr_wire)
  also have "\<dots> = find_mi data t (length (pre @ attr_wire a) + attrs_size as)"
    using Cons.prems by (intro Cons.IH) simp_all
  finally show ?case using Cons.prems by (simp add: length_attr_wire add.assoc)
qed simp

lemma find_mi_here:
  assumes "data = pre @ be16_split t @ be16_split l @ ys"
  shows "find_mi data t (length pre) = Some (Some (length pre))"
proof -
  have "GetBE16 data (length pre) = Some t"
    unfolding assms by (rule GetBE16_at) simp
  moreover have "GetBE16 data (length pre + 2) = Some l"
    using GetBE16_at [of "length pre + 2" "pre @ be16_split t" l ys] unfolding assms by simp
  moreover have "length pre + 4 \<le> length data"
    unfolding assms by simp
  ultimately show ?thesis
    by (subst find_mi.simps) (simp add: k_stun_attribute_header_size_def)
qed

text \<open>
  The receiver's side: on the bytes of a message whose attributes are \<open>attrs m\<close>, the
  integrity attribute and then \<open>es\<close>, it compares the stored value with the HMAC of
  \<open>mi_prefix m\<close>.
\<close>

lemma validate_mi_wire:
  assumes wf: "msg_wf m" and nomi: "list_all (\<lambda>a. attr_type a \<noteq> STUN_ATTR_MESSAGE_INTEGRITY) (attrs m)"
    and h: "length h = 20"
    and es: "length es mod 4 = 0" and total: "attrs_size (attrs m) + 24 + length es < 2 ^ 16"
    and sha: "\<And>x. length (sha1 x) = 20"
    and data: "data = be16_split (msg_type m) @ be16_split (of_nat (attrs_size (attrs m) + 24 + length es))
      @ be32_split k_stun_magic_cookie @ transaction_id m @ concat (map attr_wire (attrs m))
      @ attr_wire (mi_attr h) @ es"
  shows "validate_message_integrity_of_type sha1 STUN_ATTR_MESSAGE_INTEGRITY 20 data key =
    Some (ComputeHmac sha1 key (mi_prefix m) 20 = Some h)"
proof -
  let ?pos = "20 + attrs_size (attrs m)"
  let ?hdr = "be16_split (msg_type m) @ be16_split (of_nat (attrs_size (attrs m) + 24 + length es))
      @ be32_split k_stun_magic_cookie @ transaction_id m"
  let ?as = "concat (map attr_wire (attrs m))"
  have tid: "length (transaction_id m) = 12" and awf: "list_all attr_wf (attrs m)"
    using wf by (simp_all add: msg_wf_def)
  have lenas: "length ?as = attrs_size (attrs m)" using awf by (rule length_attrs_wire)
  have size: "length data = ?pos + 24 + length es"
    unfolding data using tid h lenas by (simp add: attr_wire_mi)
  have size4: "length data mod 4 = 0"
    using size es attrs_size_mod4 [of "attrs m"] by presburger
  have len: "GetBE16 data 2 = Some (of_nat (attrs_size (attrs m) + 24 + length es))"
    unfolding data using GetBE16_at [of 2 "be16_split (msg_type m)"] by simp
  have data1: "data = ?hdr @ ?as @ attr_wire (mi_attr h) @ es" using data by simp
  have data2: "data = (?hdr @ ?as) @ attr_wire (mi_attr h) @ es" using data by simp
  have "find_mi data STUN_ATTR_MESSAGE_INTEGRITY (length ?hdr)
      = find_mi data STUN_ATTR_MESSAGE_INTEGRITY (length ?hdr + attrs_size (attrs m))"
    using data1 awf nomi by (rule find_mi_skip)
  also have "\<dots> = find_mi data STUN_ATTR_MESSAGE_INTEGRITY (length (?hdr @ ?as))"
    using lenas by (simp add: add.assoc)
  also have "\<dots> = Some (Some (length (?hdr @ ?as)))"
    by (rule find_mi_here [of _ _ _ 20 "h @ es"]) (simp add: data2 h attr_wire_mi)
  finally have found: "find_mi data STUN_ATTR_MESSAGE_INTEGRITY 20 = Some (Some ?pos)"
    using tid lenas by simp
  have temp: "mem_read data 0 ?pos = Some (?hdr @ ?as)"
    using size tid lenas by (simp add: data2)
  have mi: "mem_read data (?pos + 4) 20 = Some h"
    using size tid lenas h by (simp add: data2 attr_wire_mi)
  have lenf: "unat (of_nat (attrs_size (attrs m) + 24 + length es) :: u16)
      = attrs_size (attrs m) + 24 + length es"
    using total by (simp add: unat_of_nat take_bit_nat_eq_self del: of_nat_add)
  have ml: "msg_length m + 24 = of_nat (attrs_size (attrs m) + 24)"
    using wf by (simp add: msg_wf_def word_arith_nat_add del: of_nat_add)
  obtain hm where hm: "ComputeHmac sha1 key (mi_prefix m) 20 = Some hm" "length hm = 20"
    using ComputeHmac_length [of sha1 20 key "mi_prefix m", OF sha] by auto
  show ?thesis
  proof (cases "es = []")
    case True
    then have "mem_read data 0 ?pos = Some (mi_prefix m)"
      using temp by (simp add: mi_prefix_def ml del: of_nat_add)
    with True size4 size len lenf found mi h hm show ?thesis
      by (auto simp: validate_message_integrity_of_type_def stun_size_defs simp del: of_nat_add)
  next
    case False
    define T where "T = ?hdr @ ?as"
    have "SetBE16 T 2 (of_nat (attrs_size (attrs m) + 24)) = Some (mi_prefix m)"
      by (simp add: T_def SetBE16_def mi_prefix_def ml del: of_nat_add)
    with False size4 size len lenf found temp [folded T_def] mi h hm show ?thesis
      by (auto simp: validate_message_integrity_of_type_def stun_size_defs add.commute
          simp del: of_nat_add)
  qed
qed

lemma mi_wire_layout:
  assumes wf: "msg_wf m" and h: "length h = 20" and room: "attrs_size (attrs m) + 32 < 2 ^ 16"
    and m1: "m1 = (add_attribute m (mi_attr h))\<lparr>msg_password := key, integrity := i\<rparr>"
  shows "msg_wf m1"
    and "msg_wire (add_attribute m1 (fp_attr v)) = be16_split (msg_type m)
      @ be16_split (of_nat (attrs_size (attrs m) + 24 + length (attr_wire (fp_attr v))))
      @ be32_split k_stun_magic_cookie @ transaction_id m @ concat (map attr_wire (attrs m))
      @ attr_wire (mi_attr h) @ attr_wire (fp_attr v)"
proof -
  have "msg_wf (add_attribute m (mi_attr h))"
    using wf h room by (intro add_attribute_wf) simp_all
  then show "msg_wf m1" by (simp add: m1 msg_wf_def)
  have "msg_length m + of_nat 32 = of_nat (attrs_size (attrs m) + 32)"
    using wf by (simp add: msg_wf_def word_arith_nat_add del: of_nat_add)
  then show "msg_wire (add_attribute m1 (fp_attr v)) = be16_split (msg_type m)
      @ be16_split (of_nat (attrs_size (attrs m) + 24 + length (attr_wire (fp_attr v))))
      @ be32_split k_stun_magic_cookie @ transaction_id m @ concat (map attr_wire (attrs m))
      @ attr_wire (mi_attr h) @ attr_wire (fp_attr v)"
    using h by (simp add: m1 msg_wire_def header_wire_def msg_length_add_attribute length_attr_wire
        add.assoc)
qed

lemma signed_message_accepted:
  assumes "msg_wf m" and "list_all attr_class_ok (attrs m)" and "msg_type m AND 0x0800 = 0"
    and "list_all (\<lambda>a. attr_type a \<noteq> STUN_ATTR_MESSAGE_INTEGRITY) (attrs m)"
    and "attrs_size (attrs m) + 32 < 2 ^ 16"
    and "\<And>x. length (sha1 x) = 20"
    and "m1 = snd (add_message_integrity sha1 m key)" and "m2 = snd (add_fingerprint m1)"
  shows "\<exists>bs m' r' h. msg_write m2 [] = Some bs \<and> validate_fingerprint bs = Some True
    \<and> msg_read new_StunMessage (Construct bs) = Some (m', r') \<and> Length r' = 0
    \<and> msg_type m' = msg_type m \<and> transaction_id m' = transaction_id m
    \<and> attrs m' = filter attr_known (attrs m) @ [mi_attr h] \<and> msg_buffer m' = bs
    \<and> length h = 20 \<and> ComputeHmac sha1 key (mi_prefix m) 20 = Some h
    \<and> (\<forall>key'. validate_message_integrity sha1 m' key' = Some (m'\<lparr>msg_password := key',
        integrity := if ComputeHmac sha1 key' (mi_prefix m) 20 = Some h
          then k_integrity_ok else k_integrity_bad\<rparr>))"
proof -
  obtain h where h: "ComputeHmac sha1 key (mi_prefix m) 20 = Some h" "length h = 20"
    and m1: "m1 = (add_attribute m (mi_attr h))\<lparr>msg_password := key, integrity := k_integrity_ok\<rparr>"
    using add_message_integrity_eq [OF assms(1), of sha1 key] assms(6,7) by auto
  define v where "v = ComputeCrc32 (fp_prefix m1) XOR STUN_FINGERPRINT_XOR_VALUE"
  note layout = mi_wire_layout [OF assms(1) h(2) assms(5) m1]
  have m2: "m2 = add_attribute m1 (fp_attr v)"
    using layout(1) assms(8) by (simp add: add_fingerprint_eq v_def)
  have wf2: "msg_wf m2"
    using layout(1) assms(5) h(2) unfolding m2 by (intro add_attribute_wf) (simp_all add: m1)
  have cls2: "list_all attr_class_ok (attrs m2)"
    using assms(2) by (simp add: m2 m1 new_uint32_def new_byte_string_def copy_bytes_def
        get_attribute_value_type_def stun_attr_type_defs)
  define m' where "m' = new_StunMessage\<lparr>msg_type := msg_type m2, msg_length := msg_length m2,
        transaction_id := transaction_id m2, attrs := filter attr_known (attrs m2),
        msg_buffer := msg_wire m2\<rparr>"
  obtain r' where rd: "msg_read new_StunMessage (Construct (msg_wire m2)) = Some (m', r')" "Length r' = 0"
    using msg_read_wire [OF wf2 cls2, of new_StunMessage] assms(3) by (auto simp: m2 m1 m'_def)
  have wr: "msg_write m2 [] = Some (msg_wire m2)"
    using wf2 by (simp add: msg_write_wf msg_wf_def)
  have fp: "validate_fingerprint (msg_wire m2) = Some True"
    using fingerprinted_wire_valid [OF layout(1)] by (simp add: m2 v_def msg_wire_add_fp)
  obtain a where has: "find (\<lambda>a. attr_type a = STUN_ATTR_MESSAGE_INTEGRITY) (attrs m') = Some a"
    using find_None_iff [of "\<lambda>a. attr_type a = STUN_ATTR_MESSAGE_INTEGRITY" "attrs m'"]
    by (auto simp: m'_def m2 m1 attr_known_def new_byte_string_def copy_bytes_def
        get_attribute_value_type_def stun_attr_type_defs)
  have "validate_message_integrity_of_type sha1 STUN_ATTR_MESSAGE_INTEGRITY 20 (msg_wire m2) key' =
      Some (ComputeHmac sha1 key' (mi_prefix m) 20 = Some h)" for key'
    using assms(1,4,5,6) h(2) layout(2) [of v]
    by (intro validate_mi_wire [where es = "attr_wire (fp_attr v)"])
      (simp_all add: m2 length_attr_wire)
  then have "validate_message_integrity sha1 m' key' = Some (m'\<lparr>msg_password := key',
      integrity := if ComputeHmac sha1 key' (mi_prefix m) 20 = Some h
        then k_integrity_ok else k_integrity_bad\<rparr>)" for key'
    using has by (simp add: validate_message_integrity_def get_byte_string_def get_attribute_def
        k_stun_message_integrity_size_def m'_def)
  moreover have "msg_type m' = msg_type m" "transaction_id m' = transaction_id m"
    "attrs m' = filter attr_known (attrs m) @ [mi_attr h]"
    by (simp_all add: m'_def m2 m1 attr_known_def new_uint32_def new_byte_string_def copy_bytes_def
        get_attribute_value_type_def stun_attr_type_defs)
  moreover have "msg_buffer m' = msg_wire m2" by (simp add: m'_def)
  ultimately show ?thesis using wr fp rd h by blast
qed

text \<open>
  C22. Short-term authentication end to end: a well-formed message that is given a
  MESSAGE-INTEGRITY attribute under a key and then a FINGERPRINT, as the server does for its
  requests and responses, is serialised; the bytes pass the fingerprint check, parse, and the
  receiver's integrity check under any key \<open>key'\<close> stays inside the packet and
  succeeds exactly when that key gives the same HMAC of the covered bytes, in particular under
  the sender's key.
\<close>

theorem message_integrity_end_to_end:
  assumes "msg_wf m" and "list_all attr_class_ok (attrs m)" and "msg_type m AND 0x0800 = 0"
    and "list_all (\<lambda>a. attr_type a \<noteq> STUN_ATTR_MESSAGE_INTEGRITY) (attrs m)"
    and "attrs_size (attrs m) + 32 < 2 ^ 16"
    and "\<And>x. length (sha1 x) = 20"
    and "m1 = snd (add_message_integrity sha1 m key)" and "m2 = snd (add_fingerprint m1)"
  shows "\<exists>bs m' r' m''. msg_write m2 [] = Some bs \<and> validate_fingerprint bs = Some True
    \<and> msg_read new_StunMessage (Construct bs) = Some (m', r') \<and> Length r' = 0
    \<and> validate_message_integrity sha1 m' key' = Some m''
    \<and> (integrity_ok m'' \<longleftrightarrow>
        ComputeHmac sha1 key' (mi_prefix m) 20 = ComputeHmac sha1 key (mi_prefix m) 20)"
  using signed_message_accepted [OF assms] by (force simp: integrity_ok_def)

text \<open>A stand-in for SHA-1 in witnesses: 20 bytes that depend on the input.\<close>

definition toy_sha1 :: "bytes \<Rightarrow> bytes" where
  "toy_sha1 x = take 20 (rev x @ replicate 20 7)"

lemma length_toy_sha1 [simp]: "length (toy_sha1 x) = 20"
  by (simp add: toy_sha1_def)

theorem message_integrity_end_to_end_witness:
  "\<exists>bs m' r' m''.
    msg_write (snd (add_fingerprint (snd (add_message_integrity toy_sha1 sample_request [1, 2])))) []
      = Some bs
    \<and> validate_fingerprint bs = Some True
    \<and> msg_read new_StunMessage (Construct bs) = Some (m', r')
    \<and> validate_message_integrity toy_sha1 m' [1, 2] = Some m'' \<and> integrity_ok m''"
proof -
  have wf: "msg_wf sample_request" by (simp add: sample_request_simps)
  have cls: "list_all attr_class_ok (attrs sample_request)" by (simp add: sample_request_simps)
  have ty: "msg_type sample_request AND 0x0800 = 0" by (simp add: sample_request_simps)
  have nomi: "list_all (\<lambda>a. attr_type a \<noteq> STUN_ATTR_MESSAGE_INTEGRITY) (attrs sample_request)"
    by (simp add: sample_request_simps)
  have room: "attrs_size (attrs sample_request) + 32 < 2 ^ 16" by (simp add: sample_request_simps)
  show ?thesis
    using message_integrity_end_to_end [where ?sha1.0 = toy_sha1 and key = "[1, 2]" and key' = "[1, 2]",
        OF wf cls ty nomi room length_toy_sha1 refl refl] by auto
qed

section \<open>Where the integrity check can leave the packet\<close>

lemma find_mi_cases:
  obtains (outside) "length data < pos + 4" "find_mi data t pos = Some None"
  | (here) "pos + 4 \<le> length data" "find_mi data t pos = Some (Some pos)"
  | (further) pos' where "pos + 4 \<le> length data" "pos < pos'" "find_mi data t pos = find_mi data t pos'"
proof (cases "pos + 4 \<le> length data")
  case True
  then obtain ty l where g: "GetBE16 data pos = Some ty" "GetBE16 data (pos + 2) = Some l"
    using GetBE16_in_bounds [of pos data] GetBE16_in_bounds [of "pos + 2" data] by auto
  show thesis
  proof (cases "ty = t")
    case eq: True
    have "find_mi data t pos = Some (Some pos)"
      using True g eq by (subst find_mi.simps) (simp add: k_stun_attribute_header_size_def)
    with True show thesis by (rule here)
  next
    case False
    have "pos < pos + (4 + pad4 (unat l))" by simp
    from True this find_mi_next [OF g True False] show thesis by (rule further)
  qed
next
  case False
  then have "find_mi data t pos = Some None"
    by (subst find_mi.simps) (simp add: k_stun_attribute_header_size_def)
  with False show thesis by (intro outside) simp_all
qed

lemma find_mi_result:
  "find_mi data t pos = Some None \<or>
    (\<exists>p. find_mi data t pos = Some (Some p) \<and> pos \<le> p \<and> p + 4 \<le> length data)"
proof (induction "length data - pos" arbitrary: pos rule: less_induct)
  case less
  show ?case
  proof (cases rule: find_mi_cases [of data pos t])
    case (further pos')
    then have "length data - pos' < length data - pos" by simp
    from less [OF this] further show ?thesis by auto
  qed auto
qed

lemma find_mi_safe: "find_mi data t pos \<noteq> None"
  using find_mi_result [of data t pos] by auto

lemma find_mi_bounds: "find_mi data t pos = Some (Some p) \<Longrightarrow> pos \<le> p \<and> p + 4 \<le> length data"
  using find_mi_result [of data t pos] by auto

lemma integrity_check_oob_iff:
  assumes "\<And>x. length (sha1 x) = 20"
  shows "validate_message_integrity_of_type sha1 t 20 data key = None \<longleftrightarrow>
    length data mod 4 = 0 \<and> 20 \<le> length data
    \<and> unat (be16_of (take 2 (drop 2 data))) + 20 = length data
    \<and> (\<exists>pos. find_mi data t 20 = Some (Some pos) \<and> length data < pos + 24)"
proof (cases "length data mod 4 = 0 \<and> 20 \<le> length data
    \<and> unat (be16_of (take 2 (drop 2 data))) + 20 = length data")
  case False
  then show ?thesis
    by (auto simp: validate_message_integrity_of_type_def stun_size_defs GetBE16_def Let_def)
next
  case True
  then have len: "GetBE16 data 2 = Some (be16_of (take 2 (drop 2 data)))"
    by (simp add: GetBE16_def)
  obtain f where f: "find_mi data t 20 = Some f" using find_mi_safe by blast
  show ?thesis
  proof (cases f)
    case None
    with True len f show ?thesis
      by (simp add: validate_message_integrity_of_type_def stun_size_defs)
  next
    case (Some pos)
    with f have pos: "20 \<le> pos" "pos + 4 \<le> length data"
      using find_mi_bounds [of data t 20 pos] by auto
    have hm: "\<exists>h. ComputeHmac sha1 key d 20 = Some h \<and> length h = 20" for d
      using ComputeHmac_length [of sha1 20, OF assms] by simp
    show ?thesis
    proof (cases "length data < pos + 24")
      case oob: True
      then have "\<not> pos + 24 < length data" "mem_read data (pos + 4) 20 = None" by simp_all
      moreover obtain h where "ComputeHmac sha1 key (take pos data) 20 = Some h" "length h = 20"
        using hm by blast
      ultimately show ?thesis using True len f Some pos oob
        by (simp add: validate_message_integrity_of_type_def stun_size_defs)
    next
      case False
      then have rd: "mem_read data (pos + 4) 20 = Some (take 20 (drop (pos + 4) data))" by simp
      have "2 + 2 \<le> length (take pos data)" using pos by simp
      then have "(if pos + 24 < length data
          then SetBE16 (take pos data) 2 (of_nat (length data - (length data - (pos + 24)) - 20))
          else Some (take pos data)) \<noteq> None"
        by (simp add: SetBE16_def)
      then obtain d where d: "(if pos + 24 < length data
          then SetBE16 (take pos data) 2 (of_nat (length data - (length data - (pos + 24)) - 20))
          else Some (take pos data)) = Some d"
        by blast
      obtain h where h: "ComputeHmac sha1 key d 20 = Some h" "length h = 20" using hm by blast
      have "validate_message_integrity_of_type sha1 t 20 data key = Some (take 20 (drop (pos + 4) data) = h)"
        using True len f Some pos rd d h
        by (cases "pos + 24 < length data")
          (simp_all add: validate_message_integrity_of_type_def stun_size_defs del: of_nat_diff)
      then show ?thesis using False f Some by simp
    qed
  qed
qed

text \<open>
  C25. The only access of the integrity check that can leave the packet is the final comparison:
  it does so exactly when the MESSAGE-INTEGRITY attribute it found starts fewer than 24 bytes
  before the end, because the length of that attribute is never checked.
\<close>

theorem integrity_check_out_of_bounds_iff:
  assumes "\<And>x. length (sha1 x) = 20"
  shows "validate_message_integrity_of_type sha1 t 20 data key = None \<longleftrightarrow>
    length data mod 4 = 0 \<and> 20 \<le> length data
    \<and> unat (be16_of (take 2 (drop 2 data))) + 20 = length data
    \<and> (\<exists>pos. find_mi data t 20 = Some (Some pos) \<and> length data < pos + 24)"
  using assms by (rule integrity_check_oob_iff)

definition truncated_mi_packet :: bytes where
  "truncated_mi_packet = be16_split 1 @ be16_split 4 @ be32_split k_stun_magic_cookie
     @ replicate 12 0 @ be16_split STUN_ATTR_MESSAGE_INTEGRITY @ be16_split 0"

theorem integrity_check_out_of_bounds_iff_witness:
  "validate_message_integrity_of_type toy_sha1 STUN_ATTR_MESSAGE_INTEGRITY 20
     truncated_mi_packet [] = None"
proof -
  let ?hdr = "be16_split 1 @ be16_split 4 @ be32_split k_stun_magic_cookie @ replicate 12 0"
  have "find_mi truncated_mi_packet STUN_ATTR_MESSAGE_INTEGRITY (length ?hdr) = Some (Some (length ?hdr))"
    by (rule find_mi_here [of _ _ _ 0 "[]"]) (simp add: truncated_mi_packet_def)
  moreover have "length truncated_mi_packet = 24"
    by (simp add: truncated_mi_packet_def)
  moreover have "be16_of (take 2 (drop 2 truncated_mi_packet)) = 4"
    by (simp add: truncated_mi_packet_def)
  ultimately show ?thesis
    by (subst integrity_check_out_of_bounds_iff) simp_all
qed

section \<open>What a parsed message looks like\<close>

text \<open>The attributes the parser produces: byte strings and 32-bit values of the known types.\<close>

fun parsed_attr :: "StunAttribute \<Rightarrow> bool" where
  "parsed_attr (StunByteStringAttribute t l bs) =
     ((t = STUN_ATTR_USERNAME \<or> t = STUN_ATTR_MESSAGE_INTEGRITY) \<and> length bs = unat l)"
| "parsed_attr (StunUInt32Attribute t l v) = (t = STUN_ATTR_PRIORITY \<and> l = 4)"
| "parsed_attr _ = False"

lemma create_attribute_SomeD:
  "create_attribute t l = Some a \<Longrightarrow>
    (a = StunByteStringAttribute t l [] \<and> (t = STUN_ATTR_USERNAME \<or> t = STUN_ATTR_MESSAGE_INTEGRITY))
    \<or> (a = StunUInt32Attribute t 4 0 \<and> t = STUN_ATTR_PRIORITY)"
  by (auto simp: create_attribute_def StunAttribute_create_def get_attribute_value_type_def Let_def
      split: if_splits)

lemma consume_padding_inv: "reader_inv r \<Longrightarrow> reader_inv (consume_padding l r)"
  by (auto simp: consume_padding_def Let_def split: option.split dest: bbr.consume_SomeE)

lemma attr_read_parsed:
  assumes "create_attribute t l = Some a" and "attr_read a r = Some (a', r')" and "reader_inv r"
  shows "parsed_attr a' \<and> reader_inv r'"
proof -
  consider (str) "a = StunByteStringAttribute t l []"
      "t = STUN_ATTR_USERNAME \<or> t = STUN_ATTR_MESSAGE_INTEGRITY"
    | (u32) "a = StunUInt32Attribute t 4 0" "t = STUN_ATTR_PRIORITY"
    using create_attribute_SomeD [OF assms(1)] by blast
  then show ?thesis
  proof cases
  case str
  obtain bs r1 where rb: "ReadBytes r (unat l) = Some (bs, r1)"
    and res: "a' = StunByteStringAttribute t l bs" "r' = consume_padding l r1"
    using assms(2) str(1) by (auto split: option.splits)
  from bbr.read_bytes_SomeE [OF assms(3) rb] have "length bs = unat l" "reader_inv r1" by simp_all
  with res str(2) show ?thesis by (auto simp: consume_padding_inv)
next
  case u32
  obtain bs where rb: "ReadBytes r 4 = Some (bs, r')" and "a' = StunUInt32Attribute t 4 (be32_of bs)"
    using assms(2) u32(1) by (auto simp: ReadUInt32_def split: option.splits)
  with bbr.read_bytes_SomeE [OF assms(3) rb] u32(2) show ?thesis by auto
  qed
qed

lemma ReadUInt16_inv: "ReadUInt16 r = Some (v, r') \<Longrightarrow> reader_inv r \<Longrightarrow> reader_inv r'"
  by (auto simp: ReadUInt16_def dest: bbr.read_bytes_SomeE)

lemma read_attrs_parsed:
  "read_attrs r acc = Some (as, r') \<Longrightarrow> reader_inv r \<Longrightarrow> list_all parsed_attr acc \<Longrightarrow>
    list_all parsed_attr as \<and> Length r' = 0"
proof (induction r acc rule: read_attrs.induct)
  case (1 r acc)
  show ?case
  proof (cases "Length r > 0")
    case False
    with "1.prems" show ?thesis by (subst (asm) read_attrs.simps) simp
  next
    case True
    with "1.prems"(1) obtain t r1 l r2 where
      hd: "ReadUInt16 r = Some (t, r1)" "ReadUInt16 r1 = Some (l, r2)"
      by (subst (asm) read_attrs.simps) (auto split: option.splits)
    have inv: "reader_inv r2" using hd "1.prems"(2) by (blast intro: ReadUInt16_inv)
    note eq = "1.prems"(1) [unfolded read_attrs.simps [of r acc]]
    show ?thesis
    proof (cases "create_attribute t l")
      case None
      with eq True hd obtain r3 where "Consume r2 (unat (pad_u16 l)) = Some r3"
        "read_attrs r3 acc = Some (as, r')"
        by (auto split: option.splits)
      with "1.IH"(1) [OF True hd(1) refl hd(2) refl None] inv "1.prems"(3) show ?thesis
        by (auto dest: bbr.consume_SomeE)
    next
      case (Some a)
      with eq True hd obtain a' r3 where "attr_read a r2 = Some (a', r3)"
        "read_attrs r3 (acc @ [a']) = Some (as, r')"
        by (auto split: option.splits)
      with "1.IH"(2) [OF True hd(1) refl hd(2) refl Some] attr_read_parsed [OF Some _ inv]
        "1.prems"(3) show ?thesis by auto
    qed
  qed
qed

lemma msg_read_parsed:
  assumes "msg_read m (Construct bs) = Some (m', r')"
  shows "list_all parsed_attr (attrs m')" and "Length r' = 0" and "msg_buffer m' = bs"
proof -
  obtain t l c tid r1 r2 r3 r4 where
    rd: "ReadUInt16 (Construct bs) = Some (t, r1)" "ReadUInt16 r1 = Some (l, r2)"
      "ReadString r2 4 = Some (c, r3)" "ReadString r3 12 = Some (tid, r4)"
    and at: "read_attrs r4 [] = Some (attrs m', r')" and buf: "msg_buffer m' = bs"
    using assms by (auto simp: msg_read_def stun_size_defs Let_def bind_eq_Some_conv split: if_splits)
  from rd have "reader_inv r4"
    by (metis ReadUInt16_inv bbs.read_bytes_SomeE reader_inv_Construct)
  then show "list_all parsed_attr (attrs m')" "Length r' = 0"
    using read_attrs_parsed [OF at] by auto
  show "msg_buffer m' = bs" by (fact buf)
qed

lemma parsed_attr_type: "parsed_attr a \<Longrightarrow> attr_type a \<in>
    {STUN_ATTR_USERNAME, STUN_ATTR_MESSAGE_INTEGRITY, STUN_ATTR_PRIORITY}"
  by (cases a) auto

lemma get_attribute_parsed:
  "list_all parsed_attr (attrs m) \<Longrightarrow> get_attribute m t = Some a \<Longrightarrow> parsed_attr a \<and> attr_type a = t"
  by (auto simp: get_attribute_def find_Some_iff list_all_length)

lemma sample_request_parses:
  "\<exists>m' r'. msg_read new_StunMessage (Construct (msg_wire sample_request)) = Some (m', r')
    \<and> attrs m' = filter attr_known (attrs sample_request)"
  using msg_read_wire [of sample_request new_StunMessage] by (auto simp: sample_request_simps)

text \<open>
  C26. Cast safety: in every message the parser accepts, the object that
  \<open>get_uint32\<close> returns for PRIORITY is a 32-bit attribute and the one that
  \<open>get_byte_string\<close> returns for USERNAME or MESSAGE-INTEGRITY is a byte string with
  exactly as many bytes as its length says, so the unchecked downcasts of the source are sound
  and \<open>get_string\<close> reads only initialised bytes; all input has been consumed.
\<close>

theorem parsed_casts_sound:
  assumes "msg_read m (Construct bs) = Some (m', r')"
  shows "(\<forall>a. get_uint32 m' STUN_ATTR_PRIORITY = Some a \<longrightarrow> is_StunUInt32Attribute a)
    \<and> (\<forall>t a. t = STUN_ATTR_USERNAME \<or> t = STUN_ATTR_MESSAGE_INTEGRITY \<longrightarrow>
        get_byte_string m' t = Some a \<longrightarrow>
        is_StunByteStringAttribute a \<and> length (attr_bytes a) = unat (attr_length a))
    \<and> Length r' = 0"
proof -
  note parsed = msg_read_parsed [OF assms]
  have "is_StunUInt32Attribute a" if "get_uint32 m' STUN_ATTR_PRIORITY = Some a" for a
    using get_attribute_parsed [OF parsed(1), of STUN_ATTR_PRIORITY a] that
    by (cases a) (auto simp: get_uint32_def stun_attr_type_defs)
  moreover have "is_StunByteStringAttribute a \<and> length (attr_bytes a) = unat (attr_length a)"
    if "t = STUN_ATTR_USERNAME \<or> t = STUN_ATTR_MESSAGE_INTEGRITY" "get_byte_string m' t = Some a" for t a
    using get_attribute_parsed [OF parsed(1), of t a] that
    by (cases a) (auto simp: get_byte_string_def stun_attr_type_defs)
  ultimately show ?thesis using parsed(2) by blast
qed

theorem parsed_casts_sound_witness:
  "\<exists>m' r' a. msg_read new_StunMessage (Construct (msg_wire sample_request)) = Some (m', r')
    \<and> get_uint32 m' STUN_ATTR_PRIORITY = Some a \<and> is_StunUInt32Attribute a \<and> Length r' = 0"
proof -
  obtain m' r' where rd: "msg_read new_StunMessage (Construct (msg_wire sample_request)) = Some (m', r')"
    "attrs m' = filter attr_known (attrs sample_request)"
    using sample_request_parses by blast
  have "get_uint32 m' STUN_ATTR_PRIORITY = Some (new_uint32 STUN_ATTR_PRIORITY 0x6e7f1eff)"
    by (simp add: get_uint32_def get_attribute_def rd(2) sample_request_simps)
  with parsed_casts_sound [OF rd(1)] rd(1) show ?thesis by blast
qed

lemma parsed_error_code:
  assumes "msg_read m (Construct bs) = Some (m', r')"
  shows "get_error_code_value m' = 600"
proof -
  have "get_error_code m' = None"
    using get_attribute_parsed [OF msg_read_parsed(1) [OF assms], of STUN_ATTR_ERROR_CODE]
      parsed_attr_type
    by (cases "get_error_code m'") (fastforce simp: get_error_code_def stun_attr_type_defs)+
  then show ?thesis by (simp add: get_error_code_value_def stun_error_defs)
qed

text \<open>
  The ERROR-CODE attribute is not among the types the parser knows, so for every received
  message \<open>get_error_code_value\<close> is 600: the 401, 420 and 500 codes for which
  \<open>on_connection_request_error_response\<close> means to keep the connection are never seen.
\<close>

theorem parsed_error_code_is_600:
  assumes "msg_read m (Construct bs) = Some (m', r')"
  shows "get_error_code_value m' = 600"
  using assms by (rule parsed_error_code)

theorem parsed_error_code_is_600_witness:
  "\<exists>m' r'. msg_read new_StunMessage (Construct (msg_wire sample_request)) = Some (m', r')
    \<and> get_error_code_value m' = 600"
proof -
  obtain m' r' where rd: "msg_read new_StunMessage (Construct (msg_wire sample_request)) = Some (m', r')"
    using sample_request_parses by blast
  with parsed_error_code_is_600 [OF rd] show ?thesis by blast
qed

text \<open>
  The response types computed from a binding request are the two that
  \<open>on_read_packet\<close> accepts as answers, and neither is itself a request type.
\<close>

theorem stun_response_types:
  "get_stun_success_response (uint STUN_BINDING_REQUEST) = uint STUN_BINDING_RESPONSE
   \<and> get_stun_error_response (uint STUN_BINDING_REQUEST) = uint STUN_BINDING_ERROR_RESPONSE
   \<and> \<not> is_stun_request_type (get_stun_success_response (uint STUN_BINDING_REQUEST))
   \<and> \<not> is_stun_request_type (get_stun_error_response (uint STUN_BINDING_REQUEST))"
  by (simp add: get_stun_success_response_def get_stun_error_response_def is_stun_request_type_def
      k_stun_type_mask_def stun_msg_type_defs)

end
