(* ===== verification/Ip_Address.thy ===== *)
theory Ip_Address
  imports Stun
begin

text \<open>
  Address classification of \<^verbatim>\<open>rtc_base/ip_address.cc\<close>, on which the choice of
  network interfaces (\<^verbatim>\<open>base/network.cpp\<close>) and the candidate priority
  (\<^verbatim>\<open>ice/candidate.cpp\<close>) rest, and the interface filter itself.
\<close>

section \<open>Classification\<close>

text \<open>
  The \<^verbatim>\<open>in6_addr\<close> of an address; for an address that is not IPv6 the source
  reads the zero-initialised union or, for IPv4, the union with the four address bytes first.
\<close>

definition ipv6_address :: "IPAddress \<Rightarrow> bytes" where
  "ipv6_address ip = (case ip of IPv6 bs \<Rightarrow> bs
     | IPv4 a \<Rightarrow> be32_split a @ replicate 12 0 | IPUnspec \<Rightarrow> replicate 16 0)"

definition v4AddressAsHostOrderInteger :: "IPAddress \<Rightarrow> u32" where
  "v4AddressAsHostOrderInteger ip = (case ip of IPv4 a \<Rightarrow> a | _ \<Rightarrow> 0)"

definition kV4MappedPrefix :: bytes where "kV4MappedPrefix = replicate 10 0 @ [0xFF, 0xFF, 0, 0, 0, 0]"
definition k6To4Prefix :: bytes where "k6To4Prefix = [0x20, 0x02] @ replicate 14 0"
definition kTeredoPrefix :: bytes where "kTeredoPrefix = [0x20, 0x01] @ replicate 14 0"
definition kV4CompatibilityPrefix :: bytes where "kV4CompatibilityPrefix = replicate 16 0"
definition k6BonePrefix :: bytes where "k6BonePrefix = [0x3f, 0xfe] @ replicate 14 0"
definition kPrivateNetworkPrefix :: bytes where "kPrivateNetworkPrefix = [0xFD] @ replicate 15 0"

definition IPIsHelper :: "IPAddress \<Rightarrow> bytes \<Rightarrow> nat \<Rightarrow> bool" where
  "IPIsHelper ip tomatch len \<longleftrightarrow> take (len div 8) (ipv6_address ip) = take (len div 8) tomatch"

definition IPIs6Bone :: "IPAddress \<Rightarrow> bool" where "IPIs6Bone ip = IPIsHelper ip k6BonePrefix 16"
definition IPIs6To4 :: "IPAddress \<Rightarrow> bool" where "IPIs6To4 ip = IPIsHelper ip k6To4Prefix 16"
definition IPIsTeredo :: "IPAddress \<Rightarrow> bool" where "IPIsTeredo ip = IPIsHelper ip kTeredoPrefix 32"
definition IPIsV4Compatibility :: "IPAddress \<Rightarrow> bool" where
  "IPIsV4Compatibility ip = IPIsHelper ip kV4CompatibilityPrefix 96"
definition IPIsV4Mapped :: "IPAddress \<Rightarrow> bool" where
  "IPIsV4Mapped ip = IPIsHelper ip kV4MappedPrefix 96"

definition IPIsSiteLocal :: "IPAddress \<Rightarrow> bool" where
  "IPIsSiteLocal ip \<longleftrightarrow> ipv6_address ip ! 0 = 0xFE \<and> (ipv6_address ip ! 1) AND 0xC0 = 0xC0"

definition IPIsULA :: "IPAddress \<Rightarrow> bool" where
  "IPIsULA ip \<longleftrightarrow> (ipv6_address ip ! 0) AND 0xFE = 0xFC"

definition IPIsLoopbackV4 :: "IPAddress \<Rightarrow> bool" where
  "IPIsLoopbackV4 ip \<longleftrightarrow> drop_bit 24 (v4AddressAsHostOrderInteger ip) = 127"

definition IPIsLoopbackV6 :: "IPAddress \<Rightarrow> bool" where
  "IPIsLoopbackV6 ip \<longleftrightarrow> ip = IPv6 (replicate 15 0 @ [1])"

definition IPIsLoopback :: "IPAddress \<Rightarrow> bool" where
  "IPIsLoopback ip = (case ip of IPv4 _ \<Rightarrow> IPIsLoopbackV4 ip | IPv6 _ \<Rightarrow> IPIsLoopbackV6 ip
     | IPUnspec \<Rightarrow> False)"

definition IPIsPrivateNetworkV4 :: "IPAddress \<Rightarrow> bool" where
  "IPIsPrivateNetworkV4 ip =
     (let ip_in_host_order = v4AddressAsHostOrderInteger ip
      in drop_bit 24 ip_in_host_order = 10
       \<or> drop_bit 20 ip_in_host_order = (push_bit 4 172 OR 1)
       \<or> drop_bit 16 ip_in_host_order = (push_bit 8 192 OR 168))"

definition IPIsPrivateNetworkV6 :: "IPAddress \<Rightarrow> bool" where
  "IPIsPrivateNetworkV6 ip = IPIsHelper ip kPrivateNetworkPrefix 8"

definition IPIsPrivateNetwork :: "IPAddress \<Rightarrow> bool" where
  "IPIsPrivateNetwork ip = (case ip of IPv4 _ \<Rightarrow> IPIsPrivateNetworkV4 ip
     | IPv6 _ \<Rightarrow> IPIsPrivateNetworkV6 ip | IPUnspec \<Rightarrow> False)"

definition IPAddressPrecedence :: "IPAddress \<Rightarrow> int" where
  "IPAddressPrecedence ip = (case ip of
     IPv4 _ \<Rightarrow> 30
   | IPv6 _ \<Rightarrow>
       if IPIsLoopback ip then 60
       else if IPIsULA ip then 50
       else if IPIsV4Mapped ip then 30
       else if IPIs6To4 ip then 20
       else if IPIsTeredo ip then 10
       else if IPIsV4Compatibility ip \<or> IPIsSiteLocal ip \<or> IPIs6Bone ip then 1
       else 40
   | IPUnspec \<Rightarrow> 0)"

section \<open>Network interfaces\<close>

record Network =
  net_name :: string
  net_ip :: IPAddress

text \<open>
  \<^verbatim>\<open>NetworkManager::create_networks\<close> over the interface list that
  \<^verbatim>\<open>getifaddrs\<close> returned: names and socket addresses, where an address that is not
  IPv4 has a family other than \<^verbatim>\<open>AF_INET\<close> and \<open>None\<close> is the null
  \<^verbatim>\<open>ifa_addr\<close> of an interface without an address, which the loop dereferences.
  The outer \<open>None\<close> of the argument is the failure of \<^verbatim>\<open>getifaddrs\<close>.
\<close>

type_synonym ifaddrs = "(string \<times> IPAddress option) list"

fun gather_networks :: "ifaddrs \<Rightarrow> Network list \<Rightarrow> Network list option" where
  "gather_networks [] network_list = Some network_list"
| "gather_networks ((ifa_name, None) # cur) network_list = None"
| "gather_networks ((ifa_name, Some ip) # cur) network_list =
     (case ip of
        IPv4 _ \<Rightarrow>
          if IPIsPrivateNetwork ip \<or> IPIsLoopback ip then gather_networks cur network_list
          else gather_networks cur (network_list @ [\<lparr>net_name = ifa_name, net_ip = ip\<rparr>])
      | _ \<Rightarrow> gather_networks cur network_list)"

definition create_networks :: "ifaddrs option \<Rightarrow> Network list \<Rightarrow> (int \<times> Network list) option" where
  "create_networks iface network_list = (case iface of None \<Rightarrow> Some (-1, network_list)
     | Some l \<Rightarrow> map_option (Pair 0) (gather_networks l network_list))"

section \<open>Properties\<close>

lemma drop_bit_eq_iff_range:
  fixes a :: u32
  assumes "k < 32" and "c < 2 ^ (32 - k)"
  shows "drop_bit k a = of_nat c \<longleftrightarrow> c * 2 ^ k \<le> unat a \<and> unat a < (c + 1) * 2 ^ k"
proof -
  have "c < 2 ^ 32"
    using assms(2) power_increasing [of "32 - k" 32 "2 :: nat"] by simp
  then have c: "unat (of_nat c :: u32) = c"
    by (simp add: unat_of_nat take_bit_nat_eq_self)
  have "drop_bit k a = of_nat c \<longleftrightarrow> unat (drop_bit k a) = c"
    using c by (metis unsigned_word_eqI)
  also have "unat (drop_bit k a) = unat a div 2 ^ k"
    unfolding unat_drop_bit_eq by (rule drop_bit_eq_div)
  also have "unat a div 2 ^ k = c \<longleftrightarrow> c * 2 ^ k \<le> unat a \<and> unat a < (c + 1) * 2 ^ k"
    using dividend_less_div_times [of "2 ^ k" "unat a"] div_times_less_eq_dividend [of "unat a" "2 ^ k"]
    by (auto simp: algebra_simps intro!: div_nat_eqI)
  finally show ?thesis .
qed

text \<open>
  The server gathers exactly the interfaces with a public IPv4 address: none of the
  gathered addresses is in 10.0.0.0/8, 172.16.0.0/12, 192.168.0.0/16 or 127.0.0.0/8, every
  IPv4 interface outside these ranges is gathered, and the list keeps the system's order.  An
  interface without an address makes it follow a null pointer.
\<close>

theorem create_networks_public_v4:
  "create_networks (Some l) nets =
    (if \<exists>n. (n, None) \<in> set l then None
     else Some (0, nets @ map (\<lambda>(n, ip). \<lparr>net_name = n, net_ip = the ip\<rparr>)
      (filter (\<lambda>(n, ip). \<exists>a. ip = Some (IPv4 a)
        \<and> unat a \<notin> {10 * 2 ^ 24 ..< 11 * 2 ^ 24}
        \<and> unat a \<notin> {2753 * 2 ^ 20 ..< 2754 * 2 ^ 20}
        \<and> unat a \<notin> {49320 * 2 ^ 16 ..< 49321 * 2 ^ 16}
        \<and> unat a \<notin> {127 * 2 ^ 24 ..< 128 * 2 ^ 24}) l)))"
proof -
  have r: "drop_bit 24 a = 10 \<longleftrightarrow> unat a \<in> {10 * 2 ^ 24 ..< 11 * 2 ^ 24}"
    "drop_bit 24 a = 127 \<longleftrightarrow> unat a \<in> {127 * 2 ^ 24 ..< 128 * 2 ^ 24}"
    "drop_bit 20 a = 2753 \<longleftrightarrow> unat a \<in> {2753 * 2 ^ 20 ..< 2754 * 2 ^ 20}"
    "drop_bit 16 a = 49320 \<longleftrightarrow> unat a \<in> {49320 * 2 ^ 16 ..< 49321 * 2 ^ 16}" for a :: u32
    using drop_bit_eq_iff_range [of 24 10 a] drop_bit_eq_iff_range [of 24 127 a]
      drop_bit_eq_iff_range [of 20 2753 a] drop_bit_eq_iff_range [of 16 49320 a] by simp_all
  have c: "push_bit 4 172 OR 1 = (2753 :: u32)" "push_bit 8 192 OR 168 = (49320 :: u32)"
    by simp_all
  have "gather_networks l nets = (if \<exists>n. (n, None) \<in> set l then None
      else Some (nets @ map (\<lambda>(n, ip). \<lparr>net_name = n, net_ip = the ip\<rparr>)
        (filter (\<lambda>(n, ip). \<exists>a. ip = Some (IPv4 a)
          \<and> unat a \<notin> {10 * 2 ^ 24 ..< 11 * 2 ^ 24}
          \<and> unat a \<notin> {2753 * 2 ^ 20 ..< 2754 * 2 ^ 20}
          \<and> unat a \<notin> {49320 * 2 ^ 16 ..< 49321 * 2 ^ 16}
          \<and> unat a \<notin> {127 * 2 ^ 24 ..< 128 * 2 ^ 24}) l)))"
    by (induction l nets rule: gather_networks.induct)
      (auto simp: IPIsPrivateNetwork_def IPIsPrivateNetworkV4_def IPIsLoopback_def
        IPIsLoopbackV4_def v4AddressAsHostOrderInteger_def c r Let_def
        simp del: atLeastLessThan_iff split: IPAddress.split)
  then show ?thesis by (simp add: create_networks_def)
qed

lemma IPAddressPrecedence_range: "0 \<le> IPAddressPrecedence ip" "IPAddressPrecedence ip \<le> 60"
  by (auto simp: IPAddressPrecedence_def split: IPAddress.split)

end
