(* ===== verification/Ice_Connection.thy ===== *)
theory Ice_Connection
  imports Ip_Address Stun_Codec
begin

text \<open>
  Data of the ICE layer and the parts of a connection that do not call back into its owner:
  \<^verbatim>\<open>ice/ice_def.h\<close>, \<^verbatim>\<open>ice/candidate.cpp\<close>,
  \<^verbatim>\<open>ice/ice_credentials.cpp\<close>, \<^verbatim>\<open>ice/stun_request.cpp\<close> and
  \<^verbatim>\<open>ice/ice_connection.cpp\<close>.  A method that may raise
  \<^verbatim>\<open>signal_state_change\<close> returns the changed connection and whether the signal
  was raised at its end; theory \<^verbatim>\<open>Ice_Channel\<close> delivers the signal.
\<close>

section \<open>Constants\<close>

definition ICE_UFRAG_LENGTH :: nat where "ICE_UFRAG_LENGTH = 4"
definition ICE_PWD_LENGTH :: nat where "ICE_PWD_LENGTH = 24"
definition STUN_PACKET_SIZE :: int where "STUN_PACKET_SIZE = 60 * 8"
definition WEAK_PING_INTERVAL :: int where
  "WEAK_PING_INTERVAL = c_div (1000 * STUN_PACKET_SIZE) 10000"
definition STRONG_PING_INTERVAL :: int where
  "STRONG_PING_INTERVAL = c_div (1000 * STUN_PACKET_SIZE) 1000"
definition STABLING_CONNECTION_PING_INTERVAL :: int where "STABLING_CONNECTION_PING_INTERVAL = 900"
definition STABLE_CONNECTION_PING_INTERVAL :: int where "STABLE_CONNECTION_PING_INTERVAL = 2500"
definition MIN_PINGS_AT_WEAK_PING_INTERVAL :: int where "MIN_PINGS_AT_WEAK_PING_INTERVAL = 3"
definition WEAK_CONNECTION_RECEIVE_TIMEOUT :: int where "WEAK_CONNECTION_RECEIVE_TIMEOUT = 2500"
definition CONNECTION_WRITE_CONNECT_FAILS :: nat where "CONNECTION_WRITE_CONNECT_FAILS = 5"
definition CONNECTION_WRITE_CONNECT_TIMEOUT :: int where "CONNECTION_WRITE_CONNECT_TIMEOUT = 5000"
definition CONNECTION_WRITE_TIMEOUT :: int where "CONNECTION_WRITE_TIMEOUT = 15000"
definition RTT_RATIO :: int where "RTT_RATIO = 3"
definition MIN_RTT :: int where "MIN_RTT = 100"
definition MAX_RTT :: int where "MAX_RTT = 60000"

lemmas ice_constants =
  STUN_PACKET_SIZE_def WEAK_PING_INTERVAL_def STRONG_PING_INTERVAL_def
  STABLING_CONNECTION_PING_INTERVAL_def STABLE_CONNECTION_PING_INTERVAL_def
  MIN_PINGS_AT_WEAK_PING_INTERVAL_def WEAK_CONNECTION_RECEIVE_TIMEOUT_def
  CONNECTION_WRITE_CONNECT_FAILS_def CONNECTION_WRITE_CONNECT_TIMEOUT_def
  CONNECTION_WRITE_TIMEOUT_def RTT_RATIO_def MIN_RTT_def MAX_RTT_def c_div_def

section \<open>Candidates and credentials\<close>

datatype IceCandidateComponent = RTP | RTCP

fun component_code :: "IceCandidateComponent \<Rightarrow> int" where
  "component_code RTP = 1"
| "component_code RTCP = 2"

datatype IcePriorityValue = ICE_TYPE_PREFERENCE_RELAY_UDP | ICE_TYPE_PREFERENCE_SRFLX
  | ICE_TYPE_PREFERENCE_PRFLX | ICE_TYPE_PREFERENCE_HOST

fun type_preference_code :: "IcePriorityValue \<Rightarrow> u32" where
  "type_preference_code ICE_TYPE_PREFERENCE_RELAY_UDP = 2"
| "type_preference_code ICE_TYPE_PREFERENCE_SRFLX = 100"
| "type_preference_code ICE_TYPE_PREFERENCE_PRFLX = 110"
| "type_preference_code ICE_TYPE_PREFERENCE_HOST = 126"

definition LOCAL_PORT_TYPE :: bytes where "LOCAL_PORT_TYPE = bytes_of ''host''"
definition PRFLX_PORT_TYPE :: bytes where "PRFLX_PORT_TYPE = bytes_of ''prflx''"

record IceParameters =
  ice_ufrag :: bytes
  ice_pwd :: bytes

record Candidate =
  cand_component :: IceCandidateComponent
  cand_protocol :: bytes
  cand_address :: SocketAddress
  cand_port :: int
  cand_priority :: u32
  cand_username :: bytes
  cand_password :: bytes
  cand_type :: bytes
  cand_foundation :: bytes

definition get_priority :: "Candidate \<Rightarrow> u32 \<Rightarrow> int \<Rightarrow> int \<Rightarrow> u32" where
  "get_priority c type_preference network_adapter_preference relay_preference =
     (let addr_ref = IPAddressPrecedence (ipaddr (cand_address c));
          local_pref = (push_bit 8 network_adapter_preference OR addr_ref) + relay_preference
      in push_bit 24 type_preference OR of_int (push_bit 8 local_pref)
         OR of_int (256 - component_code (cand_component c)))"

definition kBase64 :: bytes where
  "kBase64 = bytes_of ''ABCDEFGHIJKLMNOPQRSTUVWXYZabcdefghijklmnopqrstuvwxyz0123456789+/''"

text \<open>\<open>rng n\<close> stands for the \<open>n\<close> bytes the random generator fills in.\<close>

definition CreateRandomString :: "(nat \<Rightarrow> bytes) \<Rightarrow> nat \<Rightarrow> bytes" where
  "CreateRandomString rng len = map (\<lambda>b. kBase64 ! (unat b mod 64)) (rng len)"

definition create_random_ice_credentials :: "(nat \<Rightarrow> bytes) \<Rightarrow> (nat \<Rightarrow> bytes) \<Rightarrow> IceParameters" where
  "create_random_ice_credentials rng rng' =
     \<lparr>ice_ufrag = CreateRandomString rng ICE_UFRAG_LENGTH,
      ice_pwd = CreateRandomString rng' ICE_PWD_LENGTH\<rparr>"

section \<open>The state of a connection\<close>

datatype WriteState = STATE_WRITABLE | STATE_WRITE_UNRELIABLE | STATE_WRITE_INIT | STATE_WRITE_TIMEOUT

fun write_code :: "WriteState \<Rightarrow> nat" where
  "write_code STATE_WRITABLE = 0"
| "write_code STATE_WRITE_UNRELIABLE = 1"
| "write_code STATE_WRITE_INIT = 2"
| "write_code STATE_WRITE_TIMEOUT = 3"

text \<open>The enumeration is compared by its numeric values.\<close>

lemma write_code_inj: "write_code a = write_code b \<longleftrightarrow> a = b"
  by (cases a; cases b) simp_all

instantiation WriteState :: linorder
begin

definition less_eq_WriteState :: "WriteState \<Rightarrow> WriteState \<Rightarrow> bool" where
  "less_eq_WriteState a b \<longleftrightarrow> write_code a \<le> write_code b"

definition less_WriteState :: "WriteState \<Rightarrow> WriteState \<Rightarrow> bool" where
  "less_WriteState a b \<longleftrightarrow> write_code a < write_code b"

instance
  by standard (auto simp: less_eq_WriteState_def less_WriteState_def write_code_inj)

end

datatype IceCandidatePairState = WAITING | IN_PROGRESS | SUCCEEDED | FAILED

record SentPing =
  ping_id :: bytes
  sent_time :: int

record StunRequest =
  rq_msg :: StunMessage
  rq_ts :: int

type_synonym StunRequestManager = "bytes \<rightharpoonup> StunRequest"

record IceConnection =
  conn_port :: nat
  remote_candidate :: Candidate
  conn_write_state :: WriteState
  conn_receiving :: bool
  conn_selected :: bool
  last_ping_sent :: int
  last_ping_received :: int
  last_ping_response_received :: int
  last_data_received :: int
  num_pings_sent :: int
  pings_since_last_response :: "SentPing list"
  conn_requests :: StunRequestManager
  conn_rtt :: int
  rtt_samples :: int
  conn_state :: IceCandidatePairState

definition new_IceConnection :: "nat \<Rightarrow> Candidate \<Rightarrow> IceConnection" where
  "new_IceConnection p cand = \<lparr>conn_port = p, remote_candidate = cand,
     conn_write_state = STATE_WRITE_INIT, conn_receiving = False, conn_selected = False,
     last_ping_sent = 0, last_ping_received = 0, last_ping_response_received = 0,
     last_data_received = 0, num_pings_sent = 0, pings_since_last_response = [],
     conn_requests = Map.empty, conn_rtt = 3000, rtt_samples = 0, conn_state = WAITING\<rparr>"

section \<open>Queries\<close>

definition conn_writable :: "IceConnection \<Rightarrow> bool" where
  "conn_writable c \<longleftrightarrow> conn_write_state c = STATE_WRITABLE"

definition conn_weak :: "IceConnection \<Rightarrow> bool" where
  "conn_weak c \<longleftrightarrow> \<not> (conn_writable c \<and> conn_receiving c)"

definition conn_active :: "IceConnection \<Rightarrow> bool" where
  "conn_active c \<longleftrightarrow> conn_write_state c \<noteq> STATE_WRITE_TIMEOUT"

definition last_received :: "IceConnection \<Rightarrow> int" where
  "last_received c = max (max (last_ping_received c) (last_ping_response_received c))
     (last_data_received c)"

definition receiving_timeout :: int where
  "receiving_timeout = WEAK_CONNECTION_RECEIVE_TIMEOUT"

definition miss_response :: "int \<Rightarrow> IceConnection \<Rightarrow> bool" where
  "miss_response now c = (case pings_since_last_response c of [] \<Rightarrow> False
     | p # _ \<Rightarrow> let waiting = c_int (now - sent_time p) in waiting > c_int (2 * conn_rtt c))"

definition conn_stable :: "int \<Rightarrow> IceConnection \<Rightarrow> bool" where
  "conn_stable now c \<longleftrightarrow> rtt_samples c > RTT_RATIO + 1 \<and> \<not> miss_response now c"

text \<open>
  \<^verbatim>\<open>_too_many_ping_fails\<close> keeps the expected time of the response, a 64-bit
  number of milliseconds, in an \<^verbatim>\<open>int\<close>.
\<close>

definition too_many_ping_fails :: "nat \<Rightarrow> int \<Rightarrow> int \<Rightarrow> IceConnection \<Rightarrow> bool" where
  "too_many_ping_fails max_pings rtt now c =
     (if length (pings_since_last_response c) < max_pings then False
      else let expected_response_time =
             c_int (sent_time (pings_since_last_response c ! (max_pings - 1)) + rtt)
           in now > expected_response_time)"

definition too_long_without_response :: "int \<Rightarrow> int \<Rightarrow> IceConnection \<Rightarrow> bool" where
  "too_long_without_response min_time now c = (case pings_since_last_response c of [] \<Rightarrow> False
     | p # _ \<Rightarrow> now > sent_time p + min_time)"

definition priority :: "Candidate \<Rightarrow> IceConnection \<Rightarrow> u64" where
  "priority local_candidate c =
     (let g = cand_priority local_candidate;
          d = cand_priority (remote_candidate c);
          pr = push_bit 32 (ucast (min g d))
      in pr + ucast (2 * max g d) + (if g > d then 1 else 0))"

section \<open>State changes\<close>

definition update_receiving :: "int \<Rightarrow> IceConnection \<Rightarrow> IceConnection \<times> bool" where
  "update_receiving now c =
     (let receiving =
        (if last_ping_sent c < last_ping_response_received c then True
         else last_received c > 0 \<and> now < last_received c + receiving_timeout)
      in if conn_receiving c = receiving then (c, False)
         else (c\<lparr>conn_receiving := receiving\<rparr>, True))"

definition set_write_state :: "WriteState \<Rightarrow> IceConnection \<Rightarrow> IceConnection \<times> bool" where
  "set_write_state st c = (c\<lparr>conn_write_state := st\<rparr>, conn_write_state c \<noteq> st)"

definition set_state :: "IceCandidatePairState \<Rightarrow> IceConnection \<Rightarrow> IceConnection" where
  "set_state st c = c\<lparr>conn_state := st\<rparr>"

definition set_selected :: "bool \<Rightarrow> IceConnection \<Rightarrow> IceConnection" where
  "set_selected b c = c\<lparr>conn_selected := b\<rparr>"

text \<open>
  The moving average is computed in \<^verbatim>\<open>double\<close>: for operands of 32 bits the sum
  and the division by four are exact, and the assignment to the \<^verbatim>\<open>int\<close> member
  truncates towards zero.
\<close>

definition GetNextMovingAverage :: "int \<Rightarrow> int \<Rightarrow> int \<Rightarrow> int" where
  "GetNextMovingAverage prev_average cur ratio = c_div (ratio * prev_average + cur) (ratio + 1)"

text \<open>\<^verbatim>\<open>received_ping_response\<close> up to its call of \<open>update_receiving\<close>.\<close>

definition record_rtt :: "int \<Rightarrow> int \<Rightarrow> IceConnection \<Rightarrow> IceConnection" where
  "record_rtt rtt now c =
     c\<lparr>conn_rtt := (if rtt_samples c > 0 then GetNextMovingAverage (conn_rtt c) rtt RTT_RATIO else rtt),
       rtt_samples := rtt_samples c + 1,
       last_ping_response_received := now,
       pings_since_last_response := []\<rparr>"

text \<open>The three parts of \<^verbatim>\<open>update_state\<close>, each ending in a possible signal.\<close>

definition clamped_rtt :: "IceConnection \<Rightarrow> int" where
  "clamped_rtt c = (let rtt = c_int (2 * conn_rtt c)
     in if rtt < MIN_RTT then MIN_RTT else if rtt > MAX_RTT then MAX_RTT else rtt)"

definition check_unreliable :: "int \<Rightarrow> int \<Rightarrow> IceConnection \<Rightarrow> IceConnection \<times> bool" where
  "check_unreliable rtt now c =
     (if conn_write_state c = STATE_WRITABLE
         \<and> too_many_ping_fails CONNECTION_WRITE_CONNECT_FAILS rtt now c
         \<and> too_long_without_response CONNECTION_WRITE_CONNECT_TIMEOUT now c
      then set_write_state STATE_WRITE_UNRELIABLE c else (c, False))"

definition check_timeout :: "int \<Rightarrow> IceConnection \<Rightarrow> IceConnection \<times> bool" where
  "check_timeout now c =
     (if (conn_write_state c = STATE_WRITE_UNRELIABLE \<or> conn_write_state c = STATE_WRITE_INIT)
         \<and> too_long_without_response CONNECTION_WRITE_TIMEOUT now c
      then set_write_state STATE_WRITE_TIMEOUT c else (c, False))"

definition maybe_set_remote_ice_params :: "IceParameters \<Rightarrow> IceConnection \<Rightarrow> IceConnection" where
  "maybe_set_remote_ice_params params c =
     (if cand_username (remote_candidate c) = ice_ufrag params
         \<and> cand_password (remote_candidate c) = []
      then c\<lparr>remote_candidate := (remote_candidate c)\<lparr>cand_password := ice_pwd params\<rparr>\<rparr>
      else c)"

section \<open>Requests\<close>

definition create_stun_username :: "IceParameters \<Rightarrow> bytes \<Rightarrow> bytes" where
  "create_stun_username params remote_username = remote_username @ bytes_of '':'' @ ice_ufrag params"

definition prepare :: "(bytes \<Rightarrow> bytes) \<Rightarrow> IceParameters \<Rightarrow> Candidate \<Rightarrow> Candidate \<Rightarrow> StunMessage
    \<Rightarrow> StunMessage" where
  "prepare sha1 params local_candidate remote m =
     (let m = m\<lparr>msg_type := STUN_BINDING_REQUEST\<rparr>;
          uname = create_stun_username params (cand_username remote);
          m = add_attribute m (new_byte_string STUN_ATTR_USERNAME uname);
          m = add_attribute m (new_uint64 STUN_ATTR_ICE_CONTROLLING 0);
          m = add_attribute m (StunByteStringAttribute STUN_ATTR_USE_CANDIDATE 0 []);
          prflx_priority = push_bit 24 (type_preference_code ICE_TYPE_PREFERENCE_PRFLX)
            OR (cand_priority local_candidate AND 0x00FFFFFF);
          m = add_attribute m (new_uint32 STUN_ATTR_PRIORITY prflx_priority);
          m = snd (add_message_integrity sha1 m (cand_password remote))
      in snd (add_fingerprint m))"

text \<open>\<open>new_request tid\<close> is the constructor; \<open>tid\<close> is the random transaction id.\<close>

definition new_request :: "bytes \<Rightarrow> StunRequest" where
  "new_request tid = \<lparr>rq_msg = new_StunMessage\<lparr>transaction_id := tid\<rparr>, rq_ts = 0\<rparr>"

definition elapsed :: "int \<Rightarrow> StunRequest \<Rightarrow> int" where
  "elapsed now rq = c_int (now - rq_ts rq)"

definition mgr_remove :: "bytes \<Rightarrow> StunRequestManager \<Rightarrow> StunRequestManager" where
  "mgr_remove tid mgr = mgr(tid := None)"

text \<open>
  \<^verbatim>\<open>StunRequestManager::send\<close>: the packet handed to
  \<^verbatim>\<open>signal_send_packet\<close>, if the message can be serialised, and the new map.
\<close>

definition mgr_send :: "int \<Rightarrow> (StunMessage \<Rightarrow> StunMessage) \<Rightarrow> StunRequest \<Rightarrow> StunRequestManager
    \<Rightarrow> bytes option \<times> StunRequestManager" where
  "mgr_send now prep rq mgr =
     (let rq = rq\<lparr>rq_msg := prep (rq_msg rq), rq_ts := now\<rparr>
      in (msg_write (rq_msg rq) [], mgr(transaction_id (rq_msg rq) \<mapsto> rq)))"

text \<open>\<^verbatim>\<open>IceConnection::ping\<close>: the new connection and the packet to send.\<close>

definition ping :: "(bytes \<Rightarrow> bytes) \<Rightarrow> IceParameters \<Rightarrow> Candidate \<Rightarrow> int \<Rightarrow> bytes \<Rightarrow> IceConnection
    \<Rightarrow> IceConnection \<times> bytes option" where
  "ping sha1 params local_candidate now tid c =
     (let c = c\<lparr>last_ping_sent := now\<rparr>;
          request = new_request tid;
          c = c\<lparr>pings_since_last_response :=
                 pings_since_last_response c @ [\<lparr>ping_id = tid, sent_time = now\<rparr>]\<rparr>;
          (pkt, reqs) = mgr_send now (prepare sha1 params local_candidate (remote_candidate c))
             request (conn_requests c);
          c = set_state IN_PROGRESS (c\<lparr>conn_requests := reqs\<rparr>)
      in (c\<lparr>num_pings_sent := num_pings_sent c + 1\<rparr>, pkt))"

text \<open>
  What \<^verbatim>\<open>StunRequestManager::check_response\<close> finds: no outstanding request, a
  success or error response for one, or a response of the wrong type.
\<close>

datatype response_kind = no_request | success_response StunRequest | error_response StunRequest
  | wrong_type StunRequest

definition classify_response :: "StunMessage \<Rightarrow> StunRequestManager \<Rightarrow> response_kind" where
  "classify_response msg mgr = (case mgr (transaction_id msg) of
     None \<Rightarrow> no_request
   | Some request \<Rightarrow>
       if uint (msg_type msg) = get_stun_success_response (uint (msg_type (rq_msg request)))
       then success_response request
       else if uint (msg_type msg) = get_stun_error_response (uint (msg_type (rq_msg request)))
       then error_response request
       else wrong_type request)"

text \<open>
  The answer to a binding request: \<^verbatim>\<open>send_stun_binding_response\<close> and
  \<^verbatim>\<open>send_response_message\<close> up to the socket call.  The inner \<open>None\<close>
  means that nothing is sent.
\<close>

definition stun_binding_response :: "(bytes \<Rightarrow> bytes) \<Rightarrow> bytes \<Rightarrow> SocketAddress \<Rightarrow> StunMessage
    \<Rightarrow> StunMessage" where
  "stun_binding_response sha1 pwd addr stun_msg =
     (let response = new_StunMessage\<lparr>msg_type := STUN_BINDING_RESPONSE,
            transaction_id := transaction_id stun_msg\<rparr>;
          response = add_attribute response (new_xor_address STUN_ATTR_XOR_MAPPED_ADDRESS addr);
          response = snd (add_message_integrity sha1 response pwd)
      in snd (add_fingerprint response))"

definition send_stun_binding_response :: "(bytes \<Rightarrow> bytes) \<Rightarrow> bytes \<Rightarrow> SocketAddress \<Rightarrow> StunMessage
    \<Rightarrow> bytes option" where
  "send_stun_binding_response sha1 pwd addr stun_msg =
     (case get_byte_string stun_msg STUN_ATTR_USERNAME of None \<Rightarrow> None
      | Some _ \<Rightarrow> msg_write (stun_binding_response sha1 pwd addr stun_msg) [])"

section \<open>A sample connection\<close>

definition sample_candidate :: Candidate where
  "sample_candidate = \<lparr>cand_component = RTP, cand_protocol = bytes_of ''udp'',
     cand_address = \<lparr>ipaddr = IPv4 0xCB007107, sa_port = 5000\<rparr>, cand_port = 5000,
     cand_priority = 0x6E001EFF, cand_username = bytes_of ''peer'', cand_password = bytes_of ''pwd'',
     cand_type = PRFLX_PORT_TYPE, cand_foundation = []\<rparr>"

definition sample_connection :: IceConnection where
  "sample_connection = (new_IceConnection 0 sample_candidate)\<lparr>conn_rtt := 101, rtt_samples := 2,
     pings_since_last_response := replicate 5 \<lparr>ping_id = [], sent_time = 2 ^ 31\<rparr>\<rparr>"

section \<open>Priorities\<close>

lemma unat_ucast_u64: "unat (ucast (x :: u32) :: u64) = unat x"
  by (rule unsigned_ucast_eq [THEN trans]) (simp add: take_bit_nat_eq_self order_less_trans [OF unsigned_less])

lemma unat_u32_bound: "unat (x :: u32) < 2 ^ 32"
  using unsigned_less [of x] by simp

lemma unat_double_u32: "unat (2 * x :: u32) = (2 * unat x) mod 2 ^ 32"
  by (simp add: unat_word_ariths)

lemma unat_push_bit_u64: "unat (push_bit 32 (ucast (x :: u32)) :: u64) = 2 ^ 32 * unat x"
proof -
  have "2 ^ 32 * unat x < 2 ^ 64"
    using unat_u32_bound [of x] by simp
  then show ?thesis
    by (simp add: push_bit_eq_mult unat_word_ariths unat_ucast_u64 mult.commute)
qed

lemma unat_priority:
  "unat (priority l c) = 2 ^ 32 * unat (min (cand_priority l) (cand_priority (remote_candidate c)))
     + (2 * unat (max (cand_priority l) (cand_priority (remote_candidate c)))) mod 2 ^ 32
     + (if cand_priority l > cand_priority (remote_candidate c) then 1 else 0)"
proof -
  let ?mn = "min (cand_priority l) (cand_priority (remote_candidate c))"
  let ?mx = "max (cand_priority l) (cand_priority (remote_candidate c))"
  let ?b = "if cand_priority l > cand_priority (remote_candidate c) then 1 else 0 :: u64"
  have even: "(2 * unat ?mx) mod 2 ^ 32 \<le> 2 ^ 32 - 2"
    by (simp add: mult_mod_right [of 2 _ "2 ^ 31", simplified, symmetric])
  have sum: "2 ^ 32 * unat ?mn + (2 * unat ?mx) mod 2 ^ 32 + unat ?b < 2 ^ 64"
    using even unat_u32_bound [of ?mn] by (auto simp del: max_less_iff_conj)
  have "unat (push_bit 32 (ucast ?mn) + ucast (2 * ?mx) :: u64)
      = 2 ^ 32 * unat ?mn + (2 * unat ?mx) mod 2 ^ 32"
    using sum by (simp add: unat_plus_if_size word_size unat_push_bit_u64 unat_ucast_u64 unat_double_u32)
  then show ?thesis
    using sum unfolding priority_def Let_def
    by (subst unat_plus_if_size) (simp add: word_size)
qed

text \<open>
  C30. The pair priority is the one of RFC 5245, \<open>2^32 min g d + 2 max g d + (g > d)\<close>, exactly
  when both candidate priorities are below \<open>2^31\<close>: \<^verbatim>\<open>2 * std::max(g, d)\<close> is
  computed in 32 bits.  Local priorities are below that bound, the remote one is whatever the
  PRIORITY attribute of the peer says.
\<close>

theorem priority_rfc5245_iff:
  "unat (priority l c) =
      2 ^ 32 * min (unat (cand_priority l)) (unat (cand_priority (remote_candidate c)))
      + 2 * max (unat (cand_priority l)) (unat (cand_priority (remote_candidate c)))
      + (if unat (cand_priority l) > unat (cand_priority (remote_candidate c)) then 1 else 0)
    \<longleftrightarrow> unat (cand_priority l) < 2 ^ 31 \<and> unat (cand_priority (remote_candidate c)) < 2 ^ 31"
proof -
  define g where "g = cand_priority l"
  define d where "d = cand_priority (remote_candidate c)"
  have mm: "unat (min g d) = min (unat g) (unat d)" "unat (max g d) = max (unat g) (unat d)"
    "g > d \<longleftrightarrow> unat g > unat d"
    by (auto simp: min_def max_def word_le_nat_alt word_less_nat_alt)
  have "(2 * max (unat g) (unat d)) mod 2 ^ 32 = 2 * max (unat g) (unat d)
      \<longleftrightarrow> max (unat g) (unat d) < 2 ^ 31"
    by (auto simp: mod_eq_self_iff_div_eq_0 div_eq_0_iff)
  then show ?thesis
    unfolding unat_priority g_def [symmetric] d_def [symmetric] mm
    by auto
qed

lemma or_push_bit_eq_add:
  fixes x y :: int
  assumes "0 \<le> y" "y < 2 ^ n" shows "push_bit n x OR y = 2 ^ n * x + y"
proof -
  have "take_bit n y = y" using assms by (simp add: take_bit_int_eq_self)
  then have "\<not> bit y k" if "n \<le> k" for k using that by (metis bit_take_bit_iff linorder_not_less)
  then have "push_bit n x OR y = push_bit n x + y"
    by (intro disjunctive_add [symmetric]) (auto simp: bit_push_bit_iff)
  then show ?thesis by (simp add: push_bit_eq_mult)
qed

lemma of_int_or: "(of_int (x OR y) :: 'a::len word) = of_int x OR of_int y"
  by (rule bit_word_eqI) (simp add: bit_simps)

lemma of_int_push_bit: "(of_int (push_bit n x) :: 'a::len word) = push_bit n (of_int x)"
  by (simp add: push_bit_eq_mult)

lemma local_preference_range:
  assumes "0 \<le> nap" "nap < 256"
  shows "0 \<le> push_bit 8 nap OR IPAddressPrecedence ip" "push_bit 8 nap OR IPAddressPrecedence ip < 65536"
    "push_bit 8 nap OR IPAddressPrecedence ip = 256 * nap + IPAddressPrecedence ip"
  using assms IPAddressPrecedence_range [of ip] by (simp_all add: or_push_bit_eq_add)

lemma get_priority_eq:
  assumes "0 \<le> tp" "tp < 128" "0 \<le> nap" "nap < 256"
  shows "uint (get_priority c (of_int tp) nap 0) =
    2 ^ 24 * tp + 2 ^ 8 * (256 * nap + IPAddressPrecedence (ipaddr (cand_address c)))
    + (256 - component_code (cand_component c))"
proof -
  let ?lp = "push_bit 8 nap OR IPAddressPrecedence (ipaddr (cand_address c))"
  let ?comp = "256 - component_code (cand_component c)"
  note lp = local_preference_range [OF assms(3,4), of "ipaddr (cand_address c)"]
  have comp: "0 \<le> ?comp" "?comp < 2 ^ 8"
    by (cases "cand_component c"; simp)+
  have inner: "push_bit 8 ?lp OR ?comp = 2 ^ 8 * ?lp + ?comp"
    using comp by (rule or_push_bit_eq_add)
  have outer: "push_bit 24 tp OR (push_bit 8 ?lp OR ?comp) = 2 ^ 24 * tp + (2 ^ 8 * ?lp + ?comp)"
    unfolding inner using comp lp by (intro or_push_bit_eq_add) simp_all
  have "get_priority c (of_int tp) nap 0 = of_int (push_bit 24 tp OR (push_bit 8 ?lp OR ?comp))"
    by (simp add: get_priority_def Let_def of_int_or of_int_push_bit or.assoc del: of_int_diff)
  moreover have "uint (of_int (2 ^ 24 * tp + (2 ^ 8 * ?lp + ?comp)) :: u32)
      = 2 ^ 24 * tp + (2 ^ 8 * ?lp + ?comp)"
    using assms comp lp by (simp add: uint_word_of_int del: of_int_diff of_int_add of_int_mult)
  ultimately have "uint (get_priority c (of_int tp) nap 0) = 2 ^ 24 * tp + (2 ^ 8 * ?lp + ?comp)"
    unfolding outer by simp
  then show ?thesis unfolding lp(3) by simp
qed

text \<open>
  The candidate priority is the formula of RFC 5245 for every candidate type: the type
  preference in the top byte, the adapter and address preference below it, and 256 minus the
  component in the low byte, without overlap and below \<open>2^31\<close>.
\<close>

theorem get_priority_rfc5245:
  assumes "0 \<le> nap" "nap < 256"
  shows "uint (get_priority c (type_preference_code tp) nap 0) =
      2 ^ 24 * uint (type_preference_code tp)
      + 2 ^ 8 * (256 * nap + IPAddressPrecedence (ipaddr (cand_address c)))
      + (256 - component_code (cand_component c))
    \<and> uint (get_priority c (type_preference_code tp) nap 0) < 2 ^ 31"
proof -
  define v where "v = uint (type_preference_code tp)"
  have v: "type_preference_code tp = of_int v" "0 \<le> v" "v \<le> 126"
    by (cases tp; simp add: v_def)+
  have u: "uint (of_int v :: u32) = v" using v(1) v_def by simp
  have "uint (get_priority c (of_int v) nap 0) =
      2 ^ 24 * v + 2 ^ 8 * (256 * nap + IPAddressPrecedence (ipaddr (cand_address c)))
      + (256 - component_code (cand_component c))"
    using assms v by (intro get_priority_eq) simp_all
  moreover have "component_code (cand_component c) \<ge> 1"
    by (cases "cand_component c") simp_all
  ultimately show ?thesis
    using assms v IPAddressPrecedence_range(2) [of "ipaddr (cand_address c)"]
    by (simp add: v(1) u)
qed

theorem get_priority_rfc5245_witness:
  "uint (get_priority sample_candidate (type_preference_code ICE_TYPE_PREFERENCE_HOST) 0 0) = 2113937151"
proof -
  have "get_priority sample_candidate 126 0 0 = get_priority sample_candidate
      (type_preference_code ICE_TYPE_PREFERENCE_HOST) 0 0" by simp
  with get_priority_rfc5245 [of 0 sample_candidate ICE_TYPE_PREFERENCE_HOST] show ?thesis
    by (simp add: sample_candidate_def IPAddressPrecedence_def)
qed

section \<open>Round-trip time and ping failures\<close>

lemma GetNextMovingAverage_bounds:
  assumes "0 \<le> p" "0 \<le> x"
  shows "min p x \<le> GetNextMovingAverage p x 3" "GetNextMovingAverage p x 3 \<le> max p x"
  using assms by (auto simp: GetNextMovingAverage_def c_div_nonneg min_def max_def)

definition rtt_ok :: "IceConnection \<Rightarrow> bool" where
  "rtt_ok c \<longleftrightarrow> 0 \<le> conn_rtt c \<and> conn_rtt c < 2 ^ 31 \<and> 0 \<le> rtt_samples c"

text \<open>
  The smoothed round-trip time stays between its old value and the new sample and never
  leaves the range of \<^verbatim>\<open>int\<close>, so the conversion of the average back to
  \<^verbatim>\<open>int\<close> is defined.
\<close>

theorem record_rtt_bounds:
  assumes "rtt_ok c" and "0 \<le> rtt" and "rtt < 2 ^ 31"
  shows "rtt_ok (record_rtt rtt now c)
    \<and> min (conn_rtt c) rtt \<le> conn_rtt (record_rtt rtt now c)
    \<and> conn_rtt (record_rtt rtt now c) \<le> max (conn_rtt c) rtt"
  using assms GetNextMovingAverage_bounds [of "conn_rtt c" rtt]
  by (auto simp: rtt_ok_def record_rtt_def RTT_RATIO_def)

theorem record_rtt_bounds_witness:
  "rtt_ok sample_connection \<and> rtt_ok (record_rtt 20 7 sample_connection)
   \<and> conn_rtt (record_rtt 20 7 sample_connection) = 80"
proof -
  have ok: "rtt_ok sample_connection" by (simp add: rtt_ok_def sample_connection_def)
  with record_rtt_bounds [OF ok, of 20 7] show ?thesis
    by (simp add: sample_connection_def record_rtt_def GetNextMovingAverage_def RTT_RATIO_def c_div_def)
qed

text \<open>
  Once the time stamps pass \<open>2^31\<close> ms (24.8 days of uptime) the expected response
  time no longer fits the \<^verbatim>\<open>int\<close> that holds it and becomes negative: five
  unanswered pings then count as failed at once, however recently they were sent.
\<close>

theorem too_many_ping_fails_after_wrap:
  assumes "5 \<le> length (pings_since_last_response c)"
    and "2 ^ 31 \<le> sent_time (pings_since_last_response c ! 4) + clamped_rtt c"
    and "sent_time (pings_since_last_response c ! 4) + clamped_rtt c < 2 ^ 32"
    and "0 \<le> now"
  shows "too_many_ping_fails CONNECTION_WRITE_CONNECT_FAILS (clamped_rtt c) now c"
proof -
  let ?t = "sent_time (pings_since_last_response c ! 4) + clamped_rtt c"
  have "c_int ?t = ?t - 2 ^ 32"
    using assms(2,3) by (rule c_int_wrap)
  then show ?thesis
    using assms by (simp add: too_many_ping_fails_def CONNECTION_WRITE_CONNECT_FAILS_def)
qed

theorem too_many_ping_fails_after_wrap_witness:
  "too_many_ping_fails CONNECTION_WRITE_CONNECT_FAILS (clamped_rtt sample_connection) (2 ^ 31 + 1)
     sample_connection"
proof -
  have "clamped_rtt sample_connection = 202"
    by (simp add: clamped_rtt_def sample_connection_def c_int_id MIN_RTT_def MAX_RTT_def)
  then show ?thesis
    by (intro too_many_ping_fails_after_wrap) (simp_all add: sample_connection_def)
qed

lemma too_many_ping_fails_before_wrap:
  assumes "- (2 ^ 31) \<le> sent_time (pings_since_last_response c ! 4) + rtt"
    and "sent_time (pings_since_last_response c ! 4) + rtt < 2 ^ 31"
  shows "too_many_ping_fails CONNECTION_WRITE_CONNECT_FAILS rtt now c \<longleftrightarrow>
    5 \<le> length (pings_since_last_response c)
    \<and> sent_time (pings_since_last_response c ! 4) + rtt < now"
  using assms by (auto simp: too_many_ping_fails_def CONNECTION_WRITE_CONNECT_FAILS_def c_int_id)

lemma kBase64_length: "length kBase64 = 64"
  by (simp add: kBase64_def)

lemma kBase64_no_colon: "list_all (\<lambda>b. b \<noteq> 0x3A) kBase64"
  by (simp add: kBase64_def bytes_of_def)

text \<open>
  The generated credentials have the lengths ICE asks for and consist of Base64
  characters; in particular the user fragment has no colon, the separator of the STUN user name.
\<close>

theorem random_credentials_shape:
  assumes "\<And>n. length (rng n) = n" and "\<And>n. length (rng' n) = n"
  shows "length (ice_ufrag (create_random_ice_credentials rng rng')) = 4
    \<and> length (ice_pwd (create_random_ice_credentials rng rng')) = 24
    \<and> set (ice_ufrag (create_random_ice_credentials rng rng')) \<subseteq> set kBase64
    \<and> 0x3A \<notin> set (ice_ufrag (create_random_ice_credentials rng rng'))"
proof -
  have sub: "set (CreateRandomString r n) \<subseteq> set kBase64" for r n
    by (auto simp: CreateRandomString_def kBase64_length)
  moreover have "0x3A \<notin> set kBase64"
    using kBase64_no_colon by (auto simp: list_all_iff)
  ultimately show ?thesis
    using assms by (auto simp: create_random_ice_credentials_def CreateRandomString_def
        ICE_UFRAG_LENGTH_def ICE_PWD_LENGTH_def)
qed

theorem random_credentials_shape_witness:
  "length (ice_ufrag (create_random_ice_credentials (\<lambda>n. replicate n 7) (\<lambda>n. replicate n 9))) = 4
   \<and> 0x3A \<notin> set (ice_ufrag (create_random_ice_credentials (\<lambda>n. replicate n 7) (\<lambda>n. replicate n 9)))"
  using random_credentials_shape [of "\<lambda>n. replicate n 7" "\<lambda>n. replicate n 9"] by simp

end
