(* ===== verification/Stable_Sort.thy ===== *)
theory Stable_Sort
  imports Main "HOL-Library.Multiset"
begin

text \<open>
  \<^verbatim>\<open>std::stable_sort\<close> with a comparator.  The standard specifies the result for a
  comparator that is a strict weak ordering, and leaves every other comparator undefined; the
  locale states that requirement and derives what a client may rely on.
\<close>

fun insert_by :: "('a \<Rightarrow> 'a \<Rightarrow> bool) \<Rightarrow> 'a \<Rightarrow> 'a list \<Rightarrow> 'a list" where
  "insert_by lt x [] = [x]"
| "insert_by lt x (y # ys) = (if lt y x then y # insert_by lt x ys else x # y # ys)"

definition stable_sort :: "('a \<Rightarrow> 'a \<Rightarrow> bool) \<Rightarrow> 'a list \<Rightarrow> 'a list" where
  "stable_sort lt xs = foldr (insert_by lt) xs []"

lemma stable_sort_simps [simp]:
  "stable_sort lt [] = []" "stable_sort lt (x # xs) = insert_by lt x (stable_sort lt xs)"
  by (simp_all add: stable_sort_def)

lemma mset_insert_by [simp]: "mset (insert_by lt x xs) = add_mset x (mset xs)"
  by (induction xs) auto

lemma mset_stable_sort [simp]: "mset (stable_sort lt xs) = mset xs"
  by (induction xs) auto

lemma set_stable_sort [simp]: "set (stable_sort lt xs) = set xs"
  by (metis mset_stable_sort set_mset_mset)

lemma length_stable_sort [simp]: "length (stable_sort lt xs) = length xs"
  by (metis mset_stable_sort size_mset)

locale strict_weak_order =
  fixes lt :: "'a \<Rightarrow> 'a \<Rightarrow> bool"
  assumes irreflexive: "\<not> lt x x"
    and transitive: "lt x y \<Longrightarrow> lt y z \<Longrightarrow> lt x z"
    and incomparable_trans: "\<not> lt x y \<Longrightarrow> \<not> lt y z \<Longrightarrow> \<not> lt x z"
begin

lemma asymmetric: "lt x y \<Longrightarrow> \<not> lt y x"
  using irreflexive transitive by blast

lemma sorted_insert_by:
  "sorted_wrt (\<lambda>a b. \<not> lt b a) xs \<Longrightarrow> sorted_wrt (\<lambda>a b. \<not> lt b a) (insert_by lt x xs)"
proof (induction xs)
  case Nil
  then show ?case by simp
next
  case (Cons y ys)
  have mem: "set (insert_by lt x ys) = insert x (set ys)"
    by (metis mset_insert_by set_mset_add_mset_insert set_mset_mset)
  show ?case
  proof (cases "lt y x")
    case True
    then show ?thesis using Cons asymmetric [OF True] by (simp add: mem)
  next
    case False
    have "\<not> lt z x" if "z \<in> set ys" for z
      using Cons.prems that incomparable_trans [OF _ False] by auto
    then show ?thesis using False Cons.prems by simp
  qed
qed

lemma sorted_stable_sort: "sorted_wrt (\<lambda>a b. \<not> lt b a) (stable_sort lt xs)"
  by (induction xs) (simp_all add: sorted_insert_by)

text \<open>Elements the comparator cannot tell apart keep their order.\<close>

lemma filter_insert_by:
  "filter (\<lambda>b. \<not> lt a b \<and> \<not> lt b a) (insert_by lt x xs) =
     (if \<not> lt a x \<and> \<not> lt x a then x # filter (\<lambda>b. \<not> lt a b \<and> \<not> lt b a) xs
      else filter (\<lambda>b. \<not> lt a b \<and> \<not> lt b a) xs)"
proof (induction xs)
  case Nil
  then show ?case by simp
next
  case (Cons y ys)
  have "\<not> (\<not> lt a y \<and> \<not> lt y a \<and> \<not> lt a x \<and> \<not> lt x a)" if "lt y x"
    using that incomparable_trans by blast
  with Cons show ?case by auto
qed

lemma stable_stable_sort:
  "filter (\<lambda>b. \<not> lt a b \<and> \<not> lt b a) (stable_sort lt xs) = filter (\<lambda>b. \<not> lt a b \<and> \<not> lt b a) xs"
  by (induction xs) (simp_all add: filter_insert_by)

text \<open>The first element of the result is a least one, and the earliest of them in the input.\<close>

lemma hd_stable_sort_least:
  assumes "stable_sort lt xs = y # ys" and "x \<in> set xs"
  shows "\<not> lt x y"
proof -
  have "x \<in> set (y # ys)" using assms by (metis set_stable_sort)
  then show ?thesis
    using sorted_stable_sort [of xs] irreflexive unfolding assms(1) by auto
qed

end

end
