(* ===== verification/Ice_Controller.thy ===== *)
theory Ice_Controller
  imports Ice_Connection Stable_Sort
begin

text \<open>
  \<^verbatim>\<open>ice/ice_controller.cpp\<close>: which connection to ping next and which one to
  select.  The controller holds raw pointers; the connections live in a heap and following a
  pointer to a deleted connection yields \<open>None\<close>, undefined behaviour in the source.
  \<^verbatim>\<open>std::set\<close> of pointers is kept as an ascending list, the order of its
  iterators.
\<close>

section \<open>State\<close>

type_synonym ptr = nat
type_synonym conn_heap = "ptr \<rightharpoonup> IceConnection"

record IceController =
  c_selected :: "ptr option"
  c_connections :: "ptr list"
  c_unpinged :: "ptr list"
  c_pinged :: "ptr list"

definition new_IceController :: IceController where
  "new_IceController = \<lparr>c_selected = None, c_connections = [], c_unpinged = [], c_pinged = []\<rparr>"

record PingResult =
  pr_conn :: "ptr option"
  pr_interval :: int

definition set_insert :: "ptr \<Rightarrow> ptr list \<Rightarrow> ptr list" where
  "set_insert p s = (if p \<in> set s then s else insort p s)"

definition set_erase :: "ptr \<Rightarrow> ptr list \<Rightarrow> ptr list" where
  "set_erase p s = filter (\<lambda>q. q \<noteq> p) s"

definition k_min_improvement :: int where "k_min_improvement = 10"
definition a_is_better :: int where "a_is_better = 1"
definition b_is_better :: int where "b_is_better = -1"

section \<open>Bookkeeping\<close>

definition add_connection :: "ptr \<Rightarrow> IceController \<Rightarrow> IceController" where
  "add_connection p ctl = ctl\<lparr>c_connections := c_connections ctl @ [p],
     c_unpinged := set_insert p (c_unpinged ctl)\<rparr>"

definition ctl_on_connection_destroyed :: "ptr \<Rightarrow> IceController \<Rightarrow> IceController" where
  "ctl_on_connection_destroyed p ctl = ctl\<lparr>c_pinged := set_erase p (c_pinged ctl),
     c_unpinged := set_erase p (c_unpinged ctl),
     c_connections := filter (\<lambda>q. q \<noteq> p) (c_connections ctl)\<rparr>"

definition set_selected_connection :: "ptr option \<Rightarrow> IceController \<Rightarrow> IceController" where
  "set_selected_connection p ctl = ctl\<lparr>c_selected := p\<rparr>"

definition mark_connection_pinged :: "ptr option \<Rightarrow> IceController \<Rightarrow> IceController" where
  "mark_connection_pinged conn ctl = (case conn of None \<Rightarrow> ctl
     | Some p \<Rightarrow> if p \<in> set (c_pinged ctl) then ctl
         else ctl\<lparr>c_pinged := set_insert p (c_pinged ctl), c_unpinged := set_erase p (c_unpinged ctl)\<rparr>)"

section \<open>Pinging\<close>

definition ctl_weak :: "conn_heap \<Rightarrow> IceController \<Rightarrow> bool option" where
  "ctl_weak h ctl = (case c_selected ctl of None \<Rightarrow> Some True | Some p \<Rightarrow> map_option conn_weak (h p))"

definition get_connection_ping_interval ::
    "conn_heap \<Rightarrow> IceController \<Rightarrow> int \<Rightarrow> ptr \<Rightarrow> int option" where
  "get_connection_ping_interval h ctl now p = do {
     conn \<leftarrow> h p;
     if num_pings_sent conn < MIN_PINGS_AT_WEAK_PING_INTERVAL then Some WEAK_PING_INTERVAL
     else do {
       weak \<leftarrow> ctl_weak h ctl;
       Some (if weak \<or> \<not> conn_stable now conn then STABLING_CONNECTION_PING_INTERVAL
             else STABLE_CONNECTION_PING_INTERVAL)
     }
   }"

definition is_connection_past_ping_interval ::
    "conn_heap \<Rightarrow> IceController \<Rightarrow> int \<Rightarrow> ptr \<Rightarrow> bool option" where
  "is_connection_past_ping_interval h ctl now p = do {
     interval \<leftarrow> get_connection_ping_interval h ctl now p;
     conn \<leftarrow> h p;
     Some (now \<ge> last_ping_sent conn + interval)
   }"

definition is_pingable :: "conn_heap \<Rightarrow> IceController \<Rightarrow> int \<Rightarrow> ptr \<Rightarrow> bool option" where
  "is_pingable h ctl now p = do {
     conn \<leftarrow> h p;
     if cand_username (remote_candidate conn) = [] \<or> cand_password (remote_candidate conn) = []
     then Some False
     else do {
       weak \<leftarrow> ctl_weak h ctl;
       if weak then Some True else is_connection_past_ping_interval h ctl now p
     }
   }"

text \<open>The search loops stop at the first pingable connection.\<close>

fun any_pingable :: "conn_heap \<Rightarrow> IceController \<Rightarrow> int \<Rightarrow> ptr list \<Rightarrow> bool option" where
  "any_pingable h ctl now [] = Some False"
| "any_pingable h ctl now (p # ps) = do {
     b \<leftarrow> is_pingable h ctl now p;
     if b then Some True else any_pingable h ctl now ps
   }"

definition has_pingable_connection :: "conn_heap \<Rightarrow> int \<Rightarrow> IceController \<Rightarrow> bool option" where
  "has_pingable_connection h now ctl = any_pingable h ctl now (c_connections ctl)"

definition more_pingable :: "conn_heap \<Rightarrow> ptr option \<Rightarrow> ptr option \<Rightarrow> bool option" where
  "more_pingable h conn1 conn2 = (case conn2 of None \<Rightarrow> Some True
     | Some q \<Rightarrow> (case conn1 of None \<Rightarrow> Some False
         | Some p \<Rightarrow> do {
             a \<leftarrow> h p;
             b \<leftarrow> h q;
             if last_ping_sent a < last_ping_sent b then Some True
             else if last_ping_sent a > last_ping_sent b then Some False
             else Some False
           }))"

fun find_most_pingable :: "conn_heap \<Rightarrow> IceController \<Rightarrow> int \<Rightarrow> ptr list \<Rightarrow> ptr option \<Rightarrow> ptr option option" where
  "find_most_pingable h ctl now [] find_conn = Some find_conn"
| "find_most_pingable h ctl now (p # ps) find_conn = do {
     b \<leftarrow> is_pingable h ctl now p;
     if \<not> b then find_most_pingable h ctl now ps find_conn
     else do {
       m \<leftarrow> more_pingable h (Some p) find_conn;
       find_most_pingable h ctl now ps (if m then Some p else find_conn)
     }
   }"

definition refill_unpinged :: "IceController \<Rightarrow> IceController" where
  "refill_unpinged ctl = ctl\<lparr>c_unpinged := fold set_insert (c_pinged ctl) (c_unpinged ctl),
     c_pinged := []\<rparr>"

definition find_next_pingable_connection ::
    "conn_heap \<Rightarrow> int \<Rightarrow> IceController \<Rightarrow> (IceController \<times> ptr option) option" where
  "find_next_pingable_connection h now ctl = do {
     urgent \<leftarrow> (case c_selected ctl of None \<Rightarrow> Some False
       | Some p \<Rightarrow> do {
           conn \<leftarrow> h p;
           if conn_writable conn then is_connection_past_ping_interval h ctl now p else Some False
         });
     if urgent then Some (ctl, c_selected ctl)
     else do {
       has_pingable \<leftarrow> any_pingable h ctl now (c_unpinged ctl);
       let ctl = (if \<not> has_pingable then refill_unpinged ctl else ctl);
       find_conn \<leftarrow> find_most_pingable h ctl now (c_unpinged ctl) None;
       Some (ctl, find_conn)
     }
   }"

fun need_ping_more_at_weak :: "conn_heap \<Rightarrow> ptr list \<Rightarrow> bool option" where
  "need_ping_more_at_weak h [] = Some False"
| "need_ping_more_at_weak h (p # ps) = do {
     conn \<leftarrow> h p;
     if num_pings_sent conn < MIN_PINGS_AT_WEAK_PING_INTERVAL then Some True
     else need_ping_more_at_weak h ps
   }"

definition select_connection_to_ping ::
    "conn_heap \<Rightarrow> int \<Rightarrow> int \<Rightarrow> IceController \<Rightarrow> (IceController \<times> PingResult) option" where
  "select_connection_to_ping h now last_ping_sent_ms ctl = do {
     more \<leftarrow> need_ping_more_at_weak h (c_connections ctl);
     weak \<leftarrow> ctl_weak h ctl;
     let ping_interval = (if weak \<or> more then WEAK_PING_INTERVAL else STRONG_PING_INTERVAL);
     (ctl, conn) \<leftarrow> (if now \<ge> last_ping_sent_ms + ping_interval
        then find_next_pingable_connection h now ctl else Some (ctl, None));
     Some (ctl, \<lparr>pr_conn = conn, pr_interval = ping_interval\<rparr>)
   }"

section \<open>Selecting\<close>

text \<open>What the comparator reads of a connection: its state and its pair priority.\<close>

type_synonym conn_view = "IceConnection \<times> u64"

definition compare_connections :: "conn_view \<Rightarrow> conn_view \<Rightarrow> int" where
  "compare_connections a b =
     (if conn_writable (fst a) \<and> \<not> conn_writable (fst b) then a_is_better
      else if \<not> conn_writable (fst a) \<and> conn_writable (fst b) then b_is_better
      else if conn_write_state (fst a) < conn_write_state (fst b) then a_is_better
      else if conn_write_state (fst a) > conn_write_state (fst b) then b_is_better
      else if conn_receiving (fst a) \<and> \<not> conn_receiving (fst b) then a_is_better
      else if \<not> conn_receiving (fst a) \<and> conn_receiving (fst b) then b_is_better
      else if snd a > snd b then a_is_better
      else if snd a < snd b then b_is_better
      else 0)"

definition conn_before :: "conn_view \<Rightarrow> conn_view \<Rightarrow> bool" where
  "conn_before a b =
     (let cmp = compare_connections a b
      in if cmp \<noteq> 0 then cmp > 0 else conn_rtt (fst a) < conn_rtt (fst b))"

text \<open>\<open>lc i\<close> is the local candidate of port \<open>i\<close>.\<close>

definition conn_view_of :: "(nat \<Rightarrow> Candidate option) \<Rightarrow> conn_heap \<Rightarrow> ptr \<Rightarrow> (ptr \<times> conn_view) option" where
  "conn_view_of lc h p = do {
     conn \<leftarrow> h p;
     local_candidate \<leftarrow> lc (conn_port conn);
     Some (p, conn, priority local_candidate conn)
   }"

definition ctl_ready_to_send :: "IceConnection option \<Rightarrow> bool" where
  "ctl_ready_to_send conn = (case conn of None \<Rightarrow> False
     | Some c \<Rightarrow> conn_writable c \<or> conn_write_state c = STATE_WRITE_UNRELIABLE)"

text \<open>The part of \<^verbatim>\<open>sort_and_switch_connection\<close> after the sort.\<close>

definition choose_connection :: "conn_heap \<Rightarrow> ptr option \<Rightarrow> (ptr \<times> conn_view) list \<Rightarrow> ptr option option" where
  "choose_connection h sel vs = (case vs of [] \<Rightarrow> Some None
     | (top_connection, (top_conn, _)) # _ \<Rightarrow>
         if \<not> ctl_ready_to_send (Some top_conn) \<or> sel = Some top_connection then Some None
         else (case sel of None \<Rightarrow> Some (Some top_connection)
               | Some s \<Rightarrow> do {
                   sel_conn \<leftarrow> h s;
                   if conn_rtt top_conn \<le> conn_rtt sel_conn - k_min_improvement
                   then Some (Some top_connection) else Some None
                 }))"

definition sort_and_switch_connection ::
    "(nat \<Rightarrow> Candidate option) \<Rightarrow> conn_heap \<Rightarrow> IceController \<Rightarrow> (IceController \<times> ptr option) option" where
  "sort_and_switch_connection lc h ctl = do {
     vs \<leftarrow> those (map (conn_view_of lc h) (c_connections ctl));
     let vs = stable_sort (\<lambda>a b. conn_before (snd a) (snd b)) vs;
     res \<leftarrow> choose_connection h (c_selected ctl) vs;
     Some (ctl\<lparr>c_connections := map fst vs\<rparr>, res)
   }"

section \<open>The ranking of connections\<close>

lemma conn_before_iff:
  "conn_before a b \<longleftrightarrow>
     conn_write_state (fst a) < conn_write_state (fst b)
   \<or> conn_write_state (fst a) = conn_write_state (fst b)
     \<and> (conn_receiving (fst a) \<and> \<not> conn_receiving (fst b)
       \<or> conn_receiving (fst a) = conn_receiving (fst b)
         \<and> (snd a > snd b \<or> snd a = snd b \<and> conn_rtt (fst a) < conn_rtt (fst b)))"
proof -
  have w: "conn_writable (fst a) \<and> \<not> conn_writable (fst b) \<Longrightarrow>
      conn_write_state (fst a) < conn_write_state (fst b)" for a b :: conn_view
    by (cases "conn_write_state (fst b)") (auto simp: conn_writable_def less_WriteState_def)
  consider "conn_write_state (fst a) < conn_write_state (fst b)"
    | "conn_write_state (fst a) = conn_write_state (fst b)"
    | "conn_write_state (fst b) < conn_write_state (fst a)" by (rule linorder_cases)
  then show ?thesis
  proof cases
    case 1
    then show ?thesis
      using w [of b a] by (auto simp: conn_before_def compare_connections_def Let_def a_is_better_def)
  next
    case 2
    then show ?thesis
      by (auto simp: conn_before_def compare_connections_def Let_def a_is_better_def
          b_is_better_def conn_writable_def)
  next
    case 3
    then show ?thesis
      using w [of a b] by (auto simp: conn_before_def compare_connections_def Let_def b_is_better_def)
  qed
qed

lemma conn_before_strict_weak_order: "strict_weak_order conn_before"
proof
  fix x y z :: conn_view
  show "\<not> conn_before x x" by (simp add: conn_before_iff)
  show "conn_before x z" if "conn_before x y" "conn_before y z"
    using that unfolding conn_before_iff by (auto intro: less_trans)
  show "\<not> conn_before x z" if "\<not> conn_before x y" "\<not> conn_before y z"
    using that unfolding conn_before_iff by (auto simp: not_less)
qed

interpretation ranking: strict_weak_order "\<lambda>a b :: ptr \<times> conn_view. conn_before (snd a) (snd b)"
  using conn_before_strict_weak_order unfolding strict_weak_order_def by blast

lemma those_map_eq_Some:
  "those (map f xs) = Some ys \<longleftrightarrow> length ys = length xs \<and> (\<forall>i < length xs. f (xs ! i) = Some (ys ! i))"
proof (induction xs arbitrary: ys)
  case Nil
  then show ?case by auto
next
  case (Cons x xs)
  show ?case
    by (cases ys; cases "f x") (auto simp: Cons.IH less_Suc_eq_0_disj split: option.splits)
qed

definition ctl_live :: "(nat \<Rightarrow> Candidate option) \<Rightarrow> conn_heap \<Rightarrow> IceController \<Rightarrow> bool" where
  "ctl_live lc h ctl \<longleftrightarrow>
     list_all (\<lambda>p. conn_view_of lc h p \<noteq> None) (c_connections ctl)
   \<and> (case c_selected ctl of None \<Rightarrow> True | Some p \<Rightarrow> h p \<noteq> None)"

lemma conn_view_of_eq_Some:
  "conn_view_of lc h p = Some v \<longleftrightarrow>
     (\<exists>c l. h p = Some c \<and> lc (conn_port c) = Some l \<and> v = (p, c, priority l c))"
  by (auto simp: conn_view_of_def bind_eq_Some_conv)

lemma ctl_live_conn: "ctl_live lc h ctl \<Longrightarrow> p \<in> set (c_connections ctl) \<Longrightarrow> \<exists>c. h p = Some c"
  by (force simp: ctl_live_def list_all_iff conn_view_of_def split: Option.bind_splits)

lemma those_views:
  assumes "those (map (conn_view_of lc h) ps) = Some vs"
  shows "map fst vs = ps" "list_all (\<lambda>v. conn_view_of lc h (fst v) = Some v) vs"
proof -
  have len: "length vs = length ps" and el: "\<And>i. i < length ps \<Longrightarrow> conn_view_of lc h (ps ! i) = Some (vs ! i)"
    using assms by (auto simp: those_map_eq_Some)
  have "conn_view_of lc h (ps ! i) = Some (vs ! i) \<Longrightarrow> fst (vs ! i) = ps ! i" for i
    by (auto simp: conn_view_of_eq_Some)
  with el have f: "\<And>i. i < length ps \<Longrightarrow> fst (vs ! i) = ps ! i" by blast
  show "map fst vs = ps" using len f by (auto intro: nth_equalityI)
  show "list_all (\<lambda>v. conn_view_of lc h (fst v) = Some v) vs"
    using len el f by (auto simp: list_all_length)
qed

lemma those_views_live:
  "list_all (\<lambda>p. conn_view_of lc h p \<noteq> None) ps \<Longrightarrow> \<exists>vs. those (map (conn_view_of lc h) ps) = Some vs"
  by (induction ps) (auto simp: option.case_eq_if)

lemma sort_and_switch_frame:
  assumes "sort_and_switch_connection lc h ctl = Some (ctl', res)"
  obtains vs where "those (map (conn_view_of lc h) (c_connections ctl)) = Some vs"
    and "ctl' = ctl\<lparr>c_connections := map fst (stable_sort (\<lambda>a b. conn_before (snd a) (snd b)) vs)\<rparr>"
  using assms by (auto simp: sort_and_switch_connection_def bind_eq_Some_conv Let_def)

lemma choose_connection_total:
  "(case sel of None \<Rightarrow> True | Some p \<Rightarrow> h p \<noteq> None) \<Longrightarrow> \<exists>r. choose_connection h sel vs = Some r"
  by (auto simp: choose_connection_def split: list.split option.splits)

lemma sort_and_switch_total:
  assumes "ctl_live lc h ctl"
  shows "\<exists>ctl' res. sort_and_switch_connection lc h ctl = Some (ctl', res)"
proof -
  obtain vs where vs: "those (map (conn_view_of lc h) (c_connections ctl)) = Some vs"
    using assms those_views_live unfolding ctl_live_def by blast
  obtain r where "choose_connection h (c_selected ctl)
      (stable_sort (\<lambda>a b. conn_before (snd a) (snd b)) vs) = Some r"
    using assms choose_connection_total unfolding ctl_live_def by blast
  then show ?thesis by (simp add: sort_and_switch_connection_def vs Let_def)
qed

lemma sort_and_switch_perm:
  assumes "sort_and_switch_connection lc h ctl = Some (ctl', res)"
  shows "mset (c_connections ctl') = mset (c_connections ctl)" "c_selected ctl' = c_selected ctl"
    "c_unpinged ctl' = c_unpinged ctl" "c_pinged ctl' = c_pinged ctl"
    "set (c_connections ctl') = set (c_connections ctl)"
proof -
  obtain vs where vs: "those (map (conn_view_of lc h) (c_connections ctl)) = Some vs"
    and ctl': "ctl' = ctl\<lparr>c_connections := map fst (stable_sort (\<lambda>a b. conn_before (snd a) (snd b)) vs)\<rparr>"
    using assms by (rule sort_and_switch_frame)
  have "mset (map fst (stable_sort (\<lambda>a b. conn_before (snd a) (snd b)) vs)) = mset (map fst vs)"
    by simp
  then show *: "mset (c_connections ctl') = mset (c_connections ctl)"
    unfolding those_views(1) [OF vs] by (simp add: ctl')
  then show "set (c_connections ctl') = set (c_connections ctl)" by (rule mset_eq_setD)
qed (use assms in \<open>auto elim!: sort_and_switch_frame\<close>)

lemma choose_connection_member:
  "choose_connection h sel vs = Some (Some p) \<Longrightarrow> p \<in> fst ` set vs"
  by (auto simp: choose_connection_def bind_eq_Some_conv split: list.splits if_splits option.splits)

lemma sort_switch_member:
  assumes "sort_and_switch_connection lc h ctl = Some (ctl', res)" "res = Some p"
  shows "p \<in> set (c_connections ctl)"
proof -
  obtain vs where vs: "those (map (conn_view_of lc h) (c_connections ctl)) = Some vs"
    "choose_connection h (c_selected ctl) (stable_sort (\<lambda>a b. conn_before (snd a) (snd b)) vs) = Some (Some p)"
    using assms by (auto simp: sort_and_switch_connection_def bind_eq_Some_conv Let_def)
  then have "p \<in> set (map fst vs)" using choose_connection_member by fastforce
  then show ?thesis unfolding those_views(1) [OF vs(1)] .
qed

text \<open>
  The comparator given to \<^verbatim>\<open>absl::c_stable_sort\<close> is a strict weak
  ordering, which the standard requires, and it ranks by write state, then receiving before not
  receiving, then higher pair priority, then lower round-trip time.
\<close>

theorem conn_ranking:
  "strict_weak_order conn_before \<and>
   conn_before a b = (conn_write_state (fst a) < conn_write_state (fst b)
     \<or> conn_write_state (fst a) = conn_write_state (fst b)
       \<and> (conn_receiving (fst a) \<and> \<not> conn_receiving (fst b)
         \<or> conn_receiving (fst a) = conn_receiving (fst b)
           \<and> (snd a > snd b \<or> snd a = snd b \<and> conn_rtt (fst a) < conn_rtt (fst b))))"
  using conn_before_strict_weak_order conn_before_iff [of a b] by blast

text \<open>
  C29. Sorting keeps the connections and puts them best first.  A proposed switch is always to
  the best connection, which is ready to send and is not the selected one, and when there is a
  selected connection the proposal is at least 10 ms faster.
\<close>

theorem sort_and_switch_best:
  assumes "sort_and_switch_connection lc h ctl = Some (ctl', res)"
  shows "mset (c_connections ctl') = mset (c_connections ctl)
    \<and> sorted_wrt (\<lambda>p q. \<forall>v w. conn_view_of lc h p = Some v \<longrightarrow> conn_view_of lc h q = Some w \<longrightarrow>
        \<not> conn_before (snd w) (snd v)) (c_connections ctl')
    \<and> (\<forall>p. res = Some p \<longrightarrow> (\<exists>ps c. c_connections ctl' = p # ps \<and> h p = Some c
        \<and> conn_write_state c \<in> {STATE_WRITABLE, STATE_WRITE_UNRELIABLE} \<and> c_selected ctl \<noteq> Some p
        \<and> (\<forall>s d. c_selected ctl = Some s \<longrightarrow> h s = Some d \<longrightarrow> conn_rtt c + 10 \<le> conn_rtt d)))"
proof -
  obtain vs where vs: "those (map (conn_view_of lc h) (c_connections ctl)) = Some vs"
    and ctl': "ctl' = ctl\<lparr>c_connections := map fst (stable_sort (\<lambda>a b. conn_before (snd a) (snd b)) vs)\<rparr>"
    using assms by (rule sort_and_switch_frame)
  let ?ws = "stable_sort (\<lambda>a b. conn_before (snd a) (snd b)) vs"
  have view: "conn_view_of lc h (fst v) = Some v" if "v \<in> set ?ws" for v
    using those_views(2) [OF vs] that by (simp add: list_all_iff)
  have "sorted_wrt (\<lambda>v w. \<not> conn_before (snd w) (snd v)) ?ws"
    using ranking.sorted_stable_sort by blast
  then have "sorted_wrt (\<lambda>p q. \<forall>v w. conn_view_of lc h p = Some v \<longrightarrow> conn_view_of lc h q = Some w \<longrightarrow>
        \<not> conn_before (snd w) (snd v)) (map fst ?ws)"
    unfolding sorted_wrt_map by (rule sorted_wrt_mono_rel [rotated]) (simp add: view)
  moreover have "\<exists>ps c. c_connections ctl' = p # ps \<and> h p = Some c
        \<and> conn_write_state c \<in> {STATE_WRITABLE, STATE_WRITE_UNRELIABLE} \<and> c_selected ctl \<noteq> Some p
        \<and> (\<forall>s d. c_selected ctl = Some s \<longrightarrow> h s = Some d \<longrightarrow> conn_rtt c + 10 \<le> conn_rtt d)"
    if "res = Some p" for p
  proof (cases ?ws)
    case Nil
    then show ?thesis using assms that by (simp add: sort_and_switch_connection_def choose_connection_def vs Let_def)
  next
    case (Cons t ts)
    then have "conn_view_of lc h (fst t) = Some t" using view by simp
    then obtain q c l where t: "t = (q, c, priority l c)" "h q = Some c"
      by (cases t) (auto simp: conn_view_of_eq_Some)
    show ?thesis
      using assms that Cons t
      by (auto simp: sort_and_switch_connection_def choose_connection_def vs Let_def conn_view_of_eq_Some bind_eq_Some_conv
          ctl_ready_to_send_def conn_writable_def k_min_improvement_def split: if_splits option.splits)
  qed
  ultimately show ?thesis using sort_and_switch_perm(1) [OF assms] by (simp add: ctl')
qed

definition sample_heap :: conn_heap where
  "sample_heap = [0 \<mapsto> new_IceConnection 0 sample_candidate,
     1 \<mapsto> (new_IceConnection 0 sample_candidate)\<lparr>conn_write_state := STATE_WRITABLE\<rparr>]"

definition sample_controller :: IceController where
  "sample_controller = add_connection 1 (add_connection 0 new_IceController)"

lemmas sample_controller_simps = sample_heap_def sample_controller_def add_connection_def
  new_IceController_def new_IceConnection_def set_insert_def

theorem sort_and_switch_best_witness:
  "\<exists>ctl'. sort_and_switch_connection (\<lambda>_. Some sample_candidate) sample_heap sample_controller
       = Some (ctl', Some 1) \<and> c_connections ctl' = [1, 0]"
proof -
  have "\<exists>ctl'. sort_and_switch_connection (\<lambda>_. Some sample_candidate) sample_heap sample_controller
      = Some (ctl', Some 1)"
    by (simp add: sample_controller_simps sort_and_switch_connection_def choose_connection_def
        conn_view_of_def conn_before_iff ctl_ready_to_send_def conn_writable_def less_WriteState_def)
  then obtain ctl' where r: "sort_and_switch_connection (\<lambda>_. Some sample_candidate) sample_heap
      sample_controller = Some (ctl', Some 1)" by blast
  obtain ps where ps: "c_connections ctl' = 1 # ps" "mset (c_connections ctl') = {#0, 1#}"
    using sort_and_switch_best [OF r] by (auto simp: sample_controller_simps)
  then have "ps = [0]" by simp
  with ps r show ?thesis by blast
qed

section \<open>Choosing the next connection to ping\<close>

lemma set_insert_set [simp]: "set (set_insert p s) = insert p (set s)"
  by (auto simp: set_insert_def set_insort_key)

lemma set_erase_set [simp]: "set (set_erase p s) = set s - {p}"
  by (auto simp: set_erase_def)

lemma set_insert_sorted [simp]: "sorted_wrt (<) s \<Longrightarrow> sorted_wrt (<) (set_insert p s)"
  by (auto simp: set_insert_def strict_sorted_iff sorted_insort distinct_insort)

lemma set_erase_sorted [simp]: "sorted_wrt (<) s \<Longrightarrow> sorted_wrt (<) (set_erase p s)"
  by (auto simp: set_erase_def strict_sorted_iff sorted_filter [of id, simplified])

lemma fold_set_insert [simp]:
  "set (fold set_insert ps s) = set ps \<union> set s"
  "sorted_wrt (<) s \<Longrightarrow> sorted_wrt (<) (fold set_insert ps s)"
  by (induction ps arbitrary: s) auto

text \<open>Every connection is either waiting for its ping or has been pinged in this round.\<close>

definition ctl_inv :: "IceController \<Rightarrow> bool" where
  "ctl_inv ctl \<longleftrightarrow> distinct (c_connections ctl)
     \<and> sorted_wrt (<) (c_unpinged ctl) \<and> sorted_wrt (<) (c_pinged ctl)
     \<and> set (c_unpinged ctl) \<inter> set (c_pinged ctl) = {}
     \<and> set (c_unpinged ctl) \<union> set (c_pinged ctl) = set (c_connections ctl)"

lemma ctl_inv_new [simp]: "ctl_inv new_IceController"
  by (simp add: ctl_inv_def new_IceController_def)

lemma ctl_inv_add_connection:
  "ctl_inv ctl \<Longrightarrow> p \<notin> set (c_connections ctl) \<Longrightarrow> ctl_inv (add_connection p ctl)"
  by (auto simp: ctl_inv_def add_connection_def)

lemma ctl_inv_destroyed: "ctl_inv ctl \<Longrightarrow> ctl_inv (ctl_on_connection_destroyed p ctl)"
  by (auto simp: ctl_inv_def ctl_on_connection_destroyed_def)

lemma ctl_inv_set_selected [simp]: "ctl_inv (set_selected_connection p ctl) = ctl_inv ctl"
  by (simp add: ctl_inv_def set_selected_connection_def)

lemma ctl_inv_mark_pinged:
  "ctl_inv ctl \<Longrightarrow> (\<And>p. conn = Some p \<Longrightarrow> p \<in> set (c_connections ctl)) \<Longrightarrow>
   ctl_inv (mark_connection_pinged conn ctl)"
  by (auto simp: ctl_inv_def mark_connection_pinged_def split: option.split)

lemma ctl_inv_refill [simp]: "ctl_inv ctl \<Longrightarrow> ctl_inv (refill_unpinged ctl)"
  by (auto simp: ctl_inv_def refill_unpinged_def)

lemma ctl_inv_sort:
  assumes "ctl_inv ctl" "sort_and_switch_connection lc h ctl = Some (ctl', res)"
  shows "ctl_inv ctl'"
  using assms(1) sort_and_switch_perm [OF assms(2)] mset_eq_imp_distinct_iff
  by (auto simp: ctl_inv_def)

text \<open>Following pointers of live connections never fails.\<close>

definition sel_live :: "conn_heap \<Rightarrow> IceController \<Rightarrow> bool" where
  "sel_live h ctl \<longleftrightarrow> (case c_selected ctl of None \<Rightarrow> True | Some p \<Rightarrow> h p \<noteq> None)"

lemma ctl_weak_live: "sel_live h ctl \<Longrightarrow> \<exists>b. ctl_weak h ctl = Some b"
  by (auto simp: sel_live_def ctl_weak_def split: option.splits)

lemma past_ping_interval_live:
  "sel_live h ctl \<Longrightarrow> h p = Some c \<Longrightarrow> \<exists>b. is_connection_past_ping_interval h ctl now p = Some b"
  using ctl_weak_live [of h ctl]
  by (auto simp: is_connection_past_ping_interval_def get_connection_ping_interval_def)

lemma is_pingable_live:
  "sel_live h ctl \<Longrightarrow> h p = Some c \<Longrightarrow> \<exists>b. is_pingable h ctl now p = Some b"
  using ctl_weak_live [of h ctl] past_ping_interval_live [of h ctl p c now]
  by (auto simp: is_pingable_def)

lemma any_pingable_live:
  "sel_live h ctl \<Longrightarrow> (\<And>p. p \<in> set ps \<Longrightarrow> h p \<noteq> None) \<Longrightarrow>
   any_pingable h ctl now ps = Some (\<exists>p \<in> set ps. is_pingable h ctl now p = Some True)"
proof (induction ps)
  case (Cons p ps)
  obtain b where "is_pingable h ctl now p = Some b"
    using Cons.prems is_pingable_live by fastforce
  with Cons show ?case by (cases b) auto
qed simp

text \<open>The pingability of a connection depends only on which connection is selected.\<close>

lemma is_pingable_cong:
  assumes "c_selected ctl = c_selected ctl'"
  shows "is_pingable h ctl now p = is_pingable h ctl' now p"
  unfolding is_pingable_def is_connection_past_ping_interval_def
    get_connection_ping_interval_def ctl_weak_def assms ..

lemma c_selected_refill [simp]: "c_selected (refill_unpinged ctl) = c_selected ctl"
  and c_connections_refill [simp]: "c_connections (refill_unpinged ctl) = c_connections ctl"
  by (simp_all add: refill_unpinged_def)

definition least_recent :: "conn_heap \<Rightarrow> ptr set \<Rightarrow> ptr \<Rightarrow> bool" where
  "least_recent h S p \<longleftrightarrow> p \<in> S \<and> (\<forall>q \<in> S. \<forall>c d. h p = Some c \<longrightarrow> h q = Some d \<longrightarrow>
     last_ping_sent c \<le> last_ping_sent d)"

lemma least_recent_insert:
  assumes "h p = Some c" "h q = Some d" "least_recent h S q"
  shows "last_ping_sent c < last_ping_sent d \<Longrightarrow> least_recent h (insert p S) p"
    "\<not> last_ping_sent c < last_ping_sent d \<Longrightarrow> least_recent h (insert p S) q"
  using assms by (fastforce simp: least_recent_def)+

lemma more_pingable_step:
  assumes c: "h p = Some c"
    and acc: "case acc of None \<Rightarrow> S = {} | Some q \<Rightarrow> h q \<noteq> None \<and> least_recent h S q"
  shows "\<exists>m. more_pingable h (Some p) acc = Some m
    \<and> (case (if m then Some p else acc) of None \<Rightarrow> insert p S = {}
       | Some q \<Rightarrow> h q \<noteq> None \<and> least_recent h (insert p S) q)"
proof (cases acc)
  case None
  with assms show ?thesis
    by (intro exI [of _ True]) (simp add: more_pingable_def least_recent_def)
next
  case (Some q)
  with acc obtain d where d: "h q = Some d" "least_recent h S q" by auto
  have "more_pingable h (Some p) acc = Some (last_ping_sent c < last_ping_sent d)"
    using c d(1) Some by (simp add: more_pingable_def)
  then show ?thesis
    using c d(1) Some least_recent_insert [OF c d] by simp
qed

lemma find_most_pingable_live:
  assumes "sel_live h ctl" "\<And>p. p \<in> set ps \<Longrightarrow> h p \<noteq> None"
    and "case acc of None \<Rightarrow> S = {} | Some p \<Rightarrow> h p \<noteq> None \<and> least_recent h S p"
  shows "\<exists>r. find_most_pingable h ctl now ps acc = Some r
    \<and> (case r of None \<Rightarrow> S \<union> {p \<in> set ps. is_pingable h ctl now p = Some True} = {}
       | Some p \<Rightarrow> h p \<noteq> None
           \<and> least_recent h (S \<union> {p \<in> set ps. is_pingable h ctl now p = Some True}) p)"
  using assms(2,3)
proof (induction ps arbitrary: acc S)
  case Nil
  then show ?case by (cases acc) auto
next
  case (Cons p ps)
  obtain c where c: "h p = Some c" using Cons.prems(1) by fastforce
  obtain b where b: "is_pingable h ctl now p = Some b"
    using is_pingable_live [OF assms(1) c] by blast
  show ?case
  proof (cases b)
    case False
    then have eq: "{q \<in> set (p # ps). is_pingable h ctl now q = Some True}
        = {q \<in> set ps. is_pingable h ctl now q = Some True}" using b by auto
    show ?thesis unfolding eq using Cons.IH [OF _ Cons.prems(2)] Cons.prems(1) b False by simp
  next
    case True
    have "\<exists>m. more_pingable h (Some p) acc = Some m
        \<and> (case (if m then Some p else acc) of None \<Rightarrow> insert p S = {}
           | Some q \<Rightarrow> h q \<noteq> None \<and> least_recent h (insert p S) q)"
      using c Cons.prems(2) by (rule more_pingable_step)
    then obtain m where m: "more_pingable h (Some p) acc = Some m"
      "case (if m then Some p else acc) of None \<Rightarrow> insert p S = {}
           | Some q \<Rightarrow> h q \<noteq> None \<and> least_recent h (insert p S) q" by blast
    have eq: "insert p S \<union> {q \<in> set ps. is_pingable h ctl now q = Some True}
        = S \<union> {q \<in> set (p # ps). is_pingable h ctl now q = Some True}"
      using b True by auto
    show ?thesis
      using Cons.IH [OF _ m(2)] Cons.prems(1) b True m(1) unfolding eq by simp
  qed
qed

definition selected_urgent :: "conn_heap \<Rightarrow> int \<Rightarrow> IceController \<Rightarrow> bool" where
  "selected_urgent h now ctl \<longleftrightarrow> (\<exists>p c. c_selected ctl = Some p \<and> h p = Some c \<and> conn_writable c
     \<and> is_connection_past_ping_interval h ctl now p = Some True)"

lemma find_next_eq:
  assumes "sel_live h ctl"
  shows "find_next_pingable_connection h now ctl =
    (if selected_urgent h now ctl then Some (ctl, c_selected ctl)
     else do {
       has_pingable \<leftarrow> any_pingable h ctl now (c_unpinged ctl);
       let ctl = (if \<not> has_pingable then refill_unpinged ctl else ctl);
       find_conn \<leftarrow> find_most_pingable h ctl now (c_unpinged ctl) None;
       Some (ctl, find_conn)
     })"
proof (cases "c_selected ctl")
  case None
  then show ?thesis by (simp add: find_next_pingable_connection_def selected_urgent_def)
next
  case (Some p)
  then obtain c where c: "h p = Some c" using assms by (auto simp: sel_live_def)
  obtain b where b: "is_connection_past_ping_interval h ctl now p = Some b"
    using past_ping_interval_live [OF assms c] by blast
  show ?thesis
    using Some c b by (simp add: find_next_pingable_connection_def selected_urgent_def)
qed

lemma find_next_spec:
  assumes inv: "ctl_inv ctl" and sel: "sel_live h ctl"
    and live: "list_all (\<lambda>p. h p \<noteq> None) (c_connections ctl)"
  shows "\<exists>ctl' r. find_next_pingable_connection h now ctl = Some (ctl', r)
    \<and> ctl_inv ctl' \<and> c_connections ctl' = c_connections ctl \<and> c_selected ctl' = c_selected ctl
    \<and> (selected_urgent h now ctl \<longrightarrow> r = c_selected ctl)
    \<and> (\<not> selected_urgent h now ctl \<longrightarrow>
        (r = None \<longleftrightarrow> (\<forall>p \<in> set (c_connections ctl). is_pingable h ctl now p \<noteq> Some True))
        \<and> (\<forall>p. r = Some p \<longrightarrow> p \<in> set (c_unpinged ctl')
            \<and> least_recent h {q \<in> set (c_unpinged ctl'). is_pingable h ctl now q = Some True} p))"
proof (cases "selected_urgent h now ctl")
  case True
  then show ?thesis using inv by (simp add: find_next_eq [OF sel])
next
  case False
  let ?P = "\<lambda>p. is_pingable h ctl now p = Some True"
  have part: "set (c_unpinged ctl) \<union> set (c_pinged ctl) = set (c_connections ctl)"
    using inv by (simp add: ctl_inv_def)
  have live': "h p \<noteq> None" if "p \<in> set (c_connections ctl)" for p
    using live that by (simp add: list_all_iff)
  define ctl' where "ctl' = (if \<exists>p \<in> set (c_unpinged ctl). ?P p then ctl else refill_unpinged ctl)"
  have inv': "ctl_inv ctl'" and same: "c_connections ctl' = c_connections ctl" "c_selected ctl' = c_selected ctl"
    using inv by (simp_all add: ctl'_def)
  have sub: "set (c_unpinged ctl') \<subseteq> set (c_connections ctl)"
    using inv' same by (auto simp: ctl_inv_def)
  have all: "(\<exists>p \<in> set (c_connections ctl). ?P p) \<longleftrightarrow> (\<exists>p \<in> set (c_unpinged ctl'). ?P p)"
    using part sub by (auto simp: ctl'_def refill_unpinged_def)
  have ping': "is_pingable h ctl' now p = is_pingable h ctl now p" for p
    by (rule is_pingable_cong) (simp add: same)
  have sel': "sel_live h ctl'" using sel by (simp add: sel_live_def same)
  obtain r where r: "find_most_pingable h ctl' now (c_unpinged ctl') None = Some r"
    and rs: "case r of None \<Rightarrow> {p \<in> set (c_unpinged ctl'). ?P p} = {}
       | Some p \<Rightarrow> least_recent h {p \<in> set (c_unpinged ctl'). ?P p} p"
    using find_most_pingable_live [OF sel', where ps = "c_unpinged ctl'" and acc = None and S = "{}" and now = now] sub live'
    unfolding ping' by (fastforce split: option.splits)
  have any: "any_pingable h ctl now (c_unpinged ctl) = Some (\<exists>p \<in> set (c_unpinged ctl). ?P p)"
    using part live' by (intro any_pingable_live [OF sel]) blast
  have "find_next_pingable_connection h now ctl = Some (ctl', r)"
    using False r by (simp add: find_next_eq [OF sel] any ctl'_def Let_def split: if_splits)
      blast
  with False inv' same rs all show ?thesis
    by (cases r) (auto simp: least_recent_def)
qed

text \<open>
  The search for the connection to ping never follows a dangling pointer when the controller
  and the heap agree, keeps every connection in exactly one of the two rounds, and is fair: when
  the selected connection is not due, it returns a pingable connection if there is one at all,
  and one that was pinged least recently among those waiting in the current round.
\<close>

theorem find_next_pingable_fair:
  assumes inv: "ctl_inv ctl" and sel: "sel_live h ctl"
    and live: "list_all (\<lambda>p. h p \<noteq> None) (c_connections ctl)"
  shows "\<exists>ctl' r. find_next_pingable_connection h now ctl = Some (ctl', r)
    \<and> ctl_inv ctl' \<and> c_connections ctl' = c_connections ctl \<and> c_selected ctl' = c_selected ctl
    \<and> (selected_urgent h now ctl \<longrightarrow> r = c_selected ctl)
    \<and> (\<not> selected_urgent h now ctl \<longrightarrow>
        (r = None \<longleftrightarrow> (\<forall>p \<in> set (c_connections ctl). is_pingable h ctl now p \<noteq> Some True))
        \<and> (\<forall>p. r = Some p \<longrightarrow> p \<in> set (c_unpinged ctl')
            \<and> least_recent h {q \<in> set (c_unpinged ctl'). is_pingable h ctl now q = Some True} p))"
  using find_next_spec [OF assms] .

theorem find_next_pingable_fair_witness:
  "\<exists>ctl'. find_next_pingable_connection sample_heap 100 sample_controller = Some (ctl', Some 0)
     \<and> ctl_inv ctl'"
proof -
  have inv: "ctl_inv sample_controller"
    unfolding sample_controller_def
    by (intro ctl_inv_add_connection ctl_inv_new) (simp_all add: add_connection_def new_IceController_def)
  have sel: "sel_live sample_heap sample_controller"
    by (simp add: sel_live_def sample_controller_simps)
  have live: "list_all (\<lambda>p. sample_heap p \<noteq> None) (c_connections sample_controller)"
    by (simp add: sample_controller_simps)
  have "\<exists>ctl'. find_next_pingable_connection sample_heap 100 sample_controller = Some (ctl', Some 0)"
    by (simp add: sample_controller_simps find_next_pingable_connection_def is_pingable_def
        ctl_weak_def more_pingable_def sample_candidate_def bytes_of_def Let_def)
  with find_next_pingable_fair [OF inv sel live, of 100] show ?thesis by auto
qed

end
