(* ===== verification/String_Encode.thy ===== *)
theory String_Encode
  imports Prelude "HOL-Library.Sublist"
begin

text \<open>
  The string routines of \<^verbatim>\<open>rtc_base/string_encode.cc\<close> and
  \<^verbatim>\<open>rtc_base/string_to_number.cc\<close> that the server uses: splitting, hexadecimal
  digests and decimal numbers, with the members of \<^verbatim>\<open>std::string\<close> they rest on.
  The round trips of printing and reading are proved here once for all clients.
\<close>

section \<open>Searching and cutting strings\<close>

text \<open>\<^verbatim>\<open>s.find(pat) != std::string::npos\<close>.\<close>

fun str_contains :: "bytes \<Rightarrow> bytes \<Rightarrow> bool" where
  "str_contains pat [] \<longleftrightarrow> pat = []"
| "str_contains pat (c # s) \<longleftrightarrow> prefix pat (c # s) \<or> str_contains pat s"

text \<open>\<^verbatim>\<open>s.substr(pos)\<close>, which throws \<^verbatim>\<open>std::out_of_range\<close> (here
  \<open>None\<close>) when \<open>pos\<close> is past the end.\<close>

definition str_substr :: "nat \<Rightarrow> bytes \<Rightarrow> bytes option" where
  "str_substr pos s = (if pos \<le> length s then Some (drop pos s) else None)"

definition to_lower :: "8 word \<Rightarrow> 8 word" where
  "to_lower c = (if 0x41 \<le> c \<and> c \<le> 0x5A then c + 0x20 else c)"

definition to_upper :: "8 word \<Rightarrow> 8 word" where
  "to_upper c = (if 0x61 \<le> c \<and> c \<le> 0x7A then c - 0x20 else c)"

section \<open>Splitting\<close>

text \<open>\<^verbatim>\<open>rtc::split\<close>: \<open>cur\<close> is the field being read.\<close>

fun split_loop :: "8 word \<Rightarrow> bytes \<Rightarrow> bytes \<Rightarrow> bytes list" where
  "split_loop delimiter cur [] = [cur]"
| "split_loop delimiter cur (c # source) =
     (if c = delimiter then cur # split_loop delimiter [] source
      else split_loop delimiter (cur @ [c]) source)"

definition split :: "bytes \<Rightarrow> 8 word \<Rightarrow> bytes list" where
  "split source delimiter = split_loop delimiter [] source"

text \<open>\<^verbatim>\<open>rtc::tokenize\<close> drops empty fields.\<close>

fun tokenize_loop :: "8 word \<Rightarrow> bytes \<Rightarrow> bytes \<Rightarrow> bytes list" where
  "tokenize_loop delimiter cur [] = (if cur \<noteq> [] then [cur] else [])"
| "tokenize_loop delimiter cur (c # source) =
     (if c = delimiter then (if cur \<noteq> [] then [cur] else []) @ tokenize_loop delimiter [] source
      else tokenize_loop delimiter (cur @ [c]) source)"

definition tokenize :: "bytes \<Rightarrow> 8 word \<Rightarrow> bytes list" where
  "tokenize source delimiter = tokenize_loop delimiter [] source"

text \<open>\<open>None\<close> is the result false.\<close>

definition tokenize_first :: "bytes \<Rightarrow> 8 word \<Rightarrow> (bytes \<times> bytes) option" where
  "tokenize_first source delimiter =
     (if delimiter \<notin> set source then None
      else Some (takeWhile (\<lambda>c. c \<noteq> delimiter) source,
        dropWhile (\<lambda>c. c = delimiter) (dropWhile (\<lambda>c. c \<noteq> delimiter) source)))"

section \<open>Numbers\<close>

text \<open>Decimal printing of \<^verbatim>\<open>std::to_string\<close>.\<close>

fun dec_digits :: "nat \<Rightarrow> string" where
  "dec_digits n = (if n < 10 then [char_of (48 + n)] else dec_digits (n div 10) @ [char_of (48 + n mod 10)])"

declare dec_digits.simps [simp del]

definition dec_bytes :: "nat \<Rightarrow> bytes" where
  "dec_bytes n = bytes_of (dec_digits n)"

text \<open>Output of an \<^verbatim>\<open>int\<close> on a stream.\<close>

definition int_bytes :: "int \<Rightarrow> bytes" where
  "int_bytes i = (if i < 0 then bytes_of ''-'' else []) @ dec_bytes (nat \<bar>i\<bar>)"

definition is_digit :: "8 word \<Rightarrow> bool" where
  "is_digit c \<longleftrightarrow> 0x30 \<le> c \<and> c \<le> 0x39"

definition digits_value :: "bytes \<Rightarrow> nat" where
  "digits_value = foldl (\<lambda>v c. 10 * v + (unat c - 48)) 0"

text \<open>
  \<^verbatim>\<open>std::strtoull\<close> in base ten on a string that starts with a digit or with a
  minus sign: the value, or \<open>None\<close> when \<^verbatim>\<open>errno\<close> is set, and what
  follows the number.  A minus sign that no digit follows is no number.
\<close>

definition strtoull :: "bytes \<Rightarrow> u64 option \<times> bytes" where
  "strtoull s = (let neg = (take 1 s = bytes_of ''-''); body = (if neg then drop 1 s else s);
       digits = takeWhile is_digit body; v = digits_value digits
     in if digits = [] then (Some 0, s)
        else if v < 2 ^ 64 then (Some (if neg then - of_nat v else of_nat v), dropWhile is_digit body)
        else (None, dropWhile is_digit body))"

text \<open>The C string of a \<^verbatim>\<open>std::string\<close> ends at its first zero byte.\<close>

definition c_str :: "bytes \<Rightarrow> bytes" where
  "c_str s = takeWhile (\<lambda>c. c \<noteq> 0) s"

definition ParseUnsigned :: "bytes \<Rightarrow> u64 option" where
  "ParseUnsigned str =
     (if str \<noteq> [] \<and> (is_digit (hd str) \<or> hd str = 0x2D)
      then let is_negative = (hd str = 0x2D); (value, end) = strtoull str
           in (case value of None \<Rightarrow> None
               | Some v \<Rightarrow> if end = [] \<and> (v = 0 \<or> \<not> is_negative) then Some v else None)
      else None)"

definition FromString :: "bytes \<Rightarrow> u32 option" where
  "FromString s = (case ParseUnsigned (c_str s) of None \<Rightarrow> None
     | Some v \<Rightarrow> if v \<le> 0xFFFFFFFF then Some (ucast v) else None)"

section \<open>Hexadecimal digests\<close>

definition HEX :: bytes where "HEX = bytes_of ''0123456789abcdef''"

definition hex_encode :: "8 word \<Rightarrow> 8 word" where
  "hex_encode val = (if val < 16 then HEX ! unat val else 0x21)"

definition hex_decode :: "8 word \<Rightarrow> 8 word option" where
  "hex_decode ch =
     (if 0x30 \<le> ch \<and> ch \<le> 0x39 then Some (ch - 0x30)
      else if 0x41 \<le> ch \<and> ch \<le> 0x46 then Some (ch - 0x41 + 10)
      else if 0x61 \<le> ch \<and> ch \<le> 0x66 then Some (ch - 0x61 + 10)
      else None)"

text \<open>The loops of \<^verbatim>\<open>hex_encode_with_delimiter\<close> and
  \<^verbatim>\<open>hex_decode_with_delimiter\<close> for a delimiter other than zero; the result of
  decoding is \<open>None\<close> where the source returns 0.\<close>

fun hex_encode_with_delimiter :: "bytes \<Rightarrow> 8 word \<Rightarrow> bytes" where
  "hex_encode_with_delimiter [] delimiter = []"
| "hex_encode_with_delimiter (ch # source) delimiter =
     [hex_encode (drop_bit 4 ch AND 0xF), hex_encode (ch AND 0xF)]
     @ (if source \<noteq> [] then [delimiter] else []) @ hex_encode_with_delimiter source delimiter"

fun hex_decode_loop :: "bytes \<Rightarrow> 8 word \<Rightarrow> bytes option" where
  "hex_decode_loop [] delimiter = Some []"
| "hex_decode_loop [c] delimiter = None"
| "hex_decode_loop (c1 # c2 # source) delimiter =
     (case (hex_decode c1, hex_decode c2) of
        (Some h1, Some h2) \<Rightarrow>
          (case source of
             d # e # source' \<Rightarrow> if d \<noteq> delimiter then None
               else map_option (\<lambda>bs. (push_bit 4 h1 OR h2) # bs) (hex_decode_loop (e # source') delimiter)
           | _ \<Rightarrow> map_option (\<lambda>bs. (push_bit 4 h1 OR h2) # bs) (hex_decode_loop source delimiter))
      | _ \<Rightarrow> None)"

definition hex_decode_with_delimiter :: "nat \<Rightarrow> bytes \<Rightarrow> 8 word \<Rightarrow> bytes option" where
  "hex_decode_with_delimiter buflen source delimiter =
     (if buflen = 0 then None
      else if buflen < (length source + 1) div 3 then None
      else hex_decode_loop source delimiter)"

section \<open>Facts on splitting\<close>

lemma split_loop_no_delim: "d \<notin> set s \<Longrightarrow> split_loop d cur s = [cur @ s]"
  by (induction s arbitrary: cur) auto

lemma split_loop_first: "d \<notin> set a \<Longrightarrow> split_loop d cur (a @ d # s) = (cur @ a) # split_loop d [] s"
  by (induction a arbitrary: cur) auto

lemma split_loop_nonempty: "split_loop d cur s \<noteq> []"
  by (induction s arbitrary: cur) auto

lemma split_loop_single: "split_loop d cur s = [f] \<longleftrightarrow> d \<notin> set s \<and> f = cur @ s"
  by (induction s arbitrary: cur) (auto simp: split_loop_nonempty)

lemma split_loop_two:
  "split_loop d cur s = [f, g] \<longleftrightarrow> (\<exists>a. f = cur @ a \<and> s = a @ d # g \<and> d \<notin> set a \<and> d \<notin> set g)"
proof (induction s arbitrary: cur)
  case (Cons c s)
  show ?case
  proof (cases "c = d")
    case True
    then show ?thesis
      by (auto simp: split_loop_single Cons_eq_append_conv)
  next
    case False
    then show ?thesis by (auto simp: Cons.IH Cons_eq_append_conv)
  qed
qed simp

lemma split_two: "split s d = [f, g] \<longleftrightarrow> s = f @ d # g \<and> d \<notin> set f \<and> d \<notin> set g"
  by (auto simp: split_def split_loop_two)

lemma tokenize_loop_filter: "tokenize_loop d cur s = filter (\<lambda>f. f \<noteq> []) (split_loop d cur s)"
  by (induction s arbitrary: cur) auto

lemma tokenize_filter: "tokenize s d = filter (\<lambda>f. f \<noteq> []) (split s d)"
  by (simp add: tokenize_def split_def tokenize_loop_filter)

lemma split_append: "d \<notin> set a \<Longrightarrow> split (a @ d # s) d = a # split s d"
  by (simp add: split_def split_loop_first)

lemma split_no_delim [simp]: "d \<notin> set s \<Longrightarrow> split s d = [s]"
  by (simp add: split_def split_loop_no_delim)

text \<open>A text whose lines all end in the delimiter is tokenized into its non-empty lines.\<close>

lemma tokenize_lines:
  assumes "\<And>l. l \<in> set ls \<Longrightarrow> l \<noteq> [] \<and> d \<notin> set l"
  shows "tokenize (concat (map (\<lambda>l. l @ [d]) ls)) d = ls"
  using assms
proof (induction ls)
  case (Cons l ls)
  then have "tokenize ((l @ [d]) @ concat (map (\<lambda>l. l @ [d]) ls)) d
      = l # tokenize (concat (map (\<lambda>l. l @ [d]) ls)) d"
    by (simp add: tokenize_filter split_append)
  with Cons show ?case by simp
qed (simp add: tokenize_def)

lemma tokenize_first_append:
  assumes "d \<notin> set a" "b = [] \<or> hd b \<noteq> d"
  shows "tokenize_first (a @ d # b) d = Some (a, b)"
proof -
  have "dropWhile (\<lambda>c. c = d) b = b" using assms(2) by (cases b) auto
  moreover have "takeWhile (\<lambda>c. c \<noteq> d) (a @ d # b) = a" "dropWhile (\<lambda>c. c \<noteq> d) (a @ d # b) = d # b"
    using assms(1) by (simp_all add: takeWhile_append dropWhile_append)
  ultimately show ?thesis by (simp add: tokenize_first_def)
qed

lemma str_contains_sublist: "str_contains pat s \<longleftrightarrow> sublist pat s"
  by (induction s) (auto simp: sublist_Cons_right)

text \<open>
  A pattern whose second character \<open>e\<close> occurs in the text only at its second position
  can only be found at the beginning.
\<close>

lemma str_contains_key:
  assumes "e \<notin> set t"
  shows "str_contains (c # e # q) (b # e # t) \<longleftrightarrow> c = b \<and> prefix q t"
proof -
  have none: "\<not> str_contains (c # e # q) s" if "e \<notin> set s" for s
    using that set_mono_sublist [of "c # e # q" s] by (auto simp: str_contains_sublist)
  then have "\<not> str_contains (c # e # q) t" using assms by blast
  moreover have "\<not> prefix (c # e # q) (e # t)" using assms by (cases t) auto
  ultimately show ?thesis by auto
qed

section \<open>Decimal numbers\<close>

abbreviation digit_of :: "nat \<Rightarrow> 8 word" where "digit_of k \<equiv> 48 + word_of_nat k"

lemma digit_cases: "k < 10 \<Longrightarrow> k \<in> {0, 1, 2, 3, 4, 5, 6, 7, 8, 9 :: nat}"
  by auto

lemma digit_of_simps:
  assumes "k < 10"
  shows "of_char (char_of (48 + k)) = digit_of k" "unat (digit_of k) = 48 + k" "is_digit (digit_of k)"
proof -
  have "of_char (char_of (48 + k)) = (of_nat (of_char (char_of (48 + k)) :: nat) :: 8 word)"
    by (rule of_nat_of_char [symmetric])
  with assms show "of_char (char_of (48 + k)) = digit_of k" by simp
qed (use digit_cases [OF assms] in \<open>auto simp: is_digit_def\<close>)

lemma dec_bytes_rec:
  "dec_bytes n = (if n < 10 then [digit_of n] else dec_bytes (n div 10) @ [digit_of (n mod 10)])"
  unfolding dec_bytes_def by (subst dec_digits.simps) (simp add: bytes_of_def digit_of_simps)

lemma dec_bytes_digits: "c \<in> set (dec_bytes n) \<Longrightarrow> is_digit c"
proof (induction n rule: less_induct)
  case (less n)
  show ?case
  proof (cases "n < 10")
    case False
    then have "is_digit c" if "c \<in> set (dec_bytes (n div 10))" using less.IH [of "n div 10"] that by simp
    with False less.prems show ?thesis by (auto simp: dec_bytes_rec [of n] digit_of_simps)
  qed (use less.prems in \<open>simp add: dec_bytes_rec [of n] digit_of_simps\<close>)
qed

lemma dec_bytes_nonempty [simp]: "dec_bytes n \<noteq> []"
  by (subst dec_bytes_rec) simp

lemma digits_value_dec_bytes: "digits_value (dec_bytes n) = n"
proof (induction n rule: less_induct)
  case (less n)
  show ?case
  proof (cases "n < 10")
    case True
    then show ?thesis by (simp add: dec_bytes_rec [of n] digits_value_def digit_of_simps)
  next
    case False
    then have "digits_value (dec_bytes (n div 10)) = n div 10" using less by simp
    with False show ?thesis
      by (simp add: dec_bytes_rec [of n] digits_value_def digit_of_simps)
  qed
qed

lemma ParseUnsigned_dec_bytes:
  assumes "n < 2 ^ 64" shows "ParseUnsigned (dec_bytes n) = Some (of_nat n)"
proof -
  let ?s = "dec_bytes n"
  obtain c s where cs: "?s = c # s" by (cases ?s) simp_all
  have d: "is_digit c" using dec_bytes_digits [of c n] cs by simp
  then have "c \<noteq> 0x2D" by (auto simp: is_digit_def)
  moreover have "takeWhile is_digit ?s = ?s" "dropWhile is_digit ?s = []"
    using dec_bytes_digits by (auto simp: takeWhile_eq_all_conv)
  ultimately have "strtoull ?s = (Some (of_nat n), [])"
    using assms cs digits_value_dec_bytes [of n] by (simp add: strtoull_def bytes_of_def Let_def)
  then show ?thesis using d cs \<open>c \<noteq> 0x2D\<close> by (simp add: ParseUnsigned_def)
qed

lemma FromString_dec_bytes: "FromString (dec_bytes (unat n)) = Some n"
proof -
  have "\<not> is_digit 0" by (simp add: is_digit_def)
  then have "c_str (dec_bytes (unat n)) = dec_bytes (unat n)"
    using dec_bytes_digits [of _ "unat n"] unfolding c_str_def by (subst takeWhile_eq_all_conv) blast
  moreover have lt: "unat n < 2 ^ 32" using unsigned_less [of n] by simp
  moreover have "of_nat (unat n) \<le> (0xFFFFFFFF :: u64)"
    using lt by (simp add: word_le_nat_alt unsigned_ucast_eq take_bit_nat_eq_self)
  moreover have "ucast (of_nat (unat n) :: u64) = n"
    by (simp, rule bit_word_eqI) (simp add: bit_simps)
  ultimately show ?thesis
    by (simp add: FromString_def ParseUnsigned_dec_bytes)
qed

section \<open>Hexadecimal digests\<close>

lemma nibble_cases:
  assumes "(v :: 8 word) < 16"
  shows "v \<in> {0, 1, 2, 3, 4, 5, 6, 7, 8, 9, 10, 11, 12, 13, 14, 15}"
proof -
  have "unat v < 16" using assms by (simp add: word_less_nat_alt)
  then have "unat v \<in> {0, 1, 2, 3, 4, 5, 6, 7, 8, 9, 10, 11, 12, 13, 14, 15}"
    by (simp only: insert_iff empty_iff) presburger
  then have "word_of_nat (unat v) \<in> (word_of_nat ` {0, 1, 2, 3, 4, 5, 6, 7, 8, 9, 10, 11, 12, 13, 14, 15} :: 8 word set)"
    by (rule imageI)
  then show ?thesis by simp
qed

lemma hex_decode_encode: "v < 16 \<Longrightarrow> hex_decode (to_upper (hex_encode v)) = Some v"
  by (drule nibble_cases, elim insertE emptyE; hypsubst, code_simp)

lemma nibble_less: "(x :: 8 word) AND 0xF < 16"
proof -
  have "x AND 0xF = take_bit 4 x" by (simp add: take_bit_eq_mask mask_eq_exp_minus_1)
  then show ?thesis by (simp add: word_less_nat_alt unsigned_take_bit_eq take_bit_nat_less_exp [of 4, simplified])
qed

lemma nibbles_join: "push_bit 4 (drop_bit 4 ch AND 0xF) OR (ch AND 0xF) = (ch :: 8 word)"
proof (rule bit_word_eqI)
  fix n assume "n < LENGTH(8)"
  then have "n \<in> {0, 1, 2, 3, 4, 5, 6, 7}" by auto
  moreover have "(0xF :: 8 word) = mask 4" by (simp add: mask_eq_exp_minus_1)
  ultimately show "bit (push_bit 4 (drop_bit 4 ch AND 0xF) OR (ch AND 0xF)) n = bit ch n"
    by (auto simp: bit_simps)
qed

lemma hex_decode_step:
  "hex_decode_loop (to_upper (hex_encode (drop_bit 4 ch AND 0xF)) # to_upper (hex_encode (ch AND 0xF)) # s) d
   = (case s of d' # e # s' \<Rightarrow> if d' \<noteq> d then None else map_option ((#) ch) (hex_decode_loop (e # s') d)
      | _ \<Rightarrow> map_option ((#) ch) (hex_decode_loop s d))"
  using nibbles_join [of ch] by (simp add: hex_decode_encode nibble_less split: list.split)

lemma hex_round_trip_loop:
  "hex_decode_loop (map to_upper (hex_encode_with_delimiter bs 0x3A)) 0x3A = Some bs"
proof (induction bs)
  case (Cons ch bs)
  have "to_upper 0x3A = 0x3A" by (simp add: to_upper_def)
  with Cons.IH show ?case by (cases bs) (simp_all add: hex_decode_step del: hex_decode_loop.simps(3))
qed simp

lemma length_hex_encode:
  "bs \<noteq> [] \<Longrightarrow> length (hex_encode_with_delimiter bs d) = 3 * length bs - 1"
proof (induction bs)
  case (Cons c bs)
  then show ?case by (cases bs) auto
qed simp

lemma hex_round_trip:
  assumes "bs \<noteq> []" "length bs \<le> buflen"
  shows "hex_decode_with_delimiter buflen (map to_upper (hex_encode_with_delimiter bs 0x3A)) 0x3A = Some bs"
proof -
  have "(length (hex_encode_with_delimiter bs 0x3A) + 1) div 3 = length bs"
    using length_hex_encode [OF assms(1), of "0x3A"] assms(1) by (cases bs) auto
  moreover have "buflen \<noteq> 0" using assms by (cases bs) simp_all
  ultimately show ?thesis using assms(2) by (simp add: hex_decode_with_delimiter_def hex_round_trip_loop)
qed

end
