(* ===== verification/Udp_Port.thy ===== *)
theory Udp_Port
  imports Ice_Controller String_Encode
begin

text \<open>
  \<^verbatim>\<open>ice/udp_port.cpp\<close> and \<^verbatim>\<open>ice/port_allocator.cpp\<close>: the authentication of incoming STUN packets, the answers a
  port sends itself, and the candidate of a port.  The packet that a function hands to the socket
  is part of its result.
\<close>

section \<open>State\<close>

record UDPPort =
  port_transport_name :: bytes
  port_component :: IceCandidateComponent
  port_params :: IceParameters
  port_async_socket :: bool
  port_local_addr :: SocketAddress
  port_candidates :: "Candidate list"
  port_connections :: "SocketAddress \<rightharpoonup> ptr"

definition new_UDPPort :: "bytes \<Rightarrow> IceCandidateComponent \<Rightarrow> IceParameters \<Rightarrow> UDPPort" where
  "new_UDPPort transport_name component params = \<lparr>port_transport_name = transport_name,
     port_component = component, port_params = params, port_async_socket = False,
     port_local_addr = \<lparr>ipaddr = IPUnspec, sa_port = 0\<rparr>, port_candidates = [],
     port_connections = Map.empty\<rparr>"

record PortAllocator =
  pa_networks :: "Network list"
  pa_min_port :: int
  pa_max_port :: int

text \<open>The constructor ignores the result code of \<^verbatim>\<open>create_networks\<close>.\<close>

definition new_PortAllocator :: "ifaddrs option \<Rightarrow> PortAllocator option" where
  "new_PortAllocator iface = map_option (\<lambda>(_, nets).
     \<lparr>pa_networks = nets, pa_min_port = 0, pa_max_port = 0\<rparr>) (create_networks iface [])"

definition set_port_range :: "int \<Rightarrow> int \<Rightarrow> PortAllocator \<Rightarrow> PortAllocator" where
  "set_port_range min_port max_port pa =
     (let pa = (if min_port > 0 then pa\<lparr>pa_min_port := min_port\<rparr> else pa)
      in if max_port > 0 then pa\<lparr>pa_max_port := max_port\<rparr> else pa)"

section \<open>Candidates\<close>

text \<open>
  \<open>ntop\<close> stands for \<^verbatim>\<open>inet_ntop\<close>.  The addresses here never carry a host
  name, so \<^verbatim>\<open>HostAsURIString\<close> prints the IP address.
\<close>

definition HostAsURIString :: "(IPAddress \<Rightarrow> bytes) \<Rightarrow> SocketAddress \<Rightarrow> bytes" where
  "HostAsURIString ntop base = (case ipaddr base of
     IPv6 _ \<Rightarrow> bytes_of ''['' @ ntop (ipaddr base) @ bytes_of '']''
   | _ \<Rightarrow> ntop (ipaddr base))"

definition compute_foundation ::
    "(IPAddress \<Rightarrow> bytes) \<Rightarrow> bytes \<Rightarrow> bytes \<Rightarrow> bytes \<Rightarrow> SocketAddress \<Rightarrow> bytes" where
  "compute_foundation ntop ty protocol relay_protocol base =
     bytes_of (dec_digits (unat (ComputeCrc32
       (ty @ HostAsURIString ntop base @ protocol @ relay_protocol))))"

text \<open>
  \<open>bound\<close> is the outcome of creating the socket, making it non-blocking, binding it in the
  port range and reading its port back: \<open>None\<close> when one of the four fails.
\<close>

definition create_ice_candidate ::
    "(IPAddress \<Rightarrow> bytes) \<Rightarrow> Network \<Rightarrow> int option \<Rightarrow> UDPPort \<Rightarrow> Candidate option \<times> UDPPort" where
  "create_ice_candidate ntop network bound port = (case bound of None \<Rightarrow> (None, port)
     | Some p \<Rightarrow>
       let addr = \<lparr>ipaddr = net_ip network, sa_port = of_int p\<rparr>;
           c = \<lparr>cand_component = port_component port, cand_protocol = bytes_of ''udp'',
                cand_address = addr, cand_port = p, cand_priority = 0,
                cand_username = ice_ufrag (port_params port),
                cand_password = ice_pwd (port_params port),
                cand_type = LOCAL_PORT_TYPE, cand_foundation = []\<rparr>;
           c = c\<lparr>cand_priority := get_priority c (type_preference_code ICE_TYPE_PREFERENCE_HOST) 0 0\<rparr>;
           c = c\<lparr>cand_foundation :=
                 compute_foundation ntop (cand_type c) (cand_protocol c) [] (cand_address c)\<rparr>
       in (Some c, port\<lparr>port_local_addr := addr, port_async_socket := True,
                        port_candidates := port_candidates port @ [c]\<rparr>))"

section \<open>User names\<close>

text \<open>\<open>None\<close> is the result false.\<close>

definition parse_stun_username :: "StunMessage \<Rightarrow> (bytes \<times> bytes) option" where
  "parse_stun_username stun_msg = (case get_byte_string stun_msg STUN_ATTR_USERNAME of None \<Rightarrow> None
     | Some attr \<Rightarrow>
         (case split (get_string attr) (of_char (CHR '':'')) of
            [local_ufrag, remote_ufrag] \<Rightarrow> Some (local_ufrag, remote_ufrag)
          | _ \<Rightarrow> None))"

section \<open>Answers\<close>

definition binding_error_response :: "(bytes \<Rightarrow> bytes) \<Rightarrow> bytes \<Rightarrow> StunMessage \<Rightarrow> int \<Rightarrow> bytes
    \<Rightarrow> StunMessage" where
  "binding_error_response sha1 pwd stun_msg err_code reason =
     (let response = new_StunMessage\<lparr>msg_type := STUN_BINDING_ERROR_RESPONSE,
            transaction_id := transaction_id stun_msg\<rparr>;
          error_attr = set_reason (set_code create_error_code err_code) reason;
          response = add_attribute response error_attr;
          response = (if err_code \<noteq> STUN_ERROR_BAD_REQUEST \<and> err_code \<noteq> STUN_ERROR_UNAUTHORIZED
            then snd (add_message_integrity sha1 response pwd) else response)
      in snd (add_fingerprint response))"

definition send_binding_error_response :: "(bytes \<Rightarrow> bytes) \<Rightarrow> UDPPort \<Rightarrow> StunMessage \<Rightarrow> int \<Rightarrow> bytes
    \<Rightarrow> bytes option" where
  "send_binding_error_response sha1 port stun_msg err_code reason =
     (if \<not> port_async_socket port then None
      else msg_write (binding_error_response sha1 (ice_pwd (port_params port)) stun_msg err_code reason) [])"

section \<open>Authentication\<close>

text \<open>
  The result of \<^verbatim>\<open>get_stun_message\<close>: false, or true with the message left null
  after an error answer, or true with a message and the peer's user fragment.  \<open>None\<close> is
  an access outside the packet.
\<close>

datatype stun_input = not_stun | rejected "bytes option" | accepted StunMessage bytes

definition get_stun_message :: "(bytes \<Rightarrow> bytes) \<Rightarrow> UDPPort \<Rightarrow> bytes \<Rightarrow> stun_input option" where
  "get_stun_message sha1 port data = do {
     fp \<leftarrow> validate_fingerprint data;
     if \<not> fp then Some not_stun
     else (case msg_read new_StunMessage (Construct data) of
       None \<Rightarrow> Some not_stun
     | Some (stun_msg, buf) \<Rightarrow>
         if Length buf \<noteq> 0 then Some not_stun
         else if msg_type stun_msg \<noteq> STUN_BINDING_REQUEST then Some (accepted stun_msg [])
         else if get_byte_string stun_msg STUN_ATTR_USERNAME = None
            \<or> get_byte_string stun_msg STUN_ATTR_MESSAGE_INTEGRITY = None
         then Some (rejected (send_binding_error_response sha1 port stun_msg
                STUN_ERROR_BAD_REQUEST STUN_ERROR_REASON_BAD_REQUEST))
         else (case parse_stun_username stun_msg of
           None \<Rightarrow> Some (rejected (send_binding_error_response sha1 port stun_msg
                STUN_ERROR_UNAUTHORIZED STUN_ERROR_REASON_UNAUTHORIZED))
         | Some (local_ufrag, remote_ufrag) \<Rightarrow>
             if local_ufrag \<noteq> ice_ufrag (port_params port)
             then Some (rejected (send_binding_error_response sha1 port stun_msg
                STUN_ERROR_UNAUTHORIZED STUN_ERROR_REASON_UNAUTHORIZED))
             else do {
               stun_msg \<leftarrow> validate_message_integrity sha1 stun_msg (ice_pwd (port_params port));
               if integrity stun_msg \<noteq> k_integrity_ok
               then Some (rejected (send_binding_error_response sha1 port stun_msg
                  STUN_ERROR_UNAUTHORIZED STUN_ERROR_REASON_UNAUTHORIZED))
               else Some (accepted stun_msg remote_ufrag)
             }))
   }"

definition get_connection :: "UDPPort \<Rightarrow> SocketAddress \<Rightarrow> ptr option" where
  "get_connection port addr = port_connections port addr"

text \<open>
  \<^verbatim>\<open>create_connection\<close> with the address of the new object: the map entry is
  inserted, or overwritten when the remote address is already known.
\<close>

definition create_connection :: "ptr \<Rightarrow> Candidate \<Rightarrow> UDPPort \<Rightarrow> UDPPort" where
  "create_connection conn remote port =
     port\<lparr>port_connections := (port_connections port)(cand_address remote \<mapsto> conn)\<rparr>"

section \<open>Splitting user names\<close>

abbreviation colon :: "8 word" where "colon \<equiv> 0x3A"

lemma parse_stun_username_iff:
  "parse_stun_username m = Some (l, r) \<longleftrightarrow>
     (\<exists>a. get_byte_string m STUN_ATTR_USERNAME = Some a \<and> get_string a = l @ colon # r
        \<and> colon \<notin> set l \<and> colon \<notin> set r)"
proof -
  have two: "(case xs of [l, r] \<Rightarrow> Some (l, r) | _ \<Rightarrow> None) = Some (l, r) \<longleftrightarrow> xs = [l, r]" for xs :: "bytes list"
    by (auto split: list.split)
  show ?thesis
    by (cases "get_byte_string m STUN_ATTR_USERNAME") (simp_all add: parse_stun_username_def two split_two)
qed

lemma get_stun_message_acceptedD:
  assumes "get_stun_message sha1 port data = Some (accepted m ufrag)"
  shows "\<exists>m0 r. validate_fingerprint data = Some True
    \<and> msg_read new_StunMessage (Construct data) = Some (m0, r)
    \<and> (msg_type m0 \<noteq> STUN_BINDING_REQUEST \<and> m = m0 \<and> ufrag = []
      \<or> msg_type m0 = STUN_BINDING_REQUEST
        \<and> parse_stun_username m0 = Some (ice_ufrag (port_params port), ufrag)
        \<and> validate_message_integrity sha1 m0 (ice_pwd (port_params port)) = Some m
        \<and> integrity m = k_integrity_ok)"
  using assms unfolding get_stun_message_def bind_eq_Some_conv
  by (force split: if_splits option.splits prod.splits simp: bind_eq_Some_conv)

lemma validate_message_integrity_frame:
  assumes "validate_message_integrity sha1 m pwd = Some m'"
  shows "msg_type m' = msg_type m \<and> transaction_id m' = transaction_id m \<and> attrs m' = attrs m
    \<and> msg_buffer m' = msg_buffer m"
  using assms by (auto simp: validate_message_integrity_def Let_def bind_eq_Some_conv split: option.splits)

lemma validate_message_integrity_ok:
  assumes "validate_message_integrity sha1 m pwd = Some m'" "integrity m' = k_integrity_ok"
  shows "validate_message_integrity_of_type sha1 STUN_ATTR_MESSAGE_INTEGRITY 20 (msg_buffer m) pwd = Some True"
  using assms by (auto simp: validate_message_integrity_def Let_def bind_eq_Some_conv
      k_stun_message_integrity_size_def split: option.splits if_splits)

text \<open>
  What RFC 5389 asks of an authentic message, written down independently of the code: HMAC-SHA1 as
  in RFC 2104, the places in a packet where an attribute starts, and the integrity attribute that
  covers everything before it, under a length field that ends with the attribute.
\<close>

definition hmac_rfc2104 :: "(bytes \<Rightarrow> bytes) \<Rightarrow> bytes \<Rightarrow> bytes \<Rightarrow> bytes" where
  "hmac_rfc2104 sha1 key text =
     (let k = (if 64 < length key then sha1 key else key);
          block = k @ replicate (64 - length k) 0
      in sha1 (map (\<lambda>b. 0x5c XOR b) block @ sha1 (map (\<lambda>b. 0x36 XOR b) block @ text)))"

inductive attr_start :: "bytes \<Rightarrow> nat \<Rightarrow> bool" for data where
  at_header_end: "attr_start data 20"
| at_attribute_end: "attr_start data pos \<Longrightarrow> pos + 4 \<le> length data
    \<Longrightarrow> attr_start data (pos + 4 + pad4 (unat (be16_of (take 2 (drop (pos + 2) data)))))"

definition signed_with :: "(bytes \<Rightarrow> bytes) \<Rightarrow> bytes \<Rightarrow> bytes \<Rightarrow> bool" where
  "signed_with sha1 key data \<longleftrightarrow> (\<exists>pos. attr_start data pos \<and> pos + 24 \<le> length data
     \<and> be16_of (take 2 (drop pos data)) = STUN_ATTR_MESSAGE_INTEGRITY
     \<and> take 20 (drop (pos + 4) data)
         = hmac_rfc2104 sha1 key (take 2 data @ be16_split (of_nat (pos + 4)) @ drop 4 (take pos data)))"

lemma ComputeHmac_rfc2104:
  "ComputeHmac sha1 key text n = (if n < length (hmac_rfc2104 sha1 key text) then None else Some (hmac_rfc2104 sha1 key text))"
  by (simp add: ComputeHmac_def hmac_rfc2104_def hmac_key_block_def kBlockSize_def Let_def)

lemma find_mi_attr:
  "find_mi data t pos = Some (Some q) \<Longrightarrow> attr_start data pos \<Longrightarrow> pos \<ge> 20 \<Longrightarrow>
     attr_start data q \<and> 20 \<le> q \<and> q + 4 \<le> length data \<and> be16_of (take 2 (drop q data)) = t"
proof (induction "Suc (length data) - pos" arbitrary: pos rule: less_induct)
  case less
  have le: "pos + 4 \<le> length data" using less.prems(1)
    by (subst (asm) find_mi.simps) (simp add: k_stun_attribute_header_size_def split: if_splits)
  let ?t = "be16_of (take 2 (drop pos data))" and ?l = "be16_of (take 2 (drop (pos + 2) data))"
  have g: "GetBE16 data pos = Some ?t" "GetBE16 data (pos + 2) = Some ?l"
    using le by (simp_all add: GetBE16_def mem_read_def)
  show ?case
  proof (cases "?t = t")
    case True
    with less.prems g le show ?thesis
      by (subst (asm) find_mi.simps) (simp add: k_stun_attribute_header_size_def)
  next
    case False
    have "find_mi data t (pos + 4 + pad4 (unat ?l)) = Some (Some q)"
      using find_mi_next [OF g le False] less.prems(1) by (simp add: add.assoc)
    from less.hyps [OF _ this attr_start.at_attribute_end [OF less.prems(2) le]] less.prems(3) le show ?thesis by simp
  qed
qed

lemma take_length_field:
  assumes "20 \<le> pos" "be16_split len = take 2 (drop 2 data)"
  shows "take pos data = take 2 data @ be16_split len @ drop 4 (take pos data)"
proof -
  have "take pos data = take 4 (take pos data) @ drop 4 (take pos data)" by (rule append_take_drop_id [symmetric])
  also have "take 4 (take pos data) = take 2 data @ take 2 (drop 2 data)"
    using assms(1) take_add [of 2 2 data] by (simp add: min_def)
  finally show ?thesis by (simp add: assms(2))
qed

lemma validated_signed:
  assumes "validate_message_integrity_of_type sha1 STUN_ATTR_MESSAGE_INTEGRITY 20 data key = Some True"
  shows "signed_with sha1 key data"
proof -
  note v_simps = validate_message_integrity_of_type_def stun_size_defs ComputeHmac_rfc2104 Let_def bind_eq_Some_conv
  obtain len pos where v: "20 \<le> length data" "GetBE16 data 2 = Some len" "unat len + 20 = length data"
    "find_mi data STUN_ATTR_MESSAGE_INTEGRITY 20 = Some (Some pos)"
    using assms by (auto simp: v_simps split: if_splits option.splits)
  have pos: "attr_start data pos" "20 \<le> pos" "be16_of (take 2 (drop pos data)) = STUN_ATTR_MESSAGE_INTEGRITY"
    using find_mi_attr [OF v(4) attr_start.at_header_end] by simp_all
  let ?text = "take 2 data @ be16_split (of_nat (pos + 4)) @ drop 4 (take pos data)"
  have "mem_read data (pos + 4) 20 = Some (hmac_rfc2104 sha1 key ?text)"
  proof (cases "length data > pos + 24")
    case True
    have "SetBE16 (take pos data) 2 (4 + of_nat pos) = Some ?text"
      using True pos(2) by (simp add: SetBE16_def min_def, simp add: add.commute)
    then show ?thesis using assms v(2-4) True by (auto simp: v_simps split: if_splits option.splits)
  next
    case False
    obtain temp where temp: "mem_read data 0 pos = Some temp" "mem_read data (pos + 4) 20 = Some (hmac_rfc2104 sha1 key temp)"
      using assms v(2-4) False by (auto simp: v_simps split: if_splits option.splits)
    have "length data = pos + 24" using temp(2) False by (simp add: mem_read_def split: if_splits)
    then have "pos + 4 = unat len" using v(3) by simp
    then have "of_nat (pos + 4) = len" by (simp del: of_nat_add)
    moreover have "be16_split len = take 2 (drop 2 data)"
      using v(1,2) by (auto simp: GetBE16_def mem_read_def byte_simps split: if_splits)
    ultimately have "temp = ?text" using take_length_field [OF pos(2), of len data] temp(1) by (simp add: mem_read_def split: if_splits)
    with temp(2) show ?thesis by simp
  qed
  then have "pos + 24 \<le> length data" "take 20 (drop (pos + 4) data) = hmac_rfc2104 sha1 key ?text"
    by (simp_all add: mem_read_def split: if_splits)
  with pos show ?thesis unfolding signed_with_def by blast
qed

text \<open>
  C28. A binding request reaches the connection logic only when it is authentic: it is signed with
  the port's own password, that is, one of its attributes is a MESSAGE-INTEGRITY whose value is the
  HMAC-SHA1, under that password, of everything before it (with the length field that ends with the
  attribute); the fingerprint check succeeds, and the user name consists of the port's own fragment,
  a colon and the peer fragment that is passed on.
\<close>

theorem accepted_request_authentic:
  assumes "get_stun_message sha1 port data = Some (accepted m ufrag)"
    and "msg_type m = STUN_BINDING_REQUEST"
  shows "signed_with sha1 (ice_pwd (port_params port)) data
    \<and> validate_fingerprint data = Some True
    \<and> (\<exists>a. get_byte_string m STUN_ATTR_USERNAME = Some a
        \<and> get_string a = ice_ufrag (port_params port) @ bytes_of '':'' @ ufrag)"
proof -
  obtain m0 r where fp: "validate_fingerprint data = Some True"
    and rd: "msg_read new_StunMessage (Construct data) = Some (m0, r)"
    and nm: "parse_stun_username m0 = Some (ice_ufrag (port_params port), ufrag)"
    and mi: "validate_message_integrity sha1 m0 (ice_pwd (port_params port)) = Some m"
      "integrity m = k_integrity_ok"
    using get_stun_message_acceptedD [OF assms(1)] assms(2) by blast
  have "get_byte_string m STUN_ATTR_USERNAME = get_byte_string m0 STUN_ATTR_USERNAME"
    using validate_message_integrity_frame [OF mi(1)] by (simp add: get_byte_string_def get_attribute_def)
  moreover obtain a where "get_byte_string m0 STUN_ATTR_USERNAME = Some a"
    "get_string a = ice_ufrag (port_params port) @ bytes_of '':'' @ ufrag"
    using nm by (auto simp: parse_stun_username_iff bytes_of_def)
  ultimately show ?thesis
    using fp validated_signed validate_message_integrity_ok [OF mi] msg_read_parsed(3) [OF rd] by simp
qed

section \<open>A connectivity check between two agents\<close>

definition request_body :: "IceParameters \<Rightarrow> Candidate \<Rightarrow> Candidate \<Rightarrow> bytes \<Rightarrow> StunMessage" where
  "request_body params lc remote tid =
     add_attribute (add_attribute (add_attribute (add_attribute
       (new_StunMessage\<lparr>transaction_id := tid, msg_type := STUN_BINDING_REQUEST\<rparr>)
       (new_byte_string STUN_ATTR_USERNAME (create_stun_username params (cand_username remote))))
       (new_uint64 STUN_ATTR_ICE_CONTROLLING 0))
       (StunByteStringAttribute STUN_ATTR_USE_CANDIDATE 0 []))
       (new_uint32 STUN_ATTR_PRIORITY
         (push_bit 24 (type_preference_code ICE_TYPE_PREFERENCE_PRFLX) OR (cand_priority lc AND 0x00FFFFFF)))"

lemma prepare_eq:
  "prepare sha1 params lc remote (rq_msg (new_request tid)) =
     snd (add_fingerprint (snd (add_message_integrity sha1 (request_body params lc remote tid)
       (cand_password remote))))"
  by (simp add: prepare_def request_body_def new_request_def Let_def)

lemma attr_size_simps [simp]:
  "attr_size (new_uint32 t v) = 8" "attr_size (new_uint64 t w) = 12"
  "length s < 2 ^ 16 \<Longrightarrow> attr_size (new_byte_string t s) = 4 + pad4 (length s)"
  "attr_size (StunByteStringAttribute t 0 []) = 4"
  by (simp_all add: attr_size_def new_uint32_def new_uint64_def new_byte_string_def copy_bytes_def
      unat_of_nat take_bit_nat_eq_self)

lemma request_body_wf:
  assumes "length tid = 12" and "length (cand_username remote) \<le> 256" and "length (ice_ufrag params) \<le> 256"
  shows "msg_wf (request_body params lc remote tid)"
    and "attrs_size (attrs (request_body params lc remote tid)) + 32 < 2 ^ 16"
    and "list_all attr_class_ok (attrs (request_body params lc remote tid))"
    and "list_all (\<lambda>a. attr_type a \<noteq> STUN_ATTR_MESSAGE_INTEGRITY) (attrs (request_body params lc remote tid))"
    and "msg_type (request_body params lc remote tid) = STUN_BINDING_REQUEST"
    and "transaction_id (request_body params lc remote tid) = tid"
    and "filter attr_known (attrs (request_body params lc remote tid)) =
      [new_byte_string STUN_ATTR_USERNAME (create_stun_username params (cand_username remote)),
       new_uint32 STUN_ATTR_PRIORITY
         (push_bit 24 (type_preference_code ICE_TYPE_PREFERENCE_PRFLX) OR (cand_priority lc AND 0x00FFFFFF))]"
proof -
  let ?u = "create_stun_username params (cand_username remote)"
  have u: "length ?u \<le> 513"
    using assms by (simp add: create_stun_username_def)
  then have p: "pad4 (length ?u) \<le> 516"
    unfolding pad4_def by presburger
  have wf0: "msg_wf (new_StunMessage\<lparr>transaction_id := tid, msg_type := STUN_BINDING_REQUEST\<rparr>)"
    using assms(1) by (simp add: msg_wf_def new_StunMessage_def)
  have sz0: "attrs (new_StunMessage\<lparr>transaction_id := tid, msg_type := STUN_BINDING_REQUEST\<rparr>) = []"
    by (simp add: new_StunMessage_def)
  show "msg_wf (request_body params lc remote tid)"
    unfolding request_body_def using u p
    by (intro add_attribute_wf wf0) (simp_all add: sz0)
  show "attrs_size (attrs (request_body params lc remote tid)) + 32 < 2 ^ 16"
    unfolding request_body_def using u p by (simp add: sz0)
qed (simp_all add: request_body_def new_StunMessage_def new_byte_string_def copy_bytes_def
    new_uint32_def new_uint64_def attr_known_def get_attribute_value_type_def stun_attr_type_defs)

lemma add_fingerprint_frame [simp]:
  "msg_type (snd (add_fingerprint m)) = msg_type m"
  "transaction_id (snd (add_fingerprint m)) = transaction_id m"
  by (auto simp: add_fingerprint_def Let_def split: option.split)

lemma add_message_integrity_frame [simp]:
  "msg_type (snd (add_message_integrity sha1 m key)) = msg_type m"
  "transaction_id (snd (add_message_integrity sha1 m key)) = transaction_id m"
  by (auto simp: add_message_integrity_def add_message_integrity_of_type_def Let_def split: option.split)

lemma prepare_frame [simp]:
  "msg_type (prepare sha1 params lc remote m) = STUN_BINDING_REQUEST"
  "transaction_id (prepare sha1 params lc remote m) = transaction_id m"
  by (simp_all add: prepare_def Let_def)

lemma get_attribute_hit:
  "attrs m = a # as \<Longrightarrow> attr_type a = t \<Longrightarrow> get_attribute m t = Some a"
  by (simp add: get_attribute_def)

lemma binding_request_type [simp]: "STUN_BINDING_REQUEST AND 0x0800 = 0" "STUN_BINDING_RESPONSE AND 0x0800 = 0"
  "STUN_BINDING_RESPONSE \<noteq> STUN_BINDING_REQUEST" "STUN_BINDING_ERROR_RESPONSE \<noteq> STUN_BINDING_REQUEST"
  by (simp_all add: stun_msg_type_defs)

lemma get_string_new: "length s < 2 ^ 16 \<Longrightarrow> get_string (new_byte_string t s) = s"
  by (simp add: get_string_def new_byte_string_def copy_bytes_def unat_of_nat take_bit_nat_eq_self)

lemma get_stun_message_request:
  assumes "validate_fingerprint bs = Some True"
    and "msg_read new_StunMessage (Construct bs) = Some (m, r)" "Length r = 0"
    and "msg_type m = STUN_BINDING_REQUEST"
    and "attrs m = [new_byte_string STUN_ATTR_USERNAME (lu @ colon # ru), prio, mi_attr h]"
    and "attr_type prio = STUN_ATTR_PRIORITY"
    and "length (lu @ colon # ru) < 2 ^ 16" "colon \<notin> set lu" "colon \<notin> set ru"
    and "ice_ufrag (port_params port) = lu"
    and "validate_message_integrity sha1 m (ice_pwd (port_params port)) = Some m'"
    and "integrity m' = k_integrity_ok"
  shows "get_stun_message sha1 port bs = Some (accepted m' ru)"
proof -
  have un: "get_byte_string m STUN_ATTR_USERNAME = Some (new_byte_string STUN_ATTR_USERNAME (lu @ colon # ru))"
    using assms(5) by (simp add: get_byte_string_def get_attribute_def new_byte_string_def copy_bytes_def)
  have mi: "get_byte_string m STUN_ATTR_MESSAGE_INTEGRITY = Some (mi_attr h)"
    using assms(5,6) by (simp add: get_byte_string_def get_attribute_def new_byte_string_def
        copy_bytes_def stun_attr_type_defs)
  have "get_string (new_byte_string STUN_ATTR_USERNAME (lu @ colon # ru)) = lu @ colon # ru"
    using assms(7) by (rule get_string_new)
  then have "parse_stun_username m = Some (lu, ru)"
    using un assms(8,9) by (auto simp: parse_stun_username_iff)
  then show ?thesis
    using assms un mi by (simp add: get_stun_message_def)
qed

lemma request_accepted:
  assumes len: "length tid = 12" "length (cand_username remote) \<le> 256" "length (ice_ufrag params) \<le> 256"
    and col: "colon \<notin> set (cand_username remote)" "colon \<notin> set (ice_ufrag params)"
    and sha: "\<And>x. length (sha1 x) = 20"
    and peer: "ice_ufrag (port_params peer) = cand_username remote"
      "ice_pwd (port_params peer) = cand_password remote"
  shows "\<exists>bs m. msg_write (prepare sha1 params lc remote (rq_msg (new_request tid))) [] = Some bs
    \<and> get_stun_message sha1 peer bs = Some (accepted m (ice_ufrag params))
    \<and> msg_type m = STUN_BINDING_REQUEST \<and> transaction_id m = tid
    \<and> get_uint32 m STUN_ATTR_PRIORITY = Some (new_uint32 STUN_ATTR_PRIORITY
        (push_bit 24 (type_preference_code ICE_TYPE_PREFERENCE_PRFLX) OR (cand_priority lc AND 0x00FFFFFF)))
    \<and> get_byte_string m STUN_ATTR_USERNAME \<noteq> None"
proof -
  note body = request_body_wf [OF len]
  let ?prio = "new_uint32 STUN_ATTR_PRIORITY
    (push_bit 24 (type_preference_code ICE_TYPE_PREFERENCE_PRFLX) OR (cand_priority lc AND 0x00FFFFFF))"
  have ty: "msg_type (request_body params lc remote tid) AND 0x0800 = 0" by (simp add: body(5))
  obtain bs m r h where w: "msg_write (prepare sha1 params lc remote (rq_msg (new_request tid))) [] = Some bs"
    and rd: "validate_fingerprint bs = Some True" "msg_read new_StunMessage (Construct bs) = Some (m, r)"
      "Length r = 0"
    and m: "msg_type m = STUN_BINDING_REQUEST" "transaction_id m = tid"
      "attrs m = [new_byte_string STUN_ATTR_USERNAME (cand_username remote @ colon # ice_ufrag params), ?prio, mi_attr h]"
    and mi: "validate_message_integrity sha1 m (cand_password remote) =
      Some (m\<lparr>msg_password := cand_password remote, integrity := k_integrity_ok\<rparr>)"
    using signed_message_accepted [OF body(1,3) ty body(4,2), of sha1, OF sha refl refl,
        of "cand_password remote"]
    unfolding prepare_eq body(5-7)
    by (auto simp: create_stun_username_def bytes_of_def)
  have "get_stun_message sha1 peer bs =
      Some (accepted (m\<lparr>msg_password := cand_password remote, integrity := k_integrity_ok\<rparr>) (ice_ufrag params))"
    using len col peer mi
    by (intro get_stun_message_request [OF rd m(1,3)]) (simp_all add: new_uint32_def)
  with w m show ?thesis
    by (auto simp: get_uint32_def get_byte_string_def get_attribute_def new_byte_string_def copy_bytes_def
        new_uint32_def stun_attr_type_defs)
qed

definition response_body :: "SocketAddress \<Rightarrow> bytes \<Rightarrow> StunMessage" where
  "response_body addr tid = add_attribute
     (new_StunMessage\<lparr>msg_type := STUN_BINDING_RESPONSE, transaction_id := tid\<rparr>)
     (new_xor_address STUN_ATTR_XOR_MAPPED_ADDRESS addr)"

lemma response_body_wf:
  assumes "length tid = 12" and "ipaddr addr = IPv4 a"
  shows "msg_wf (response_body addr tid)" "attrs_size (attrs (response_body addr tid)) + 32 < 2 ^ 16"
    "list_all attr_class_ok (attrs (response_body addr tid))"
    "list_all (\<lambda>x. attr_type x \<noteq> STUN_ATTR_MESSAGE_INTEGRITY) (attrs (response_body addr tid))"
    "msg_type (response_body addr tid) = STUN_BINDING_RESPONSE"
    "transaction_id (response_body addr tid) = tid"
    "filter attr_known (attrs (response_body addr tid)) = []"
proof -
  have sz: "attr_size (new_xor_address STUN_ATTR_XOR_MAPPED_ADDRESS addr) = 12"
    using assms(2) by (simp add: attr_size_def new_xor_address_def address_length_def address_family_def)
  show "msg_wf (response_body addr tid)"
    unfolding response_body_def using assms sz
    by (intro add_attribute_wf) (simp_all add: msg_wf_def new_StunMessage_def)
  show "attrs_size (attrs (response_body addr tid)) + 32 < 2 ^ 16"
    using sz by (simp add: response_body_def new_StunMessage_def)
qed (simp_all add: response_body_def new_StunMessage_def new_xor_address_def attr_known_def
    get_attribute_value_type_def stun_attr_type_defs)

lemma response_accepted:
  assumes "length (transaction_id m) = 12" "ipaddr addr = IPv4 a" "\<And>x. length (sha1 x) = 20"
    and "get_byte_string m STUN_ATTR_USERNAME \<noteq> None"
  shows "\<exists>bs m2 m3. send_stun_binding_response sha1 pwd addr m = Some bs
    \<and> get_stun_message sha1 port bs = Some (accepted m2 [])
    \<and> validate_message_integrity sha1 m2 pwd = Some m3 \<and> integrity_ok m3
    \<and> msg_type m3 = STUN_BINDING_RESPONSE \<and> transaction_id m3 = transaction_id m"
proof -
  note body = response_body_wf [OF assms(1,2)]
  have ty: "msg_type (response_body addr (transaction_id m)) AND 0x0800 = 0" by (simp add: body(5))
  have eq: "stun_binding_response sha1 pwd addr m =
      snd (add_fingerprint (snd (add_message_integrity sha1 (response_body addr (transaction_id m)) pwd)))"
    by (simp add: stun_binding_response_def response_body_def Let_def)
  obtain bs m2 r where "msg_write (stun_binding_response sha1 pwd addr m) [] = Some bs"
    and rd: "validate_fingerprint bs = Some True" "msg_read new_StunMessage (Construct bs) = Some (m2, r)"
      "Length r = 0" "msg_type m2 = STUN_BINDING_RESPONSE" "transaction_id m2 = transaction_id m"
    and "validate_message_integrity sha1 m2 pwd = Some (m2\<lparr>msg_password := pwd, integrity := k_integrity_ok\<rparr>)"
    using signed_message_accepted [OF body(1,3) ty body(4,2), of sha1, OF assms(3) refl refl, of pwd]
    unfolding eq body(5-7) by auto
  then show ?thesis
    using assms(4) by (auto simp: send_stun_binding_response_def get_stun_message_def integrity_ok_def)
qed

lemma classify_own_response:
  assumes "mgr (transaction_id m) = Some rq" "msg_type (rq_msg rq) = STUN_BINDING_REQUEST"
    "msg_type m = STUN_BINDING_RESPONSE"
  shows "classify_response m mgr = success_response rq"
  using assms by (simp add: classify_response_def get_stun_success_response_def
      is_stun_request_type_def k_stun_type_mask_def stun_msg_type_defs)

text \<open>
  C19. A connectivity check between two agents that share credentials completes: the packet that
  \<open>ping\<close> sends is accepted by the peer, which learns the sender's fragment; the peer's
  response to it is accepted by the sender, passes the integrity check under the peer's password,
  and is matched with the outstanding request, so that the round-trip time is measured from the
  ping.
\<close>

theorem connectivity_check_completes:
  assumes "length tid = 12" and "length (cand_username (remote_candidate c)) \<le> 256"
    and "length (ice_ufrag params) \<le> 256"
    and "colon \<notin> set (cand_username (remote_candidate c))" and "colon \<notin> set (ice_ufrag params)"
    and "\<And>x. length (sha1 x) = 20"
    and "ice_ufrag (port_params peer) = cand_username (remote_candidate c)"
    and "ice_pwd (port_params peer) = cand_password (remote_candidate c)"
    and "ipaddr addr = IPv4 a"
    and "ping sha1 params lc now tid c = (c', pkt)"
  shows "\<exists>bs m bs' m2 m3 rq. pkt = Some bs
    \<and> get_stun_message sha1 peer bs = Some (accepted m (ice_ufrag params))
    \<and> msg_type m = STUN_BINDING_REQUEST
    \<and> send_stun_binding_response sha1 (ice_pwd (port_params peer)) addr m = Some bs'
    \<and> get_stun_message sha1 port bs' = Some (accepted m2 [])
    \<and> validate_message_integrity sha1 m2 (cand_password (remote_candidate c)) = Some m3
    \<and> integrity_ok m3 \<and> classify_response m3 (conn_requests c') = success_response rq
    \<and> rq_ts rq = now"
proof -
  let ?remote = "remote_candidate c"
  obtain bs m where rq: "msg_write (prepare sha1 params lc ?remote (rq_msg (new_request tid))) [] = Some bs"
      "get_stun_message sha1 peer bs = Some (accepted m (ice_ufrag params))"
      "msg_type m = STUN_BINDING_REQUEST" "transaction_id m = tid"
      "get_byte_string m STUN_ATTR_USERNAME \<noteq> None"
    using request_accepted [OF assms(1-5), of sha1, OF assms(6-8)] by blast
  have tid: "length (transaction_id m) = 12" by (simp add: rq(4) assms(1))
  obtain bs' m2 m3 where rs: "send_stun_binding_response sha1 (cand_password ?remote) addr m = Some bs'"
      "get_stun_message sha1 port bs' = Some (accepted m2 [])"
      "validate_message_integrity sha1 m2 (cand_password ?remote) = Some m3" "integrity_ok m3"
      "msg_type m3 = STUN_BINDING_RESPONSE" "transaction_id m3 = tid"
    using response_accepted [OF tid assms(9), of sha1, OF assms(6) rq(5)] rq(4) by blast
  let ?rq = "(new_request tid)\<lparr>rq_msg := prepare sha1 params lc ?remote (rq_msg (new_request tid)), rq_ts := now\<rparr>"
  have "pkt = Some bs" "conn_requests c' tid = Some ?rq"
    using assms(10) rq(1) by (auto simp: ping_def mgr_send_def Let_def set_state_def new_request_def)
  moreover have "classify_response m3 (conn_requests c') = success_response ?rq"
    using rs(5,6) calculation(2) by (intro classify_own_response) simp_all
  moreover have "rq_ts ?rq = now" by simp
  ultimately show ?thesis using rq rs assms(8) by auto
qed

definition sample_port :: "bytes \<Rightarrow> bytes \<Rightarrow> UDPPort" where
  "sample_port ufrag pwd = snd (create_ice_candidate (\<lambda>_. bytes_of ''203.0.113.7'')
     \<lparr>net_name = ''eth0'', net_ip = IPv4 0xCB007107\<rparr> (Some 5000)
     (new_UDPPort (bytes_of ''audio'') RTP \<lparr>ice_ufrag = ufrag, ice_pwd = pwd\<rparr>))"

lemma sample_port_params [simp]: "port_params (sample_port u p) = \<lparr>ice_ufrag = u, ice_pwd = p\<rparr>"
  by (simp add: sample_port_def create_ice_candidate_def new_UDPPort_def Let_def)

theorem connectivity_check_completes_witness:
  "\<exists>bs m. snd (ping toy_sha1 \<lparr>ice_ufrag = bytes_of ''srv'', ice_pwd = []\<rparr> sample_candidate 7
        (replicate 12 0) sample_connection) = Some bs
    \<and> get_stun_message toy_sha1 (sample_port (bytes_of ''peer'') (bytes_of ''pwd'')) bs
        = Some (accepted m (bytes_of ''srv''))"
proof -
  let ?ps = "\<lparr>ice_ufrag = bytes_of ''srv'', ice_pwd = []\<rparr>"
  let ?p = "ping toy_sha1 ?ps sample_candidate 7 (replicate 12 0) sample_connection"
  let ?peer = "sample_port (bytes_of ''peer'') (bytes_of ''pwd'')"
  have r: "remote_candidate sample_connection = sample_candidate"
    by (simp add: sample_connection_def new_IceConnection_def)
  have h: "length (replicate 12 0 :: bytes) = 12"
    "length (cand_username (remote_candidate sample_connection)) \<le> 256" "length (ice_ufrag ?ps) \<le> 256"
    "colon \<notin> set (cand_username (remote_candidate sample_connection))" "colon \<notin> set (ice_ufrag ?ps)"
    unfolding r by (simp_all add: sample_candidate_def bytes_of_def)
  have k: "ice_ufrag (port_params ?peer) = cand_username (remote_candidate sample_connection)"
    "ice_pwd (port_params ?peer) = cand_password (remote_candidate sample_connection)"
    "ipaddr (cand_address sample_candidate) = IPv4 0xCB007107"
    unfolding r by (simp_all add: sample_candidate_def)
  have "?p = (fst ?p, snd ?p)" by simp
  from connectivity_check_completes [OF h, of toy_sha1, OF length_toy_sha1 k this, of ?peer]
  show ?thesis by auto
qed

theorem accepted_request_authentic_witness:
  "\<exists>bs. signed_with toy_sha1 (bytes_of ''pwd'') bs \<and> validate_fingerprint bs = Some True"
proof -
  let ?ps = "\<lparr>ice_ufrag = bytes_of ''srv'', ice_pwd = []\<rparr>"
  let ?peer = "sample_port (bytes_of ''peer'') (bytes_of ''pwd'')"
  have h: "length (replicate 12 0 :: bytes) = 12"
    "length (cand_username sample_candidate) \<le> 256" "length (ice_ufrag ?ps) \<le> 256"
    "colon \<notin> set (cand_username sample_candidate)" "colon \<notin> set (ice_ufrag ?ps)"
    by (simp_all add: sample_candidate_def bytes_of_def)
  have k: "ice_ufrag (port_params ?peer) = cand_username sample_candidate"
    "ice_pwd (port_params ?peer) = cand_password sample_candidate"
    by (simp_all add: sample_candidate_def)
  obtain bs m where acc: "get_stun_message toy_sha1 ?peer bs = Some (accepted m (ice_ufrag ?ps))"
      "msg_type m = STUN_BINDING_REQUEST"
    using request_accepted [OF h, of toy_sha1, OF length_toy_sha1 k] by blast
  show ?thesis using accepted_request_authentic [OF acc] by auto
qed

section \<open>A forged request that makes the integrity check read outside the packet\<close>

definition forged_body :: "bytes \<Rightarrow> bytes \<Rightarrow> StunMessage" where
  "forged_body tid ufrag = add_attribute (add_attribute
     (new_StunMessage\<lparr>transaction_id := tid, msg_type := STUN_BINDING_REQUEST\<rparr>)
     (new_byte_string STUN_ATTR_USERNAME (ufrag @ bytes_of '':'')))
     (StunByteStringAttribute STUN_ATTR_MESSAGE_INTEGRITY 0 [])"

definition forged_request :: "bytes \<Rightarrow> bytes \<Rightarrow> StunMessage" where
  "forged_request tid ufrag = snd (add_fingerprint (forged_body tid ufrag))"

lemma forged_body_wf:
  assumes "length tid = 12" "length ufrag \<le> 256"
  shows "msg_wf (forged_body tid ufrag)" "attrs_size (attrs (forged_body tid ufrag)) + 8 < 2 ^ 16"
    "attrs (forged_body tid ufrag) = [new_byte_string STUN_ATTR_USERNAME (ufrag @ bytes_of '':''),
      StunByteStringAttribute STUN_ATTR_MESSAGE_INTEGRITY 0 []]"
    "msg_type (forged_body tid ufrag) = STUN_BINDING_REQUEST" "transaction_id (forged_body tid ufrag) = tid"
proof -
  let ?u = "ufrag @ bytes_of '':''"
  have u: "length ?u \<le> 257" using assms(2) by simp
  then have p: "pad4 (length ?u) \<le> 260" unfolding pad4_def by presburger
  have wf0: "msg_wf (new_StunMessage\<lparr>transaction_id := tid, msg_type := STUN_BINDING_REQUEST\<rparr>)"
    using assms(1) by (simp add: msg_wf_def new_StunMessage_def)
  have sz0: "attrs (new_StunMessage\<lparr>transaction_id := tid, msg_type := STUN_BINDING_REQUEST\<rparr>) = []"
    by (simp add: new_StunMessage_def)
  show "msg_wf (forged_body tid ufrag)"
    unfolding forged_body_def using u p by (intro add_attribute_wf wf0) (simp_all add: sz0)
  show "attrs_size (attrs (forged_body tid ufrag)) + 8 < 2 ^ 16"
    unfolding forged_body_def using u p by (simp add: sz0)
qed (simp_all add: forged_body_def new_StunMessage_def)

lemma forged_find_mi:
  assumes "length tid = 12" "length ufrag \<le> 256"
  shows "find_mi (fp_prefix (forged_body tid ufrag) @ es) STUN_ATTR_MESSAGE_INTEGRITY 20
    = Some (Some (length (fp_prefix (forged_body tid ufrag)) - 4))"
proof -
  note body = forged_body_wf [OF assms]
  let ?un = "new_byte_string STUN_ATTR_USERNAME (ufrag @ bytes_of '':'')"
  let ?mi = "StunByteStringAttribute STUN_ATTR_MESSAGE_INTEGRITY 0 []"
  let ?hdr = "header_wire (add_attribute (forged_body tid ufrag) (fp_attr 0))"
  have hdr: "length ?hdr = 20" using body(5) assms(1) by (simp add: header_wire_def)
  have mi: "attr_wire ?mi = be16_split STUN_ATTR_MESSAGE_INTEGRITY @ be16_split 0"
    by (simp add: attr_wire_def write_padding_def WriteBytes_def)
  have wf: "list_all attr_wf [?un]" using assms(2) by simp
  have pre: "fp_prefix (forged_body tid ufrag) = ?hdr @ attr_wire ?un @ attr_wire ?mi"
    by (simp add: fp_prefix_def body(3))
  have "find_mi (fp_prefix (forged_body tid ufrag) @ es) STUN_ATTR_MESSAGE_INTEGRITY (length ?hdr)
      = find_mi (fp_prefix (forged_body tid ufrag) @ es) STUN_ATTR_MESSAGE_INTEGRITY
          (length ?hdr + attrs_size [?un])"
    using wf by (intro find_mi_skip [where ys = "attr_wire ?mi @ es"])
      (simp_all add: pre new_byte_string_def copy_bytes_def stun_attr_type_defs)
  also have "length ?hdr + attrs_size [?un] = length (?hdr @ attr_wire ?un)"
    using wf by (simp add: length_attr_wire)
  also have "find_mi (fp_prefix (forged_body tid ufrag) @ es) STUN_ATTR_MESSAGE_INTEGRITY
      (length (?hdr @ attr_wire ?un)) = Some (Some (length (?hdr @ attr_wire ?un)))"
    by (rule find_mi_here [of _ _ _ 0 es]) (simp add: pre mi)
  finally show ?thesis using hdr by (simp add: pre mi)
qed

lemma forged_get_stun_message:
  assumes tid: "length tid = 12" and len: "length (ice_ufrag (port_params port)) \<le> 256"
    and col: "colon \<notin> set (ice_ufrag (port_params port))" and sha: "\<And>x. length (sha1 x) = 20"
  shows "\<exists>bs. msg_write (forged_request tid (ice_ufrag (port_params port))) [] = Some bs
    \<and> get_stun_message sha1 port bs = None"
proof -
  let ?u = "ice_ufrag (port_params port)"
  let ?b = "forged_body tid ?u" and ?m = "forged_request tid ?u"
  note body = forged_body_wf [OF tid len]
  define v where "v = ComputeCrc32 (fp_prefix ?b) XOR STUN_FINGERPRINT_XOR_VALUE"
  have m: "?m = add_attribute ?b (fp_attr v)"
    by (simp add: forged_request_def add_fingerprint_eq [OF body(1)] v_def)
  have wf: "msg_wf ?m" unfolding m using body by (intro add_attribute_wf) simp_all
  have cls: "list_all attr_class_ok (attrs ?m)"
    by (simp add: m body(3) new_uint32_def new_byte_string_def copy_bytes_def
        get_attribute_value_type_def stun_attr_type_defs)
  have known: "filter attr_known (attrs ?m) = [new_byte_string STUN_ATTR_USERNAME (?u @ bytes_of '':''),
      StunByteStringAttribute STUN_ATTR_MESSAGE_INTEGRITY 0 []]"
    by (simp add: m body(3) attr_known_def new_uint32_def new_byte_string_def copy_bytes_def
        get_attribute_value_type_def stun_attr_type_defs)
  have wire: "msg_wire ?m = fp_prefix ?b @ attr_wire (fp_attr v)" by (simp add: m msg_wire_add_fp)
  obtain m' r where rd: "msg_read new_StunMessage (Construct (msg_wire ?m)) = Some (m', r)" "Length r = 0"
    "msg_type m' = STUN_BINDING_REQUEST" "attrs m' = filter attr_known (attrs ?m)" "msg_buffer m' = msg_wire ?m"
    using msg_read_wire [OF wf cls, of new_StunMessage] by (auto simp: m body(4))
  have len4: "length (msg_wire ?m) mod 4 = 0"
    using length_msg_wire [OF wf] attrs_size_mod4 [of "attrs ?m"] by presburger
  have lens: "length (msg_wire ?m) = 28 + attrs_size (attrs ?b)" "length (fp_prefix ?b) = 20 + attrs_size (attrs ?b)"
    using length_msg_wire [OF wf] length_fp_prefix [OF body(1)] by (simp_all add: m)
  have field: "be16_of (take 2 (drop 2 (msg_wire ?m))) = msg_length ?m"
    by (simp add: msg_wire_def header_wire_def)
  have "unat (msg_length ?m) + 20 = length (msg_wire ?m)"
    using wf length_msg_wire [OF wf] by (simp add: msg_wf_def)
  moreover have "attrs_size (attrs ?b) \<ge> 8" by (simp add: body(3) attr_size_def)
  ultimately have oob: "validate_message_integrity_of_type sha1 STUN_ATTR_MESSAGE_INTEGRITY 20 (msg_wire ?m) key = None" for key
    using len4 lens forged_find_mi [OF tid len, of "attr_wire (fp_attr v)"]
    by (subst integrity_check_oob_iff [OF sha]) (simp add: field flip: wire)
  have un: "get_byte_string m' STUN_ATTR_USERNAME = Some (new_byte_string STUN_ATTR_USERNAME (?u @ bytes_of '':''))"
    by (simp add: get_byte_string_def get_attribute_def rd(4) known new_byte_string_def copy_bytes_def)
  have mi: "get_byte_string m' STUN_ATTR_MESSAGE_INTEGRITY \<noteq> None"
    by (simp add: get_byte_string_def get_attribute_def rd(4) known new_byte_string_def copy_bytes_def)
  have "get_string (new_byte_string STUN_ATTR_USERNAME (?u @ bytes_of '':'')) = ?u @ bytes_of '':''"
    using len by (intro get_string_new) simp
  then have "parse_stun_username m' = Some (?u, [])"
    using un col by (auto simp: parse_stun_username_iff bytes_of_def)
  moreover have "validate_message_integrity sha1 m' key = None" for key
    using mi oob by (auto simp: validate_message_integrity_def get_byte_string_def get_attribute_def rd(5)
        k_stun_message_integrity_size_def)
  moreover have "validate_fingerprint (msg_wire ?m) = Some True"
    using fingerprinted_wire_valid [OF body(1)] by (simp add: wire v_def)
  moreover have "msg_write ?m [] = Some (msg_wire ?m)" using wf by (simp add: msg_write_wf msg_wf_def)
  ultimately show ?thesis using rd(1-3) un mi by (simp add: get_stun_message_def)
qed

text \<open>
  Knowing only the user fragment of a port, which travels in clear text, one can build a
  datagram that the port's own authentication code reads beyond: its MESSAGE-INTEGRITY attribute
  is empty and only the fingerprint follows, but twenty bytes are compared.  The packet is
  well-formed, passes the fingerprint check and the user name check, and needs no password.
\<close>

theorem forged_request_reads_out_of_bounds:
  assumes tid: "length tid = 12" and len: "length (ice_ufrag (port_params port)) \<le> 256"
    and col: "colon \<notin> set (ice_ufrag (port_params port))" and sha: "\<And>x. length (sha1 x) = 20"
  shows "\<exists>bs. msg_write (forged_request tid (ice_ufrag (port_params port))) [] = Some bs
    \<and> get_stun_message sha1 port bs = None"
  using forged_get_stun_message [OF assms] .

theorem forged_request_reads_out_of_bounds_witness:
  "\<exists>bs. get_stun_message toy_sha1 (sample_port (bytes_of ''peer'') (bytes_of ''pwd'')) bs = None"
  using forged_request_reads_out_of_bounds [of "replicate 12 0"
      "sample_port (bytes_of ''peer'') (bytes_of ''pwd'')" toy_sha1]
  by (auto simp: bytes_of_def)

end
