(* ===== verification/Ice_Channel.thy ===== *)
theory Ice_Channel
  imports Udp_Port
begin

text \<open>
  \<^verbatim>\<open>ice/ice_transport_channel.cpp\<close> with the connections, ports and controller it
  owns, and the methods of \<^verbatim>\<open>ice/ice_connection.cpp\<close> and
  \<^verbatim>\<open>ice/udp_port.cpp\<close> that raise signals.  The state is the object graph of one
  channel: connections live in \<open>heap\<close>, everything else refers to them by pointer, and
  \<^verbatim>\<open>delete\<close> removes the entry.  An operation returns \<open>None\<close> when it
  follows a pointer to a deleted connection, deletes an object twice, or reads outside a packet.
  A signal is a direct call of the slot that is connected to it; signals that leave the channel and
  packets given to the socket are appended to \<open>trace\<close>.  The clock is read once per event.
\<close>

section \<open>State\<close>

datatype IceTransportState = k_new | k_checking | k_connected | k_completed | k_failed
  | k_disconnected | k_closed

datatype ice_event =
    ev_send_to nat bytes SocketAddress
  | ev_candidate_allocate_done "Candidate list"
  | ev_receiving_state
  | ev_writable_state
  | ev_ice_state_changed IceTransportState
  | ev_read_packet bytes int

record IceTransportChannel =
  transport_name :: bytes
  ch_component :: IceCandidateComponent
  ice_params :: IceParameters
  remote_ice_params :: IceParameters
  local_candidates :: "Candidate list"
  ports :: "UDPPort list"
  ice_controller :: IceController
  start_pinging :: bool
  ping_watcher :: "int option"
  cur_ping_interval :: int
  last_ping_sent_ms :: int
  selected_connection :: "ptr option"
  ch_receiving :: bool
  ch_writable :: bool
  ch_state :: IceTransportState
  had_connection :: bool
  has_been_connection :: bool
  heap :: conn_heap
  next_ptr :: ptr
  trace :: "ice_event list"

definition new_IceTransportChannel :: "bytes \<Rightarrow> IceCandidateComponent \<Rightarrow> IceTransportChannel" where
  "new_IceTransportChannel name component = \<lparr>transport_name = name, ch_component = component,
     ice_params = \<lparr>ice_ufrag = [], ice_pwd = []\<rparr>,
     remote_ice_params = \<lparr>ice_ufrag = [], ice_pwd = []\<rparr>,
     local_candidates = [], ports = [], ice_controller = new_IceController, start_pinging = False,
     ping_watcher = None, cur_ping_interval = WEAK_PING_INTERVAL, last_ping_sent_ms = 0,
     selected_connection = None, ch_receiving = False, ch_writable = False, ch_state = k_new,
     had_connection = False, has_been_connection = False, heap = Map.empty, next_ptr = 0,
     trace = []\<rparr>"

definition PING_INTERVAL_DIFF :: int where "PING_INTERVAL_DIFF = 5"

definition emit :: "ice_event \<Rightarrow> IceTransportChannel \<Rightarrow> IceTransportChannel" where
  "emit e w = w\<lparr>trace := trace w @ [e]\<rparr>"

text \<open>Running a method of the connection behind a pointer.\<close>

definition upd_conn :: "ptr \<Rightarrow> (IceConnection \<Rightarrow> IceConnection) \<Rightarrow> IceTransportChannel
    \<Rightarrow> IceTransportChannel option" where
  "upd_conn p f w = (case heap w p of None \<Rightarrow> None
     | Some c \<Rightarrow> Some (w\<lparr>heap := (heap w)(p \<mapsto> f c)\<rparr>))"

text \<open>\<^verbatim>\<open>IceConnection::local_candidate\<close>: the first candidate of the port.\<close>

definition local_candidate :: "IceTransportChannel \<Rightarrow> nat \<Rightarrow> Candidate option" where
  "local_candidate w i = (if i < length (ports w) then
     (case port_candidates (ports w ! i) of [] \<Rightarrow> None | c # _ \<Rightarrow> Some c) else None)"

text \<open>\<^verbatim>\<open>UDPPort::send_to\<close>.\<close>

definition send_to :: "nat \<Rightarrow> bytes \<Rightarrow> SocketAddress \<Rightarrow> IceTransportChannel \<Rightarrow> IceTransportChannel" where
  "send_to i buf addr w = (if i < length (ports w) \<and> port_async_socket (ports w ! i)
     then emit (ev_send_to i buf addr) w else w)"

definition send_opt :: "nat \<Rightarrow> bytes option \<Rightarrow> SocketAddress \<Rightarrow> IceTransportChannel
    \<Rightarrow> IceTransportChannel" where
  "send_opt i pkt addr w = (case pkt of None \<Rightarrow> w | Some buf \<Rightarrow> send_to i buf addr w)"

section \<open>The state of the channel\<close>

definition set_writable :: "bool \<Rightarrow> IceTransportChannel \<Rightarrow> IceTransportChannel" where
  "set_writable writable w =
     (if ch_writable w = writable then w
      else let w = (if writable then w\<lparr>has_been_connection := True\<rparr> else w)
           in emit ev_writable_state (w\<lparr>ch_writable := writable\<rparr>))"

definition set_receiving :: "bool \<Rightarrow> IceTransportChannel \<Rightarrow> IceTransportChannel" where
  "set_receiving receiving w =
     (if ch_receiving w = receiving then w
      else emit ev_receiving_state (w\<lparr>ch_receiving := receiving\<rparr>))"

fun any_conn :: "(IceConnection \<Rightarrow> bool) \<Rightarrow> conn_heap \<Rightarrow> ptr list \<Rightarrow> bool option" where
  "any_conn P h [] = Some False"
| "any_conn P h (p # ps) = (case h p of None \<Rightarrow> None
     | Some c \<Rightarrow> if P c then Some True else any_conn P h ps)"

definition compute_ice_transport_state :: "IceTransportChannel \<Rightarrow> IceTransportState option" where
  "compute_ice_transport_state w = do {
     has_connection \<leftarrow> any_conn conn_active (heap w) (c_connections (ice_controller w));
     Some (if had_connection w \<and> \<not> has_connection then k_failed
           else if has_been_connection w \<and> \<not> ch_writable w then k_disconnected
           else if \<not> had_connection w \<and> \<not> has_connection then k_new
           else if has_connection \<and> \<not> ch_writable w then k_checking
           else k_connected)
   }"

definition update_state :: "IceTransportChannel \<Rightarrow> IceTransportChannel option" where
  "update_state w = do {
     writable \<leftarrow> (case selected_connection w of None \<Rightarrow> Some False
       | Some p \<Rightarrow> map_option conn_writable (heap w p));
     let w = set_writable writable w;
     receiving \<leftarrow> any_conn conn_receiving (heap w) (c_connections (ice_controller w));
     let w = set_receiving receiving w;
     state \<leftarrow> compute_ice_transport_state w;
     Some (if state \<noteq> ch_state w then emit (ev_ice_state_changed state) (w\<lparr>ch_state := state\<rparr>) else w)
   }"

section \<open>Selecting a connection\<close>

definition switch_selected_connection :: "ptr option \<Rightarrow> IceTransportChannel
    \<Rightarrow> IceTransportChannel option" where
  "switch_selected_connection conn w = do {
     let old_selected_connection = selected_connection w;
     let w = w\<lparr>selected_connection := conn\<rparr>;
     w \<leftarrow> (case old_selected_connection of None \<Rightarrow> Some w | Some p \<Rightarrow> upd_conn p (set_selected False) w);
     (case conn of None \<Rightarrow> Some w
      | Some p \<Rightarrow> do {
          w \<leftarrow> upd_conn p (set_selected True) w;
          Some (w\<lparr>ice_controller := set_selected_connection (Some p) (ice_controller w)\<rparr>)
        })
   }"

definition maybe_switch_selected_connection :: "ptr option \<Rightarrow> IceTransportChannel
    \<Rightarrow> IceTransportChannel option" where
  "maybe_switch_selected_connection conn w = (case conn of None \<Rightarrow> Some w
     | Some p \<Rightarrow> switch_selected_connection (Some p) w)"

definition maybe_start_pinging :: "int \<Rightarrow> IceTransportChannel \<Rightarrow> IceTransportChannel option" where
  "maybe_start_pinging now w =
     (if start_pinging w then Some w
      else do {
        b \<leftarrow> has_pingable_connection (heap w) now (ice_controller w);
        Some (if b then w\<lparr>ping_watcher := Some (cur_ping_interval w * 1000), start_pinging := True\<rparr> else w)
      })"

definition sort_connections_and_update_state :: "int \<Rightarrow> IceTransportChannel
    \<Rightarrow> IceTransportChannel option" where
  "sort_connections_and_update_state now w = do {
     (ctl, conn) \<leftarrow> sort_and_switch_connection (local_candidate w) (heap w) (ice_controller w);
     w \<leftarrow> maybe_switch_selected_connection conn (w\<lparr>ice_controller := ctl\<rparr>);
     w \<leftarrow> update_state w;
     maybe_start_pinging now w
   }"

definition on_connection_state_change :: "int \<Rightarrow> IceTransportChannel \<Rightarrow> IceTransportChannel option" where
  "on_connection_state_change now w = sort_connections_and_update_state now w"

definition on_connection_destroyed :: "int \<Rightarrow> ptr \<Rightarrow> IceTransportChannel \<Rightarrow> IceTransportChannel option" where
  "on_connection_destroyed now p w = (
     let w = w\<lparr>ice_controller := ctl_on_connection_destroyed p (ice_controller w)\<rparr>
     in if selected_connection w = Some p
        then do {
          w \<leftarrow> switch_selected_connection None w;
          sort_connections_and_update_state now w
        }
        else update_state w)"

section \<open>Connection methods that raise signals\<close>

definition call_conn :: "int \<Rightarrow> ptr \<Rightarrow> (IceConnection \<Rightarrow> IceConnection \<times> bool) \<Rightarrow> IceTransportChannel
    \<Rightarrow> IceTransportChannel option" where
  "call_conn now p f w = do {
     c \<leftarrow> heap w p;
     let (c', changed) = f c;
     let w = w\<lparr>heap := (heap w)(p \<mapsto> c')\<rparr>;
     if changed then on_connection_state_change now w else Some w
   }"

definition conn_update_state :: "int \<Rightarrow> ptr \<Rightarrow> IceTransportChannel \<Rightarrow> IceTransportChannel option" where
  "conn_update_state now p w = do {
     c \<leftarrow> heap w p;
     w \<leftarrow> call_conn now p (check_unreliable (clamped_rtt c) now) w;
     w \<leftarrow> call_conn now p (check_timeout now) w;
     call_conn now p (update_receiving now) w
   }"

definition received_ping_response :: "int \<Rightarrow> int \<Rightarrow> ptr \<Rightarrow> IceTransportChannel
    \<Rightarrow> IceTransportChannel option" where
  "received_ping_response now rtt p w = do {
     w \<leftarrow> upd_conn p (record_rtt rtt now) w;
     w \<leftarrow> call_conn now p (update_receiving now) w;
     w \<leftarrow> call_conn now p (set_write_state STATE_WRITABLE) w;
     upd_conn p (set_state SUCCEEDED) w
   }"

definition on_connection_request_response :: "int \<Rightarrow> StunRequest \<Rightarrow> ptr \<Rightarrow> IceTransportChannel
    \<Rightarrow> IceTransportChannel option" where
  "on_connection_request_response now request p w = received_ping_response now (elapsed now request) p w"

definition destroy :: "int \<Rightarrow> ptr \<Rightarrow> IceTransportChannel \<Rightarrow> IceTransportChannel option" where
  "destroy now p w = do {
     _ \<leftarrow> heap w p;
     w \<leftarrow> on_connection_destroyed now p w;
     Some (w\<lparr>heap := (heap w)(p := None)\<rparr>)
   }"

definition fail_and_destroy :: "int \<Rightarrow> ptr \<Rightarrow> IceTransportChannel \<Rightarrow> IceTransportChannel option" where
  "fail_and_destroy now p w = do {
     w \<leftarrow> upd_conn p (set_state FAILED) w;
     destroy now p w
   }"

definition on_connection_request_error_response :: "int \<Rightarrow> StunMessage \<Rightarrow> ptr \<Rightarrow> IceTransportChannel
    \<Rightarrow> IceTransportChannel option" where
  "on_connection_request_error_response now msg p w =
     (let error_code = get_error_code_value msg
      in if STUN_ERROR_UNAUTHORIZED = error_code \<or> STUN_ERROR_UNKNOWN_ATTRIBUTE = error_code
            \<or> STUN_ERROR_SERVER_ERROR = error_code
         then Some w else fail_and_destroy now p w)"

text \<open>
  \<^verbatim>\<open>delete request\<close>: the destructor takes the request out of its manager, a
  member of the connection.  Destroying a connection deletes the requests of its manager, so
  deleting one of them afterwards is a double free.
\<close>

definition delete_request :: "bytes \<Rightarrow> ptr \<Rightarrow> IceTransportChannel \<Rightarrow> IceTransportChannel option" where
  "delete_request tid p w = do {
     c \<leftarrow> heap w p;
     _ \<leftarrow> conn_requests c tid;
     upd_conn p (\<lambda>c. c\<lparr>conn_requests := mgr_remove tid (conn_requests c)\<rparr>) w
   }"

definition check_response :: "int \<Rightarrow> StunMessage \<Rightarrow> ptr \<Rightarrow> IceTransportChannel
    \<Rightarrow> IceTransportChannel option" where
  "check_response now msg p w = do {
     c \<leftarrow> heap w p;
     (case classify_response msg (conn_requests c) of
        no_request \<Rightarrow> Some w
      | success_response request \<Rightarrow> do {
          w \<leftarrow> on_connection_request_response now request p w;
          delete_request (transaction_id msg) p w
        }
      | error_response request \<Rightarrow> do {
          w \<leftarrow> on_connection_request_error_response now msg p w;
          delete_request (transaction_id msg) p w
        }
      | wrong_type request \<Rightarrow> delete_request (transaction_id msg) p w)
   }"

definition port_of :: "IceTransportChannel \<Rightarrow> nat \<Rightarrow> UDPPort option" where
  "port_of w i = (if i < length (ports w) then Some (ports w ! i) else None)"

definition handle_stun_binding_request :: "(bytes \<Rightarrow> bytes) \<Rightarrow> StunMessage \<Rightarrow> ptr \<Rightarrow> IceTransportChannel
    \<Rightarrow> IceTransportChannel option" where
  "handle_stun_binding_request sha1 stun_msg p w = do {
     c \<leftarrow> heap w p;
     port \<leftarrow> port_of w (conn_port c);
     let addr = cand_address (remote_candidate c);
     Some (send_opt (conn_port c)
       (send_stun_binding_response sha1 (ice_pwd (port_params port)) addr stun_msg) addr w)
   }"

definition conn_on_read_packet :: "(bytes \<Rightarrow> bytes) \<Rightarrow> int \<Rightarrow> bytes \<Rightarrow> int \<Rightarrow> ptr \<Rightarrow> IceTransportChannel
    \<Rightarrow> IceTransportChannel option" where
  "conn_on_read_packet sha1 now buf ts p w = do {
     c \<leftarrow> heap w p;
     let remote = remote_candidate c;
     let addr = cand_address remote;
     port \<leftarrow> port_of w (conn_port c);
     input \<leftarrow> get_stun_message sha1 port buf;
     (case input of
        not_stun \<Rightarrow> Some (emit (ev_read_packet buf ts) w)
      | rejected pkt \<Rightarrow> Some (send_opt (conn_port c) pkt addr w)
      | accepted stun_msg remote_ufrag \<Rightarrow>
          if msg_type stun_msg = STUN_BINDING_REQUEST then
            if remote_ufrag \<noteq> cand_username remote
            then Some (send_opt (conn_port c) (send_binding_error_response sha1 port stun_msg
                   STUN_ERROR_UNAUTHORIZED STUN_ERROR_REASON_UNAUTHORIZED) addr w)
            else handle_stun_binding_request sha1 stun_msg p w
          else if msg_type stun_msg = STUN_BINDING_RESPONSE
               \<or> msg_type stun_msg = STUN_BINDING_ERROR_RESPONSE
          then do {
            stun_msg \<leftarrow> validate_message_integrity sha1 stun_msg (cand_password remote);
            if integrity_ok stun_msg then check_response now stun_msg p w else Some w
          }
          else Some w)
   }"

section \<open>New connections and incoming packets\<close>

definition ch_add_connection :: "ptr \<Rightarrow> IceTransportChannel \<Rightarrow> IceTransportChannel" where
  "ch_add_connection p w = w\<lparr>had_connection := True,
     ice_controller := add_connection p (ice_controller w)\<rparr>"

definition on_unknown_address :: "(bytes \<Rightarrow> bytes) \<Rightarrow> int \<Rightarrow> nat \<Rightarrow> SocketAddress \<Rightarrow> StunMessage \<Rightarrow> bytes
    \<Rightarrow> IceTransportChannel \<Rightarrow> IceTransportChannel option" where
  "on_unknown_address sha1 now i addr msg remote_ufrag w = do {
     port \<leftarrow> port_of w i;
     (case get_uint32 msg STUN_ATTR_PRIORITY of
        None \<Rightarrow> Some (send_opt i (send_binding_error_response sha1 port msg
           STUN_ERROR_BAD_REQUEST STUN_ERROR_REASON_BAD_REQUEST) addr w)
      | Some priority_attr \<Rightarrow> do {
          let remote = \<lparr>cand_component = ch_component w, cand_protocol = bytes_of ''udp'',
             cand_address = addr, cand_port = 0, cand_priority = bits32 priority_attr,
             cand_username = remote_ufrag, cand_password = ice_pwd (remote_ice_params w),
             cand_type = PRFLX_PORT_TYPE, cand_foundation = []\<rparr>;
          let p = next_ptr w;
          let w = w\<lparr>heap := (heap w)(p \<mapsto> new_IceConnection i remote), next_ptr := p + 1,
                    ports := (ports w)[i := create_connection p remote port]\<rparr>;
          let w = ch_add_connection p w;
          w \<leftarrow> handle_stun_binding_request sha1 msg p w;
          sort_connections_and_update_state now w
        })
   }"

definition port_on_read_packet :: "(bytes \<Rightarrow> bytes) \<Rightarrow> int \<Rightarrow> nat \<Rightarrow> bytes \<Rightarrow> SocketAddress \<Rightarrow> int
    \<Rightarrow> IceTransportChannel \<Rightarrow> IceTransportChannel option" where
  "port_on_read_packet sha1 now i buf addr ts w = do {
     port \<leftarrow> port_of w i;
     (case get_connection port addr of
        Some p \<Rightarrow> conn_on_read_packet sha1 now buf ts p w
      | None \<Rightarrow> do {
          input \<leftarrow> get_stun_message sha1 port buf;
          (case input of
             not_stun \<Rightarrow> Some w
           | rejected pkt \<Rightarrow> Some (send_opt i pkt addr w)
           | accepted stun_msg remote_ufrag \<Rightarrow>
               if STUN_BINDING_REQUEST = msg_type stun_msg
               then on_unknown_address sha1 now i addr stun_msg remote_ufrag w
               else Some w)
        })
   }"

section \<open>The ping timer\<close>

fun update_connection_states :: "int \<Rightarrow> ptr list \<Rightarrow> IceTransportChannel \<Rightarrow> IceTransportChannel option" where
  "update_connection_states now [] w = Some w"
| "update_connection_states now (p # ps) w = do {
     w \<leftarrow> conn_update_state now p w;
     update_connection_states now ps w
   }"

definition ping_connection :: "(bytes \<Rightarrow> bytes) \<Rightarrow> int \<Rightarrow> bytes \<Rightarrow> ptr \<Rightarrow> IceTransportChannel
    \<Rightarrow> IceTransportChannel option" where
  "ping_connection sha1 now tid p w = do {
     let w = w\<lparr>last_ping_sent_ms := now\<rparr>;
     c \<leftarrow> heap w p;
     port \<leftarrow> port_of w (conn_port c);
     lc \<leftarrow> local_candidate w (conn_port c);
     let (c', pkt) = ping sha1 (port_params port) lc now tid c;
     Some (send_opt (conn_port c) pkt (cand_address (remote_candidate c))
       (w\<lparr>heap := (heap w)(p \<mapsto> c')\<rparr>))
   }"

definition on_check_and_ping :: "(bytes \<Rightarrow> bytes) \<Rightarrow> int \<Rightarrow> bytes \<Rightarrow> IceTransportChannel
    \<Rightarrow> IceTransportChannel option" where
  "on_check_and_ping sha1 now tid w = do {
     w \<leftarrow> update_connection_states now (c_connections (ice_controller w)) w;
     (ctl, result) \<leftarrow> select_connection_to_ping (heap w) now (last_ping_sent_ms w - PING_INTERVAL_DIFF)
        (ice_controller w);
     let w = w\<lparr>ice_controller := ctl\<rparr>;
     w \<leftarrow> (case pr_conn result of None \<Rightarrow> Some w
       | Some p \<Rightarrow> do {
           w \<leftarrow> ping_connection sha1 now tid p w;
           Some (w\<lparr>ice_controller := mark_connection_pinged (Some p) (ice_controller w)\<rparr>)
         });
     Some (if cur_ping_interval w \<noteq> pr_interval result
           then w\<lparr>cur_ping_interval := pr_interval result, ping_watcher := Some (pr_interval result * 1000)\<rparr>
           else w)
   }"

section \<open>Calls from the agent\<close>

definition ch_set_ice_params :: "IceParameters \<Rightarrow> IceTransportChannel \<Rightarrow> IceTransportChannel" where
  "ch_set_ice_params params w = w\<lparr>ice_params := params\<rparr>"

fun upd_conns :: "(IceConnection \<Rightarrow> IceConnection) \<Rightarrow> ptr list \<Rightarrow> IceTransportChannel
    \<Rightarrow> IceTransportChannel option" where
  "upd_conns f [] w = Some w"
| "upd_conns f (p # ps) w = do { w \<leftarrow> upd_conn p f w; upd_conns f ps w }"

definition ch_set_remote_ice_params :: "int \<Rightarrow> IceParameters \<Rightarrow> IceTransportChannel
    \<Rightarrow> IceTransportChannel option" where
  "ch_set_remote_ice_params now params w = do {
     let w = w\<lparr>remote_ice_params := params\<rparr>;
     w \<leftarrow> upd_conns (maybe_set_remote_ice_params params) (c_connections (ice_controller w)) w;
     sort_connections_and_update_state now w
   }"

text \<open>\<open>bound n\<close> is the port the system gave to the socket of network \<open>n\<close>, if any.\<close>

fun gather_ports :: "(IPAddress \<Rightarrow> bytes) \<Rightarrow> (Network \<Rightarrow> int option) \<Rightarrow> Network list \<Rightarrow> IceTransportChannel
    \<Rightarrow> IceTransportChannel" where
  "gather_ports ntop bound [] w = w"
| "gather_ports ntop bound (network # ns) w =
     (let port = new_UDPPort (transport_name w) (ch_component w) (ice_params w);
          (c, port) = create_ice_candidate ntop network (bound network) port;
          w = w\<lparr>ports := ports w @ [port]\<rparr>
      in case c of None \<Rightarrow> gather_ports ntop bound ns w
         | Some c \<Rightarrow> gather_ports ntop bound ns (w\<lparr>local_candidates := local_candidates w @ [c]\<rparr>))"

definition ch_gathering_candidate :: "(IPAddress \<Rightarrow> bytes) \<Rightarrow> (Network \<Rightarrow> int option) \<Rightarrow> PortAllocator
    \<Rightarrow> IceTransportChannel \<Rightarrow> IceTransportChannel" where
  "ch_gathering_candidate ntop bound allocator w =
     (if ice_ufrag (ice_params w) = [] \<or> ice_pwd (ice_params w) = [] then w
      else if pa_networks allocator = [] then w
      else let w = gather_ports ntop bound (pa_networks allocator) w
           in emit (ev_candidate_allocate_done (local_candidates w)) w)"

text \<open>\<open>sent\<close> is what the socket reports; \<open>-1\<close> without a connection ready to send.\<close>

definition ch_send_packet :: "int \<Rightarrow> bytes \<Rightarrow> IceTransportChannel \<Rightarrow> (int \<times> IceTransportChannel) option" where
  "ch_send_packet sent data w = (case selected_connection w of None \<Rightarrow> Some (-1, w)
     | Some p \<Rightarrow> do {
         c \<leftarrow> heap w p;
         if \<not> ctl_ready_to_send (Some c) then Some (-1, w)
         else do {
           port \<leftarrow> port_of w (conn_port c);
           if \<not> port_async_socket port then Some (-1, w)
           else Some (sent, send_to (conn_port c) data (cand_address (remote_candidate c)) w)
         }
       })"

fun destroy_all :: "int \<Rightarrow> ptr list \<Rightarrow> IceTransportChannel \<Rightarrow> IceTransportChannel option" where
  "destroy_all now [] w = Some w"
| "destroy_all now (p # ps) w = do { w \<leftarrow> destroy now p w; destroy_all now ps w }"

definition delete_channel :: "int \<Rightarrow> IceTransportChannel \<Rightarrow> IceTransportChannel option" where
  "delete_channel now w = do {
     w \<leftarrow> destroy_all now (c_connections (ice_controller w)) (w\<lparr>ping_watcher := None\<rparr>);
     Some (w\<lparr>ports := []\<rparr>)
   }"

end
