(* ===== verification/Ice_Channel_Inv.thy ===== *)
theory Ice_Channel_Inv
  imports Ice_Channel
begin

text \<open>
  The invariant of the object graph of a channel and its preservation by every event: no dangling
  pointer is followed, and after every event the reported state agrees with the connections.
\<close>

section \<open>The invariant\<close>

abbreviation flags_ok :: "IceTransportChannel \<Rightarrow> bool" where
  "flags_ok w \<equiv> (ch_writable w \<longrightarrow> has_been_connection w) \<and> (has_been_connection w \<longrightarrow> had_connection w)"

definition chan_inv :: "IceTransportChannel \<Rightarrow> bool" where
  "chan_inv w \<longleftrightarrow> ctl_inv (ice_controller w)
     \<and> set (c_connections (ice_controller w)) = dom (heap w)
     \<and> (\<forall>p c. heap w p = Some c \<longrightarrow> p < next_ptr w \<and> local_candidate w (conn_port c) \<noteq> None
          \<and> (conn_selected c \<longleftrightarrow> selected_connection w = Some p))
     \<and> c_selected (ice_controller w) = selected_connection w
     \<and> set_option (selected_connection w) \<subseteq> dom (heap w)
     \<and> (\<forall>port \<in> set (ports w). ran (port_connections port) \<subseteq> dom (heap w)
          \<and> (port_async_socket port \<longrightarrow> port_candidates port \<noteq> []))
     \<and> (c_connections (ice_controller w) \<noteq> [] \<longrightarrow> had_connection w)
     \<and> flags_ok w"

text \<open>The reported state of the channel agrees with its connections.\<close>

definition sel_writable :: "IceTransportChannel \<Rightarrow> bool" where
  "sel_writable w \<longleftrightarrow> (\<exists>p c. selected_connection w = Some p \<and> heap w p = Some c \<and> conn_writable c)"

definition conns_receiving :: "IceTransportChannel \<Rightarrow> bool" where
  "conns_receiving w \<longleftrightarrow> (\<exists>p c. heap w p = Some c \<and> conn_receiving c)"

definition conns_active :: "IceTransportChannel \<Rightarrow> bool" where
  "conns_active w \<longleftrightarrow> (\<exists>p c. heap w p = Some c \<and> conn_active c)"

definition ice_state_of :: "bool \<Rightarrow> bool \<Rightarrow> bool \<Rightarrow> bool \<Rightarrow> IceTransportState" where
  "ice_state_of had been active writable =
     (if had \<and> \<not> active then k_failed
      else if been \<and> \<not> writable then k_disconnected
      else if \<not> had \<and> \<not> active then k_new
      else if active \<and> \<not> writable then k_checking
      else k_connected)"

definition state_ok :: "IceTransportChannel \<Rightarrow> bool" where
  "state_ok w \<longleftrightarrow> ch_writable w = sel_writable w \<and> ch_receiving w = conns_receiving w
     \<and> ch_state w = ice_state_of (had_connection w) (has_been_connection w) (conns_active w) (ch_writable w)"

text \<open>What an operation on existing connections leaves alone.\<close>

definition frame :: "IceTransportChannel \<Rightarrow> IceTransportChannel \<Rightarrow> bool" where
  "frame w w' \<longleftrightarrow> dom (heap w') = dom (heap w) \<and> ports w' = ports w \<and> next_ptr w' = next_ptr w
     \<and> had_connection w' = had_connection w
     \<and> (\<forall>p c c'. heap w p = Some c \<longrightarrow> heap w' p = Some c' \<longrightarrow>
          conn_port c' = conn_port c \<and> conn_requests c' = conn_requests c)"

lemma frame_refl [simp]: "frame w w"
  by (auto simp: frame_def)

lemma frame_trans [trans]: "frame w w' \<Longrightarrow> frame w' w'' \<Longrightarrow> frame w w''"
proof -
  assume a: "frame w w'" and b: "frame w' w''"
  have "conn_port c'' = conn_port c \<and> conn_requests c'' = conn_requests c"
    if h: "heap w p = Some c" "heap w'' p = Some c''" for p c c''
  proof -
    have "p \<in> dom (heap w')" using a h(1) unfolding frame_def by blast
    then obtain c' where c': "heap w' p = Some c'" by blast
    have "conn_port c' = conn_port c \<and> conn_requests c' = conn_requests c"
      using a h(1) c' unfolding frame_def by blast
    moreover have "conn_port c'' = conn_port c' \<and> conn_requests c'' = conn_requests c'"
      using b h(2) c' unfolding frame_def by blast
    ultimately show ?thesis by simp
  qed
  moreover have "dom (heap w'') = dom (heap w)" "ports w'' = ports w" "next_ptr w'' = next_ptr w"
    "had_connection w'' = had_connection w"
    using a b unfolding frame_def by simp_all
  ultimately show ?thesis unfolding frame_def by blast
qed

abbreviation good :: "IceTransportChannel \<Rightarrow> IceTransportChannel \<Rightarrow> bool" where
  "good w w' \<equiv> chan_inv w' \<and> state_ok w' \<and> frame w w'"

lemma chan_inv_cong:
  assumes "chan_inv w" "ice_controller w' = ice_controller w" "heap w' = heap w" "ports w' = ports w"
    "next_ptr w' = next_ptr w" "selected_connection w' = selected_connection w"
    "had_connection w' = had_connection w" "flags_ok w'"
  shows "chan_inv w'"
proof -
  have lc: "local_candidate w' = local_candidate w"
    by (simp add: fun_eq_iff local_candidate_def assms(4))
  show ?thesis using assms(1,8) unfolding chan_inv_def assms(2-7) lc by blast
qed

lemma chan_inv_conn:
  assumes "chan_inv w" "heap w p = Some c"
  shows "p < next_ptr w" "\<exists>l. local_candidate w (conn_port c) = Some l"
    "conn_selected c \<longleftrightarrow> selected_connection w = Some p"
    "conn_port c < length (ports w)"
proof -
  show l: "\<exists>l. local_candidate w (conn_port c) = Some l" and "p < next_ptr w"
    "conn_selected c \<longleftrightarrow> selected_connection w = Some p"
    using assms unfolding chan_inv_def by blast+
  from l show "conn_port c < length (ports w)"
    by (auto simp: local_candidate_def split: if_splits)
qed

lemma chan_inv_parts:
  assumes "chan_inv w"
  shows "ctl_inv (ice_controller w)" "set (c_connections (ice_controller w)) = dom (heap w)"
    "c_selected (ice_controller w) = selected_connection w"
    "ch_writable w \<Longrightarrow> has_been_connection w"
    "\<And>p. selected_connection w = Some p \<Longrightarrow> \<exists>c. heap w p = Some c"
    "sel_live (heap w) (ice_controller w)"
    "ctl_live (local_candidate w) (heap w) (ice_controller w)"
    "has_been_connection w \<Longrightarrow> had_connection w" "heap w p = Some c \<Longrightarrow> had_connection w" "flags_ok w"
proof -
  show sel: "\<And>p. selected_connection w = Some p \<Longrightarrow> \<exists>c. heap w p = Some c"
    using assms by (auto simp: chan_inv_def)
  show "sel_live (heap w) (ice_controller w)"
    using assms sel by (cases "selected_connection w") (auto simp: sel_live_def chan_inv_def)
  have "conn_view_of (local_candidate w) (heap w) p \<noteq> None" if "p \<in> set (c_connections (ice_controller w))" for p
  proof -
    have "p \<in> dom (heap w)" using assms that by (simp add: chan_inv_def)
    then obtain c where c: "heap w p = Some c" by blast
    then show ?thesis using chan_inv_conn(2) [OF assms c] by (auto simp: conn_view_of_def)
  qed
  moreover have "case c_selected (ice_controller w) of None \<Rightarrow> True | Some p \<Rightarrow> heap w p \<noteq> None"
    using \<open>sel_live (heap w) (ice_controller w)\<close> by (simp add: sel_live_def)
  ultimately show "ctl_live (local_candidate w) (heap w) (ice_controller w)"
    unfolding ctl_live_def list_all_iff by blast
  show "had_connection w" if "heap w p = Some c"
    using assms that unfolding chan_inv_def by (metis domI empty_iff set_empty)
qed (use assms in \<open>simp_all add: chan_inv_def\<close>)

section \<open>Updating the state\<close>

lemma any_conn_live:
  "(\<And>p. p \<in> set ps \<Longrightarrow> h p \<noteq> None) \<Longrightarrow>
   any_conn P h ps = Some (\<exists>p \<in> set ps. \<exists>c. h p = Some c \<and> P c)"
  by (induction ps) (auto split: option.split)

lemma any_conn_inv:
  assumes "chan_inv w"
  shows "any_conn P (heap w) (c_connections (ice_controller w)) = Some (\<exists>p c. heap w p = Some c \<and> P c)"
proof -
  have d: "set (c_connections (ice_controller w)) = dom (heap w)"
    using assms by (simp add: chan_inv_parts(2))
  have "any_conn P (heap w) (c_connections (ice_controller w))
      = Some (\<exists>p \<in> set (c_connections (ice_controller w)). \<exists>c. heap w p = Some c \<and> P c)"
    by (rule any_conn_live) (auto simp: d)
  also have "(\<exists>p \<in> set (c_connections (ice_controller w)). \<exists>c. heap w p = Some c \<and> P c)
      \<longleftrightarrow> (\<exists>p c. heap w p = Some c \<and> P c)"
    unfolding d by auto
  finally show ?thesis .
qed

lemma update_state_good:
  assumes "chan_inv w"
  shows "safely (good w) (update_state w)"
proof -
  have wr: "(case selected_connection w of None \<Rightarrow> Some False | Some p \<Rightarrow> map_option conn_writable (heap w p))
      = Some (sel_writable w)"
    using chan_inv_parts(5) [OF assms] by (auto simp: sel_writable_def split: option.split)
  define w1 where "w1 = set_writable (sel_writable w) w"
  have g1: "ice_controller w1 = ice_controller w" "heap w1 = heap w" "ports w1 = ports w"
    "next_ptr w1 = next_ptr w" "selected_connection w1 = selected_connection w"
    "had_connection w1 = had_connection w" "ch_writable w1 = sel_writable w"
    "flags_ok w1"
    using chan_inv_parts(4,8) [OF assms] chan_inv_parts(9) [OF assms]
    by (auto simp: w1_def set_writable_def emit_def Let_def sel_writable_def)
  have inv1: "chan_inv w1" using assms g1 by (intro chan_inv_cong [OF assms]) simp_all
  define w2 where "w2 = set_receiving (conns_receiving w) w1"
  have g2: "ice_controller w2 = ice_controller w" "heap w2 = heap w" "ports w2 = ports w"
    "next_ptr w2 = next_ptr w" "selected_connection w2 = selected_connection w"
    "had_connection w2 = had_connection w" "ch_writable w2 = sel_writable w"
    "ch_receiving w2 = conns_receiving w" "has_been_connection w2 = has_been_connection w1"
    using g1 by (auto simp: w2_def set_receiving_def emit_def)
  have inv2: "chan_inv w2" using g1 g2 by (intro chan_inv_cong [OF inv1]) simp_all
  let ?st = "ice_state_of (had_connection w) (has_been_connection w1) (conns_active w) (sel_writable w)"
  have st: "compute_ice_transport_state w2 = Some ?st"
    using any_conn_inv [OF inv2, of conn_active, unfolded g2(2), folded conns_active_def] g2
    by (simp add: compute_ice_transport_state_def ice_state_of_def)
  let ?w3 = "if ?st \<noteq> ch_state w2 then emit (ev_ice_state_changed ?st) (w2\<lparr>ch_state := ?st\<rparr>) else w2"
  have up: "update_state w = Some ?w3"
    using any_conn_inv [OF inv1, of conn_receiving] g1 st
    by (simp add: update_state_def wr conns_receiving_def flip: w1_def w2_def [unfolded conns_receiving_def])
  have "chan_inv ?w3" using g1 g2 by (intro chan_inv_cong [OF inv2]) (simp_all add: emit_def)
  moreover have "state_ok ?w3" "frame w ?w3"
    using g2 by (simp_all add: state_ok_def frame_def emit_def sel_writable_def conns_receiving_def
        conns_active_def)
  ultimately show ?thesis unfolding up by simp
qed

section \<open>Selecting and sorting\<close>

lemma chan_inv_upd:
  assumes "chan_inv w" "heap w p = Some c" "conn_port c' = conn_port c" "conn_selected c' = conn_selected c"
  shows "chan_inv (w\<lparr>heap := (heap w)(p \<mapsto> c')\<rparr>)"
proof -
  let ?w = "w\<lparr>heap := (heap w)(p \<mapsto> c')\<rparr>"
  have lc: "local_candidate ?w = local_candidate w"
    by (simp add: fun_eq_iff local_candidate_def)
  have d: "dom (heap ?w) = dom (heap w)" using assms(2) by auto
  have "q < next_ptr ?w \<and> local_candidate ?w (conn_port x) \<noteq> None
      \<and> (conn_selected x \<longleftrightarrow> selected_connection ?w = Some q)" if "heap ?w q = Some x" for q x
    using that assms chan_inv_conn [OF assms(1)] unfolding lc
    by (cases "q = p") auto
  moreover have "ctl_inv (ice_controller ?w)" "c_selected (ice_controller ?w) = selected_connection ?w"
    "c_connections (ice_controller ?w) \<noteq> [] \<longrightarrow> had_connection ?w"
    "flags_ok ?w" "set (c_connections (ice_controller ?w)) = dom (heap ?w)"
    "set_option (selected_connection ?w) \<subseteq> dom (heap ?w)"
    "\<forall>port \<in> set (ports ?w). ran (port_connections port) \<subseteq> dom (heap ?w)
          \<and> (port_async_socket port \<longrightarrow> port_candidates port \<noteq> [])"
    using assms(1) unfolding d chan_inv_def by simp_all
  ultimately show ?thesis unfolding chan_inv_def by blast
qed

lemma frame_upd:
  assumes "heap w p = Some c" "conn_port c' = conn_port c" "conn_requests c' = conn_requests c"
  shows "frame w (w\<lparr>heap := (heap w)(p \<mapsto> c')\<rparr>)"
  using assms by (auto simp: frame_def)

lemma set_selected_sel [simp]:
  "conn_port (set_selected b c) = conn_port c" "conn_requests (set_selected b c) = conn_requests c"
  "conn_selected (set_selected b c) = b" "conn_writable (set_selected b c) = conn_writable c"
  "conn_receiving (set_selected b c) = conn_receiving c" "conn_active (set_selected b c) = conn_active c"
  by (simp_all add: set_selected_def conn_writable_def conn_active_def)

lemma switch_selected_inv:
  assumes inv: "chan_inv w" and p: "p \<in> dom (heap w)"
  shows "safely (\<lambda>w'. chan_inv w' \<and> frame w w') (switch_selected_connection (Some p) w)"
proof -
  define h1 where "h1 = (case selected_connection w of None \<Rightarrow> heap w
    | Some q \<Rightarrow> (heap w)(q := map_option (set_selected False) (heap w q)))"
  have h1_dom: "dom h1 = dom (heap w)"
    by (auto simp: h1_def split: option.splits if_splits)
  have h1_el: "\<exists>c. heap w q = Some c \<and> conn_port x = conn_port c \<and> conn_requests x = conn_requests c
      \<and> \<not> conn_selected x" if "h1 q = Some x" for q x
    using that chan_inv_conn(3) [OF inv] by (auto simp: h1_def split: option.splits if_splits)
  obtain d where d: "h1 p = Some d" using p h1_dom by blast
  define w' where "w' = w\<lparr>selected_connection := Some p, heap := h1(p \<mapsto> set_selected True d),
    ice_controller := set_selected_connection (Some p) (ice_controller w)\<rparr>"
  have eq: "switch_selected_connection (Some p) w = Some w'"
  proof (cases "selected_connection w")
    case None
    then show ?thesis using d by (simp add: switch_selected_connection_def upd_conn_def h1_def w'_def)
  next
    case (Some q)
    obtain c where "heap w q = Some c" using chan_inv_parts(5) [OF inv Some] by blast
    with Some d show ?thesis
      by (auto simp: switch_selected_connection_def upd_conn_def h1_def w'_def Let_def split: if_splits)
  qed
  have dom': "dom (heap w') = dom (heap w)" using h1_dom p by (auto simp: w'_def)
  have el': "\<exists>c. heap w q = Some c \<and> conn_port x = conn_port c \<and> conn_requests x = conn_requests c
      \<and> (conn_selected x \<longleftrightarrow> q = p)" if "heap w' q = Some x" for q x
    using that h1_el [of q] h1_el [OF d] by (cases "q = p") (auto simp: w'_def)
  have lc: "local_candidate w' = local_candidate w"
    by (simp add: fun_eq_iff local_candidate_def w'_def)
  have "q < next_ptr w' \<and> local_candidate w' (conn_port x) \<noteq> None
      \<and> (conn_selected x \<longleftrightarrow> selected_connection w' = Some q)" if "heap w' q = Some x" for q x
    using el' [OF that] chan_inv_conn [OF inv, of q] unfolding lc by (auto simp: w'_def)
  moreover have "ctl_inv (ice_controller w')" "c_selected (ice_controller w') = selected_connection w'"
    "c_connections (ice_controller w') \<noteq> [] \<longrightarrow> had_connection w'"
    "flags_ok w'" "set (c_connections (ice_controller w')) = dom (heap w')"
    "set_option (selected_connection w') \<subseteq> dom (heap w')"
    "\<forall>port \<in> set (ports w'). ran (port_connections port) \<subseteq> dom (heap w')
          \<and> (port_async_socket port \<longrightarrow> port_candidates port \<noteq> [])"
    using inv p unfolding dom' chan_inv_def
    by (simp_all add: w'_def set_selected_connection_def ctl_inv_def)
  ultimately have "chan_inv w'" unfolding chan_inv_def by blast
  moreover have "frame w w'"
  proof -
    have "ports w' = ports w" "next_ptr w' = next_ptr w" "had_connection w' = had_connection w"
      by (simp_all add: w'_def)
    with dom' show ?thesis unfolding frame_def using el' by fastforce
  qed
  ultimately show ?thesis unfolding eq by simp
qed

lemma maybe_start_pinging_good:
  assumes "chan_inv w" "state_ok w"
  shows "safely (good w) (maybe_start_pinging now w)"
proof (cases "start_pinging w")
  case True
  then show ?thesis using assms by (simp add: maybe_start_pinging_def)
next
  case False
  obtain b where b: "has_pingable_connection (heap w) now (ice_controller w) = Some b"
    using any_pingable_live [OF chan_inv_parts(6) [OF assms(1)], of "c_connections (ice_controller w)" now]
      chan_inv_parts(2) [OF assms(1)]
    by (force simp: has_pingable_connection_def)
  let ?w = "w\<lparr>ping_watcher := Some (cur_ping_interval w * 1000), start_pinging := True\<rparr>"
  have "chan_inv ?w"
    using chan_inv_parts(4,8) [OF assms(1)] by (intro chan_inv_cong [OF assms(1)]) auto
  moreover have "state_ok ?w" "frame w ?w"
    using assms(2) by (simp_all add: state_ok_def sel_writable_def conns_receiving_def conns_active_def frame_def)
  ultimately show ?thesis using False assms b by (simp add: maybe_start_pinging_def)
qed

lemma sort_connections_good:
  assumes inv: "chan_inv w"
  shows "safely (good w) (sort_connections_and_update_state now w)"
proof -
  obtain ctl res where s: "sort_and_switch_connection (local_candidate w) (heap w) (ice_controller w) = Some (ctl, res)"
    using sort_and_switch_total [OF chan_inv_parts(7) [OF inv]] by blast
  note perm = sort_and_switch_perm [OF s]
  let ?w = "w\<lparr>ice_controller := ctl\<rparr>"
  have lc: "local_candidate ?w = local_candidate w" by (simp add: fun_eq_iff local_candidate_def)
  have ctl_nil: "c_connections ctl = [] \<longleftrightarrow> c_connections (ice_controller w) = []"
    using perm(5) by (metis set_empty)
  have inv1: "chan_inv ?w"
    using inv ctl_inv_sort [OF chan_inv_parts(1) [OF inv] s] perm(2,5) ctl_nil
    unfolding chan_inv_def lc by simp
  have fr1: "frame w ?w" by (simp add: frame_def)
  have "p \<in> dom (heap w)" if "res = Some p" for p
    using sort_switch_member [OF s] that chan_inv_parts(2) [OF inv] by blast
  then have sw: "safely (\<lambda>w'. chan_inv w' \<and> frame w w') (maybe_switch_selected_connection res ?w)"
    using inv1 fr1
    by (auto simp: maybe_switch_selected_connection_def split: option.split
        intro: safely_mono [OF switch_selected_inv [OF inv1]] frame_trans)
  show ?thesis
    unfolding sort_connections_and_update_state_def s
    apply simp
    apply (rule safely_bind [OF sw])
    apply (rule safely_bind [OF update_state_good])
     apply blast
    apply (rule safely_mono [OF maybe_start_pinging_good])
      apply (auto intro: frame_trans)
    done
qed

section \<open>Events\<close>

text \<open>A method of a connection: it keeps the port, the selection flag and the requests, and
  raises the signal whenever it changes what the channel reports.\<close>

definition signalling :: "(IceConnection \<Rightarrow> IceConnection \<times> bool) \<Rightarrow> bool" where
  "signalling f \<longleftrightarrow> (\<forall>c. conn_port (fst (f c)) = conn_port c \<and> conn_selected (fst (f c)) = conn_selected c
     \<and> conn_requests (fst (f c)) = conn_requests c
     \<and> (\<not> snd (f c) \<longrightarrow> conn_write_state (fst (f c)) = conn_write_state c
          \<and> conn_receiving (fst (f c)) = conn_receiving c))"

definition quiet :: "(IceConnection \<Rightarrow> IceConnection) \<Rightarrow> bool" where
  "quiet f \<longleftrightarrow> (\<forall>c. conn_port (f c) = conn_port c \<and> conn_selected (f c) = conn_selected c
     \<and> conn_write_state (f c) = conn_write_state c \<and> conn_receiving (f c) = conn_receiving c)"

lemma signalling_methods [intro, simp]:
  "signalling (update_receiving now)" "signalling (set_write_state st)"
  "signalling (check_unreliable rtt now)" "signalling (check_timeout now)"
  by (simp_all add: signalling_def update_receiving_def set_write_state_def check_unreliable_def
      check_timeout_def Let_def)

lemma quiet_methods [intro, simp]:
  "quiet (record_rtt rtt now)" "quiet (set_state st)" "quiet (maybe_set_remote_ice_params params)"
  "quiet (conn_requests_update g)"
  by (simp_all add: quiet_def record_rtt_def set_state_def maybe_set_remote_ice_params_def)

lemma ex_upd:
  assumes "h p = Some c" "P c' = P c"
  shows "(\<exists>q x. (h(p \<mapsto> c')) q = Some x \<and> P x) \<longleftrightarrow> (\<exists>q x. h q = Some x \<and> P x)"
proof
  assume "\<exists>q x. (h(p \<mapsto> c')) q = Some x \<and> P x"
  with assms show "\<exists>q x. h q = Some x \<and> P x" by (auto split: if_splits)
next
  assume "\<exists>q x. h q = Some x \<and> P x"
  then obtain q x where q: "h q = Some x" "P x" by blast
  show "\<exists>q x. (h(p \<mapsto> c')) q = Some x \<and> P x"
  proof (cases "q = p")
    case True
    then show ?thesis using assms q by (intro exI [of _ p]) simp
  next
    case False
    then show ?thesis using q by (intro exI [of _ q]) simp
  qed
qed

lemma state_ok_upd:
  assumes "state_ok w" "heap w p = Some c" "conn_write_state c' = conn_write_state c"
    "conn_receiving c' = conn_receiving c"
  shows "state_ok (w\<lparr>heap := (heap w)(p \<mapsto> c')\<rparr>)"
proof -
  have "sel_writable (w\<lparr>heap := (heap w)(p \<mapsto> c')\<rparr>) = sel_writable w"
    "conns_receiving (w\<lparr>heap := (heap w)(p \<mapsto> c')\<rparr>) = conns_receiving w"
    "conns_active (w\<lparr>heap := (heap w)(p \<mapsto> c')\<rparr>) = conns_active w"
    using ex_upd [of "heap w" p c conn_receiving c'] ex_upd [of "heap w" p c conn_active c'] assms(2-4)
    by (auto simp: sel_writable_def conns_receiving_def conns_active_def
        conn_writable_def conn_active_def)
  then show ?thesis using assms(1) by (simp add: state_ok_def)
qed

lemma call_conn_good:
  assumes inv: "chan_inv w" "state_ok w" and p: "p \<in> dom (heap w)" and f: "signalling f"
  shows "safely (good w) (call_conn now p f w)"
proof -
  obtain c where c: "heap w p = Some c" using p by blast
  obtain c' ch where fc: "f c = (c', ch)" by (cases "f c")
  let ?w = "w\<lparr>heap := (heap w)(p \<mapsto> c')\<rparr>"
  have same: "conn_port c' = conn_port c" "conn_selected c' = conn_selected c"
    "conn_requests c' = conn_requests c"
    "\<not> ch \<Longrightarrow> conn_write_state c' = conn_write_state c \<and> conn_receiving c' = conn_receiving c"
    using f fc unfolding signalling_def by (metis fst_conv snd_conv)+
  have inv1: "chan_inv ?w" and fr1: "frame w ?w"
    using c same by (simp_all add: chan_inv_upd [OF inv(1) c] frame_upd)
  show ?thesis
  proof (cases ch)
    case True
    then show ?thesis
      using safely_mono [OF sort_connections_good [OF inv1]] fr1 frame_trans
      by (simp add: call_conn_def c fc on_connection_state_change_def)
  next
    case False
    then show ?thesis
      using same(4) inv1 fr1 state_ok_upd [OF inv(2) c] by (simp add: call_conn_def c fc)
  qed
qed

lemma upd_conn_good:
  assumes inv: "chan_inv w" "state_ok w" and p: "p \<in> dom (heap w)" and f: "quiet f"
  shows "safely (\<lambda>w'. chan_inv w' \<and> state_ok w' \<and> dom (heap w') = dom (heap w) \<and> ports w' = ports w)
    (upd_conn p f w)"
proof -
  obtain c where c: "heap w p = Some c" using p by blast
  show ?thesis
    using f c chan_inv_upd [OF inv(1) c] state_ok_upd [OF inv(2) c]
    by (auto simp: upd_conn_def quiet_def)
qed

lemma upd_conn_frame:
  assumes "upd_conn p f w = Some w'" "\<And>c. conn_port (f c) = conn_port c \<and> conn_requests (f c) = conn_requests c"
  shows "frame w w'"
proof (cases "heap w p")
  case None
  with assms(1) show ?thesis by (simp add: upd_conn_def)
next
  case (Some c)
  then have "w' = w\<lparr>heap := (heap w)(p \<mapsto> f c)\<rparr>" using assms(1) by (simp add: upd_conn_def)
  with frame_upd [OF Some] assms(2) show ?thesis by simp
qed

lemma frame_dom: "frame w w' \<Longrightarrow> dom (heap w') = dom (heap w)"
  by (simp add: frame_def)

lemma safely_call:
  assumes "chan_inv w" "state_ok w" "p \<in> dom (heap w)" "signalling f"
    and "\<And>w'. good w w' \<Longrightarrow> p \<in> dom (heap w') \<Longrightarrow> safely Q (k w')"
  shows "safely Q (call_conn now p f w \<bind> k)"
proof (rule safely_bind [OF call_conn_good [OF assms(1-4)]])
  fix w' assume g: "good w w'"
  then have "p \<in> dom (heap w')" using assms(3) frame_dom by blast
  with g show "safely Q (k w')" by (rule assms(5))
qed

lemma conn_update_state_good:
  assumes "chan_inv w" "state_ok w" "p \<in> dom (heap w)"
  shows "safely (good w) (conn_update_state now p w)"
proof -
  obtain c where c: "heap w p = Some c" using assms(3) by blast
  show ?thesis
    unfolding conn_update_state_def c bind.bind_lunit
    using assms
    by (intro safely_call) (auto intro!: safely_call safely_mono [OF call_conn_good] intro: frame_trans)
qed

lemma received_ping_response_good:
  assumes "chan_inv w" "state_ok w" "p \<in> dom (heap w)"
  shows "safely (good w) (received_ping_response now rtt p w)"
proof -
  obtain w1 where w1: "upd_conn p (record_rtt rtt now) w = Some w1" "chan_inv w1" "state_ok w1"
    "dom (heap w1) = dom (heap w)"
    using upd_conn_good [OF assms quiet_methods(1) [of rtt now]] by (elim safelyE) blast
  have fr1: "frame w w1" using w1(1) by (rule upd_conn_frame) (simp add: record_rtt_def)
  have last: "safely (good w) (upd_conn p (set_state SUCCEEDED) w')"
    if w': "chan_inv w'" "state_ok w'" "frame w w'" "p \<in> dom (heap w')" for w'
  proof -
    obtain w2 where "upd_conn p (set_state SUCCEEDED) w' = Some w2" "chan_inv w2" "state_ok w2"
      using upd_conn_good [OF w'(1,2,4) quiet_methods(2) [of SUCCEEDED]] by (elim safelyE) blast
    moreover from this(1) have "frame w' w2" by (rule upd_conn_frame) (simp add: set_state_def)
    ultimately show ?thesis using frame_trans [OF w'(3)] by simp
  qed
  have p1: "p \<in> dom (heap w1)" using w1(4) assms(3) by simp
  show ?thesis
    unfolding received_ping_response_def w1(1) bind.bind_lunit
    using w1(2,3) p1 fr1
    by (intro safely_call) (auto intro!: safely_call last intro: frame_trans)
qed

abbreviation fine :: "IceTransportChannel \<Rightarrow> bool" where
  "fine w \<equiv> chan_inv w \<and> state_ok w"

lemma fine_cong:
  assumes "fine w" "ice_controller w' = ice_controller w" "heap w' = heap w" "ports w' = ports w"
    "next_ptr w' = next_ptr w" "selected_connection w' = selected_connection w"
    "had_connection w' = had_connection w" "ch_writable w' = ch_writable w"
    "has_been_connection w' = has_been_connection w" "ch_receiving w' = ch_receiving w"
    "ch_state w' = ch_state w"
  shows "fine w'"
proof
  show "chan_inv w'"
    using assms chan_inv_parts(4,8) [of w] by (intro chan_inv_cong [of w w']) simp_all
  show "state_ok w'"
    using assms by (simp add: state_ok_def sel_writable_def conns_receiving_def conns_active_def)
qed

lemma send_opt_frame [simp]:
  "heap (send_opt i pkt addr w) = heap w" "ports (send_opt i pkt addr w) = ports w"
  "ice_controller (send_opt i pkt addr w) = ice_controller w"
  "next_ptr (send_opt i pkt addr w) = next_ptr w"
  "selected_connection (send_opt i pkt addr w) = selected_connection w"
  "had_connection (send_opt i pkt addr w) = had_connection w"
  "ch_writable (send_opt i pkt addr w) = ch_writable w"
  "has_been_connection (send_opt i pkt addr w) = has_been_connection w"
  "ch_receiving (send_opt i pkt addr w) = ch_receiving w" "ch_state (send_opt i pkt addr w) = ch_state w"
  by (simp_all add: send_opt_def send_to_def emit_def split: option.split)

lemma fine_send [simp]: "fine w \<Longrightarrow> fine (send_opt i pkt addr w)"
  by (erule fine_cong) simp_all

lemma fine_emit [simp]: "fine w \<Longrightarrow> fine (emit e w)"
  by (erule fine_cong) (simp_all add: emit_def)

lemma delete_request_fine:
  assumes "fine w" "heap w p = Some c" "conn_requests c tid = Some rq"
  shows "safely fine (delete_request tid p w)"
proof -
  have "p \<in> dom (heap w)" using assms(2) by blast
  then have "safely fine (upd_conn p (\<lambda>c. c\<lparr>conn_requests := mgr_remove tid (conn_requests c)\<rparr>) w)"
    using assms(1) by (intro safely_mono [OF upd_conn_good]) (auto simp: quiet_def)
  then show ?thesis using assms(2,3) by (simp add: delete_request_def)
qed

lemma classify_response_found:
  "classify_response m mgr \<noteq> no_request \<Longrightarrow> \<exists>rq. mgr (transaction_id m) = Some rq"
  by (auto simp: classify_response_def split: option.splits)

lemma check_response_fine:
  assumes fw: "fine w" and c: "heap w p = Some c"
    and noerr: "\<And>rq. classify_response m (conn_requests c) \<noteq> error_response rq"
  shows "safely fine (check_response now m p w)"
proof (cases "classify_response m (conn_requests c)")
  case no_request
  then show ?thesis using fw c by (simp add: check_response_def)
next
  case (success_response rq)
  obtain rq' where rq': "conn_requests c (transaction_id m) = Some rq'"
    using classify_response_found [of m "conn_requests c"] success_response by auto
  have p: "p \<in> dom (heap w)" using c by blast
  have "safely fine (delete_request (transaction_id m) p w')" if g: "good w w'" for w'
  proof -
    have "p \<in> dom (heap w')" using g p frame_dom by blast
    then obtain c' where c': "heap w' p = Some c'" by blast
    then have "conn_requests c' = conn_requests c" using g c unfolding frame_def by blast
    then have "conn_requests c' (transaction_id m) = Some rq'" using rq' by simp
    with g c' show ?thesis by (intro delete_request_fine) blast+
  qed
  then show ?thesis
    using received_ping_response_good [of w p now "elapsed now rq"] fw p c success_response
    by (auto simp: check_response_def on_connection_request_response_def intro: safely_bind)
next
  case (error_response rq)
  then show ?thesis using noerr by blast
next
  case (wrong_type rq)
  then show ?thesis
    using fw c classify_response_found [of m "conn_requests c"] delete_request_fine [OF fw c]
    by (auto simp: check_response_def)
qed

text \<open>
  The two ways a packet can make a connection misbehave: an integrity attribute that is cut off
  (theorem \<^verbatim>\<open>integrity_check_out_of_bounds_iff\<close>), and an authentic error
  response to an outstanding request.
\<close>

definition packet_safe :: "(bytes \<Rightarrow> bytes) \<Rightarrow> UDPPort \<Rightarrow> IceConnection option \<Rightarrow> bytes \<Rightarrow> bool" where
  "packet_safe sha1 port conn buf \<longleftrightarrow> (case get_stun_message sha1 port buf of
     None \<Rightarrow> False
   | Some (accepted m u) \<Rightarrow>
       (case conn of None \<Rightarrow> True
        | Some c \<Rightarrow> msg_type m = STUN_BINDING_RESPONSE \<or> msg_type m = STUN_BINDING_ERROR_RESPONSE \<longrightarrow>
            (case validate_message_integrity sha1 m (cand_password (remote_candidate c)) of
               None \<Rightarrow> False
             | Some m' \<Rightarrow> integrity_ok m' \<longrightarrow>
                 (\<forall>rq. classify_response m' (conn_requests c) \<noteq> error_response rq)))
   | Some _ \<Rightarrow> True)"

lemma handle_request_safe:
  assumes "fine w" "heap w p = Some c"
  shows "\<exists>pkt addr. handle_stun_binding_request sha1 m p w = Some (send_opt (conn_port c) pkt addr w)"
  using chan_inv_conn(4) [of w p c] assms by (simp add: handle_stun_binding_request_def port_of_def Let_def) blast

lemma conn_on_read_packet_fine:
  assumes fw: "fine w" and c: "heap w p = Some c" and port: "port_of w (conn_port c) = Some port"
    and safe: "packet_safe sha1 port (Some c) buf"
  shows "safely fine (conn_on_read_packet sha1 now buf ts p w)"
proof (cases "get_stun_message sha1 port buf")
  case None
  then show ?thesis using safe by (simp add: packet_safe_def)
next
  case (Some input)
  show ?thesis
  proof (cases input)
    case (accepted m u)
    show ?thesis
    proof (cases "msg_type m = STUN_BINDING_REQUEST")
      case True
      then show ?thesis
        using handle_request_safe [OF fw c, of sha1 m] fw
        by (auto simp: conn_on_read_packet_def c port Some accepted Let_def)
    next
      case False
      show ?thesis
      proof (cases "msg_type m = STUN_BINDING_RESPONSE \<or> msg_type m = STUN_BINDING_ERROR_RESPONSE")
        case True
        then obtain m' where m': "validate_message_integrity sha1 m (cand_password (remote_candidate c)) = Some m'"
          "integrity_ok m' \<Longrightarrow> classify_response m' (conn_requests c) \<noteq> error_response rq" for rq
          using safe by (auto simp: packet_safe_def Some accepted split: option.splits)
        then show ?thesis
          using True False fw check_response_fine [OF fw c, of m' now]
          by (auto simp: conn_on_read_packet_def c port Some accepted Let_def)
      next
        case other: False
        then show ?thesis
          using False fw by (simp add: conn_on_read_packet_def c port Some accepted Let_def)
      qed
    qed
  qed (use fw in \<open>simp_all add: conn_on_read_packet_def c port Some Let_def\<close>)
qed

definition spawn :: "nat \<Rightarrow> UDPPort \<Rightarrow> Candidate \<Rightarrow> IceTransportChannel \<Rightarrow> IceTransportChannel" where
  "spawn i port remote w = ch_add_connection (next_ptr w)
     (w\<lparr>heap := (heap w)(next_ptr w \<mapsto> new_IceConnection i remote), next_ptr := next_ptr w + 1,
        ports := (ports w)[i := create_connection (next_ptr w) remote port]\<rparr>)"

lemma spawn_inv:
  assumes inv: "chan_inv w" and port: "port_of w i = Some port" and sock: "port_async_socket port"
  shows "chan_inv (spawn i port remote w)"
proof -
  let ?p = "next_ptr w" and ?w = "spawn i port remote w"
  have i: "i < length (ports w)" "ports w ! i = port"
    using port by (simp_all add: port_of_def split: if_splits)
  have fresh: "?p \<notin> dom (heap w)"
    using chan_inv_conn(1) [OF inv] by blast
  have cand: "port_candidates port \<noteq> []"
    using inv sock i unfolding chan_inv_def by (metis nth_mem)
  have h: "heap ?w = (heap w)(?p \<mapsto> new_IceConnection i remote)"
    and ctl: "ice_controller ?w = add_connection ?p (ice_controller w)"
    and prt: "ports ?w = (ports w)[i := create_connection ?p remote port]"
    and rest: "next_ptr ?w = ?p + 1" "selected_connection ?w = selected_connection w"
      "had_connection ?w" "ch_writable ?w = ch_writable w" "has_been_connection ?w = has_been_connection w"
    by (simp_all add: spawn_def ch_add_connection_def)
  have lc: "local_candidate ?w j = local_candidate w j" for j
    using i by (auto simp: local_candidate_def prt nth_list_update create_connection_def)
  have dom': "dom (heap ?w) = insert ?p (dom (heap w))" by (simp add: h)
  have "q < next_ptr ?w \<and> local_candidate ?w (conn_port x) \<noteq> None
      \<and> (conn_selected x \<longleftrightarrow> selected_connection ?w = Some q)" if "heap ?w q = Some x" for q x
  proof (cases "q = ?p")
    case True
    have "local_candidate w i \<noteq> None"
      using i cand by (simp add: local_candidate_def split: list.split)
    moreover have "selected_connection w \<noteq> Some ?p"
      using chan_inv_parts(5) [OF inv] fresh by blast
    ultimately show ?thesis
      using that True by (auto simp: h lc rest new_IceConnection_def)
  next
    case False
    then show ?thesis using that chan_inv_conn [OF inv, of q x] by (auto simp: h lc rest)
  qed
  moreover have "ctl_inv (ice_controller ?w)"
    unfolding ctl using fresh chan_inv_parts(1,2) [OF inv] by (intro ctl_inv_add_connection) auto
  moreover have "set (c_connections (ice_controller ?w)) = dom (heap ?w)"
    using chan_inv_parts(2) [OF inv] by (auto simp: ctl dom' add_connection_def)
  moreover have "c_selected (ice_controller ?w) = selected_connection ?w"
    using chan_inv_parts(3) [OF inv] by (simp add: ctl rest add_connection_def)
  moreover have "set_option (selected_connection ?w) \<subseteq> dom (heap ?w)"
    using inv unfolding chan_inv_def dom' rest by blast
  moreover have "ran (port_connections x) \<subseteq> dom (heap ?w) \<and> (port_async_socket x \<longrightarrow> port_candidates x \<noteq> [])"
    if x: "x \<in> set (ports ?w)" for x
  proof -
    have old: "ran (port_connections y) \<subseteq> dom (heap w) \<and> (port_async_socket y \<longrightarrow> port_candidates y \<noteq> [])"
      if "y \<in> set (ports w)" for y using inv that unfolding chan_inv_def by blast
    have "x = create_connection ?p remote port \<or> x \<in> set (ports w)"
      using x set_update_subset_insert [of "ports w" i] unfolding prt by blast
    then show ?thesis
    proof
      assume x: "x = create_connection ?p remote port"
      have "ran (port_connections x) \<subseteq> insert ?p (ran (port_connections port))"
        by (auto simp: x create_connection_def ran_def)
      moreover have "port \<in> set (ports w)" using i by auto
      ultimately have "ran (port_connections x) \<subseteq> dom (heap ?w)" using old dom' by blast
      then show ?thesis using cand by (simp add: x create_connection_def)
    next
      assume "x \<in> set (ports w)"
      then show ?thesis using old dom' by blast
    qed
  qed
  ultimately show ?thesis
    using rest chan_inv_parts(4,8) [OF inv] unfolding chan_inv_def by blast
qed

lemma on_unknown_address_fine:
  assumes fw: "fine w" and port: "port_of w i = Some port" and sock: "port_async_socket port"
  shows "safely fine (on_unknown_address sha1 now i addr m u w)"
proof (cases "get_uint32 m STUN_ATTR_PRIORITY")
  case None
  then show ?thesis using fw port by (simp add: on_unknown_address_def)
next
  case (Some a)
  define remote where "remote = \<lparr>cand_component = ch_component w, cand_protocol = bytes_of ''udp'',
             cand_address = addr, cand_port = 0, cand_priority = bits32 a,
             cand_username = u, cand_password = ice_pwd (remote_ice_params w),
             cand_type = PRFLX_PORT_TYPE, cand_foundation = []\<rparr>"
  define w1 where "w1 = spawn i port remote w"
  have inv1: "chan_inv w1" unfolding w1_def using fw port sock by (intro spawn_inv) simp_all
  have c1: "heap w1 (next_ptr w) = Some (new_IceConnection i remote)"
    by (simp add: w1_def spawn_def ch_add_connection_def)
  obtain pkt ad where h: "handle_stun_binding_request sha1 m (next_ptr w) w1 = Some (send_opt i pkt ad w1)"
    using chan_inv_conn(4) [OF inv1 c1]
    by (auto simp: handle_stun_binding_request_def c1 port_of_def Let_def new_IceConnection_def)
  have eq: "on_unknown_address sha1 now i addr m u w
      = sort_connections_and_update_state now (send_opt i pkt ad w1)"
    using h by (simp add: on_unknown_address_def port Some Let_def w1_def spawn_def remote_def)
  have "chan_inv (send_opt i pkt ad w1)"
    using chan_inv_parts(4,8) [OF inv1] by (intro chan_inv_cong [OF inv1]) auto
  then show ?thesis
    unfolding eq by (intro safely_mono [OF sort_connections_good]) auto
qed

lemma port_on_read_packet_fine:
  assumes fw: "fine w" and port: "port_of w i = Some port" and sock: "port_async_socket port"
    and safe: "\<And>c. (case get_connection port addr of None \<Rightarrow> c = None | Some p \<Rightarrow> c = heap w p) \<Longrightarrow>
      packet_safe sha1 (case c of None \<Rightarrow> port | Some x \<Rightarrow> ports w ! conn_port x) c buf"
  shows "safely fine (port_on_read_packet sha1 now i buf addr ts w)"
proof (cases "get_connection port addr")
  case None
  then have "packet_safe sha1 port None buf" using safe [of None] by simp
  then show ?thesis
    using fw port sock None on_unknown_address_fine [OF fw port sock]
    by (auto simp: port_on_read_packet_def packet_safe_def split: option.splits stun_input.splits)
next
  case (Some p)
  have "port \<in> set (ports w)" using port by (auto simp: port_of_def split: if_splits)
  then have "ran (port_connections port) \<subseteq> dom (heap w)" using fw unfolding chan_inv_def by blast
  then have "p \<in> dom (heap w)" using Some by (auto simp: get_connection_def ran_def)
  then obtain c where c: "heap w p = Some c" by blast
  have "port_of w (conn_port c) = Some (ports w ! conn_port c)"
    using chan_inv_conn(4) [OF _ c] fw by (simp add: port_of_def)
  then show ?thesis
    using conn_on_read_packet_fine [OF fw c] safe [of "heap w p"] Some c port
    by (simp add: port_on_read_packet_def)
qed

lemma update_connection_states_fine:
  "fine w \<Longrightarrow> set ps \<subseteq> dom (heap w) \<Longrightarrow>
   safely (\<lambda>w'. fine w' \<and> dom (heap w') = dom (heap w)) (update_connection_states now ps w)"
proof (induction ps arbitrary: w)
  case (Cons p ps)
  have "p \<in> dom (heap w)" using Cons.prems by simp
  then have g: "safely (good w) (conn_update_state now p w)"
    using conn_update_state_good Cons.prems(1) by blast
  show ?case
    unfolding update_connection_states.simps
  proof (rule safely_bind [OF g])
    fix w' assume "good w w'"
    then have "fine w'" "dom (heap w') = dom (heap w)" by (simp_all add: frame_dom)
    then show "safely (\<lambda>w'. fine w' \<and> dom (heap w') = dom (heap w)) (update_connection_states now ps w')"
      using Cons.IH [of w'] Cons.prems(2) by simp
  qed
qed simp

lemma need_ping_more_live:
  "(\<And>p. p \<in> set ps \<Longrightarrow> h p \<noteq> None) \<Longrightarrow> \<exists>b. need_ping_more_at_weak h ps = Some b"
  by (induction ps) fastforce+

lemma select_connection_live:
  assumes inv: "chan_inv w"
  shows "\<exists>ctl r. select_connection_to_ping (heap w) now last_ms (ice_controller w) = Some (ctl, r)
    \<and> ctl_inv ctl \<and> c_connections ctl = c_connections (ice_controller w)
    \<and> c_selected ctl = c_selected (ice_controller w)
    \<and> (\<forall>p. pr_conn r = Some p \<longrightarrow> p \<in> dom (heap w))"
proof -
  note parts = chan_inv_parts [OF inv]
  have live: "list_all (\<lambda>p. heap w p \<noteq> None) (c_connections (ice_controller w))"
    using parts(2) by (auto simp: list_all_iff)
  obtain more where more: "need_ping_more_at_weak (heap w) (c_connections (ice_controller w)) = Some more"
    using need_ping_more_live [of "c_connections (ice_controller w)" "heap w"] parts(2) by auto
  obtain weak where weak: "ctl_weak (heap w) (ice_controller w) = Some weak"
    using ctl_weak_live [OF parts(6)] by blast
  obtain ctl r where next_conn: "find_next_pingable_connection (heap w) now (ice_controller w) = Some (ctl, r)"
    and ctl: "ctl_inv ctl" "c_connections ctl = c_connections (ice_controller w)"
      "c_selected ctl = c_selected (ice_controller w)"
    and r: "selected_urgent (heap w) now (ice_controller w) \<longrightarrow> r = c_selected (ice_controller w)"
      "\<not> selected_urgent (heap w) now (ice_controller w) \<longrightarrow> (\<forall>p. r = Some p \<longrightarrow> p \<in> set (c_unpinged ctl))"
    using find_next_spec [OF parts(1,6) live, of now] by blast
  have "p \<in> dom (heap w)" if "r = Some p" for p
  proof (cases "selected_urgent (heap w) now (ice_controller w)")
    case True
    then show ?thesis using r(1) that parts(3,5) by auto
  next
    case False
    then have "p \<in> set (c_connections ctl)" using r(2) that ctl(1) by (auto simp: ctl_inv_def)
    then show ?thesis using ctl(2) parts(2) by simp
  qed
  then show ?thesis
    using more weak next_conn ctl parts(1) by (simp add: select_connection_to_ping_def Let_def)
qed

lemma fine_set_controller:
  assumes "fine w" "ctl_inv ctl" "set (c_connections ctl) = set (c_connections (ice_controller w))"
    "c_selected ctl = c_selected (ice_controller w)"
  shows "fine (w\<lparr>ice_controller := ctl\<rparr>)"
proof
  have lc: "local_candidate (w\<lparr>ice_controller := ctl\<rparr>) = local_candidate w"
    by (simp add: fun_eq_iff local_candidate_def)
  have nil: "c_connections ctl = [] \<longleftrightarrow> c_connections (ice_controller w) = []"
    using assms(3) by (metis set_empty)
  show "chan_inv (w\<lparr>ice_controller := ctl\<rparr>)"
    using assms nil unfolding chan_inv_def lc by simp
  show "state_ok (w\<lparr>ice_controller := ctl\<rparr>)"
    using assms(1) by (simp add: state_ok_def sel_writable_def conns_receiving_def conns_active_def)
qed

lemma fine_upd:
  assumes "fine w" "heap w p = Some c" "conn_port c' = conn_port c" "conn_selected c' = conn_selected c"
    "conn_write_state c' = conn_write_state c" "conn_receiving c' = conn_receiving c"
  shows "fine (w\<lparr>heap := (heap w)(p \<mapsto> c')\<rparr>)"
  using chan_inv_upd [of w p c c'] state_ok_upd [of w p c c'] assms by simp

lemma ping_keeps:
  "conn_port (fst (ping sha1 params lc now tid c)) = conn_port c"
  "conn_selected (fst (ping sha1 params lc now tid c)) = conn_selected c"
  "conn_write_state (fst (ping sha1 params lc now tid c)) = conn_write_state c"
  "conn_receiving (fst (ping sha1 params lc now tid c)) = conn_receiving c"
  by (simp_all add: ping_def mgr_send_def set_state_def Let_def)

lemma ping_connection_fine:
  assumes fw: "fine w" and p: "p \<in> dom (heap w)"
  shows "safely (\<lambda>w'. fine w' \<and> ice_controller w' = ice_controller w \<and> dom (heap w') = dom (heap w))
    (ping_connection sha1 now tid p w)"
proof -
  obtain c where c: "heap w p = Some c" using p by blast
  have port: "conn_port c < length (ports w)" using chan_inv_conn(4) [OF _ c] fw by blast
  obtain l where l: "local_candidate w (conn_port c) = Some l" using chan_inv_conn(2) [OF _ c] fw by blast
  let ?r = "ping sha1 (port_params (ports w ! conn_port c)) l now tid c"
  define w0 where "w0 = w\<lparr>last_ping_sent_ms := now\<rparr>"
  have f0: "fine w0" unfolding w0_def using fw by (rule fine_cong) simp_all
  have c0: "heap w0 p = Some c" using c by (simp add: w0_def)
  define w1 where "w1 = w0\<lparr>heap := (heap w0)(p \<mapsto> fst ?r)\<rparr>"
  have f1: "fine w1" unfolding w1_def by (rule fine_upd [OF f0 c0]) (simp_all add: ping_keeps)
  have "ping_connection sha1 now tid p w = Some (send_opt (conn_port c) (snd ?r)
      (cand_address (remote_candidate c)) w1)"
    using c port l by (simp add: ping_connection_def port_of_def local_candidate_def Let_def w1_def
        w0_def split_beta)
  then show ?thesis
    using fine_send [OF f1] c by (auto simp: w1_def w0_def)
qed

lemma on_check_and_ping_fine:
  assumes fw: "fine w"
  shows "safely fine (on_check_and_ping sha1 now tid w)"
proof -
  have "set (c_connections (ice_controller w)) \<subseteq> dom (heap w)" using chan_inv_parts(2) fw by blast
  then obtain w1 where w1: "update_connection_states now (c_connections (ice_controller w)) w = Some w1"
    "fine w1"
    using update_connection_states_fine [OF fw, of "c_connections (ice_controller w)" now]
    by (blast elim: safelyE)
  obtain ctl r where sel: "select_connection_to_ping (heap w1) now (last_ping_sent_ms w1 - PING_INTERVAL_DIFF)
      (ice_controller w1) = Some (ctl, r)"
    and ctl: "ctl_inv ctl" "c_connections ctl = c_connections (ice_controller w1)"
      "c_selected ctl = c_selected (ice_controller w1)"
    and r: "\<And>p. pr_conn r = Some p \<Longrightarrow> p \<in> dom (heap w1)"
    using select_connection_live [of w1 now "last_ping_sent_ms w1 - PING_INTERVAL_DIFF"] w1(2) by blast
  define w2 where "w2 = w1\<lparr>ice_controller := ctl\<rparr>"
  have f2: "fine w2" unfolding w2_def using ctl w1(2) by (intro fine_set_controller) simp_all
  have dom2: "set (c_connections ctl) = dom (heap w2)"
    using chan_inv_parts(2) [of w2] f2 by (simp add: w2_def)
  have "safely fine (case pr_conn r of None \<Rightarrow> Some w2
       | Some p \<Rightarrow> do {
           w \<leftarrow> ping_connection sha1 now tid p w2;
           Some (w\<lparr>ice_controller := mark_connection_pinged (Some p) (ice_controller w)\<rparr>)
         })"
  proof (cases "pr_conn r")
    case None
    then show ?thesis using f2 by simp
  next
    case (Some p)
    have p: "p \<in> dom (heap w2)" using r [OF Some] by (simp add: w2_def)
    have "fine (w'\<lparr>ice_controller := mark_connection_pinged (Some p) ctl\<rparr>)"
      if w': "fine w'" "ice_controller w' = ctl" for w'
      using w' ctl(1) p dom2
      by (intro fine_set_controller ctl_inv_mark_pinged) (auto simp: mark_connection_pinged_def)
    then show ?thesis
      using Some safely_bind [OF ping_connection_fine [OF f2 p], of fine] by (auto simp: w2_def)
  qed
  then obtain w3 where w3: "(case pr_conn r of None \<Rightarrow> Some w2
       | Some p \<Rightarrow> do {
           w \<leftarrow> ping_connection sha1 now tid p w2;
           Some (w\<lparr>ice_controller := mark_connection_pinged (Some p) (ice_controller w)\<rparr>)
         }) = Some w3" "fine w3" by (rule safelyE)
  have "fine (w3\<lparr>cur_ping_interval := a, ping_watcher := b\<rparr>)" for a b
    using w3(2) by (rule fine_cong) simp_all
  then show ?thesis
    using w1(1) sel w3 by (simp add: on_check_and_ping_def flip: w2_def)
qed

lemma upd_conns_fine:
  "fine w \<Longrightarrow> set ps \<subseteq> dom (heap w) \<Longrightarrow> quiet f \<Longrightarrow> safely fine (upd_conns f ps w)"
proof (induction ps arbitrary: w)
  case (Cons p ps)
  have "p \<in> dom (heap w)" using Cons.prems by simp
  then have "safely (\<lambda>w'. fine w' \<and> dom (heap w') = dom (heap w)) (upd_conn p f w)"
    using upd_conn_good [of w p f] Cons.prems by (auto intro: safely_mono)
  then show ?case using Cons.IH Cons.prems by (auto intro: safely_bind)
qed simp

lemma set_remote_ice_params_fine:
  assumes fw: "fine w"
  shows "safely fine (ch_set_remote_ice_params now params w)"
proof -
  let ?w = "w\<lparr>remote_ice_params := params\<rparr>"
  have f1: "fine ?w" using fw by (rule fine_cong) simp_all
  have "set (c_connections (ice_controller ?w)) \<subseteq> dom (heap ?w)" using chan_inv_parts(2) f1 by blast
  then have "safely fine (upd_conns (maybe_set_remote_ice_params params) (c_connections (ice_controller ?w)) ?w)"
    using f1 by (intro upd_conns_fine) simp_all
  then show ?thesis
    unfolding ch_set_remote_ice_params_def Let_def
    by (rule safely_bind) (rule safely_mono [OF sort_connections_good], simp_all)
qed

section \<open>Which packets are undefined behaviour\<close>

lemma fail_and_destroy_gone: "fail_and_destroy now p w = Some w' \<Longrightarrow> heap w' p = None"
  by (auto simp: fail_and_destroy_def destroy_def bind_eq_Some_conv)

lemma get_error_code_value_cong: "attrs m' = attrs m \<Longrightarrow> get_error_code_value m' = get_error_code_value m"
  by (simp add: get_error_code_value_def get_error_code_def get_attribute_def)

lemma error_response_fails:
  assumes "heap w p = Some c" "classify_response m (conn_requests c) = error_response rq"
    and "get_error_code_value m = 600"
  shows "check_response now m p w = None"
proof (cases "fail_and_destroy now p w")
  case None
  then show ?thesis
    using assms by (simp add: check_response_def on_connection_request_error_response_def stun_error_defs)
next
  case (Some w')
  then show ?thesis
    using assms fail_and_destroy_gone [OF Some]
    by (simp add: check_response_def on_connection_request_error_response_def stun_error_defs
        delete_request_def)
qed

lemma unsafe_packet_fails:
  assumes c: "heap w p = Some c" and port: "port_of w (conn_port c) = Some port"
    and unsafe: "\<not> packet_safe sha1 port (Some c) buf"
  shows "conn_on_read_packet sha1 now buf ts p w = None"
proof (cases "get_stun_message sha1 port buf")
  case None
  then show ?thesis by (simp add: conn_on_read_packet_def c port Let_def)
next
  case (Some input)
  then obtain m u where acc: "get_stun_message sha1 port buf = Some (accepted m u)"
    and ty: "msg_type m = STUN_BINDING_RESPONSE \<or> msg_type m = STUN_BINDING_ERROR_RESPONSE"
    and v: "case validate_message_integrity sha1 m (cand_password (remote_candidate c)) of
        None \<Rightarrow> True | Some m' \<Rightarrow> integrity_ok m' \<and> (\<exists>rq. classify_response m' (conn_requests c) = error_response rq)"
    using unsafe by (auto simp: packet_safe_def split: stun_input.splits option.splits)
  have nr: "msg_type m \<noteq> STUN_BINDING_REQUEST" using ty by (auto simp: stun_msg_type_defs)
  obtain r where rd: "msg_read new_StunMessage (Construct buf) = Some (m, r)"
  proof -
    obtain m0 r where m0: "msg_read new_StunMessage (Construct buf) = Some (m0, r)"
      and alt: "m = m0 \<or> validate_message_integrity sha1 m0 (ice_pwd (port_params port)) = Some m
        \<and> msg_type m0 = STUN_BINDING_REQUEST"
      using get_stun_message_acceptedD [OF acc] by blast
    have "m = m0" using alt nr validate_message_integrity_frame by metis
    with m0 that show thesis by blast
  qed
  show ?thesis
  proof (cases "validate_message_integrity sha1 m (cand_password (remote_candidate c))")
    case None
    then show ?thesis using ty nr by (simp add: conn_on_read_packet_def c port acc Let_def)
  next
    case m': (Some m')
    have "get_error_code_value m' = 600"
      using get_error_code_value_cong [of m' m] validate_message_integrity_frame [OF m']
        parsed_error_code [OF rd] by simp
    then show ?thesis
      using v m' ty nr error_response_fails [OF c, of m'] 
      by (auto simp: conn_on_read_packet_def c port acc Let_def)
  qed
qed

definition addressed_conn :: "IceTransportChannel \<Rightarrow> UDPPort \<Rightarrow> SocketAddress \<Rightarrow> IceConnection option" where
  "addressed_conn w port addr = (case get_connection port addr of None \<Rightarrow> None | Some p \<Rightarrow> heap w p)"

definition addressed_port :: "IceTransportChannel \<Rightarrow> UDPPort \<Rightarrow> SocketAddress \<Rightarrow> UDPPort" where
  "addressed_port w port addr = (case addressed_conn w port addr of None \<Rightarrow> port
     | Some c \<Rightarrow> ports w ! conn_port c)"

lemma port_on_read_packet_iff:
  assumes fw: "fine w" and port: "port_of w i = Some port" and sock: "port_async_socket port"
  shows "port_on_read_packet sha1 now i buf addr ts w = None \<longleftrightarrow>
    \<not> packet_safe sha1 (addressed_port w port addr) (addressed_conn w port addr) buf"
proof
  assume none: "port_on_read_packet sha1 now i buf addr ts w = None"
  show "\<not> packet_safe sha1 (addressed_port w port addr) (addressed_conn w port addr) buf"
  proof
    assume "packet_safe sha1 (addressed_port w port addr) (addressed_conn w port addr) buf"
    then have "safely fine (port_on_read_packet sha1 now i buf addr ts w)"
      by (intro port_on_read_packet_fine [OF fw port sock])
        (auto simp: addressed_conn_def addressed_port_def split: option.splits)
    with none show False by simp
  qed
next
  assume unsafe: "\<not> packet_safe sha1 (addressed_port w port addr) (addressed_conn w port addr) buf"
  show "port_on_read_packet sha1 now i buf addr ts w = None"
  proof (cases "get_connection port addr")
    case None
    then show ?thesis
      using unsafe port by (auto simp: port_on_read_packet_def addressed_conn_def addressed_port_def
          packet_safe_def split: option.splits stun_input.splits)
  next
    case (Some p)
    show ?thesis
    proof (cases "heap w p")
      case None
      then show ?thesis using Some port by (simp add: port_on_read_packet_def conn_on_read_packet_def)
    next
      case c: (Some c)
      have "port_of w (conn_port c) = Some (ports w ! conn_port c)"
        using chan_inv_conn(4) [OF _ c] fw by (simp add: port_of_def)
      then show ?thesis
        using Some c port unsafe unsafe_packet_fails [OF c]
        by (simp add: port_on_read_packet_def addressed_conn_def addressed_port_def)
    qed
  qed
qed

section \<open>Runs of a channel\<close>

lemma fine_new: "fine (new_IceTransportChannel name component)"
  by (simp add: new_IceTransportChannel_def chan_inv_def state_ok_def sel_writable_def
      conns_receiving_def conns_active_def ice_state_of_def new_IceController_def ctl_inv_def)

lemma new_port_fields:
  assumes "create_ice_candidate ntop n b (new_UDPPort name component params) = (c, port)"
  shows "port_connections port = Map.empty" "port_async_socket port \<longrightarrow> port_candidates port \<noteq> []"
  using assms by (auto simp: create_ice_candidate_def new_UDPPort_def Let_def split: option.splits)

lemma fine_add_port:
  assumes fw: "fine w" and port: "port_connections port = Map.empty"
    "port_async_socket port \<longrightarrow> port_candidates port \<noteq> []"
  shows "fine (w\<lparr>ports := ports w @ [port]\<rparr>)"
proof
  let ?w = "w\<lparr>ports := ports w @ [port]\<rparr>"
  have "local_candidate ?w i = local_candidate w i" if "local_candidate w i \<noteq> None" for i
    using that by (simp add: local_candidate_def nth_append split: if_splits)
  then have "q < next_ptr ?w \<and> local_candidate ?w (conn_port x) \<noteq> None
      \<and> (conn_selected x \<longleftrightarrow> selected_connection ?w = Some q)" if "heap ?w q = Some x" for q x
    using that chan_inv_conn(1-3) [of w q x] fw by auto
  moreover have "ran (port_connections y) \<subseteq> dom (heap ?w) \<and> (port_async_socket y \<longrightarrow> port_candidates y \<noteq> [])"
    if "y \<in> set (ports ?w)" for y
  proof -
    have "y = port \<or> y \<in> set (ports w)" using that by auto
    then show ?thesis using fw port unfolding chan_inv_def by auto
  qed
  moreover have "ctl_inv (ice_controller ?w)" "set (c_connections (ice_controller ?w)) = dom (heap ?w)"
    "c_selected (ice_controller ?w) = selected_connection ?w"
    "set_option (selected_connection ?w) \<subseteq> dom (heap ?w)"
    "c_connections (ice_controller ?w) \<noteq> [] \<longrightarrow> had_connection ?w"
    "flags_ok ?w"
    using fw unfolding chan_inv_def by simp_all
  ultimately show "chan_inv ?w" unfolding chan_inv_def by blast
  show "state_ok ?w"
    using fw by (simp add: state_ok_def sel_writable_def conns_receiving_def conns_active_def)
qed

lemma gather_ports_fine: "fine w \<Longrightarrow> fine (gather_ports ntop bound ns w)"
proof (induction ns arbitrary: w)
  case (Cons n ns)
  obtain c port where cp: "create_ice_candidate ntop n (bound n)
      (new_UDPPort (transport_name w) (ch_component w) (ice_params w)) = (c, port)" by fastforce
  have f1: "fine (w\<lparr>ports := ports w @ [port]\<rparr>)"
    using new_port_fields [OF cp] by (intro fine_add_port [OF Cons.prems])
  moreover have "fine (w\<lparr>ports := ports w @ [port], local_candidates := l\<rparr>)" for l
    using f1 by (rule fine_cong) simp_all
  ultimately show ?case
    using Cons.IH cp by (simp add: Let_def split: option.split)
qed simp

lemma gathering_candidate_fine: "fine w \<Longrightarrow> fine (ch_gathering_candidate ntop bound pa w)"
  using gather_ports_fine fine_emit by (simp add: ch_gathering_candidate_def Let_def)

text \<open>
  The events of a channel: a datagram on one of its sockets, a tick of the ping timer, and the
  calls of its agent and of the DTLS transport above it.
\<close>

datatype chan_input =
    in_packet int nat bytes SocketAddress int
  | in_timer int bytes
  | in_set_ice_params IceParameters
  | in_set_remote_ice_params int IceParameters
  | in_gathering_candidate "Network \<Rightarrow> int option" PortAllocator
  | in_send_packet int bytes

fun chan_run :: "(bytes \<Rightarrow> bytes) \<Rightarrow> (IPAddress \<Rightarrow> bytes) \<Rightarrow> chan_input \<Rightarrow> IceTransportChannel
    \<Rightarrow> IceTransportChannel option" where
  "chan_run sha1 ntop (in_packet now i buf addr ts) w = port_on_read_packet sha1 now i buf addr ts w"
| "chan_run sha1 ntop (in_timer now tid) w = on_check_and_ping sha1 now tid w"
| "chan_run sha1 ntop (in_set_ice_params params) w = Some (ch_set_ice_params params w)"
| "chan_run sha1 ntop (in_set_remote_ice_params now params) w = ch_set_remote_ice_params now params w"
| "chan_run sha1 ntop (in_gathering_candidate bound pa) w = Some (ch_gathering_candidate ntop bound pa w)"
| "chan_run sha1 ntop (in_send_packet sent data) w = map_option snd (ch_send_packet sent data w)"

text \<open>A datagram can only arrive on a port whose socket was created.\<close>

fun enabled :: "chan_input \<Rightarrow> IceTransportChannel \<Rightarrow> bool" where
  "enabled (in_packet now i buf addr ts) w \<longleftrightarrow> i < length (ports w) \<and> port_async_socket (ports w ! i)"
| "enabled _ w \<longleftrightarrow> True"

fun input_safe :: "(bytes \<Rightarrow> bytes) \<Rightarrow> chan_input \<Rightarrow> IceTransportChannel \<Rightarrow> bool" where
  "input_safe sha1 (in_packet now i buf addr ts) w \<longleftrightarrow>
     packet_safe sha1 (addressed_port w (ports w ! i) addr) (addressed_conn w (ports w ! i) addr) buf"
| "input_safe sha1 _ w \<longleftrightarrow> True"

inductive chan_reach :: "(bytes \<Rightarrow> bytes) \<Rightarrow> (IPAddress \<Rightarrow> bytes) \<Rightarrow> IceTransportChannel \<Rightarrow> bool"
  for sha1 ntop where
  init: "chan_reach sha1 ntop (new_IceTransportChannel name component)"
| step: "chan_reach sha1 ntop w \<Longrightarrow> enabled ev w \<Longrightarrow> chan_run sha1 ntop ev w = Some w' \<Longrightarrow>
    chan_reach sha1 ntop w'"

inductive_cases chan_reachE: "chan_reach sha1 ntop w"

lemma send_packet_fine: "fine w \<Longrightarrow> safely (\<lambda>(r, w'). fine w') (ch_send_packet sent data w)"
proof (cases "selected_connection w")
  case (Some p)
  assume fw: "fine w"
  obtain c where c: "heap w p = Some c" using chan_inv_parts(5) [OF _ Some] fw by blast
  have "conn_port c < length (ports w)" using chan_inv_conn(4) [OF _ c] fw by blast
  moreover have "fine (send_to i data a w)" for i a
    using fine_send [OF fw, of i "Some data" a] by (simp add: send_opt_def)
  ultimately show ?thesis using fw by (simp add: ch_send_packet_def Some c port_of_def)
qed (simp add: ch_send_packet_def)

lemma chan_run_spec:
  assumes fw: "fine w" and en: "enabled ev w"
  shows "if input_safe sha1 ev w then safely fine (chan_run sha1 ntop ev w)
         else chan_run sha1 ntop ev w = None"
proof (cases ev)
  case (in_packet now i buf addr ts)
  let ?port = "ports w ! i"
  have port: "port_of w i = Some ?port" "port_async_socket ?port"
    using en in_packet by (simp_all add: port_of_def)
  show ?thesis
    using port_on_read_packet_iff [OF fw port, of sha1 now buf addr ts]
      port_on_read_packet_fine [OF fw port, of addr sha1 buf now ts] in_packet
    by (auto simp: addressed_conn_def addressed_port_def split: option.splits)
next
  case (in_set_ice_params params)
  have "fine (w\<lparr>ice_params := params\<rparr>)" using fw by (rule fine_cong) simp_all
  then show ?thesis by (simp add: in_set_ice_params ch_set_ice_params_def)
next
  case (in_send_packet sent data)
  then show ?thesis
    using send_packet_fine [OF fw, of sent data] by (auto elim: safelyE)
qed (use fw on_check_and_ping_fine set_remote_ice_params_fine gathering_candidate_fine in simp_all)

lemma chan_reach_fine: "chan_reach sha1 ntop w \<Longrightarrow> fine w"
proof (induction rule: chan_reach.induct)
  case (init name component)
  then show ?case by (rule fine_new)
next
  case (step w ev w')
  have "if input_safe sha1 ev w then safely fine (chan_run sha1 ntop ev w)
      else chan_run sha1 ntop ev w = None"
    using step by (intro chan_run_spec) simp_all
  with step show ?case by (simp split: if_splits)
qed

section \<open>Properties of a channel\<close>

text \<open>
  C21. In every reachable state of a channel the object graph is sound: the controller's list
  holds exactly the live connections, each once and each in exactly one of the two ping rounds; the
  channel and its controller agree on the selected connection, which is live and the only one
  marked selected; and every connection that a port finds by remote address is live.
\<close>

theorem channel_graph_invariant:
  assumes "chan_reach sha1 ntop w"
  shows "set (c_connections (ice_controller w)) = dom (heap w) \<and> distinct (c_connections (ice_controller w))
    \<and> set (c_unpinged (ice_controller w)) \<union> set (c_pinged (ice_controller w)) = dom (heap w)
    \<and> set (c_unpinged (ice_controller w)) \<inter> set (c_pinged (ice_controller w)) = {}
    \<and> c_selected (ice_controller w) = selected_connection w
    \<and> (\<forall>p c. heap w p = Some c \<longrightarrow> (conn_selected c \<longleftrightarrow> selected_connection w = Some p))
    \<and> (\<forall>p. selected_connection w = Some p \<longrightarrow> p \<in> dom (heap w))
    \<and> (\<forall>port \<in> set (ports w). \<forall>addr p. get_connection port addr = Some p \<longrightarrow> p \<in> dom (heap w))"
proof -
  have inv: "chan_inv w" using chan_reach_fine [OF assms] by blast
  have "p \<in> dom (heap w)" if "port \<in> set (ports w)" "get_connection port addr = Some p" for port addr p
    using inv that unfolding chan_inv_def get_connection_def ran_def by blast
  with chan_inv_parts [OF inv] chan_inv_conn(3) [OF inv] show ?thesis
    by (auto simp: ctl_inv_def)
qed

text \<open>
  C27. The reported state of a channel is determined by its connections after every event: it is
  connected exactly when the selected connection is writable, failed exactly when there was a
  connection and all have timed out, new exactly when there never was one; the states completed
  and closed of the enumeration are never reported.
\<close>

theorem channel_state_meaning:
  assumes "chan_reach sha1 ntop w"
  shows "(ch_state w = k_connected \<longleftrightarrow> sel_writable w)
    \<and> (ch_state w = k_failed \<longleftrightarrow> had_connection w \<and> \<not> conns_active w)
    \<and> (ch_state w = k_new \<longleftrightarrow> \<not> had_connection w)
    \<and> (ch_state w = k_disconnected \<longleftrightarrow> conns_active w \<and> has_been_connection w \<and> \<not> sel_writable w)
    \<and> (ch_state w = k_checking \<longleftrightarrow> conns_active w \<and> \<not> has_been_connection w \<and> \<not> sel_writable w)
    \<and> ch_writable w = sel_writable w \<and> ch_receiving w = conns_receiving w"
proof -
  have inv: "chan_inv w" and st: "state_ok w" using chan_reach_fine [OF assms] by blast+
  have "sel_writable w \<Longrightarrow> conns_active w"
    unfolding sel_writable_def conns_active_def conn_writable_def conn_active_def
    by (metis WriteState.distinct(5))
  moreover have had: "conns_active w \<Longrightarrow> had_connection w"
    using inv unfolding chan_inv_def conns_active_def by (metis domI empty_iff set_empty)
  moreover have "sel_writable w \<Longrightarrow> has_been_connection w"
    using chan_inv_parts(4) [OF inv] st by (simp add: state_ok_def)
  moreover have "has_been_connection w \<Longrightarrow> had_connection w" by (rule chan_inv_parts(8) [OF inv])
  ultimately show ?thesis
    using st unfolding state_ok_def ice_state_of_def
    by (cases "had_connection w"; cases "has_been_connection w"; cases "conns_active w"; cases "sel_writable w")
      simp_all
qed

text \<open>
  C5. In a reachable state an event is undefined behaviour exactly when it is an unsafe datagram:
  one whose integrity attribute is cut off, or an authentic error response to an outstanding
  request of the connection it is addressed to.  Every other event, the timer and all calls
  included, runs to completion without following a dangling pointer.
\<close>

theorem channel_fails_iff:
  assumes "chan_reach sha1 ntop w" and "enabled ev w"
  shows "chan_run sha1 ntop ev w = None \<longleftrightarrow> \<not> input_safe sha1 ev w"
  using chan_run_spec [OF chan_reach_fine [OF assms(1)] assms(2), of sha1 ntop]
  by (auto split: if_splits elim: safelyE)

definition error_body :: "bytes \<Rightarrow> int \<Rightarrow> bytes \<Rightarrow> StunMessage" where
  "error_body tid code reason = add_attribute
     (new_StunMessage\<lparr>msg_type := STUN_BINDING_ERROR_RESPONSE, transaction_id := tid\<rparr>)
     (set_reason (set_code create_error_code code) reason)"

text \<open>
  C31. An error response of the peer's own making, with a code for which the source means to
  keep the connection and retry, does not survive parsing: when it answers an outstanding ping and
  its integrity is right, the connection is destroyed together with its requests, and the request
  is deleted a second time afterwards.
\<close>

theorem authentic_error_response_double_free:
  assumes c: "heap w p = Some c" and port: "port_of w (conn_port c) = Some port"
    and acc: "get_stun_message sha1 port buf = Some (accepted m u)"
    and ty: "msg_type m = STUN_BINDING_ERROR_RESPONSE"
    and mi: "validate_message_integrity sha1 m (cand_password (remote_candidate c)) = Some m'" "integrity_ok m'"
    and rq: "conn_requests c (transaction_id m) = Some rq" "msg_type (rq_msg rq) = STUN_BINDING_REQUEST"
  shows "conn_on_read_packet sha1 now buf ts p w = None"
proof -
  have fr: "msg_type m' = msg_type m" "transaction_id m' = transaction_id m"
    using validate_message_integrity_frame [OF mi(1)] by simp_all
  have "classify_response m' (conn_requests c) = error_response rq"
    using rq fr ty by (simp add: classify_response_def get_stun_success_response_def
        get_stun_error_response_def is_stun_request_type_def k_stun_type_mask_def stun_msg_type_defs)
  then have "\<not> packet_safe sha1 port (Some c) buf"
    using mi ty by (simp add: packet_safe_def acc)
  then show ?thesis by (rule unsafe_packet_fails [OF c port])
qed

lemma destroy_last_connection:
  assumes inv: "chan_inv w" and conns: "c_connections (ice_controller w) = [p]"
    and sel: "selected_connection w = Some p"
  shows "\<exists>w'. destroy now p w = Some w' \<and> c_connections (ice_controller w') = []
    \<and> c_selected (ice_controller w') = Some p \<and> heap w' p = None
    \<and> ports w' = ports w"
proof -
  obtain c where c: "heap w p = Some c" using chan_inv_parts(5) [OF inv sel] by blast
  have ctl: "c_selected (ice_controller w) = Some p" using chan_inv_parts(3) [OF inv] sel by simp
  define w1 where "w1 = w\<lparr>ice_controller := ctl_on_connection_destroyed p (ice_controller w),
    selected_connection := None, heap := (heap w)(p \<mapsto> set_selected False c)\<rparr>"
  have c1: "c_connections (ice_controller w1) = []" "c_selected (ice_controller w1) = Some p"
    "ports w1 = ports w"
    using conns ctl by (simp_all add: w1_def ctl_on_connection_destroyed_def)
  have "on_connection_destroyed now p w = sort_connections_and_update_state now w1"
    using sel c by (simp add: on_connection_destroyed_def switch_selected_connection_def upd_conn_def
        w1_def Let_def)
  moreover have "\<exists>w2. sort_connections_and_update_state now w1 = Some w2
      \<and> ice_controller w2 = ice_controller w1 \<and> ports w2 = ports w1"
    using c1 by (auto simp: sort_connections_and_update_state_def sort_and_switch_connection_def
        choose_connection_def maybe_switch_selected_connection_def update_state_def
        compute_ice_transport_state_def maybe_start_pinging_def has_pingable_connection_def
        set_writable_def set_receiving_def emit_def Let_def w1_def)
  ultimately show ?thesis using c c1 by (auto simp: destroy_def)
qed

text \<open>
  Destroying the only connection of a channel leaves two dangling pointers behind: the
  controller still has it as the selected connection, so the next tick of the ping timer follows
  the pointer, and the port still finds it by its remote address, so the next datagram from there
  does too.
\<close>

theorem destroyed_connection_dangles:
  assumes "chan_inv w" and "c_connections (ice_controller w) = [p]" and "selected_connection w = Some p"
  shows "\<exists>w'. destroy now p w = Some w'
    \<and> on_check_and_ping sha1 now' tid w' = None
    \<and> (\<forall>i port addr buf ts. port_of w i = Some port \<longrightarrow> get_connection port addr = Some p \<longrightarrow>
        port_on_read_packet sha1 now' i buf addr ts w' = None)"
proof -
  obtain w' where w': "destroy now p w = Some w'" "c_connections (ice_controller w') = []"
    "c_selected (ice_controller w') = Some p" "heap w' p = None" "ports w' = ports w"
    using destroy_last_connection [OF assms] by blast
  have "on_check_and_ping sha1 now' tid w' = None"
    using w' by (simp add: on_check_and_ping_def select_connection_to_ping_def ctl_weak_def)
  moreover have "port_on_read_packet sha1 now' i buf addr ts w' = None"
    if "port_of w i = Some port" "get_connection port addr = Some p" for i port addr buf ts
    using that w' by (simp add: port_on_read_packet_def port_of_def conn_on_read_packet_def
        split: if_splits)
  ultimately show ?thesis using w'(1) by blast
qed

text \<open>The trace of a channel is only ever extended.\<close>

lemma update_state_trace:
  assumes "update_state w = Some w'"
  shows "\<exists>es. trace w' = trace w @ es"
proof -
  have w: "\<exists>es. trace (set_writable b w) = trace w @ es" for b w by (auto simp: set_writable_def emit_def Let_def)
  have r: "\<exists>es. trace (set_receiving b w) = trace w @ es" for b w by (auto simp: set_receiving_def emit_def)
  obtain b c st where w': "w' = (let v = set_receiving c (set_writable b w)
      in if st \<noteq> ch_state v then emit (ev_ice_state_changed st) (v\<lparr>ch_state := st\<rparr>) else v)"
    using assms by (auto simp: update_state_def Let_def bind_eq_Some_conv)
  obtain es es' where "trace (set_writable b w) = trace w @ es" "trace (set_receiving c (set_writable b w)) = (trace w @ es) @ es'"
    using w r by metis
  then show ?thesis unfolding w' by (simp add: Let_def emit_def)
qed

lemma sort_connections_trace:
  assumes "sort_connections_and_update_state now w = Some w'"
  shows "\<exists>es. trace w' = trace w @ es"
proof -
  obtain ctl conn w1 w2 where s: "maybe_switch_selected_connection conn (w\<lparr>ice_controller := ctl\<rparr>) = Some w1"
    "update_state w1 = Some w2" "maybe_start_pinging now w2 = Some w'"
    using assms by (auto simp: sort_connections_and_update_state_def bind_eq_Some_conv)
  have "trace w1 = trace w"
    using s(1) by (auto simp: maybe_switch_selected_connection_def switch_selected_connection_def upd_conn_def Let_def
        bind_eq_Some_conv split: option.splits)
  moreover have "trace w' = trace w2" using s(3) by (auto simp: maybe_start_pinging_def bind_eq_Some_conv split: if_splits)
  ultimately show ?thesis using update_state_trace [OF s(2)] by simp
qed

lemma on_unknown_address_spawns:
  assumes fw: "fine w" and port: "port_of w i = Some port" and sock: "port_async_socket port"
    and a: "get_uint32 m STUN_ATTR_PRIORITY = Some a"
  shows "\<exists>w'. on_unknown_address sha1 now i addr m u w = Some w' \<and> fine w'
    \<and> dom (heap w') = insert (next_ptr w) (dom (heap w)) \<and> had_connection w'
    \<and> (\<exists>port'. port_of w' i = Some port' \<and> get_connection port' addr = Some (next_ptr w)
        \<and> (\<forall>x. x \<noteq> addr \<longrightarrow> get_connection port' x = get_connection port x))
    \<and> (\<forall>bs. send_stun_binding_response sha1 (ice_pwd (port_params port)) addr m = Some bs \<longrightarrow>
        (\<exists>es. trace w' = trace w @ ev_send_to i bs addr # es))"
proof -
  define remote where "remote = \<lparr>cand_component = ch_component w, cand_protocol = bytes_of ''udp'',
             cand_address = addr, cand_port = 0, cand_priority = bits32 a,
             cand_username = u, cand_password = ice_pwd (remote_ice_params w),
             cand_type = PRFLX_PORT_TYPE, cand_foundation = []\<rparr>"
  define w1 where "w1 = spawn i port remote w"
  have i: "i < length (ports w)" "ports w ! i = port"
    using port by (simp_all add: port_of_def split: if_splits)
  have inv1: "chan_inv w1" unfolding w1_def using fw port sock by (intro spawn_inv) simp_all
  have c1: "heap w1 (next_ptr w) = Some (new_IceConnection i remote)"
    by (simp add: w1_def spawn_def ch_add_connection_def)
  have p1: "port_of w1 i = Some (create_connection (next_ptr w) remote port)"
    using i by (simp add: port_of_def w1_def spawn_def ch_add_connection_def)
  define pkt where "pkt = send_stun_binding_response sha1 (ice_pwd (port_params port)) addr m"
  have h: "handle_stun_binding_request sha1 m (next_ptr w) w1 = Some (send_opt i pkt addr w1)"
    using p1 by (simp add: handle_stun_binding_request_def c1 pkt_def Let_def new_IceConnection_def remote_def create_connection_def)
  have eq: "on_unknown_address sha1 now i addr m u w
      = sort_connections_and_update_state now (send_opt i pkt addr w1)"
    using h by (simp add: on_unknown_address_def port a Let_def w1_def spawn_def remote_def)
  have "chan_inv (send_opt i pkt addr w1)"
    using chan_inv_parts(10) [OF inv1] by (intro chan_inv_cong [OF inv1]) auto
  then have "safely (good (send_opt i pkt addr w1)) (sort_connections_and_update_state now (send_opt i pkt addr w1))"
    by (rule sort_connections_good)
  then obtain w' where w': "sort_connections_and_update_state now (send_opt i pkt addr w1) = Some w'"
    "good (send_opt i pkt addr w1) w'" by (rule safelyE)
  then have fr: "dom (heap w') = dom (heap w1)" "ports w' = ports w1" "had_connection w' = had_connection w1"
    by (auto simp: frame_def)
  have "port_of w' i = Some (create_connection (next_ptr w) remote port)"
    using i fr(2) by (simp add: port_of_def w1_def spawn_def ch_add_connection_def)
  moreover have "get_connection (create_connection (next_ptr w) remote port) addr = Some (next_ptr w)"
    "\<forall>x. x \<noteq> addr \<longrightarrow> get_connection (create_connection (next_ptr w) remote port) x = get_connection port x"
    by (simp_all add: get_connection_def create_connection_def remote_def)
  moreover have "dom (heap w') = insert (next_ptr w) (dom (heap w))" "had_connection w'"
    using fr by (simp_all add: w1_def spawn_def ch_add_connection_def)
  moreover have "\<exists>es. trace w' = trace w @ ev_send_to i bs addr # es" if "pkt = Some bs" for bs
  proof -
    have "i < length (ports w1)" "port_async_socket (ports w1 ! i)"
      using i sock by (simp_all add: w1_def spawn_def ch_add_connection_def create_connection_def)
    then have "trace (send_opt i pkt addr w1) = trace w @ [ev_send_to i bs addr]"
      using that by (simp add: send_opt_def send_to_def emit_def w1_def spawn_def ch_add_connection_def)
    with sort_connections_trace [OF w'(1)] show ?thesis by auto
  qed
  ultimately show ?thesis using eq w' unfolding pkt_def by auto
qed

lemma accepted_request_shape:
  assumes "get_stun_message sha1 port data = Some (accepted m u)" "msg_type m = STUN_BINDING_REQUEST"
  shows "length (transaction_id m) = 12" "get_byte_string m STUN_ATTR_USERNAME \<noteq> None"
proof -
  obtain m0 r where fp: "validate_fingerprint data = Some True"
    and rd: "msg_read new_StunMessage (Construct data) = Some (m0, r)"
    and nm: "parse_stun_username m0 = Some (ice_ufrag (port_params port), u)"
    and mi: "validate_message_integrity sha1 m0 (ice_pwd (port_params port)) = Some m"
    using get_stun_message_acceptedD [OF assms(1)] assms(2) by blast
  note eq = validate_message_integrity_frame [OF mi]
  have "be32_of (take 4 (drop 4 data)) = k_stun_magic_cookie" "16 \<le> length data"
    using fp by (auto simp: validate_fingerprint_def stun_size_defs GetBE32_def mem_read_def Let_def bind_eq_Some_conv split: if_splits)
  moreover have four: "Suc (Suc (Suc (Suc 0))) = 4" by simp
  ultimately have "length (transaction_id m0) = 12"
    using rd by (auto simp: four msg_read_def stun_size_defs ReadString_def ReadUInt16_def ReadBytes_def Construct_def Length_def
        Let_def bind_eq_Some_conv split: if_splits)
  with eq show "length (transaction_id m) = 12" by simp
  show "get_byte_string m STUN_ATTR_USERNAME \<noteq> None"
    using nm eq by (auto simp: parse_stun_username_iff get_byte_string_def get_attribute_def)
qed

text \<open>
  C20. An authentic binding request that carries a PRIORITY and comes from an unknown IPv4 address
  creates exactly one new connection; the port finds it under that address from then on, the other
  addresses keep theirs, and the channel leaves the state new.  The request is answered: the first
  thing sent is a packet to that address that any port accepts as a binding response with the
  transaction id of the request and whose integrity check succeeds under the port's password.
\<close>

theorem authentic_request_creates_connection:
  assumes reach: "chan_reach sha1 ntop w" and en: "i < length (ports w)" "port_async_socket (ports w ! i)"
    and unknown: "get_connection (ports w ! i) addr = None" "ipaddr addr = IPv4 ip"
    and acc: "get_stun_message sha1 (ports w ! i) buf = Some (accepted m u)"
      "msg_type m = STUN_BINDING_REQUEST" "get_uint32 m STUN_ATTR_PRIORITY = Some a"
    and sha: "\<And>x. length (sha1 x) = 20"
  shows "\<exists>w' pkt m2 m3 es. port_on_read_packet sha1 now i buf addr ts w = Some w' \<and> chan_reach sha1 ntop w'
    \<and> dom (heap w') = insert (next_ptr w) (dom (heap w)) \<and> next_ptr w \<notin> dom (heap w)
    \<and> get_connection (ports w' ! i) addr = Some (next_ptr w)
    \<and> (\<forall>x. x \<noteq> addr \<longrightarrow> get_connection (ports w' ! i) x = get_connection (ports w ! i) x)
    \<and> ch_state w' \<noteq> k_new
    \<and> trace w' = trace w @ ev_send_to i pkt addr # es \<and> get_stun_message sha1 port pkt = Some (accepted m2 [])
    \<and> validate_message_integrity sha1 m2 (ice_pwd (port_params (ports w ! i))) = Some m3 \<and> integrity_ok m3
    \<and> msg_type m3 = STUN_BINDING_RESPONSE \<and> transaction_id m3 = transaction_id m"
proof -
  have fw: "fine w" by (rule chan_reach_fine [OF reach])
  have port: "port_of w i = Some (ports w ! i)" using en by (simp add: port_of_def)
  have m: "length (transaction_id m) = 12" "get_byte_string m STUN_ATTR_USERNAME \<noteq> None"
    using accepted_request_shape [OF acc(1,2)] by simp_all
  obtain pkt m2 m3 where rsp: "send_stun_binding_response sha1 (ice_pwd (port_params (ports w ! i))) addr m = Some pkt"
    "get_stun_message sha1 port pkt = Some (accepted m2 [])"
    "validate_message_integrity sha1 m2 (ice_pwd (port_params (ports w ! i))) = Some m3" "integrity_ok m3"
    "msg_type m3 = STUN_BINDING_RESPONSE" "transaction_id m3 = transaction_id m"
    using response_accepted [OF m(1) unknown(2), of sha1, OF sha m(2)] by blast
  obtain w' port' es where w': "on_unknown_address sha1 now i addr m u w = Some w'" "fine w'"
    "dom (heap w') = insert (next_ptr w) (dom (heap w))" "had_connection w'"
    and p': "port_of w' i = Some port'" "get_connection port' addr = Some (next_ptr w)"
      "\<forall>x. x \<noteq> addr \<longrightarrow> get_connection port' x = get_connection (ports w ! i) x"
    and es: "trace w' = trace w @ ev_send_to i pkt addr # es"
    using on_unknown_address_spawns [OF fw port en(2) acc(3)] rsp(1) by blast
  have run: "port_on_read_packet sha1 now i buf addr ts w = Some w'"
    using w'(1) acc unknown(1) port by (simp add: port_on_read_packet_def)
  have "chan_reach sha1 ntop w'"
    using en run by (intro chan_reach.step [OF reach, where ev = "in_packet now i buf addr ts"]) simp_all
  moreover have "ports w' ! i = port'" using p'(1) by (simp add: port_of_def split: if_splits)
  moreover have "ch_state w' \<noteq> k_new"
    using w'(2,4) by (auto simp: state_ok_def ice_state_of_def)
  moreover have "next_ptr w \<notin> dom (heap w)" using chan_inv_conn(1) [of w] fw by blast
  ultimately show ?thesis using run w'(3) p'(2,3) es rsp(2-6) by blast
qed

section \<open>Witnesses\<close>

abbreviation sample_ntop :: "IPAddress \<Rightarrow> bytes" where
  "sample_ntop \<equiv> \<lambda>_. bytes_of ''203.0.113.7''"

definition gathered_channel :: IceTransportChannel where
  "gathered_channel = ch_gathering_candidate sample_ntop (\<lambda>_. Some 5000)
     \<lparr>pa_networks = [\<lparr>net_name = ''eth0'', net_ip = IPv4 0xCB007107\<rparr>], pa_min_port = 0, pa_max_port = 0\<rparr>
     (ch_set_ice_params \<lparr>ice_ufrag = bytes_of ''peer'', ice_pwd = bytes_of ''pwd''\<rparr>
       (new_IceTransportChannel (bytes_of ''audio'') RTP))"

lemma gathered_channel_reach: "chan_reach toy_sha1 sample_ntop gathered_channel"
proof -
  let ?ps = "\<lparr>ice_ufrag = bytes_of ''peer'', ice_pwd = bytes_of ''pwd''\<rparr>"
  let ?pa = "\<lparr>pa_networks = [\<lparr>net_name = ''eth0'', net_ip = IPv4 0xCB007107\<rparr>], pa_min_port = 0, pa_max_port = 0\<rparr>"
  have "chan_reach toy_sha1 sample_ntop (ch_set_ice_params ?ps (new_IceTransportChannel (bytes_of ''audio'') RTP))"
    by (rule chan_reach.step [OF chan_reach.init, where ev = "in_set_ice_params ?ps"]) simp_all
  then show ?thesis
    unfolding gathered_channel_def
    by (rule chan_reach.step [where ev = "in_gathering_candidate (\<lambda>_. Some 5000) ?pa"]) simp_all
qed

lemma gathered_channel_ports:
  "ports gathered_channel = [sample_port (bytes_of ''peer'') (bytes_of ''pwd'')]"
  by (simp add: gathered_channel_def ch_gathering_candidate_def ch_set_ice_params_def
      new_IceTransportChannel_def bytes_of_def sample_port_def Let_def split_beta emit_def
      create_ice_candidate_def)

lemma sample_port_fields [simp]:
  "port_async_socket (sample_port u p)" "port_connections (sample_port u p) = Map.empty"
  by (simp_all add: sample_port_def create_ice_candidate_def new_UDPPort_def Let_def)

lemma sample_request_accepted:
  "\<exists>bs m a. get_stun_message toy_sha1 (sample_port (bytes_of ''peer'') (bytes_of ''pwd'')) bs
      = Some (accepted m (bytes_of ''srv'')) \<and> msg_type m = STUN_BINDING_REQUEST
    \<and> get_uint32 m STUN_ATTR_PRIORITY = Some a"
proof -
  let ?ps = "\<lparr>ice_ufrag = bytes_of ''srv'', ice_pwd = []\<rparr>"
  let ?peer = "sample_port (bytes_of ''peer'') (bytes_of ''pwd'')"
  have h: "length (replicate 12 0 :: bytes) = 12"
    "length (cand_username sample_candidate) \<le> 256" "length (ice_ufrag ?ps) \<le> 256"
    "colon \<notin> set (cand_username sample_candidate)" "colon \<notin> set (ice_ufrag ?ps)"
    by (simp_all add: sample_candidate_def bytes_of_def)
  have k: "ice_ufrag (port_params ?peer) = cand_username sample_candidate"
    "ice_pwd (port_params ?peer) = cand_password sample_candidate"
    by (simp_all add: sample_candidate_def)
  show ?thesis using request_accepted [OF h, of toy_sha1, OF length_toy_sha1 k, of sample_candidate] by auto
qed

theorem authentic_request_creates_connection_witness:
  "\<exists>w. chan_reach toy_sha1 sample_ntop w \<and> dom (heap w) = {0} \<and> ch_state w \<noteq> k_new"
proof -
  obtain bs m a where acc: "get_stun_message toy_sha1 (ports gathered_channel ! 0) bs = Some (accepted m (bytes_of ''srv''))"
    "msg_type m = STUN_BINDING_REQUEST" "get_uint32 m STUN_ATTR_PRIORITY = Some a"
    using sample_request_accepted by (auto simp: gathered_channel_ports)
  have en: "0 < length (ports gathered_channel)" "port_async_socket (ports gathered_channel ! 0)"
    "get_connection (ports gathered_channel ! 0) \<lparr>ipaddr = IPv4 1, sa_port = 9\<rparr> = None"
    by (simp_all add: gathered_channel_ports get_connection_def)
  have h: "heap gathered_channel = Map.empty" "next_ptr gathered_channel = 0"
    by (simp_all add: gathered_channel_def ch_gathering_candidate_def ch_set_ice_params_def
        new_IceTransportChannel_def Let_def split_beta emit_def create_ice_candidate_def)
  show ?thesis
    using authentic_request_creates_connection [OF gathered_channel_reach en _ acc length_toy_sha1, where ip = 1 and now = 7 and ts = 7 and port = "ports gathered_channel ! 0"] h
    by auto
qed

lemma reached_connection: "\<exists>w. chan_reach toy_sha1 sample_ntop w \<and> dom (heap w) = {0}"
proof -
  obtain bs m a where acc: "get_stun_message toy_sha1 (ports gathered_channel ! 0) bs = Some (accepted m (bytes_of ''srv''))"
    "msg_type m = STUN_BINDING_REQUEST" "get_uint32 m STUN_ATTR_PRIORITY = Some a"
    using sample_request_accepted by (auto simp: gathered_channel_ports)
  let ?addr = "\<lparr>ipaddr = IPv4 1, sa_port = 9\<rparr>"
  have port: "port_of gathered_channel 0 = Some (ports gathered_channel ! 0)"
    "port_async_socket (ports gathered_channel ! 0)" "get_connection (ports gathered_channel ! 0) ?addr = None"
    by (simp_all add: gathered_channel_ports get_connection_def port_of_def)
  have h: "heap gathered_channel = Map.empty" "next_ptr gathered_channel = 0"
    by (simp_all add: gathered_channel_def ch_gathering_candidate_def ch_set_ice_params_def
        new_IceTransportChannel_def Let_def split_beta emit_def create_ice_candidate_def)
  obtain w' where w': "on_unknown_address toy_sha1 7 0 ?addr m (bytes_of ''srv'') gathered_channel = Some w'"
    "dom (heap w') = {0}"
    using on_unknown_address_spawns [OF chan_reach_fine [OF gathered_channel_reach] port(1,2) acc(3),
        of toy_sha1 7 ?addr "bytes_of ''srv''"] h by auto
  have "port_on_read_packet toy_sha1 7 0 bs ?addr 7 gathered_channel = Some w'"
    using w'(1) acc port by (simp add: port_on_read_packet_def)
  then have "chan_reach toy_sha1 sample_ntop w'"
    using port(2) by (intro chan_reach.step [OF gathered_channel_reach, where ev = "in_packet 7 0 bs ?addr 7"])
      (simp_all add: gathered_channel_ports)
  with w'(2) show ?thesis by blast
qed

lemma singleton_list:
  assumes "set xs = {a}" "distinct xs" shows "xs = [a]"
proof (cases xs)
  case (Cons y ys)
  then have "y = a" "set ys \<subseteq> {a}" "a \<notin> set ys" using assms by auto
  then show ?thesis using Cons by (cases ys) auto
qed (use assms in simp)

theorem channel_graph_invariant_witness:
  "\<exists>w :: IceTransportChannel. dom (heap w) = {0} \<and> c_connections (ice_controller w) = [0]"
proof -
  obtain w where w: "chan_reach toy_sha1 sample_ntop w" "dom (heap w) = {0}"
    using reached_connection by blast
  have "set (c_connections (ice_controller w)) = dom (heap w)"
    by (rule channel_graph_invariant [OF w(1), THEN conjunct1])
  moreover have "distinct (c_connections (ice_controller w))"
    by (rule channel_graph_invariant [OF w(1), THEN conjunct2, THEN conjunct1])
  ultimately have "c_connections (ice_controller w) = [0]"
    unfolding w(2) by (rule singleton_list)
  with w(2) show ?thesis by (intro exI [of _ w] conjI)
qed

theorem channel_state_meaning_witness:
  "\<exists>w. dom (heap w) = {0} \<and> (ch_state w = k_connected \<longleftrightarrow> sel_writable w)"
proof -
  obtain w where w: "chan_reach toy_sha1 sample_ntop w" "dom (heap w) = {0}"
    using reached_connection by blast
  have "ch_state w = k_connected \<longleftrightarrow> sel_writable w"
    by (rule channel_state_meaning [OF w(1), THEN conjunct1])
  with w(2) show ?thesis by (intro exI [of _ w] conjI)
qed

theorem channel_fails_iff_witness:
  "\<exists>bs. chan_run toy_sha1 sample_ntop (in_packet 0 0 bs \<lparr>ipaddr = IPv4 1, sa_port = 9\<rparr> 0) gathered_channel = None
    \<and> chan_run toy_sha1 sample_ntop (in_timer 0 []) gathered_channel \<noteq> None"
proof -
  obtain bs where bs: "get_stun_message toy_sha1 (sample_port (bytes_of ''peer'') (bytes_of ''pwd'')) bs = None"
    using forged_get_stun_message [of "replicate 12 0" "sample_port (bytes_of ''peer'') (bytes_of ''pwd'')" toy_sha1]
    by (auto simp: bytes_of_def)
  let ?ev = "in_packet 0 0 bs \<lparr>ipaddr = IPv4 1, sa_port = 9\<rparr> 0"
  have "enabled ?ev gathered_channel" "\<not> input_safe toy_sha1 ?ev gathered_channel"
    using bs by (simp_all add: gathered_channel_ports packet_safe_def addressed_conn_def addressed_port_def
        get_connection_def)
  then have "chan_run toy_sha1 sample_ntop ?ev gathered_channel = None"
    using channel_fails_iff [OF gathered_channel_reach] by blast
  moreover have "chan_run toy_sha1 sample_ntop (in_timer 0 []) gathered_channel \<noteq> None"
    using channel_fails_iff [OF gathered_channel_reach, of "in_timer 0 []"] by simp
  ultimately show ?thesis by blast
qed

definition dangling_sample :: IceTransportChannel where
  "dangling_sample = gathered_channel\<lparr>
     ports := [create_connection 0 sample_candidate (sample_port (bytes_of ''peer'') (bytes_of ''pwd''))],
     ice_controller := \<lparr>c_selected = Some 0, c_connections = [0], c_unpinged = [0], c_pinged = []\<rparr>,
     selected_connection := Some 0, had_connection := True, next_ptr := 1,
     heap := [0 \<mapsto> (new_IceConnection 0 sample_candidate)\<lparr>conn_selected := True\<rparr>]\<rparr>"

lemma dangling_sample_inv: "chan_inv dangling_sample"
proof -
  have flags: "\<not> ch_writable gathered_channel" "\<not> has_been_connection gathered_channel"
    by (simp_all add: gathered_channel_def ch_gathering_candidate_def ch_set_ice_params_def
        new_IceTransportChannel_def Let_def split_beta emit_def create_ice_candidate_def)
  have lc: "local_candidate dangling_sample 0 \<noteq> None"
    by (simp add: local_candidate_def dangling_sample_def create_connection_def sample_port_def
        create_ice_candidate_def new_UDPPort_def Let_def)
  then show ?thesis
    using flags unfolding chan_inv_def
    by (auto simp: dangling_sample_def ctl_inv_def new_IceConnection_def create_connection_def
        sample_port_def create_ice_candidate_def new_UDPPort_def Let_def ran_def)
qed

theorem destroyed_connection_dangles_witness:
  "\<exists>w'. destroy 0 0 dangling_sample = Some w' \<and> on_check_and_ping toy_sha1 48 [] w' = None"
proof -
  have "c_connections (ice_controller dangling_sample) = [0]" "selected_connection dangling_sample = Some 0"
    by (simp_all add: dangling_sample_def)
  from destroyed_connection_dangles [OF dangling_sample_inv this, of 0 toy_sha1 48 "[]"]
  show ?thesis by (elim exE conjE) (rule exI, rule conjI)
qed

lemma signed_error_accepted:
  assumes sha: "\<And>x. length (sha1 x) = 20"
  shows "\<exists>bs m m'. get_stun_message sha1 port bs = Some (accepted m [])
    \<and> msg_type m = STUN_BINDING_ERROR_RESPONSE \<and> transaction_id m = replicate 12 0
    \<and> validate_message_integrity sha1 m key = Some m' \<and> integrity_ok m'"
proof -
  let ?b = "error_body (replicate 12 0) 500 STUN_ERROR_REASON_SERVER_ERROR"
  let ?e = "set_reason (set_code create_error_code 500) STUN_ERROR_REASON_SERVER_ERROR"
  have as: "attrs ?b = [?e]" by (simp add: error_body_def new_StunMessage_def)
  have sz: "attr_size ?e = 20"
    by (simp add: attr_size_def set_reason_def STUN_ERROR_REASON_SERVER_ERROR_def pad4_def)
  have wf: "msg_wf ?b"
    unfolding error_body_def using sz
    by (intro add_attribute_wf) (simp_all add: msg_wf_def new_StunMessage_def STUN_ERROR_REASON_SERVER_ERROR_def)
  have ety: "attr_type ?e = STUN_ATTR_ERROR_CODE" "attr_class_ok ?e"
    by (simp_all add: set_reason_def set_code_def create_error_code_def get_attribute_value_type_def
        stun_attr_type_defs)
  have h: "list_all attr_class_ok (attrs ?b)" "msg_type ?b AND 0x0800 = 0"
    "list_all (\<lambda>a. attr_type a \<noteq> STUN_ATTR_MESSAGE_INTEGRITY) (attrs ?b)"
    "attrs_size (attrs ?b) + 32 < 2 ^ 16"
    using ety sz by (simp_all add: as stun_attr_type_defs)
      (simp add: error_body_def stun_msg_type_defs)
  have ty: "msg_type ?b = STUN_BINDING_ERROR_RESPONSE" "transaction_id ?b = replicate 12 0"
    by (simp_all add: error_body_def)
  obtain bs m r where "validate_fingerprint bs = Some True"
    "msg_read new_StunMessage (Construct bs) = Some (m, r)" "Length r = 0"
    "msg_type m = STUN_BINDING_ERROR_RESPONSE" "transaction_id m = replicate 12 0"
    "validate_message_integrity sha1 m key = Some (m\<lparr>msg_password := key, integrity := k_integrity_ok\<rparr>)"
    using signed_message_accepted [OF wf h(1-4), of sha1, OF sha refl refl, of key]
    unfolding ty by auto
  then show ?thesis
    by (intro exI [of _ bs] exI [of _ m] exI [of _ "m\<lparr>msg_password := key, integrity := k_integrity_ok\<rparr>"])
      (simp add: get_stun_message_def integrity_ok_def)
qed

definition pinging_sample :: IceTransportChannel where
  "pinging_sample = dangling_sample\<lparr>heap := [0 \<mapsto> (new_IceConnection 0 sample_candidate)\<lparr>conn_requests :=
     [replicate 12 0 \<mapsto> \<lparr>rq_msg = new_StunMessage\<lparr>msg_type := STUN_BINDING_REQUEST\<rparr>, rq_ts = 0\<rparr>]\<rparr>]\<rparr>"

theorem authentic_error_response_double_free_witness:
  "\<exists>bs. conn_on_read_packet toy_sha1 0 bs 0 0 pinging_sample = None"
proof -
  let ?rq = "\<lparr>rq_msg = new_StunMessage\<lparr>msg_type := STUN_BINDING_REQUEST\<rparr>, rq_ts = 0\<rparr>"
  let ?c = "(new_IceConnection 0 sample_candidate)\<lparr>conn_requests := [replicate 12 0 \<mapsto> ?rq]\<rparr>"
  let ?port = "create_connection 0 sample_candidate (sample_port (bytes_of ''peer'') (bytes_of ''pwd''))"
  have c: "heap pinging_sample 0 = Some ?c" by (simp add: pinging_sample_def)
  have port: "port_of pinging_sample (conn_port ?c) = Some ?port"
    by (simp add: pinging_sample_def dangling_sample_def port_of_def new_IceConnection_def)
  obtain bs m m' where acc: "get_stun_message toy_sha1 ?port bs = Some (accepted m [])"
    "msg_type m = STUN_BINDING_ERROR_RESPONSE"
    "validate_message_integrity toy_sha1 m (cand_password (remote_candidate ?c)) = Some m'" "integrity_ok m'"
    and tid: "transaction_id m = replicate 12 0"
    using signed_error_accepted [of toy_sha1 ?port "cand_password (remote_candidate ?c)"] by auto
  have "conn_requests ?c (transaction_id m) = Some ?rq" "msg_type (rq_msg ?rq) = STUN_BINDING_REQUEST"
    by (simp_all add: tid)
  from authentic_error_response_double_free [OF c port acc this] show ?thesis by blast
qed

end
