(* ===== verification/Ice_Agent.thy ===== *)
theory Ice_Agent
  imports Ice_Channel_Inv
begin

text \<open>
  \<^verbatim>\<open>ice/ice_agent.cpp\<close>: the channels of a peer connection and the aggregated ICE
  state that is reported to the transport controller.
\<close>

section \<open>State\<close>

record IceAgent =
  ag_channels :: "IceTransportChannel list"
  ag_ice_state :: IceTransportState

definition new_IceAgent :: IceAgent where
  "new_IceAgent = \<lparr>ag_channels = [], ag_ice_state = k_new\<rparr>"

text \<open>The result of \<^verbatim>\<open>std::find_if\<close> as an index.\<close>

fun find_channel :: "bytes \<Rightarrow> IceCandidateComponent \<Rightarrow> IceTransportChannel list \<Rightarrow> nat option" where
  "find_channel name component [] = None"
| "find_channel name component (ch # chs) =
     (if name = transport_name ch \<and> component = ch_component ch then Some 0
      else map_option Suc (find_channel name component chs))"

definition get_channel :: "bytes \<Rightarrow> IceCandidateComponent \<Rightarrow> IceAgent \<Rightarrow> nat option" where
  "get_channel name component ag = find_channel name component (ag_channels ag)"

definition create_channel :: "bytes \<Rightarrow> IceCandidateComponent \<Rightarrow> IceAgent \<Rightarrow> IceAgent" where
  "create_channel name component ag = (case get_channel name component ag of Some _ \<Rightarrow> ag
     | None \<Rightarrow> ag\<lparr>ag_channels := ag_channels ag @ [new_IceTransportChannel name component]\<rparr>)"

definition ag_set_ice_params :: "bytes \<Rightarrow> IceCandidateComponent \<Rightarrow> IceParameters \<Rightarrow> IceAgent \<Rightarrow> IceAgent" where
  "ag_set_ice_params name component params ag = (case get_channel name component ag of None \<Rightarrow> ag
     | Some i \<Rightarrow> ag\<lparr>ag_channels := (ag_channels ag)[i := ch_set_ice_params params (ag_channels ag ! i)]\<rparr>)"

definition ag_set_remote_ice_params :: "int \<Rightarrow> bytes \<Rightarrow> IceCandidateComponent \<Rightarrow> IceParameters \<Rightarrow> IceAgent
    \<Rightarrow> IceAgent option" where
  "ag_set_remote_ice_params now name component params ag = (case get_channel name component ag of None \<Rightarrow> Some ag
     | Some i \<Rightarrow> map_option (\<lambda>ch. ag\<lparr>ag_channels := (ag_channels ag)[i := ch]\<rparr>)
         (ch_set_remote_ice_params now params (ag_channels ag ! i)))"

definition ag_gathering_candidate :: "(IPAddress \<Rightarrow> bytes) \<Rightarrow> (Network \<Rightarrow> int option) \<Rightarrow> PortAllocator
    \<Rightarrow> IceAgent \<Rightarrow> IceAgent" where
  "ag_gathering_candidate ntop bound pa ag =
     ag\<lparr>ag_channels := map (ch_gathering_candidate ntop bound pa) (ag_channels ag)\<rparr>"

section \<open>The aggregated state\<close>

definition state_count :: "IceTransportState \<Rightarrow> IceTransportChannel list \<Rightarrow> nat" where
  "state_count st chs = length (filter (\<lambda>ch. ch_state ch = st) chs)"

definition aggregate_state :: "IceTransportChannel list \<Rightarrow> IceTransportState" where
  "aggregate_state chs =
     (let total_ice_new = state_count k_new chs;
          total_ice_checking = state_count k_checking chs;
          total_ice_connected = state_count k_connected chs;
          total_ice_completed = state_count k_completed chs;
          total_ice_failed = state_count k_failed chs;
          total_ice_disconnected = state_count k_disconnected chs;
          total_ice_closed = state_count k_closed chs;
          total_ice = length chs
      in if total_ice_failed > 0 then k_failed
         else if total_ice_disconnected > 0 then k_disconnected
         else if total_ice_new + total_ice_closed = total_ice then k_new
         else if total_ice_new + total_ice_checking > 0 then k_checking
         else if total_ice_completed + total_ice_closed = total_ice then k_completed
         else if total_ice_connected + total_ice_completed + total_ice_closed = total_ice then k_connected
         else k_new)"

text \<open>The new agent and the values of \<^verbatim>\<open>signal_ice_state\<close>, in order.\<close>

definition ag_update_state :: "IceAgent \<Rightarrow> IceAgent \<times> IceTransportState list" where
  "ag_update_state ag =
     (let ice_state = aggregate_state (ag_channels ag)
      in if ag_ice_state ag \<noteq> ice_state
         then (ag\<lparr>ag_ice_state := ice_state\<rparr>,
               (if ag_ice_state ag = k_checking \<and> ice_state = k_completed then [k_connected] else [])
               @ [ice_state])
         else (ag, []))"

section \<open>Properties\<close>

lemma state_count_pos: "state_count st chs > 0 \<longleftrightarrow> (\<exists>ch \<in> set chs. ch_state ch = st)"
  by (auto simp: state_count_def filter_empty_conv)

lemma state_count_all: "state_count st chs = length chs \<longleftrightarrow> (\<forall>ch \<in> set chs. ch_state ch = st)"
proof (induction chs)
  case (Cons ch chs)
  have "state_count st chs < Suc (length chs)" by (simp add: state_count_def le_imp_less_Suc)
  then have "state_count st chs \<noteq> Suc (length chs)" by (rule less_imp_neq)
  with Cons show ?case by (cases "ch_state ch = st") (simp_all add: state_count_def)
qed (simp add: state_count_def)

lemma count_all_states:
  "state_count k_new chs + state_count k_checking chs + state_count k_connected chs
   + state_count k_completed chs + state_count k_failed chs + state_count k_disconnected chs
   + state_count k_closed chs = length chs"
proof (induction chs)
  case (Cons ch chs)
  then show ?case by (cases "ch_state ch") (simp_all add: state_count_def)
qed (simp add: state_count_def)

text \<open>
  The aggregated state of channels, none of which is completed or closed, is the worst one:
  failed if a channel failed, else disconnected if one is, else new if all are new, else checking
  if one has not connected yet, else connected; no combination falls through the chain of
  conditions.
\<close>

theorem aggregate_state_worst:
  assumes "list_all (\<lambda>ch. ch_state ch \<noteq> k_completed \<and> ch_state ch \<noteq> k_closed) chs"
  shows "aggregate_state chs =
    (if \<exists>ch \<in> set chs. ch_state ch = k_failed then k_failed
     else if \<exists>ch \<in> set chs. ch_state ch = k_disconnected then k_disconnected
     else if \<forall>ch \<in> set chs. ch_state ch = k_new then k_new
     else if \<exists>ch \<in> set chs. ch_state ch \<noteq> k_connected then k_checking
     else k_connected)"
proof -
  have none: "state_count k_completed chs = 0" "state_count k_closed chs = 0"
    using assms state_count_pos [of k_completed chs] state_count_pos [of k_closed chs]
    by (auto simp: list_all_iff)
  have new: "state_count k_new chs = length chs \<longleftrightarrow> (\<forall>ch \<in> set chs. ch_state ch = k_new)"
    by (rule state_count_all)
  have cases: "ch_state ch = k_new \<or> ch_state ch = k_checking \<or> ch_state ch = k_connected
      \<or> ch_state ch = k_failed \<or> ch_state ch = k_disconnected" if "ch \<in> set chs" for ch
    using assms that by (cases "ch_state ch") (auto simp: list_all_iff)
  show ?thesis
  proof (cases "(\<exists>ch \<in> set chs. ch_state ch = k_failed) \<or> (\<exists>ch \<in> set chs. ch_state ch = k_disconnected)")
    case True
    then have "state_count k_failed chs > 0 \<or> state_count k_disconnected chs > 0"
      by (simp add: state_count_pos)
    then show ?thesis
      using True by (cases "state_count k_failed chs > 0")
        (simp_all add: aggregate_state_def Let_def state_count_pos)
  next
    case False
    then have z: "state_count k_failed chs = 0" "state_count k_disconnected chs = 0"
      using state_count_pos [of k_failed chs] state_count_pos [of k_disconnected chs] by auto
    have pending: "(state_count k_new chs + state_count k_checking chs > 0) \<longleftrightarrow>
        (\<exists>ch \<in> set chs. ch_state ch \<noteq> k_connected)"
    proof
      assume "state_count k_new chs + state_count k_checking chs > 0"
      then have "(\<exists>ch \<in> set chs. ch_state ch = k_new) \<or> (\<exists>ch \<in> set chs. ch_state ch = k_checking)"
        by (simp add: state_count_pos)
      then show "\<exists>ch \<in> set chs. ch_state ch \<noteq> k_connected" by force
    next
      assume "\<exists>ch \<in> set chs. ch_state ch \<noteq> k_connected"
      then obtain ch where ch: "ch \<in> set chs" "ch_state ch \<noteq> k_connected" by blast
      then have "ch_state ch = k_new \<or> ch_state ch = k_checking" using cases [of ch] False by blast
      then show "state_count k_new chs + state_count k_checking chs > 0"
        using ch(1) state_count_pos [of k_new chs] state_count_pos [of k_checking chs] by auto
    qed
    have "state_count k_connected chs = length chs" if "\<not> (\<exists>ch \<in> set chs. ch_state ch \<noteq> k_connected)"
      using that by (simp add: state_count_def)
    then show ?thesis
      using False none z new pending by (simp add: aggregate_state_def Let_def)
  qed
qed

theorem aggregate_state_worst_witness:
  "aggregate_state [new_IceTransportChannel (bytes_of ''audio'') RTP,
     (new_IceTransportChannel (bytes_of ''video'') RTP)\<lparr>ch_state := k_connected\<rparr>] = k_checking"
  using aggregate_state_worst [of "[new_IceTransportChannel (bytes_of ''audio'') RTP,
     (new_IceTransportChannel (bytes_of ''video'') RTP)\<lparr>ch_state := k_connected\<rparr>]"]
  by (simp add: new_IceTransportChannel_def)

end
