(* ===== verification/Lock_Free_Queue.thy ===== *)
theory Lock_Free_Queue
  imports Prelude
begin

text \<open>
  \<^verbatim>\<open>base/lock_free_queue.h\<close>: the queue between one producer and one consumer thread.
  The nodes live in a heap, so following a freed node is an error (\<open>None\<close>).  The first
  sections hold the two operations as the code has them and a refinement of a list; the later ones
  interleave the atomic actions of the two threads on sequentially consistent memory, which is what
  the comment of the header asks of pointer accesses.  The address of a new node is an argument:
  the allocator may return any address that is free, also one that was used before.
\<close>

section \<open>State and operations\<close>

type_synonym node_ptr = nat

record 'a Node =
  node_value :: 'a
  node_next :: "node_ptr option"

record 'a LockFreeQueue =
  nodes :: "node_ptr \<rightharpoonup> 'a Node"
  first_ptr :: node_ptr
  divider :: node_ptr
  last_ptr :: node_ptr
  q_size :: int

definition new_Node :: "'a \<Rightarrow> 'a Node" where
  "new_Node v = \<lparr>node_value = v, node_next = None\<rparr>"

definition new_LockFreeQueue :: "node_ptr \<Rightarrow> 'a \<Rightarrow> 'a LockFreeQueue" where
  "new_LockFreeQueue a dflt =
     \<lparr>nodes = [a \<mapsto> new_Node dflt], first_ptr = a, divider = a, last_ptr = a, q_size = 0\<rparr>"

text \<open>\<^verbatim>\<open>last->next = new Node(t)\<close> with the new node at \<open>a\<close>.\<close>

definition link_node :: "node_ptr \<Rightarrow> 'a \<Rightarrow> 'a LockFreeQueue \<Rightarrow> 'a LockFreeQueue option" where
  "link_node a t q = (case nodes q (last_ptr q) of None \<Rightarrow> None
     | Some n \<Rightarrow> Some (q\<lparr>nodes := (nodes q)(a \<mapsto> new_Node t, last_ptr q \<mapsto> n\<lparr>node_next := Some a\<rparr>)\<rparr>))"

text \<open>\<^verbatim>\<open>last = last->next\<close>.\<close>

definition advance_last :: "'a LockFreeQueue \<Rightarrow> 'a LockFreeQueue option" where
  "advance_last q = do {
     n \<leftarrow> nodes q (last_ptr q);
     a \<leftarrow> node_next n;
     Some (q\<lparr>last_ptr := a\<rparr>)
   }"

text \<open>One round of the loop that frees consumed nodes.\<close>

definition free_first :: "'a LockFreeQueue \<Rightarrow> 'a LockFreeQueue option" where
  "free_first q = do {
     n \<leftarrow> nodes q (first_ptr q);
     a \<leftarrow> node_next n;
     Some (q\<lparr>first_ptr := a, nodes := (nodes q)(first_ptr q := None)\<rparr>)
   }"

partial_function (option) trim :: "'a LockFreeQueue \<Rightarrow> 'a LockFreeQueue option" where
  "trim q = (if divider q \<noteq> first_ptr q then Option.bind (free_first q) trim else Some q)"

definition produce :: "node_ptr \<Rightarrow> 'a \<Rightarrow> 'a LockFreeQueue \<Rightarrow> 'a LockFreeQueue option" where
  "produce a t q = do {
     q \<leftarrow> link_node a t q;
     q \<leftarrow> advance_last q;
     trim (q\<lparr>q_size := q_size q + 1\<rparr>)
   }"

text \<open>\<^verbatim>\<open>divider->next->value\<close> and \<^verbatim>\<open>divider = divider->next\<close>.\<close>

definition load_next :: "'a LockFreeQueue \<Rightarrow> 'a option" where
  "load_next q = do {
     n \<leftarrow> nodes q (divider q);
     a \<leftarrow> node_next n;
     n' \<leftarrow> nodes q a;
     Some (node_value n')
   }"

definition advance_divider :: "'a LockFreeQueue \<Rightarrow> 'a LockFreeQueue option" where
  "advance_divider q = do {
     n \<leftarrow> nodes q (divider q);
     a \<leftarrow> node_next n;
     Some (q\<lparr>divider := a\<rparr>)
   }"

text \<open>The inner option of \<^verbatim>\<open>consume\<close> is its boolean result.\<close>

definition consume :: "'a LockFreeQueue \<Rightarrow> ('a option \<times> 'a LockFreeQueue) option" where
  "consume q = (if divider q \<noteq> last_ptr q
     then do {
       v \<leftarrow> load_next q;
       q \<leftarrow> advance_divider q;
       Some (Some v, q\<lparr>q_size := q_size q - 1\<rparr>)
     }
     else Some (None, q))"

definition lfq_empty :: "'a LockFreeQueue \<Rightarrow> bool" where
  "lfq_empty q \<longleftrightarrow> q_size q = 0"

text \<open>The destructor walks the chain from \<^verbatim>\<open>first\<close> and deletes every node.\<close>

partial_function (option) delete_nodes :: "node_ptr option \<Rightarrow> (node_ptr \<rightharpoonup> 'a Node) \<Rightarrow> (node_ptr \<rightharpoonup> 'a Node) option" where
  "delete_nodes p h = (case p of None \<Rightarrow> Some h
     | Some a \<Rightarrow> Option.bind (h a) (\<lambda>n. delete_nodes (node_next n) (h(a := None))))"

section \<open>Chains of nodes\<close>

text \<open>\<open>path h ps\<close>: the nodes \<open>ps\<close> are allocated, each points to the next and the last to nothing.\<close>

fun path :: "(node_ptr \<rightharpoonup> 'a Node) \<Rightarrow> node_ptr list \<Rightarrow> bool" where
  "path h [] \<longleftrightarrow> False"
| "path h [p] \<longleftrightarrow> (\<exists>v. h p = Some \<lparr>node_value = v, node_next = None\<rparr>)"
| "path h (p # p' # ps) \<longleftrightarrow> (\<exists>v. h p = Some \<lparr>node_value = v, node_next = Some p'\<rparr>) \<and> path h (p' # ps)"

definition values_of :: "(node_ptr \<rightharpoonup> 'a Node) \<Rightarrow> node_ptr list \<Rightarrow> 'a list" where
  "values_of h ps = map (\<lambda>p. node_value (the (h p))) ps"

lemma path_dom: "path h ps \<Longrightarrow> p \<in> set ps \<Longrightarrow> \<exists>n. h p = Some n"
  by (induction h ps rule: path.induct) auto

lemma path_update: "path h ps \<Longrightarrow> a \<notin> set ps \<Longrightarrow> path (h(a := x)) ps"
  by (induction h ps rule: path.induct) auto

lemma values_of_update [simp]: "a \<notin> set ps \<Longrightarrow> values_of (h(a := x)) ps = values_of h ps"
  by (auto simp: values_of_def)

lemma path_append_last:
  "path h (ps @ [p]) \<Longrightarrow> a \<notin> set (ps @ [p]) \<Longrightarrow> distinct (ps @ [p]) \<Longrightarrow>
   h p = Some n \<Longrightarrow>
   path (h(a \<mapsto> new_Node t, p \<mapsto> n\<lparr>node_next := Some a\<rparr>)) (ps @ [p, a])"
proof (induction ps)
  case Nil
  then show ?case by (cases n) (auto simp: new_Node_def)
next
  case (Cons x ps)
  then show ?case by (cases ps) auto
qed

lemma path_next:
  "path h (ps @ p # p' # ps') \<Longrightarrow> \<exists>v. h p = Some \<lparr>node_value = v, node_next = Some p'\<rparr>"
proof (induction ps)
  case (Cons x ps)
  then show ?case by (cases ps) auto
qed simp

section \<open>The actions on the chain\<close>

text \<open>
  The allocated nodes are the consumed ones \<open>gs\<close>, the divider and the nodes \<open>us\<close> after it.
\<close>

definition shape :: "'a LockFreeQueue \<Rightarrow> node_ptr list \<Rightarrow> node_ptr list \<Rightarrow> bool" where
  "shape q gs us \<longleftrightarrow> path (nodes q) (gs @ divider q # us) \<and> distinct (gs @ divider q # us)
     \<and> dom (nodes q) = set (gs @ divider q # us) \<and> first_ptr q = hd (gs @ [divider q])"

abbreviation pending :: "'a LockFreeQueue \<Rightarrow> node_ptr list \<Rightarrow> 'a list" where
  "pending q us \<equiv> values_of (nodes q) us"

lemma shape_size [simp]: "shape (q\<lparr>q_size := k\<rparr>) gs us = shape q gs us"
  by (simp add: shape_def)

lemma shape_last [simp]: "shape (q\<lparr>last_ptr := k\<rparr>) gs us = shape q gs us"
  by (simp add: shape_def)

lemma shape_new: "shape (new_LockFreeQueue a dflt) [] []"
  by (simp add: shape_def new_LockFreeQueue_def new_Node_def)

lemma link_node_shape:
  assumes "shape q gs us" and "last_ptr q = last (divider q # us)" and "nodes q a = None"
  obtains q' where "link_node a t q = Some q'" "shape q' gs (us @ [a])"
    "pending q' us = pending q us" "node_value (the (nodes q' a)) = t"
    "first_ptr q' = first_ptr q" "divider q' = divider q" "last_ptr q' = last_ptr q" "q_size q' = q_size q"
proof -
  obtain ps where ps: "gs @ divider q # us = ps @ [last_ptr q]"
    using assms(2) by (metis append.assoc append_butlast_last_id list.distinct(1))
  from assms(1) have sh: "path (nodes q) (ps @ [last_ptr q])" "distinct (ps @ [last_ptr q])"
    "dom (nodes q) = set (ps @ [last_ptr q])" "first_ptr q = hd (gs @ [divider q])"
    unfolding shape_def ps by simp_all
  have "last_ptr q \<in> dom (nodes q)" unfolding sh(3) by simp
  then obtain n where n: "nodes q (last_ptr q) = Some n" by blast
  have a: "a \<notin> set (ps @ [last_ptr q])" using assms(3) sh(3) by blast
  let ?h = "(nodes q)(a \<mapsto> new_Node t, last_ptr q \<mapsto> n\<lparr>node_next := Some a\<rparr>)"
  let ?q = "q\<lparr>nodes := ?h\<rparr>"
  have eq: "gs @ divider q # us @ [a] = ps @ [last_ptr q, a]"
    using arg_cong [OF ps, of "\<lambda>l. l @ [a]"] by simp
  have "path ?h (gs @ divider q # us @ [a])"
    unfolding eq by (rule path_append_last [OF sh(1) a sh(2) n])
  moreover have "dom ?h = set (gs @ divider q # us @ [a])" unfolding eq using sh(3) by auto
  moreover have "distinct (gs @ divider q # us @ [a])" unfolding eq using sh(2) a by auto
  ultimately have "shape ?q gs (us @ [a])" using sh(4) by (simp add: shape_def)
  moreover have "a \<notin> set us" using a arg_cong [OF ps, of set] by auto
  then have "pending ?q us = pending q us"
    using n by (simp add: values_of_def)
  moreover have "a \<noteq> last_ptr q" using a by simp
  ultimately show thesis
    by (intro that [of ?q]) (simp_all add: link_node_def n new_Node_def)
qed

lemma advance_last_shape:
  assumes "shape q gs (us @ [a])" and "last_ptr q = last (divider q # us)"
  shows "advance_last q = Some (q\<lparr>last_ptr := a\<rparr>)"
proof -
  obtain ps where "gs @ divider q # us = ps @ [last_ptr q]"
    using assms(2) by (metis append.assoc append_butlast_last_id list.distinct(1))
  from arg_cong [OF this, of "\<lambda>l. l @ [a]"] have "gs @ divider q # us @ [a] = ps @ last_ptr q # a # []"
    by simp
  with assms(1) have "path (nodes q) (ps @ last_ptr q # a # [])" by (simp add: shape_def)
  from path_next [OF this] show ?thesis by (auto simp: advance_last_def)
qed

lemma shape_first: "shape q gs us \<Longrightarrow> divider q \<noteq> first_ptr q \<longleftrightarrow> gs \<noteq> []"
  by (cases gs) (auto simp: shape_def)

lemma free_first_shape:
  assumes "shape q (g # gs) us"
  obtains q' where "free_first q = Some q'" "shape q' gs us" "pending q' us = pending q us"
    "divider q' = divider q" "last_ptr q' = last_ptr q" "q_size q' = q_size q"
proof -
  let ?a = "hd (gs @ [divider q])"
  have g: "first_ptr q = g" using assms by (simp add: shape_def)
  obtain rest where rest: "gs @ divider q # us = ?a # rest" by (cases gs) auto
  from assms have p: "path (nodes q) (g # ?a # rest)" "distinct (g # gs @ divider q # us)"
    "dom (nodes q) = set (g # gs @ divider q # us)"
    by (simp_all add: shape_def flip: rest)
  from p(1) obtain v where v: "nodes q g = Some \<lparr>node_value = v, node_next = Some ?a\<rparr>" by auto
  let ?q = "q\<lparr>first_ptr := ?a, nodes := (nodes q)(g := None)\<rparr>"
  have "path (nodes q) (gs @ divider q # us)" using p(1) by (simp add: rest)
  then have "shape ?q gs us"
    using p(2,3) path_update [of "nodes q" "gs @ divider q # us" g None] by (auto simp: shape_def)
  moreover have "pending ?q us = pending q us" using p(2) by simp
  ultimately show thesis
    by (intro that [of ?q]) (simp_all add: free_first_def g v)
qed

lemma load_next_shape:
  assumes "shape q gs (u # us)"
  shows "load_next q = Some (hd (pending q (u # us)))"
    and "advance_divider q = Some (q\<lparr>divider := u\<rparr>)"
    and "shape (q\<lparr>divider := u\<rparr>) (gs @ [divider q]) us"
proof -
  from assms have p: "path (nodes q) (gs @ divider q # u # us)" by (simp add: shape_def)
  obtain v where v: "nodes q (divider q) = Some \<lparr>node_value = v, node_next = Some u\<rparr>"
    using path_next [OF p] by blast
  obtain n where n: "nodes q u = Some n" using path_dom [OF p, of u] by auto
  show "load_next q = Some (hd (pending q (u # us)))" by (simp add: load_next_def v n values_of_def)
  show "advance_divider q = Some (q\<lparr>divider := u\<rparr>)" by (simp add: advance_divider_def v)
  show "shape (q\<lparr>divider := u\<rparr>) (gs @ [divider q]) us"
    using assms by (cases gs) (auto simp: shape_def)
qed

lemma shape_test:
  "shape q gs us \<Longrightarrow> last_ptr q = last (divider q # us) \<Longrightarrow> divider q \<noteq> last_ptr q \<longleftrightarrow> us \<noteq> []"
  by (cases us rule: rev_cases) (auto simp: shape_def)

lemma trim_shape:
  "shape q gs us \<Longrightarrow> \<exists>q'. trim q = Some q' \<and> shape q' [] us \<and> pending q' us = pending q us
     \<and> divider q' = divider q \<and> last_ptr q' = last_ptr q \<and> q_size q' = q_size q"
proof (induction gs arbitrary: q)
  case Nil
  then show ?case by (simp add: trim.simps [of q] shape_first)
next
  case (Cons g gs)
  obtain q1 where q1: "free_first q = Some q1" "shape q1 gs us" "pending q1 us = pending q us"
    "divider q1 = divider q" "last_ptr q1 = last_ptr q" "q_size q1 = q_size q"
    by (rule free_first_shape [OF Cons.prems])
  have "trim q = trim q1"
    using shape_first [OF Cons.prems] q1(1) by (simp add: trim.simps [of q])
  then show ?case using Cons.IH [OF q1(2)] q1(3-) by auto
qed

lemma delete_nodes_path:
  "path h ps \<Longrightarrow> distinct ps \<Longrightarrow> delete_nodes (Some (hd ps)) h = Some (h |` (- set ps))"
proof (induction ps arbitrary: h rule: induct_list012)
  case (2 p)
  then show ?case by (auto simp: delete_nodes.simps restrict_map_def fun_eq_iff)
next
  case (3 p p' ps)
  from 3(3) obtain v where v: "h p = Some \<lparr>node_value = v, node_next = Some p'\<rparr>" by auto
  have "path (h(p := None)) (p' # ps)" using 3(3,4) by (intro path_update) auto
  moreover have "distinct (p' # ps)" using 3(4) by simp
  ultimately have "delete_nodes (Some p') (h(p := None)) = Some (h(p := None) |` (- set (p' # ps)))"
    using 3(2) [of "h(p := None)"] unfolding list.sel by blast
  then show ?case
    using v by (auto simp: delete_nodes.simps [of "Some p"] restrict_map_def fun_eq_iff)
qed simp

section \<open>Refinement of a list\<close>

text \<open>
  What a client relies on: a queue represents the list of the elements in it; \<open>enq\<close> appends
  and \<open>deq\<close> removes the head or reports that there is none.
\<close>

datatype 'a queue_op = op_enq 'a | op_deq

text \<open>
  The results of the dequeuing calls of a sequence of calls, in order: \<open>None\<close> where the call
  reports that the queue is empty.
\<close>

fun run_queue :: "('a \<Rightarrow> 'q \<Rightarrow> 'q option) \<Rightarrow> ('q \<Rightarrow> ('a option \<times> 'q) option) \<Rightarrow> 'a queue_op list
    \<Rightarrow> 'q \<Rightarrow> ('a option list \<times> 'q) option" where
  "run_queue enq deq [] q = Some ([], q)"
| "run_queue enq deq (op_enq t # ops) q = Option.bind (enq t q) (run_queue enq deq ops)"
| "run_queue enq deq (op_deq # ops) q = do {
     (r, q) \<leftarrow> deq q;
     (out, q) \<leftarrow> run_queue enq deq ops q;
     Some (r # out, q)
   }"

text \<open>The same calls on a list: the results and the elements left.\<close>

fun run_list :: "'a queue_op list \<Rightarrow> 'a list \<Rightarrow> 'a option list \<times> 'a list" where
  "run_list [] xs = ([], xs)"
| "run_list (op_enq t # ops) xs = run_list ops (xs @ [t])"
| "run_list (op_deq # ops) [] = map_prod ((#) None) id (run_list ops [])"
| "run_list (op_deq # ops) (x # xs) = map_prod ((#) (Some x)) id (run_list ops xs)"

locale fifo_queue =
  fixes represents :: "'q \<Rightarrow> 'a list \<Rightarrow> bool"
    and enq :: "'a \<Rightarrow> 'q \<Rightarrow> 'q option"
    and deq :: "'q \<Rightarrow> ('a option \<times> 'q) option"
  assumes enq_law: "represents q xs \<Longrightarrow> \<exists>q'. enq t q = Some q' \<and> represents q' (xs @ [t])"
    and deq_none: "represents q [] \<Longrightarrow> \<exists>q'. deq q = Some (None, q') \<and> represents q' []"
    and deq_some: "represents q (x # xs) \<Longrightarrow> \<exists>q'. deq q = Some (Some x, q') \<and> represents q' xs"
begin

lemma run_fifo:
  "represents q xs \<Longrightarrow>
   \<exists>q'. run_queue enq deq ops q = Some (fst (run_list ops xs), q') \<and> represents q' (snd (run_list ops xs))"
proof (induction ops xs arbitrary: q rule: run_list.induct)
  case (2 t ops xs)
  obtain q1 where "enq t q = Some q1" "represents q1 (xs @ [t])" using enq_law [OF 2(2)] by blast
  with 2(1) [of q1] show ?case by auto
next
  case (3 ops)
  obtain q1 where "deq q = Some (None, q1)" "represents q1 []" using deq_none [OF 3(2)] by blast
  with 3(1) [of q1] show ?case by auto
next
  case (4 ops x xs)
  obtain q1 where "deq q = Some (Some x, q1)" "represents q1 xs" using deq_some [OF 4(2)] by blast
  with 4(1) [of q1] show ?case by auto
qed auto

end

definition lfq_repr :: "'a LockFreeQueue \<Rightarrow> 'a list \<Rightarrow> bool" where
  "lfq_repr q xs \<longleftrightarrow> (\<exists>gs us. shape q gs us \<and> last_ptr q = last (divider q # us)
     \<and> pending q us = xs \<and> q_size q = int (length xs))"

definition fresh_node :: "'a LockFreeQueue \<Rightarrow> node_ptr" where
  "fresh_node q = Suc (Max (dom (nodes q)))"

lemma shape_fresh:
  assumes "shape q gs us"
  shows "nodes q (fresh_node q) = None"
proof -
  have fin: "finite (dom (nodes q))" using assms by (simp add: shape_def)
  have "fresh_node q \<notin> dom (nodes q)"
  proof
    assume "fresh_node q \<in> dom (nodes q)"
    from Max_ge [OF fin this] show False by (simp add: fresh_node_def)
  qed
  then show ?thesis by blast
qed

lemma values_of_append [simp]: "values_of h (us @ vs) = values_of h us @ values_of h vs"
  by (simp add: values_of_def)

lemma values_of_Cons [simp]: "values_of h (u # us) = node_value (the (h u)) # values_of h us"
  by (simp add: values_of_def)

lemma values_of_Nil [simp]: "values_of h [] = []" "values_of h us = [] \<longleftrightarrow> us = []"
  by (simp_all add: values_of_def)

lemma length_values_of [simp]: "length (values_of h us) = length us"
  by (simp add: values_of_def)

lemma produce_repr:
  assumes "lfq_repr q xs" and "nodes q a = None"
  shows "\<exists>q'. produce a t q = Some q' \<and> lfq_repr q' (xs @ [t])"
proof -
  from assms(1) obtain gs us where q: "shape q gs us" "last_ptr q = last (divider q # us)"
    "pending q us = xs" "q_size q = int (length xs)" unfolding lfq_repr_def by blast
  obtain q1 where q1: "link_node a t q = Some q1" "shape q1 gs (us @ [a])"
    "pending q1 us = pending q us" "node_value (the (nodes q1 a)) = t"
    "first_ptr q1 = first_ptr q" "divider q1 = divider q" "last_ptr q1 = last_ptr q" "q_size q1 = q_size q"
    by (rule link_node_shape [OF q(1,2) assms(2)])
  let ?q2 = "q1\<lparr>last_ptr := a, q_size := q_size q1 + 1\<rparr>"
  have adv: "advance_last q1 = Some (q1\<lparr>last_ptr := a\<rparr>)"
    using q1(2,6,7) q(2) by (intro advance_last_shape) simp_all
  have "shape ?q2 gs (us @ [a])" using q1(2) by simp
  from trim_shape [OF this] obtain q3 where q3: "trim ?q2 = Some q3" "shape q3 [] (us @ [a])"
    "pending q3 (us @ [a]) = pending ?q2 (us @ [a])" "divider q3 = divider ?q2" "last_ptr q3 = last_ptr ?q2"
    "q_size q3 = q_size ?q2" by blast
  have "lfq_repr q3 (xs @ [t])"
    unfolding lfq_repr_def using q3(2-) q1(3,4,8) q(3,4) by (intro exI [of _ "[]"] exI [of _ "us @ [a]"]) simp
  then show ?thesis using q1(1) adv q3(1) by (simp add: produce_def)
qed

lemma consume_repr:
  assumes "lfq_repr q xs"
  shows "xs = [] \<Longrightarrow> consume q = Some (None, q)"
    and "xs = x # ys \<Longrightarrow> \<exists>q'. consume q = Some (Some x, q') \<and> lfq_repr q' ys"
proof -
  from assms obtain gs us where q: "shape q gs us" "last_ptr q = last (divider q # us)"
    "pending q us = xs" "q_size q = int (length xs)" unfolding lfq_repr_def by blast
  note test = shape_test [OF q(1,2)]
  show "consume q = Some (None, q)" if "xs = []"
    using that q(3) test by (simp add: consume_def)
  show "\<exists>q'. consume q = Some (Some x, q') \<and> lfq_repr q' ys" if "xs = x # ys"
  proof -
    from that q(3) obtain u vs where us: "us = u # vs" "x = node_value (the (nodes q u))" "pending q vs = ys"
      by (cases us) auto
    let ?q = "q\<lparr>divider := u, q_size := q_size q - 1\<rparr>"
    note step = load_next_shape [OF q(1) [unfolded us(1)]]
    have "consume q = Some (Some x, ?q)"
      using step(1,2) test us by (simp add: consume_def)
    moreover have "lfq_repr ?q ys"
      unfolding lfq_repr_def using step(3) q(2,4) us that
      by (intro exI [of _ "gs @ [divider q]"] exI [of _ vs]) (simp split: if_splits)
    ultimately show ?thesis by blast
  qed
qed

interpretation lfq: fifo_queue lfq_repr "\<lambda>t q. produce (fresh_node q) t q" consume
proof
  fix q :: "'a LockFreeQueue" and xs t
  assume q: "lfq_repr q xs"
  then have "nodes q (fresh_node q) = None" using shape_fresh unfolding lfq_repr_def by blast
  with q show "\<exists>q'. produce (fresh_node q) t q = Some q' \<and> lfq_repr q' (xs @ [t])"
    by (rule produce_repr)
next
  fix q :: "'a LockFreeQueue"
  assume "lfq_repr q []"
  then show "\<exists>q'. consume q = Some (None, q') \<and> lfq_repr q' []"
    by (intro exI [of _ q]) (simp add: consume_repr(1))
next
  fix q :: "'a LockFreeQueue" and x xs
  assume "lfq_repr q (x # xs)"
  then show "\<exists>q'. consume q = Some (Some x, q') \<and> lfq_repr q' xs"
    by (rule consume_repr(2) [OF _ refl])
qed

lemma lfq_repr_new: "lfq_repr (new_LockFreeQueue a dflt) []"
  unfolding lfq_repr_def
  by (intro exI [of _ "[]"]) (simp add: shape_new, simp add: new_LockFreeQueue_def)


section \<open>Interleaving of the two threads\<close>

text \<open>
  The program counters say which action of \<^verbatim>\<open>produce\<close> or \<^verbatim>\<open>consume\<close> is next.
  A new element becomes visible when \<^verbatim>\<open>last\<close> is advanced, and is taken when
  \<^verbatim>\<open>divider\<close> is; \<open>produced\<close> and \<open>consumed\<close> record these moments.
\<close>

datatype 'a producer_pc = p_idle | p_link 'a | p_advance 'a | p_count | p_trim
datatype 'a consumer_pc = c_idle | c_load | c_advance 'a | c_count

record 'a spsc =
  queue :: "'a LockFreeQueue"
  ppc :: "'a producer_pc"
  cpc :: "'a consumer_pc"
  produced :: "'a list"
  consumed :: "'a list"

definition producer_step :: "node_ptr \<Rightarrow> 'a spsc \<Rightarrow> 'a spsc option" where
  "producer_step a s = (case ppc s of
      p_idle \<Rightarrow> Some s
    | p_link t \<Rightarrow> map_option (\<lambda>q. s\<lparr>queue := q, ppc := p_advance t\<rparr>) (link_node a t (queue s))
    | p_advance t \<Rightarrow> map_option (\<lambda>q. s\<lparr>queue := q, ppc := p_count, produced := produced s @ [t]\<rparr>)
        (advance_last (queue s))
    | p_count \<Rightarrow> Some (s\<lparr>queue := (queue s)\<lparr>q_size := q_size (queue s) + 1\<rparr>, ppc := p_trim\<rparr>)
    | p_trim \<Rightarrow> if divider (queue s) \<noteq> first_ptr (queue s)
        then map_option (\<lambda>q. s\<lparr>queue := q\<rparr>) (free_first (queue s))
        else Some (s\<lparr>ppc := p_idle\<rparr>))"

definition consumer_step :: "'a spsc \<Rightarrow> 'a spsc option" where
  "consumer_step s = (case cpc s of
      c_idle \<Rightarrow> Some (if divider (queue s) \<noteq> last_ptr (queue s) then s\<lparr>cpc := c_load\<rparr> else s)
    | c_load \<Rightarrow> map_option (\<lambda>v. s\<lparr>cpc := c_advance v\<rparr>) (load_next (queue s))
    | c_advance v \<Rightarrow> map_option (\<lambda>q. s\<lparr>queue := q, cpc := c_count, consumed := consumed s @ [v]\<rparr>)
        (advance_divider (queue s))
    | c_count \<Rightarrow> Some (s\<lparr>queue := (queue s)\<lparr>q_size := q_size (queue s) - 1\<rparr>, cpc := c_idle\<rparr>))"

definition new_spsc :: "node_ptr \<Rightarrow> 'a \<Rightarrow> 'a spsc" where
  "new_spsc a dflt = \<lparr>queue = new_LockFreeQueue a dflt, ppc = p_idle, cpc = c_idle, produced = [], consumed = []\<rparr>"

inductive spsc_reach :: "node_ptr \<Rightarrow> 'a \<Rightarrow> 'a spsc \<Rightarrow> bool" for a0 dflt where
  init: "spsc_reach a0 dflt (new_spsc a0 dflt)"
| call: "spsc_reach a0 dflt s \<Longrightarrow> ppc s = p_idle \<Longrightarrow> spsc_reach a0 dflt (s\<lparr>ppc := p_link t\<rparr>)"
| producer: "spsc_reach a0 dflt s \<Longrightarrow> nodes (queue s) a = None \<Longrightarrow> producer_step a s = Some s'
    \<Longrightarrow> spsc_reach a0 dflt s'"
| consumer: "spsc_reach a0 dflt s \<Longrightarrow> consumer_step s = Some s' \<Longrightarrow> spsc_reach a0 dflt s'"

text \<open>
  \<open>vs\<close> are the visible elements, \<open>extra\<close> a node that is linked but not visible yet.
\<close>

definition extra_ok :: "'a producer_pc \<Rightarrow> 'a LockFreeQueue \<Rightarrow> node_ptr list \<Rightarrow> bool" where
  "extra_ok pc q extra \<longleftrightarrow> (case pc of
      p_advance t \<Rightarrow> (\<exists>a. extra = [a] \<and> node_value (the (nodes q a)) = t) | _ \<Rightarrow> extra = [])"

definition consumer_ok :: "'a consumer_pc \<Rightarrow> 'a list \<Rightarrow> bool" where
  "consumer_ok pc ys \<longleftrightarrow> (case pc of c_load \<Rightarrow> ys \<noteq> [] | c_advance v \<Rightarrow> ys \<noteq> [] \<and> hd ys = v | _ \<Rightarrow> True)"

definition spsc_parts :: "'a spsc \<Rightarrow> node_ptr list \<Rightarrow> node_ptr list \<Rightarrow> node_ptr list \<Rightarrow> bool" where
  "spsc_parts s gs vs extra \<longleftrightarrow>
     shape (queue s) gs (vs @ extra) \<and> extra_ok (ppc s) (queue s) extra
     \<and> last_ptr (queue s) = last (divider (queue s) # vs)
     \<and> produced s = consumed s @ pending (queue s) vs
     \<and> consumer_ok (cpc s) (pending (queue s) vs)
     \<and> q_size (queue s) = int (length vs) - of_bool (ppc s = p_count) + of_bool (cpc s = c_count)"

lemma spsc_parts_new: "spsc_parts (new_spsc a dflt) [] [] []"
  by (simp add: spsc_parts_def new_spsc_def shape_new extra_ok_def consumer_ok_def,
      simp add: new_LockFreeQueue_def)

lemma spsc_parts_call: "spsc_parts s gs vs extra \<Longrightarrow> ppc s = p_idle \<Longrightarrow> spsc_parts (s\<lparr>ppc := p_link t\<rparr>) gs vs extra"
  by (auto simp: spsc_parts_def extra_ok_def)

lemma producer_step_parts:
  assumes p: "spsc_parts s gs vs extra" and a: "nodes (queue s) a = None"
  shows "\<exists>s' gs' vs' extra'. producer_step a s = Some s' \<and> spsc_parts s' gs' vs' extra'"
proof (cases "ppc s")
  case p_idle
  with p show ?thesis by (auto simp: producer_step_def)
next
  case (p_link t)
  from p p_link have e: "extra = []" by (simp add: spsc_parts_def extra_ok_def)
  from p have sh: "shape (queue s) gs vs" "last_ptr (queue s) = last (divider (queue s) # vs)"
    by (simp_all add: spsc_parts_def e)
  obtain q where q: "link_node a t (queue s) = Some q" "shape q gs (vs @ [a])"
    "pending q vs = pending (queue s) vs" "node_value (the (nodes q a)) = t"
    "first_ptr q = first_ptr (queue s)" "divider q = divider (queue s)" "last_ptr q = last_ptr (queue s)"
    "q_size q = q_size (queue s)"
    by (rule link_node_shape [OF sh a])
  have "spsc_parts (s\<lparr>queue := q, ppc := p_advance t\<rparr>) gs vs [a]"
    using p q p_link by (simp add: spsc_parts_def extra_ok_def)
  moreover have "producer_step a s = Some (s\<lparr>queue := q, ppc := p_advance t\<rparr>)"
    using p_link q(1) by (simp add: producer_step_def)
  ultimately show ?thesis by (intro exI conjI)
next
  case (p_advance t)
  from p p_advance obtain b where e: "extra = [b]" "node_value (the (nodes (queue s) b)) = t"
    by (auto simp: spsc_parts_def extra_ok_def)
  have "advance_last (queue s) = Some ((queue s)\<lparr>last_ptr := b\<rparr>)"
    using p unfolding spsc_parts_def e(1) by (intro advance_last_shape [of _ gs vs]) simp_all
  then have "producer_step a s = Some (s\<lparr>queue := (queue s)\<lparr>last_ptr := b\<rparr>, ppc := p_count, produced := produced s @ [t]\<rparr>)"
    using p_advance by (simp add: producer_step_def)
  moreover have "spsc_parts (s\<lparr>queue := (queue s)\<lparr>last_ptr := b\<rparr>, ppc := p_count, produced := produced s @ [t]\<rparr>) gs (vs @ [b]) []"
    using p e p_advance by (auto simp: spsc_parts_def extra_ok_def consumer_ok_def split: consumer_pc.splits)
  ultimately show ?thesis by (intro exI conjI)
next
  case p_count
  then have "spsc_parts (s\<lparr>queue := (queue s)\<lparr>q_size := q_size (queue s) + 1\<rparr>, ppc := p_trim\<rparr>) gs vs extra"
    using p by (auto simp: spsc_parts_def extra_ok_def)
  moreover have "producer_step a s = Some (s\<lparr>queue := (queue s)\<lparr>q_size := q_size (queue s) + 1\<rparr>, ppc := p_trim\<rparr>)"
    using p_count by (simp add: producer_step_def)
  ultimately show ?thesis by (intro exI conjI)
next
  case p_trim
  from p p_trim have e: "extra = []" by (simp add: spsc_parts_def extra_ok_def)
  from p have sh: "shape (queue s) gs vs" by (simp add: spsc_parts_def e)
  show ?thesis
  proof (cases gs)
    case Nil
    then have "producer_step a s = Some (s\<lparr>ppc := p_idle\<rparr>)"
      using p_trim shape_first [OF sh] by (simp add: producer_step_def)
    moreover have "spsc_parts (s\<lparr>ppc := p_idle\<rparr>) gs vs extra"
      using p p_trim by (auto simp: spsc_parts_def extra_ok_def)
    ultimately show ?thesis by (intro exI conjI)
  next
    case (Cons g gs')
    obtain q where q: "free_first (queue s) = Some q" "shape q gs' vs" "pending q vs = pending (queue s) vs"
      "divider q = divider (queue s)" "last_ptr q = last_ptr (queue s)" "q_size q = q_size (queue s)"
      by (rule free_first_shape [OF sh [unfolded Cons]])
    have "producer_step a s = Some (s\<lparr>queue := q\<rparr>)"
      using p_trim shape_first [OF sh] Cons q(1) by (simp add: producer_step_def)
    moreover have "spsc_parts (s\<lparr>queue := q\<rparr>) gs' vs extra"
      using p p_trim q e by (simp add: spsc_parts_def extra_ok_def)
    ultimately show ?thesis by (intro exI conjI)
  qed
qed

lemma consumer_step_parts:
  assumes p: "spsc_parts s gs vs extra"
  shows "\<exists>s' gs' vs'. consumer_step s = Some s' \<and> spsc_parts s' gs' vs' extra"
proof (cases "cpc s")
  case c_idle
  have "divider (queue s) \<noteq> last_ptr (queue s) \<longleftrightarrow> vs \<noteq> []"
    using p by (cases vs rule: rev_cases) (auto simp: spsc_parts_def shape_def)
  then show ?thesis
    using p c_idle by (cases "vs = []") (force simp: consumer_step_def spsc_parts_def consumer_ok_def)+
next
  case c_load
  from p c_load obtain u us where vs: "vs = u # us"
    by (cases vs) (auto simp: spsc_parts_def consumer_ok_def)
  have "shape (queue s) gs (u # us @ extra)" using p vs by (simp add: spsc_parts_def)
  from load_next_shape(1) [OF this]
  have "consumer_step s = Some (s\<lparr>cpc := c_advance (node_value (the (nodes (queue s) u)))\<rparr>)"
    using c_load by (simp add: consumer_step_def)
  moreover have "spsc_parts (s\<lparr>cpc := c_advance (node_value (the (nodes (queue s) u)))\<rparr>) gs vs extra"
    using p c_load vs by (simp add: spsc_parts_def consumer_ok_def)
  ultimately show ?thesis by (intro exI conjI)
next
  case (c_advance v)
  from p c_advance obtain u us where vs: "vs = u # us" "v = node_value (the (nodes (queue s) u))"
    by (cases vs) (auto simp: spsc_parts_def consumer_ok_def)
  have "shape (queue s) gs (u # us @ extra)" using p vs by (simp add: spsc_parts_def)
  note st = load_next_shape(2,3) [OF this]
  let ?s = "s\<lparr>queue := (queue s)\<lparr>divider := u\<rparr>, cpc := c_count, consumed := consumed s @ [v]\<rparr>"
  have "consumer_step s = Some ?s" using c_advance st(1) by (simp add: consumer_step_def)
  moreover have "spsc_parts ?s (gs @ [divider (queue s)]) us extra"
    using p c_advance vs st(2)
    by (auto simp: spsc_parts_def consumer_ok_def extra_ok_def split: producer_pc.splits)
  ultimately show ?thesis by (intro exI conjI)
next
  case c_count
  let ?s = "s\<lparr>queue := (queue s)\<lparr>q_size := q_size (queue s) - 1\<rparr>, cpc := c_idle\<rparr>"
  have "consumer_step s = Some ?s" using c_count by (simp add: consumer_step_def)
  moreover have "spsc_parts ?s gs vs extra"
    using p c_count by (simp add: spsc_parts_def consumer_ok_def extra_ok_def split: producer_pc.splits)
  ultimately show ?thesis by (intro exI conjI)
qed

lemma spsc_reach_parts: "spsc_reach a0 dflt s \<Longrightarrow> \<exists>gs vs extra. spsc_parts s gs vs extra"
proof (induction rule: spsc_reach.induct)
  case init
  show ?case by (intro exI) (rule spsc_parts_new)
next
  case (call s t)
  then show ?case by (elim exE) (intro exI, rule spsc_parts_call)
next
  case (producer s a s')
  then show ?case using producer_step_parts [of s _ _ _ a] by (metis option.inject)
next
  case (consumer s s')
  then show ?case using consumer_step_parts [of s] by (metis option.inject)
qed

text \<open>
  C14. Under every interleaving of a producer and a consumer thread, with an allocator that may
  reuse addresses, neither thread follows or frees a node that is not allocated, what was consumed
  is a prefix of what was produced in the same order, and every element that was produced and not
  consumed is still in the queue.
\<close>

theorem spsc_linearizable:
  assumes "spsc_reach a0 dflt s"
  shows "\<exists>rest. produced s = consumed s @ rest
      \<and> (divider (queue s) = last_ptr (queue s) \<longleftrightarrow> rest = [])
      \<and> (\<forall>a. nodes (queue s) a = None \<longrightarrow> producer_step a s \<noteq> None) \<and> consumer_step s \<noteq> None"
proof -
  obtain gs vs extra where p: "spsc_parts s gs vs extra" using spsc_reach_parts [OF assms] by blast
  have "divider (queue s) = last_ptr (queue s) \<longleftrightarrow> vs = []"
    using p by (cases vs rule: rev_cases) (auto simp: spsc_parts_def shape_def)
  moreover have "producer_step a s \<noteq> None" if "nodes (queue s) a = None" for a
    using producer_step_parts [OF p that] by auto
  moreover have "consumer_step s \<noteq> None" using consumer_step_parts [OF p] by auto
  ultimately show ?thesis
    using p by (intro exI [of _ "pending (queue s) vs"]) (simp add: spsc_parts_def)
qed

text \<open>The run in which the consumer takes the element before the producer has counted it.\<close>

definition racing :: "'a \<Rightarrow> 'a \<Rightarrow> 'a spsc" where
  "racing dflt t = \<lparr>queue = \<lparr>nodes = [0 \<mapsto> \<lparr>node_value = dflt, node_next = Some 1\<rparr>, 1 \<mapsto> new_Node t],
     first_ptr = 0, divider = 1, last_ptr = 1, q_size = -1\<rparr>, ppc = p_count, cpc = c_idle,
     produced = [t], consumed = [t]\<rparr>"

lemma racing_reach: "spsc_reach 0 dflt (racing dflt t)"
proof -
  have "spsc_reach 0 dflt ((new_spsc 0 dflt)\<lparr>ppc := p_link t\<rparr>)"
    by (rule spsc_reach.call [OF spsc_reach.init]) (simp add: new_spsc_def)
  then have "spsc_reach 0 dflt (the (producer_step 1 ((new_spsc 0 dflt)\<lparr>ppc := p_link t\<rparr>)))"
    by (rule spsc_reach.producer [where a = 1])
      (simp_all add: producer_step_def new_spsc_def new_LockFreeQueue_def link_node_def)
  then have "spsc_reach 0 dflt (the (producer_step 2 (the (producer_step 1 ((new_spsc 0 dflt)\<lparr>ppc := p_link t\<rparr>)))))"
    by (rule spsc_reach.producer [where a = 2])
      (simp_all add: producer_step_def new_spsc_def new_LockFreeQueue_def new_Node_def link_node_def advance_last_def)
  moreover have "the (producer_step 2 (the (producer_step 1 ((new_spsc 0 dflt)\<lparr>ppc := p_link t\<rparr>)))) =
     (racing dflt t)\<lparr>queue := (queue (racing dflt t))\<lparr>divider := 0, q_size := 0\<rparr>, consumed := []\<rparr>" (is "_ = ?s0")
    by (auto simp: producer_step_def new_spsc_def new_LockFreeQueue_def new_Node_def link_node_def
        advance_last_def racing_def)
  ultimately have "spsc_reach 0 dflt ?s0" by simp
  then have "spsc_reach 0 dflt (?s0\<lparr>cpc := c_load\<rparr>)"
    by (rule spsc_reach.consumer) (simp add: consumer_step_def racing_def)
  then have "spsc_reach 0 dflt (?s0\<lparr>cpc := c_advance t\<rparr>)"
    by (rule spsc_reach.consumer) (simp add: consumer_step_def racing_def load_next_def new_Node_def)
  then have "spsc_reach 0 dflt (?s0\<lparr>queue := (queue ?s0)\<lparr>divider := 1\<rparr>, cpc := c_count, consumed := [t]\<rparr>)"
    by (rule spsc_reach.consumer) (simp add: consumer_step_def racing_def advance_divider_def new_Node_def)
  then show ?thesis by (rule spsc_reach.consumer) (simp add: consumer_step_def racing_def)
qed

text \<open>
  The counter is exact while both threads are between calls; during calls it differs from the
  number of elements by at most one, and a consumer can bring it down to -1, but not further.
\<close>

theorem spsc_size_bounds:
  assumes "spsc_reach a0 dflt s"
  shows "(\<exists>n :: nat. length (produced s) = length (consumed s) + n
      \<and> \<bar>q_size (queue s) - int n\<bar> \<le> 1 \<and> -1 \<le> q_size (queue s)
      \<and> (ppc s = p_idle \<longrightarrow> cpc s = c_idle \<longrightarrow> q_size (queue s) = int n))
    \<and> (\<exists>s' :: 'a spsc. spsc_reach 0 dflt s' \<and> q_size (queue s') = -1)"
proof
  obtain gs vs extra where "spsc_parts s gs vs extra" using spsc_reach_parts [OF assms] by blast
  then show "\<exists>n :: nat. length (produced s) = length (consumed s) + n
      \<and> \<bar>q_size (queue s) - int n\<bar> \<le> 1 \<and> -1 \<le> q_size (queue s)
      \<and> (ppc s = p_idle \<longrightarrow> cpc s = c_idle \<longrightarrow> q_size (queue s) = int n)"
    by (intro exI [of _ "length vs"]) (auto simp: spsc_parts_def)
  show "\<exists>s' :: 'a spsc. spsc_reach 0 dflt s' \<and> q_size (queue s') = -1"
    using racing_reach [of dflt dflt] by (intro exI [of _ "racing dflt dflt"]) (simp add: racing_def)
qed

theorem spsc_linearizable_witness:
  "\<exists>rest. produced (racing (0 :: nat) 7) = consumed (racing 0 7) @ rest \<and> rest = []"
  using spsc_linearizable [OF racing_reach [of "0 :: nat" 7]] by (auto simp: racing_def)

theorem spsc_size_bounds_witness:
  "\<exists>n :: nat. length (produced (racing (0 :: nat) 7)) = length (consumed (racing (0 :: nat) 7)) + n
     \<and> \<bar>q_size (queue (racing (0 :: nat) 7)) - int n\<bar> \<le> 1"
  using spsc_size_bounds [OF racing_reach [of "0 :: nat" 7]] by blast

end
