(* ===== verification/Sockets.thy ===== *)
theory Sockets
  imports Prelude
begin

text \<open>
  \<^verbatim>\<open>base/socket.cpp\<close>: the wrappers around the socket system calls.  A system call is
  represented by its outcome, a result value or an \<^verbatim>\<open>errno\<close>; what the kernel answers
  is an argument.
\<close>

section \<open>Outcomes of system calls\<close>

datatype errno = EAGAIN | EWOULDBLOCK | EINTR | other_errno

datatype sys_result = sys_ok int | sys_error errno

text \<open>
  \<^verbatim>\<open>read\<close> on a stream socket: \<open>sys_ok 0\<close> is the end of the stream.
\<close>

definition sock_read_data :: "sys_result \<Rightarrow> int" where
  "sock_read_data r = (case r of
      sys_error e \<Rightarrow> if e = EAGAIN \<or> e = EWOULDBLOCK then 0 else -1
    | sys_ok nread \<Rightarrow> if nread = 0 then -1 else nread)"

definition sock_write_data :: "sys_result \<Rightarrow> int" where
  "sock_write_data r = (case r of
      sys_error e \<Rightarrow> if e = EAGAIN \<or> e = EWOULDBLOCK then 0 else -1
    | sys_ok nwritten \<Rightarrow> nwritten)"

definition sock_recv_from :: "sys_result \<Rightarrow> int" where
  "sock_recv_from r = (case r of
      sys_error e \<Rightarrow> if e = EAGAIN then 0 else -1
    | sys_ok received \<Rightarrow> if received = 0 then -1 else received)"

definition sock_send_to :: "sys_result \<Rightarrow> int" where
  "sock_send_to r = (case r of
      sys_error e \<Rightarrow> if e = EAGAIN then 0 else -1
    | sys_ok sent \<Rightarrow> if sent = 0 then -1 else sent)"

text \<open>
  The loop of \<^verbatim>\<open>generic_accept\<close> over the outcomes of successive
  \<^verbatim>\<open>accept\<close> calls; \<open>None\<close> when all of them were interrupted.
\<close>

fun generic_accept :: "sys_result list \<Rightarrow> int option" where
  "generic_accept [] = None"
| "generic_accept (sys_ok fd # rs) = Some fd"
| "generic_accept (sys_error e # rs) = (if e = EINTR then generic_accept rs else Some (-1))"

section \<open>Binding to a port range\<close>

text \<open>
  \<open>bindable\<close> says for which values of \<^verbatim>\<open>sin_port\<close> the call of \<^verbatim>\<open>bind\<close>
  succeeds (0 lets the system choose).  The result is the returned value and what
  \<^verbatim>\<open>sin_port\<close> holds in the end; \<open>None\<close> is the overflow of \<^verbatim>\<open>++port\<close>.
  The argument of \<^verbatim>\<open>htons\<close> is truncated to 16 bits.
\<close>

definition INT_MAX :: int where "INT_MAX = 2 ^ 31 - 1"

definition bind_result :: "(u16 \<Rightarrow> bool) \<Rightarrow> u16 \<Rightarrow> int" where
  "bind_result bindable sin_port = (if bindable sin_port then 0 else -1)"

function bind_range :: "(u16 \<Rightarrow> bool) \<Rightarrow> int \<Rightarrow> int \<Rightarrow> int \<Rightarrow> u16 \<Rightarrow> (int \<times> u16) option" where
  "bind_range bindable port max_port ret sin_port =
     (if port \<le> max_port \<and> ret \<noteq> 0
      then let sin_port = word_of_int port;
               ret = bind_result bindable sin_port
           in if port = INT_MAX then None else bind_range bindable (port + 1) max_port ret sin_port
      else Some (ret, sin_port))"
  by auto
termination
  by (relation "measure (\<lambda>(_, port, max_port, _). nat (max_port + 1 - port))") auto

declare bind_range.simps [simp del]

definition sock_bind :: "(u16 \<Rightarrow> bool) \<Rightarrow> u16 \<Rightarrow> int \<Rightarrow> int \<Rightarrow> (int \<times> u16) option" where
  "sock_bind bindable sin_port min_port max_port =
     (if min_port = 0 \<and> max_port = 0 then Some (bind_result bindable sin_port, sin_port)
      else bind_range bindable min_port max_port (-1) sin_port)"

lemma bind_range_found [simp]: "bind_range bindable port max_port 0 sin_port = Some (0, sin_port)"
  by (simp add: bind_range.simps)

lemma bind_range_find:
  "max_port < INT_MAX \<Longrightarrow>
   bind_range bindable port max_port (-1) sin_port =
     (case List.find (\<lambda>p. bindable (word_of_int p)) [port..max_port] of
        Some p \<Rightarrow> Some (0, word_of_int p)
      | None \<Rightarrow> Some (-1, if port \<le> max_port then word_of_int max_port else sin_port))"
proof (induction "nat (max_port + 1 - port)" arbitrary: port sin_port)
  case 0
  then show ?case by (simp add: bind_range.simps)
next
  case (Suc n)
  then have le: "port \<le> max_port" "port < INT_MAX" by simp_all
  have IH: "bind_range bindable (port + 1) max_port (-1) sin_port =
      (case List.find (\<lambda>p. bindable (word_of_int p)) [port + 1..max_port] of
         Some p \<Rightarrow> Some (0, word_of_int p)
       | None \<Rightarrow> Some (-1, if port + 1 \<le> max_port then word_of_int max_port else sin_port))" for sin_port
    using Suc.prems Suc.hyps(2) by (intro Suc.hyps(1)) simp_all
  show ?case
  proof (cases "port = max_port")
    case True
    then show ?thesis using le IH by (subst bind_range.simps) (simp add: bind_result_def upto_rec1 Let_def)
  next
    case False
    then show ?thesis using le IH
      by (subst bind_range.simps) (auto simp: bind_result_def upto_rec1 Let_def split: option.split)
  qed
qed

text \<open>
  C34. Binding to a configured port range whose upper bound is below the largest \<^verbatim>\<open>int\<close>
  ends: it returns 0 with the first port of the range bound on which \<^verbatim>\<open>bind\<close> succeeds,
  taken modulo \<open>2 ^ 16\<close>, and -1 when there is none, in particular for every range whose upper
  bound is below the lower one.
\<close>

theorem sock_bind_first_free:
  assumes "min_port \<noteq> 0 \<or> max_port \<noteq> 0" and "max_port < INT_MAX"
  shows "sock_bind bindable sin_port min_port max_port =
     (case List.find (\<lambda>p. bindable (word_of_int p)) [min_port..max_port] of
        Some p \<Rightarrow> Some (0, word_of_int p)
      | None \<Rightarrow> Some (-1, if min_port \<le> max_port then word_of_int max_port else sin_port))"
  using assms bind_range_find [of max_port bindable min_port sin_port] by (auto simp: sock_bind_def)

theorem sock_bind_first_free_witness: "sock_bind (\<lambda>p. 20001 \<le> p) 0 20000 20010 = Some (0, 20001)"
  using sock_bind_first_free [of 20000 20010 "\<lambda>p. 20001 \<le> p" 0]
  by (simp add: INT_MAX_def upto_rec1 word_le_def)

text \<open>A range that goes beyond the 16-bit ports wraps around to a port the system chooses.\<close>

theorem wide_range_binds_any_port:
  assumes "bindable 0" and "\<And>p. min_port \<le> p \<Longrightarrow> p < 65536 \<Longrightarrow> \<not> bindable (word_of_int p)"
    and "0 < min_port" "min_port \<le> 65536" "65536 \<le> max_port" "max_port < INT_MAX"
  shows "sock_bind bindable sin_port min_port max_port = Some (0, 0)"
proof -
  have zero: "(65536 :: u16) = 0" by simp
  have no: "\<not> bindable (word_of_int min_port + word_of_nat j)" if "j < nat (65536 - min_port)" for j
    using assms(2) [of "min_port + int j"] that by simp
  have "List.find (\<lambda>p. bindable (word_of_int p)) [min_port..max_port] = Some 65536"
    unfolding find_Some_iff using assms(1,3-5) no
    by (intro exI [of _ "nat (65536 - min_port)"]) (auto simp: nth_upto zero)
  then show ?thesis
    using bind_range_find [OF assms(6), of bindable min_port sin_port] assms(3) zero by (simp add: sock_bind_def)
qed

end
