(* ===== verification/Async_Udp_Socket.thy ===== *)
theory Async_Udp_Socket
  imports Sockets Stun "HOL-Library.Sublist"
begin

text \<open>
  \<^verbatim>\<open>base/event_loop.cpp\<close> (the events of an I/O watcher) and
  \<^verbatim>\<open>base/async_udp_socket.cpp\<close>: a non-blocking datagram socket that keeps packets
  the kernel did not take yet.  The kernel's answer to the \<open>k\<close>-th \<^verbatim>\<open>sendto\<close>
  of the socket is \<open>net k\<close>; the datagrams it accepted are appended to \<open>wire\<close>.
\<close>

section \<open>I/O watchers\<close>

definition EL_READ :: u32 where "EL_READ = 0x1"
definition EL_WRITE :: u32 where "EL_WRITE = 0x2"
definition EV_NONE :: u32 where "EV_NONE = 0x00"
definition EV_READ :: u32 where "EV_READ = 0x01"
definition EV_WRITE :: u32 where "EV_WRITE = 0x02"
definition EV_IOFDSET :: u32 where "EV_IOFDSET = 0x80"

definition TRANS_TO_EV_MASK :: "u32 \<Rightarrow> u32" where
  "TRANS_TO_EV_MASK msk = (if msk AND EL_READ \<noteq> 0 then EV_READ else 0) OR (if msk AND EL_WRITE \<noteq> 0 then EV_WRITE else 0)"

definition TRANS_FROM_EV_MASK :: "u32 \<Rightarrow> u32" where
  "TRANS_FROM_EV_MASK msk = (if msk AND EV_READ \<noteq> 0 then EL_READ else 0) OR (if msk AND EV_WRITE \<noteq> 0 then EL_WRITE else 0)"

text \<open>The fields of \<^verbatim>\<open>struct ev_io\<close> that the wrapper reads and writes.\<close>

record IOWatcher =
  io_active :: bool
  io_fd :: int
  io_events :: u32

definition create_io_event :: IOWatcher where
  "create_io_event = \<lparr>io_active = False, io_fd = 0, io_events = 0\<rparr>"

definition ev_io_set :: "int \<Rightarrow> u32 \<Rightarrow> IOWatcher \<Rightarrow> IOWatcher" where
  "ev_io_set fd events w = w\<lparr>io_fd := fd, io_events := events OR EV_IOFDSET\<rparr>"

definition ev_io_start :: "IOWatcher \<Rightarrow> IOWatcher" where
  "ev_io_start w =
     (if io_active w then w else w\<lparr>io_active := True, io_events := io_events w AND NOT EV_IOFDSET\<rparr>)"

definition ev_io_stop :: "IOWatcher \<Rightarrow> IOWatcher" where
  "ev_io_stop w = (if \<not> io_active w then w else w\<lparr>io_active := False\<rparr>)"

definition start_io_event :: "int \<Rightarrow> u32 \<Rightarrow> IOWatcher \<Rightarrow> IOWatcher" where
  "start_io_event fd msk w =
     (if io_active w
      then let active_events = TRANS_FROM_EV_MASK (io_events w);
               events = active_events OR msk
           in if events = active_events then w
              else ev_io_start (ev_io_set fd (TRANS_TO_EV_MASK events) (ev_io_stop w))
      else ev_io_start (ev_io_set fd (TRANS_TO_EV_MASK msk) w))"

definition stop_io_event :: "int \<Rightarrow> u32 \<Rightarrow> IOWatcher \<Rightarrow> IOWatcher" where
  "stop_io_event fd msk w =
     (let active_events = TRANS_FROM_EV_MASK (io_events w);
          events = active_events AND NOT msk
      in if events = active_events then w
         else let events = TRANS_TO_EV_MASK events; w = ev_io_stop w
              in if events \<noteq> EV_NONE then ev_io_start (ev_io_set fd events w) else w)"

text \<open>What the event loop polls for: reading and writing.\<close>

definition watches_read :: "IOWatcher \<Rightarrow> bool" where
  "watches_read w \<longleftrightarrow> io_active w \<and> io_events w AND EV_READ \<noteq> 0"

definition watches_write :: "IOWatcher \<Rightarrow> bool" where
  "watches_write w \<longleftrightarrow> io_active w \<and> io_events w AND EV_WRITE \<noteq> 0"

text \<open>A watcher that was set with flags for reading and writing only.\<close>

definition watcher_ok :: "IOWatcher \<Rightarrow> bool" where
  "watcher_ok w \<longleftrightarrow> io_events w \<in> {0, 1, 2, 3}"

lemmas ev_defs = EL_READ_def EL_WRITE_def EV_NONE_def EV_READ_def EV_WRITE_def EV_IOFDSET_def

lemmas watcher_defs = watcher_ok_def start_io_event_def stop_io_event_def watches_read_def watches_write_def
  TRANS_FROM_EV_MASK_def TRANS_TO_EV_MASK_def ev_io_set_def ev_io_start_def ev_io_stop_def Let_def

lemma watcher_cases:
  assumes "watcher_ok w"
  obtains b fd where "w = \<lparr>io_active = b, io_fd = fd, io_events = 0\<rparr>" | b fd where "w = \<lparr>io_active = b, io_fd = fd, io_events = 1\<rparr>"
  | b fd where "w = \<lparr>io_active = b, io_fd = fd, io_events = 2\<rparr>" | b fd where "w = \<lparr>io_active = b, io_fd = fd, io_events = 3\<rparr>"
  using assms by (cases w) (auto simp: watcher_ok_def)

lemma start_read_watches:
  assumes "watcher_ok w"
  shows "watcher_ok (start_io_event fd EL_READ w)"
    and "watches_read (start_io_event fd EL_READ w)"
    and "watches_write (start_io_event fd EL_READ w) \<longleftrightarrow> watches_write w"
  using assms by (cases rule: watcher_cases; simp add: watcher_defs ev_defs)+

lemma start_write_watches:
  assumes "watcher_ok w"
  shows "watcher_ok (start_io_event fd EL_WRITE w)"
    and "watches_write (start_io_event fd EL_WRITE w)"
    and "watches_read (start_io_event fd EL_WRITE w) \<longleftrightarrow> watches_read w"
  using assms by (cases rule: watcher_cases; simp add: watcher_defs ev_defs)+

lemma stop_write_watches:
  assumes "watcher_ok w"
  shows "watcher_ok (stop_io_event fd EL_WRITE w)"
    and "\<not> watches_write (stop_io_event fd EL_WRITE w)"
    and "watches_read w \<Longrightarrow> watches_read (stop_io_event fd EL_WRITE w)"
  using assms by (cases rule: watcher_cases; simp add: watcher_defs ev_defs)+

section \<open>The datagram socket\<close>

type_synonym udp_packet = "bytes \<times> SocketAddress"

record AsyncUdpSocket =
  as_socket :: int
  as_watcher :: IOWatcher
  udp_packet_list :: "udp_packet list"
  send_calls :: nat
  wire :: "udp_packet list"

definition MAX_BUF_SIZE :: nat where "MAX_BUF_SIZE = 1500"

definition new_AsyncUdpSocket :: "int \<Rightarrow> AsyncUdpSocket" where
  "new_AsyncUdpSocket fd = \<lparr>as_socket = fd, as_watcher = start_io_event fd EL_READ create_io_event,
     udp_packet_list = [], send_calls = 0, wire = []\<rparr>"

text \<open>The loop that \<^verbatim>\<open>send_data\<close> and \<^verbatim>\<open>_add_udp_packet\<close> share.\<close>

datatype flush_result = flush_done | flush_error | flush_again

fun flush_list :: "(nat \<Rightarrow> sys_result) \<Rightarrow> nat \<Rightarrow> udp_packet list \<Rightarrow> udp_packet list
    \<Rightarrow> flush_result \<times> nat \<times> udp_packet list \<times> udp_packet list" where
  "flush_list net k w [] = (flush_done, k, w, [])"
| "flush_list net k w (p # ps) =
     (let sent = sock_send_to (net k)
      in if sent < 0 then (flush_error, Suc k, w, ps)
         else if sent = 0 then (flush_again, Suc k, w, p # ps)
         else flush_list net (Suc k) (w @ [p]) ps)"

definition flush :: "(nat \<Rightarrow> sys_result) \<Rightarrow> AsyncUdpSocket \<Rightarrow> flush_result \<times> AsyncUdpSocket" where
  "flush net s = (let (r, k, w, l) = flush_list net (send_calls s) (wire s) (udp_packet_list s)
     in (r, s\<lparr>send_calls := k, wire := w, udp_packet_list := l\<rparr>))"

definition send_data :: "(nat \<Rightarrow> sys_result) \<Rightarrow> AsyncUdpSocket \<Rightarrow> AsyncUdpSocket" where
  "send_data net s = (let (r, s) = flush net s
     in case r of
          flush_error \<Rightarrow> s
        | flush_again \<Rightarrow> s
        | flush_done \<Rightarrow> if udp_packet_list s = []
            then s\<lparr>as_watcher := stop_io_event (as_socket s) EL_WRITE (as_watcher s)\<rparr> else s)"

text \<open>The code after the label \<^verbatim>\<open>SEND_AGAIN\<close>.\<close>

definition send_again :: "udp_packet \<Rightarrow> AsyncUdpSocket \<Rightarrow> int \<times> AsyncUdpSocket" where
  "send_again p s = (c_int (int (length (fst p))),
     s\<lparr>udp_packet_list := udp_packet_list s @ [p],
       as_watcher := start_io_event (as_socket s) EL_WRITE (as_watcher s)\<rparr>)"

definition add_udp_packet :: "(nat \<Rightarrow> sys_result) \<Rightarrow> udp_packet \<Rightarrow> AsyncUdpSocket \<Rightarrow> int \<times> AsyncUdpSocket" where
  "add_udp_packet net p s = (let (r, s) = flush net s
     in case r of
          flush_error \<Rightarrow> (-1, s)
        | flush_again \<Rightarrow> send_again p s
        | flush_done \<Rightarrow>
            let sent = sock_send_to (net (send_calls s)); s = s\<lparr>send_calls := Suc (send_calls s)\<rparr>
            in if sent < 0 then (-1, s)
               else if sent = 0 then send_again p s
               else (sent, s\<lparr>wire := wire s @ [p]\<rparr>))"

definition udp_send_to :: "(nat \<Rightarrow> sys_result) \<Rightarrow> bytes \<Rightarrow> SocketAddress \<Rightarrow> AsyncUdpSocket \<Rightarrow> int \<times> AsyncUdpSocket" where
  "udp_send_to net data addr s = add_udp_packet net (data, addr) s"

text \<open>
  \<^verbatim>\<open>recv_data\<close> over the datagrams that wait in the kernel: what is delivered to
  \<^verbatim>\<open>signal_read_packet\<close> and what is left.  \<^verbatim>\<open>recvfrom\<close> cuts a datagram
  that does not fit the buffer; an empty datagram ends the loop like an error.
\<close>

fun recv_data :: "udp_packet list \<Rightarrow> udp_packet list \<times> udp_packet list" where
  "recv_data [] = ([], [])"
| "recv_data ((d, addr) # ds) =
     (let buf = take MAX_BUF_SIZE d; len = sock_recv_from (sys_ok (int (length buf)))
      in if len \<le> 0 then ([], ds)
         else let (out, left) = recv_data ds in ((buf, addr) # out, left))"

section \<open>Order and loss\<close>

definition pending_packets :: "AsyncUdpSocket \<Rightarrow> udp_packet list" where
  "pending_packets s = wire s @ udp_packet_list s"

text \<open>Packets wait only while the loop polls for writing, and reading is polled for always.\<close>

definition socket_inv :: "AsyncUdpSocket \<Rightarrow> bool" where
  "socket_inv s \<longleftrightarrow> watcher_ok (as_watcher s) \<and> watches_read (as_watcher s)
     \<and> (udp_packet_list s \<noteq> [] \<longrightarrow> watches_write (as_watcher s))"

definition no_errors :: "(nat \<Rightarrow> sys_result) \<Rightarrow> bool" where
  "no_errors net \<longleftrightarrow> (\<forall>k. 0 \<le> sock_send_to (net k))"

lemma flush_list_spec:
  "flush_list net k w l = (r, k', w', l') \<Longrightarrow>
     subseq (w' @ l') (w @ l) \<and> (no_errors net \<longrightarrow> w' @ l' = w @ l \<and> r \<noteq> flush_error)
     \<and> (r = flush_done \<longrightarrow> l' = []) \<and> (l = [] \<longrightarrow> l' = [])"
proof (induction net k w l rule: flush_list.induct)
  case (2 net k w p ps)
  consider "sock_send_to (net k) < 0" | "sock_send_to (net k) = 0" | "sock_send_to (net k) > 0" by linarith
  then show ?case
  proof cases
    case 1
    then have "\<not> no_errors net" unfolding no_errors_def by (metis not_le)
    moreover have "subseq (w @ ps) (w @ p # ps)" by (intro list_emb_append_mono) auto
    ultimately show ?thesis using 2(2) 1 by simp
  next
    case 2
    then show ?thesis using "2.prems" by simp
  next
    case 3
    then show ?thesis using "2.IH" [OF refl] "2.prems" by simp
  qed
qed simp

datatype udp_event = udp_send udp_packet | udp_writable

fun udp_run :: "(nat \<Rightarrow> sys_result) \<Rightarrow> udp_event list \<Rightarrow> AsyncUdpSocket \<Rightarrow> AsyncUdpSocket" where
  "udp_run net [] s = s"
| "udp_run net (udp_send (d, a) # evs) s = udp_run net evs (snd (udp_send_to net d a s))"
| "udp_run net (udp_writable # evs) s = udp_run net evs (send_data net s)"

fun sent_packets :: "udp_event list \<Rightarrow> udp_packet list" where
  "sent_packets [] = []"
| "sent_packets (udp_send p # evs) = p # sent_packets evs"
| "sent_packets (udp_writable # evs) = sent_packets evs"

lemma flush_spec:
  assumes "flush net s = (r, s')"
  shows "subseq (pending_packets s') (pending_packets s)"
    and "no_errors net \<Longrightarrow> pending_packets s' = pending_packets s \<and> r \<noteq> flush_error"
    and "r = flush_done \<Longrightarrow> udp_packet_list s' = []"
    and "socket_inv s \<Longrightarrow> socket_inv s'"
    and "as_watcher s' = as_watcher s" and "as_socket s' = as_socket s"
proof -
  obtain k w l where f: "flush_list net (send_calls s) (wire s) (udp_packet_list s) = (r, k, w, l)"
    and s': "s' = s\<lparr>send_calls := k, wire := w, udp_packet_list := l\<rparr>"
    using assms by (auto simp: flush_def split: prod.splits)
  note sp = flush_list_spec [OF f]
  show "subseq (pending_packets s') (pending_packets s)"
    and "no_errors net \<Longrightarrow> pending_packets s' = pending_packets s \<and> r \<noteq> flush_error"
    and "r = flush_done \<Longrightarrow> udp_packet_list s' = []"
    and "socket_inv s \<Longrightarrow> socket_inv s'"
    and "as_watcher s' = as_watcher s" and "as_socket s' = as_socket s"
    using sp by (auto simp: s' pending_packets_def socket_inv_def)
qed

lemma send_data_spec:
  shows "subseq (pending_packets (send_data net s)) (pending_packets s)"
    and "no_errors net \<Longrightarrow> pending_packets (send_data net s) = pending_packets s"
    and "socket_inv s \<Longrightarrow> socket_inv (send_data net s)"
proof -
  obtain r s' where f: "flush net s = (r, s')" by fastforce
  note sp = flush_spec [OF f]
  have p: "pending_packets (send_data net s) = pending_packets s'"
    by (simp add: send_data_def f pending_packets_def split: flush_result.split)
  show "subseq (pending_packets (send_data net s)) (pending_packets s)"
    and "no_errors net \<Longrightarrow> pending_packets (send_data net s) = pending_packets s"
    unfolding p using sp(1,2) by simp_all
  show "socket_inv (send_data net s)" if "socket_inv s"
    using sp(4) [OF that] sp(3) stop_write_watches [of "as_watcher s'"]
    by (cases r) (simp_all add: send_data_def f socket_inv_def)
qed

lemma send_again_spec:
  shows "pending_packets (snd (send_again p s)) = pending_packets s @ [p]"
    and "socket_inv s \<Longrightarrow> socket_inv (snd (send_again p s))"
  using start_write_watches [of "as_watcher s"] by (simp_all add: send_again_def pending_packets_def socket_inv_def)

lemma udp_send_to_spec:
  shows "subseq (pending_packets (snd (udp_send_to net d a s))) (pending_packets s @ [(d, a)])"
    and "no_errors net \<Longrightarrow> pending_packets (snd (udp_send_to net d a s)) = pending_packets s @ [(d, a)]"
    and "socket_inv s \<Longrightarrow> socket_inv (snd (udp_send_to net d a s))"
proof -
  obtain r s' where f: "flush net s = (r, s')" by fastforce
  note sp = flush_spec [OF f]
  let ?t = "s'\<lparr>send_calls := Suc (send_calls s')\<rparr>"
  have t: "pending_packets ?t = pending_packets s'" "socket_inv ?t = socket_inv s'"
    by (simp_all add: pending_packets_def socket_inv_def)
  have cases: "snd (udp_send_to net d a s) = (case r of flush_error \<Rightarrow> s'
      | flush_again \<Rightarrow> snd (send_again (d, a) s')
      | flush_done \<Rightarrow> if sock_send_to (net (send_calls s')) < 0 then ?t
          else if sock_send_to (net (send_calls s')) = 0 then snd (send_again (d, a) ?t)
          else ?t\<lparr>wire := wire ?t @ [(d, a)]\<rparr>)"
    by (simp add: udp_send_to_def add_udp_packet_def f Let_def split: flush_result.split)
  have w: "pending_packets (?t\<lparr>wire := wire ?t @ [p]\<rparr>) = pending_packets s' @ [p]"
    "socket_inv (?t\<lparr>wire := wire ?t @ [p]\<rparr>) = socket_inv s'" if "r = flush_done" for p
    using sp(3) [OF that] by (simp_all add: pending_packets_def socket_inv_def)
  have drop: "subseq (pending_packets s') (pending_packets s @ [(d, a)])"
    using sp(1) by (rule subseq_rev_drop_many)
  have keep: "subseq (pending_packets s' @ [(d, a)]) (pending_packets s @ [(d, a)])"
    using sp(1) by simp
  show "subseq (pending_packets (snd (udp_send_to net d a s))) (pending_packets s @ [(d, a)])"
    unfolding cases using drop keep w t by (auto simp: send_again_spec split: flush_result.split)
  show "pending_packets (snd (udp_send_to net d a s)) = pending_packets s @ [(d, a)]" if "no_errors net"
    unfolding cases using sp(2) [OF that] that w t
    by (auto simp: send_again_spec no_errors_def not_less split: flush_result.split)
  show "socket_inv (snd (udp_send_to net d a s))" if "socket_inv s"
    unfolding cases using sp(4) [OF that] w t by (auto simp: send_again_spec split: flush_result.split)
qed

lemma udp_run_spec:
  "subseq (pending_packets (udp_run net evs s)) (pending_packets s @ sent_packets evs)
   \<and> (no_errors net \<longrightarrow> pending_packets (udp_run net evs s) = pending_packets s @ sent_packets evs)
   \<and> (socket_inv s \<longrightarrow> socket_inv (udp_run net evs s))"
proof (induction net evs s rule: udp_run.induct)
  case (2 net d a evs s)
  let ?s = "snd (udp_send_to net d a s)"
  have "subseq (pending_packets ?s @ sent_packets evs) ((pending_packets s @ [(d, a)]) @ sent_packets evs)"
    by (rule list_emb_append_mono [OF udp_send_to_spec(1)]) simp
  then show ?case
    using 2 udp_send_to_spec(2,3) [where s = s and d = d and a = a and net = net] subseq_order.trans by fastforce
next
  case (3 net evs s)
  have "subseq (pending_packets (send_data net s) @ sent_packets evs) (pending_packets s @ sent_packets evs)"
    by (rule list_emb_append_mono [OF send_data_spec(1)]) simp
  then show ?case
    using 3 send_data_spec(2,3) [where s = s and net = net] subseq_order.trans by fastforce
qed simp

lemma new_socket_inv: "socket_inv (new_AsyncUdpSocket fd)" "pending_packets (new_AsyncUdpSocket fd) = []"
proof -
  have "watcher_ok create_io_event" by (simp add: watcher_ok_def create_io_event_def)
  from start_read_watches(1,2) [OF this] show "socket_inv (new_AsyncUdpSocket fd)"
    by (simp add: socket_inv_def new_AsyncUdpSocket_def)
qed (simp add: pending_packets_def new_AsyncUdpSocket_def)

text \<open>
  C33. For every sequence of sends and writability events and every behaviour of the kernel,
  datagrams leave the socket in the order they were sent, none twice; without send errors none is
  lost: what was put on the wire followed by what waits is all that was sent.  As long as packets
  wait the event loop polls the socket for writing, and always for reading.
\<close>

theorem udp_socket_fifo:
  "subseq (wire (udp_run net evs (new_AsyncUdpSocket fd)) @ udp_packet_list (udp_run net evs (new_AsyncUdpSocket fd)))
     (sent_packets evs)
   \<and> (no_errors net \<longrightarrow>
       wire (udp_run net evs (new_AsyncUdpSocket fd)) @ udp_packet_list (udp_run net evs (new_AsyncUdpSocket fd))
         = sent_packets evs)
   \<and> socket_inv (udp_run net evs (new_AsyncUdpSocket fd))"
  using udp_run_spec [of net evs "new_AsyncUdpSocket fd"] new_socket_inv [of fd]
  by (simp add: pending_packets_def)

theorem udp_socket_fifo_witness:
  "wire (udp_run (\<lambda>k. if k = 0 then sys_error EAGAIN else sys_ok 1)
     [udp_send ([1], \<lparr>ipaddr = IPUnspec, sa_port = 0\<rparr>), udp_writable, udp_send ([2], \<lparr>ipaddr = IPUnspec, sa_port = 0\<rparr>)]
     (new_AsyncUdpSocket 5)) = [([1], \<lparr>ipaddr = IPUnspec, sa_port = 0\<rparr>), ([2], \<lparr>ipaddr = IPUnspec, sa_port = 0\<rparr>)]"
proof -
  let ?net = "\<lambda>k :: nat. if k = 0 then sys_error EAGAIN else sys_ok 1"
  let ?evs = "[udp_send ([1], \<lparr>ipaddr = IPUnspec, sa_port = 0\<rparr>), udp_writable,
     udp_send ([2], \<lparr>ipaddr = IPUnspec, sa_port = 0\<rparr>)]"
  have "no_errors ?net" by (simp add: no_errors_def sock_send_to_def)
  then have "wire (udp_run ?net ?evs (new_AsyncUdpSocket 5)) @ udp_packet_list (udp_run ?net ?evs (new_AsyncUdpSocket 5))
      = sent_packets ?evs"
    using udp_socket_fifo [of ?net ?evs 5] by blast
  moreover have "udp_packet_list (udp_run ?net ?evs (new_AsyncUdpSocket 5)) = []"
    by (simp add: udp_send_to_def add_udp_packet_def flush_def new_AsyncUdpSocket_def send_again_def
        send_data_def sock_send_to_def Let_def)
  ultimately show ?thesis by simp
qed

end
