(* ===== verification/Sds.thy ===== *)
theory Sds
  imports Prelude
begin

text \<open>
  \<^verbatim>\<open>rtc_base/yuan/sds.cc\<close>: the growable string that holds the bytes of a signalling
  connection.  The header fields are C \<^verbatim>\<open>int\<close>s, sizes are \<^verbatim>\<open>size_t\<close>
  computed modulo \<open>2 ^ 64\<close>; \<open>sds_buf\<close> is the allocated storage after the header.
  \<open>None\<close> is a store outside the allocation, a failed assertion, or an allocation of more than
  \<open>limit\<close> bytes, for which the allocator ends the process.
\<close>

section \<open>Operations\<close>

definition size_t :: "int \<Rightarrow> int" where "size_t x = x mod 2 ^ 64"

definition SDS_MAX_PREALLOC :: int where "SDS_MAX_PREALLOC = 1024 * 1024"
definition sizeof_sdshdr :: int where "sizeof_sdshdr = 8"

record sds =
  sds_len :: int
  sds_free :: int
  sds_buf :: bytes

definition sdslen :: "sds \<Rightarrow> int" where "sdslen s = size_t (sds_len s)"
definition sdsavail :: "sds \<Rightarrow> int" where "sdsavail s = size_t (sds_free s)"

definition sdsnewlen :: "bytes \<Rightarrow> sds" where
  "sdsnewlen init = \<lparr>sds_len = c_int (int (length init)), sds_free = 0, sds_buf = init @ [0]\<rparr>"

definition sdsempty :: sds where "sdsempty = sdsnewlen []"

text \<open>Storage that \<^verbatim>\<open>zrealloc\<close> keeps and adds (the added bytes are indeterminate in C).\<close>

definition resize :: "nat \<Rightarrow> bytes \<Rightarrow> bytes" where
  "resize n b = take n b @ replicate (n - length b) 0"

definition grown_length :: "int \<Rightarrow> int" where
  "grown_length newlen = (if newlen < SDS_MAX_PREALLOC then size_t (newlen * 2)
     else size_t (newlen + SDS_MAX_PREALLOC))"

definition sdsMakeRoomFor :: "int \<Rightarrow> int \<Rightarrow> sds \<Rightarrow> sds option" where
  "sdsMakeRoomFor limit addlen s =
     (if sdsavail s \<ge> addlen then Some s
      else let len = sdslen s;
               newlen = grown_length (size_t (len + addlen));
               total = size_t (sizeof_sdshdr + newlen + 1)
           in if total > limit then None
              else Some (s\<lparr>sds_free := c_int (newlen - len),
                          sds_buf := resize (nat (total - sizeof_sdshdr)) (sds_buf s)\<rparr>))"

text \<open>A store of \<open>d\<close> at offset \<open>off\<close> through the string pointer.\<close>

definition sds_store :: "nat \<Rightarrow> bytes \<Rightarrow> sds \<Rightarrow> sds option" where
  "sds_store off d s = (if d = [] then Some s
     else if off + length d \<le> length (sds_buf s)
     then Some (s\<lparr>sds_buf := take off (sds_buf s) @ d @ drop (off + length d) (sds_buf s)\<rparr>) else None)"

definition sdsIncrLen :: "int \<Rightarrow> sds \<Rightarrow> sds option" where
  "sdsIncrLen incr s =
     (if sds_free s \<ge> incr
      then let s = s\<lparr>sds_len := sds_len s + incr, sds_free := sds_free s - incr\<rparr>
           in if 0 \<le> sds_len s then sds_store (nat (sds_len s)) [0] s else None
      else None)"

definition sdsclear :: "sds \<Rightarrow> sds option" where
  "sdsclear s = sds_store 0 [0] (s\<lparr>sds_free := sds_free s + sds_len s, sds_len := 0\<rparr>)"

definition sdscatlen :: "int \<Rightarrow> bytes \<Rightarrow> sds \<Rightarrow> sds option" where
  "sdscatlen limit t s = do {
     let curlen = sdslen s;
     s \<leftarrow> sdsMakeRoomFor limit (int (length t)) s;
     s \<leftarrow> sds_store (nat curlen) t s;
     let s = s\<lparr>sds_len := c_int (curlen + int (length t)), sds_free := c_int (size_t (sds_free s) - int (length t))\<rparr>;
     sds_store (nat curlen + length t) [0] s
   }"

section \<open>Well-formed strings\<close>

definition sds_contents :: "sds \<Rightarrow> bytes" where
  "sds_contents s = take (nat (sds_len s)) (sds_buf s)"

definition sds_ok :: "sds \<Rightarrow> bool" where
  "sds_ok s \<longleftrightarrow> 0 \<le> sds_len s \<and> 0 \<le> sds_free s \<and> sds_len s + sds_free s < 2 ^ 31
     \<and> int (length (sds_buf s)) = sds_len s + sds_free s + 1"

lemma size_t_id [simp]: "0 \<le> x \<Longrightarrow> x < 2 ^ 64 \<Longrightarrow> size_t x = x"
  by (simp add: size_t_def)

lemma sdsempty_ok [simp]: "sds_ok sdsempty" "sds_contents sdsempty = []" "sds_len sdsempty = 0"
  by (simp_all add: sds_ok_def sdsempty_def sdsnewlen_def sds_contents_def c_int_id)

lemma sdslen_ok [simp]: "sds_ok s \<Longrightarrow> sdslen s = sds_len s" "sds_ok s \<Longrightarrow> sdsavail s = sds_free s"
  by (simp_all add: sds_ok_def sdslen_def sdsavail_def)

lemma sds_len_contents: "sds_ok s \<Longrightarrow> sds_len s = int (length (sds_contents s))"
  by (auto simp: sds_ok_def sds_contents_def)

lemma take_resize: "n \<le> m \<Longrightarrow> n \<le> length b \<Longrightarrow> take n (resize m b) = take n b"
  by (simp add: resize_def min_def)

lemma length_resize [simp]: "length (resize n b) = n"
  by (simp add: resize_def)

text \<open>
  \<open>room limit n\<close>: \<open>n\<close> bytes are few enough that growing a string to that length overflows
  neither the \<^verbatim>\<open>int\<close> fields nor the allocator.
\<close>

definition room :: "int \<Rightarrow> int \<Rightarrow> bool" where
  "room limit n \<longleftrightarrow> 2 * n + SDS_MAX_PREALLOC < 2 ^ 31 \<and> 2 * n + SDS_MAX_PREALLOC + 9 \<le> limit"

lemma sdsMakeRoomFor_ok:
  assumes s: "sds_ok s" and add: "0 \<le> addlen" and room: "room limit (sds_len s + addlen)"
  shows "\<exists>s'. sdsMakeRoomFor limit addlen s = Some s' \<and> sds_ok s' \<and> sds_contents s' = sds_contents s
    \<and> sds_len s' = sds_len s \<and> addlen \<le> sds_free s'"
proof (cases "sds_free s \<ge> addlen")
  case True
  then show ?thesis using s by (simp add: sdsMakeRoomFor_def)
next
  case False
  define n where "n = sds_len s + addlen"
  define g where "g = (if n < SDS_MAX_PREALLOC then n * 2 else n + SDS_MAX_PREALLOC)"
  have len: "0 \<le> sds_len s" "0 \<le> sds_free s" using s by (auto simp: sds_ok_def)
  have bound: "n \<le> g" "g < 2 ^ 31" "g + 9 \<le> limit"
    using room add len by (auto simp: room_def n_def g_def SDS_MAX_PREALLOC_def)
  then have n: "0 \<le> n" "n < 2 ^ 31" using len add by (auto simp: n_def)
  have g: "grown_length (size_t n) = g"
    using n bound by (auto simp: grown_length_def g_def SDS_MAX_PREALLOC_def split: if_splits)
  have total: "size_t (sizeof_sdshdr + g + 1) = g + 9"
    using n bound by (simp add: sizeof_sdshdr_def)
  have c: "c_int (g - sds_len s) = g - sds_len s"
    using bound len add by (intro c_int_id) (auto simp: n_def)
  let ?s = "s\<lparr>sds_free := g - sds_len s, sds_buf := resize (nat (g + 1)) (sds_buf s)\<rparr>"
  have eight: "g + 9 - sizeof_sdshdr = g + 1" by (simp add: sizeof_sdshdr_def)
  have "sdsMakeRoomFor limit addlen s = Some ?s"
    using False bound(3) unfolding sdsMakeRoomFor_def sdslen_ok [OF s] Let_def n_def [symmetric] g total c eight
    by simp
  moreover have "sds_ok ?s" using s bound add by (auto simp: sds_ok_def n_def)
  moreover have "sds_contents ?s = sds_contents s"
  proof -
    have "nat (sds_len s) \<le> nat (g + 1)" "nat (sds_len s) \<le> length (sds_buf s)"
      using s bound(1) add by (auto simp: sds_ok_def n_def)
    then show ?thesis by (simp add: sds_contents_def take_resize)
  qed
  moreover have "addlen \<le> sds_free ?s" using bound by (simp add: n_def)
  ultimately show ?thesis by (intro exI [of _ ?s]) simp
qed

text \<open>Reading \<open>d\<close> into the free space and then moving the end, as \<^verbatim>\<open>_read_query\<close> does.\<close>

lemma sds_store_incr:
  assumes "sds_ok s" and "int (length d) \<le> sds_free s"
  shows "\<exists>s1 s2. sds_store (nat (sds_len s)) d s = Some s1 \<and> sdsIncrLen (int (length d)) s1 = Some s2
    \<and> sds_ok s2 \<and> sds_contents s2 = sds_contents s @ d"
proof -
  define n where "n = nat (sds_len s)"
  have n: "sds_len s = int n" "n + length d < length (sds_buf s)"
    using assms by (auto simp: sds_ok_def n_def)
  let ?b = "take n (sds_buf s) @ d @ drop (n + length d) (sds_buf s)"
  let ?s1 = "s\<lparr>sds_buf := ?b\<rparr>"
  let ?m = "n + length d"
  let ?s2 = "s\<lparr>sds_buf := take ?m ?b @ [0] @ drop (?m + 1) ?b, sds_len := sds_len s + int (length d),
     sds_free := sds_free s - int (length d)\<rparr>"
  have lb: "length ?b = length (sds_buf s)" using n by simp
  have t: "take ?m ?b = take n (sds_buf s) @ d" using n by simp
  have "sds_store (nat (sds_len s)) d s = Some ?s1" using n by (simp add: sds_store_def)
  moreover have "sdsIncrLen (int (length d)) ?s1 = Some ?s2"
    using assms(2) n lb by (simp add: sdsIncrLen_def sds_store_def nat_add_distrib)
  moreover have "sds_ok ?s2" using assms n by (auto simp: sds_ok_def)
  moreover have "sds_contents ?s2 = sds_contents s @ d"
    using n by (simp add: sds_contents_def nat_add_distrib)
  ultimately show ?thesis by (intro exI conjI)
qed

text \<open>
  Appending to a well-formed string whose new length leaves room below the limits gives a
  well-formed string with the appended contents; no byte is stored outside the allocation.
\<close>

theorem sdscatlen_appends:
  assumes "sds_ok s" and "room limit (sds_len s + int (length t))"
  shows "\<exists>s'. sdscatlen limit t s = Some s' \<and> sds_ok s' \<and> sds_contents s' = sds_contents s @ t"
proof -
  obtain s1 where s1: "sdsMakeRoomFor limit (int (length t)) s = Some s1" "sds_ok s1"
    "sds_contents s1 = sds_contents s" "sds_len s1 = sds_len s" "int (length t) \<le> sds_free s1"
    using sdsMakeRoomFor_ok [OF assms(1) _ assms(2)] by auto
  obtain s2 s3 where st: "sds_store (nat (sds_len s1)) t s1 = Some s2" "sdsIncrLen (int (length t)) s2 = Some s3"
    "sds_ok s3" "sds_contents s3 = sds_contents s1 @ t"
    using sds_store_incr [OF s1(2,5)] by blast
  have s2: "sds_free s2 = sds_free s1" "sds_len s2 = sds_len s1"
    using st(1) by (auto simp: sds_store_def split: if_splits)
  have b: "0 \<le> sds_len s1" "sds_len s1 + int (length t) < 2 ^ 31" "0 \<le> sds_free s1" "sds_free s1 < 2 ^ 31"
    using s1(2,5) by (auto simp: sds_ok_def)
  have "sdscatlen limit t s = sdsIncrLen (int (length t)) s2"
    using s1 st(1) s2 b assms(1)
    by (simp add: sdscatlen_def sdsIncrLen_def c_int_id nat_add_distrib Let_def)
  with st s1(3) show ?thesis by simp
qed

theorem sdscatlen_appends_witness:
  "\<exists>s'. sdscatlen (2 ^ 30) (bytes_of ''abc'') sdsempty = Some s' \<and> sds_contents s' = bytes_of ''abc''"
  using sdscatlen_appends [of sdsempty "2 ^ 30" "bytes_of ''abc''"]
  by (auto simp: room_def SDS_MAX_PREALLOC_def)

end
