(* ===== verification/Signaling_Worker.thy ===== *)
theory Signaling_Worker
  imports Async_Udp_Socket Sds
begin

text \<open>
  \<^verbatim>\<open>server/tcp_connection.cpp\<close> and \<^verbatim>\<open>server/signaling_worker.cpp\<close>:
  the framing of signalling requests on a TCP connection, their dispatch to the RTC server, and the
  replies.  Connections are heap objects that the table \<open>sw_conns\<close> points to; \<open>None\<close>
  as a result is undefined behaviour (a null or dangling pointer, an access outside a buffer) or a
  loop that does not end.  What the kernel delivers, the result of the notification pipe and
  \<^verbatim>\<open>jsoncpp\<close> are arguments.
\<close>

section \<open>Data\<close>

definition XHEAD_SIZE :: int where "XHEAD_SIZE = 36"
definition XHEAD_MAGIC_NUM :: u32 where "XHEAD_MAGIC_NUM = 0xfb202202"
definition CMDNO_PUSH :: int where "CMDNO_PUSH = 1"
definition CMDNO_PULL :: int where "CMDNO_PULL = 2"
definition CMDNO_ANSWER :: int where "CMDNO_ANSWER = 3"
definition CMDNO_STOPPUSH :: int where "CMDNO_STOPPUSH = 4"
definition CMDNO_STOPPULL :: int where "CMDNO_STOPPULL = 5"
definition MAX_RES_BUF :: nat where "MAX_RES_BUF = 4096"

text \<open>
  Access to the fields of \<^verbatim>\<open>xhead_t\<close> in memory, on the little-endian hosts the server
  is built for.
\<close>

definition le32 :: "bytes \<Rightarrow> u32" where
  "le32 b = (case b of [b0, b1, b2, b3] \<Rightarrow>
     ucast b0 OR push_bit 8 (ucast b1) OR push_bit 16 (ucast b2) OR push_bit 24 (ucast b3) | _ \<Rightarrow> 0)"

definition le32_split :: "u32 \<Rightarrow> bytes" where
  "le32_split v = [ucast v, ucast (drop_bit 8 v), ucast (drop_bit 16 v), ucast (drop_bit 24 v)]"

definition xhead_log_id :: "bytes \<Rightarrow> u32 option" where "xhead_log_id b = map_option le32 (mem_read b 4 4)"
definition xhead_magic_num :: "bytes \<Rightarrow> u32 option" where "xhead_magic_num b = map_option le32 (mem_read b 24 4)"
definition xhead_body_len :: "bytes \<Rightarrow> u32 option" where "xhead_body_len b = map_option le32 (mem_read b 32 4)"

type_synonym conn_ptr = nat

record RtcMsg =
  m_cmdno :: int
  m_uid :: u64
  m_stream_name :: bytes
  m_stream_type :: bytes
  m_audio :: int
  m_video :: int
  m_log_id :: u32
  m_worker :: "nat option"
  m_conn :: "conn_ptr option"
  m_fd :: int
  m_sdp :: bytes
  m_err_no :: int
  m_certificate :: "nat option"

definition new_RtcMsg :: RtcMsg where
  "new_RtcMsg = \<lparr>m_cmdno = -1, m_uid = 0, m_stream_name = [], m_stream_type = [], m_audio = 0, m_video = 0,
     m_log_id = 0, m_worker = None, m_conn = None, m_fd = 0, m_sdp = [], m_err_no = 0, m_certificate = None\<rparr>"

datatype conn_state = STATE_HEAD | STATE_BODY

text \<open>A reply: the allocated buffer and the number of bytes to send from it.\<close>

record Slice =
  slice_data :: bytes
  slice_size :: nat

record TcpConnection =
  c_fd :: int
  io_watcher :: IOWatcher
  querybuf :: sds
  bytes_expected :: int
  bytes_processed :: int
  current_state :: conn_state
  last_interaction :: int
  reply_list :: "Slice list"
  cur_resp_pos :: nat

definition new_TcpConnection :: "int \<Rightarrow> TcpConnection" where
  "new_TcpConnection fd = \<lparr>c_fd = fd, io_watcher = create_io_event, querybuf = sdsempty,
     bytes_expected = XHEAD_SIZE, bytes_processed = 0, current_state = STATE_HEAD, last_interaction = 0,
     reply_list = [], cur_resp_pos = 0\<rparr>"

text \<open>
  The state of one signalling worker.  \<open>rtc_server_q\<close> is the message queue of the RTC server,
  \<open>closed_fds\<close> and \<open>written\<close> record the descriptors closed and the bytes written.
\<close>

record SignalingWorker =
  sw_id :: nat
  connection_timeout :: int
  sw_conns :: "conn_ptr option list"
  sw_heap :: "conn_ptr \<rightharpoonup> TcpConnection"
  sw_q_conn :: "int list"
  sw_q_msg :: "RtcMsg list"
  rtc_server_q :: "RtcMsg list"
  closed_fds :: "int list"
  written :: "(int \<times> bytes) list"
  sw_stopped :: bool

definition new_SignalingWorker :: "nat \<Rightarrow> int \<Rightarrow> SignalingWorker" where
  "new_SignalingWorker i timeout = \<lparr>sw_id = i, connection_timeout = timeout, sw_conns = [], sw_heap = Map.empty,
     sw_q_conn = [], sw_q_msg = [], rtc_server_q = [], closed_fds = [], written = [], sw_stopped = False\<rparr>"

section \<open>The JSON library\<close>

text \<open>
  The operations of \<^verbatim>\<open>jsoncpp\<close> that the worker calls: parsing (\<open>None\<close> when it reports
  an error), typed access to a member (\<open>None\<close> is an exception) and printing of an object.
\<close>

datatype json_field = jint int | jstr bytes

record 'j jsoncpp =
  json_parse :: "bytes \<Rightarrow> 'j option"
  json_asInt :: "'j \<Rightarrow> string \<Rightarrow> int option"
  json_asUInt64 :: "'j \<Rightarrow> string \<Rightarrow> u64 option"
  json_asString :: "'j \<Rightarrow> string \<Rightarrow> bytes option"
  json_write :: "(string \<times> json_field) list \<Rightarrow> bytes"

section \<open>Connections\<close>

definition upd_tcp :: "conn_ptr \<Rightarrow> TcpConnection \<Rightarrow> SignalingWorker \<Rightarrow> SignalingWorker" where
  "upd_tcp p c w = w\<lparr>sw_heap := (sw_heap w)(p \<mapsto> c)\<rparr>"

text \<open>The address of the new object is an argument, as for every allocation.\<close>

definition new_conn :: "int \<Rightarrow> conn_ptr \<Rightarrow> int \<Rightarrow> SignalingWorker \<Rightarrow> SignalingWorker option" where
  "new_conn now p fd w =
     (if fd < 0 then Some w
      else let c = (new_TcpConnection fd)\<lparr>io_watcher := start_io_event fd EL_READ create_io_event,
                     last_interaction := now\<rparr>;
               conns = (if nat fd \<ge> length (sw_conns w)
                        then take (nat (c_int (fd * 2))) (sw_conns w)
                             @ replicate (nat (c_int (fd * 2)) - length (sw_conns w)) None
                        else sw_conns w)
           in if nat fd < length conns
              then Some (upd_tcp p c (w\<lparr>sw_conns := conns[nat fd := Some p]\<rparr>))
              else None)"

definition remove_conn :: "conn_ptr \<Rightarrow> SignalingWorker \<Rightarrow> SignalingWorker option" where
  "remove_conn p w = (case sw_heap w p of None \<Rightarrow> None
     | Some c \<Rightarrow> if 0 \<le> c_fd c \<and> nat (c_fd c) < length (sw_conns w)
         then Some (w\<lparr>sw_conns := (sw_conns w)[nat (c_fd c) := None], sw_heap := (sw_heap w)(p := None)\<rparr>)
         else None)"

definition close_conn :: "conn_ptr \<Rightarrow> SignalingWorker \<Rightarrow> SignalingWorker option" where
  "close_conn p w = (case sw_heap w p of None \<Rightarrow> None
     | Some c \<Rightarrow> remove_conn p (w\<lparr>closed_fds := closed_fds w @ [c_fd c]\<rparr>))"

definition add_reply :: "conn_ptr \<Rightarrow> Slice \<Rightarrow> SignalingWorker \<Rightarrow> SignalingWorker option" where
  "add_reply p reply w = (case sw_heap w p of None \<Rightarrow> None
     | Some c \<Rightarrow> Some (upd_tcp p (c\<lparr>reply_list := reply_list c @ [reply],
         io_watcher := start_io_event (c_fd c) EL_WRITE (io_watcher c)\<rparr>) w))"

text \<open>
  The reply that both senders build: \<^verbatim>\<open>malloc(XHEAD_SIZE + MAX_RES_BUF)\<close>, the request's
  header with \<^verbatim>\<open>body_len\<close> replaced, and \<^verbatim>\<open>snprintf\<close> of the body, which
  stores at most \<^verbatim>\<open>MAX_RES_BUF - 1\<close> characters and a terminator.
\<close>

definition make_reply :: "bytes \<Rightarrow> bytes \<Rightarrow> Slice" where
  "make_reply header json_data =
     \<lparr>slice_data = take 32 header @ le32_split (of_nat (length json_data))
        @ take (MAX_RES_BUF - 1) json_data @ replicate (MAX_RES_BUF - min (MAX_RES_BUF - 1) (length json_data)) 0,
      slice_size = nat XHEAD_SIZE + unat (of_nat (length json_data) :: u32)\<rparr>"

section \<open>Requests\<close>

text \<open>\<^verbatim>\<open>RtcServer::send_rtc_msg\<close>; \<open>ok\<close> is the outcome of the write to the pipe.\<close>

definition send_rtc_msg :: "bool \<Rightarrow> RtcMsg \<Rightarrow> SignalingWorker \<Rightarrow> int \<times> SignalingWorker" where
  "send_rtc_msg ok msg w = ((if ok then 0 else -1), w\<lparr>rtc_server_q := rtc_server_q w @ [msg]\<rparr>)"

definition process_push :: "'j jsoncpp \<Rightarrow> bool \<Rightarrow> int \<Rightarrow> conn_ptr \<Rightarrow> int \<Rightarrow> 'j \<Rightarrow> u32 \<Rightarrow> SignalingWorker
    \<Rightarrow> int \<times> SignalingWorker" where
  "process_push json ok cmdno p fd root log_id w =
     (case do { uid \<leftarrow> json_asUInt64 json root ''uid'';
                stream_name \<leftarrow> json_asString json root ''stream_name'';
                audio \<leftarrow> json_asInt json root ''audio'';
                video \<leftarrow> json_asInt json root ''video'';
                Some (new_RtcMsg\<lparr>m_cmdno := cmdno, m_uid := uid, m_stream_name := stream_name, m_audio := audio,
                  m_video := video, m_log_id := log_id, m_worker := Some (sw_id w), m_conn := Some p, m_fd := fd\<rparr>) }
      of None \<Rightarrow> (-1, w) | Some msg \<Rightarrow> send_rtc_msg ok msg w)"

definition process_pull :: "'j jsoncpp \<Rightarrow> bool \<Rightarrow> int \<Rightarrow> conn_ptr \<Rightarrow> int \<Rightarrow> 'j \<Rightarrow> u32 \<Rightarrow> SignalingWorker
    \<Rightarrow> int \<times> SignalingWorker" where
  "process_pull json ok cmdno p fd root log_id w =
     (case do { uid \<leftarrow> json_asUInt64 json root ''uid'';
                stream_name \<leftarrow> json_asString json root ''stream_name'';
                audio \<leftarrow> json_asInt json root ''audio'';
                video \<leftarrow> json_asInt json root ''video'';
                Some (new_RtcMsg\<lparr>m_cmdno := cmdno, m_uid := uid, m_stream_name := stream_name, m_audio := audio,
                  m_video := video, m_log_id := log_id, m_worker := Some (sw_id w), m_conn := Some p, m_fd := fd\<rparr>) }
      of None \<Rightarrow> (-1, w) | Some msg \<Rightarrow> send_rtc_msg ok msg w)"

definition process_stop_push :: "'j jsoncpp \<Rightarrow> bool \<Rightarrow> int \<Rightarrow> 'j \<Rightarrow> u32 \<Rightarrow> SignalingWorker
    \<Rightarrow> int \<times> SignalingWorker" where
  "process_stop_push json ok cmdno root log_id w =
     (case do { uid \<leftarrow> json_asUInt64 json root ''uid'';
                stream_name \<leftarrow> json_asString json root ''stream_name'';
                Some (new_RtcMsg\<lparr>m_cmdno := cmdno, m_uid := uid, m_stream_name := stream_name, m_log_id := log_id\<rparr>) }
      of None \<Rightarrow> (-1, w) | Some msg \<Rightarrow> send_rtc_msg ok msg w)"

definition process_stop_pull :: "'j jsoncpp \<Rightarrow> bool \<Rightarrow> int \<Rightarrow> 'j \<Rightarrow> u32 \<Rightarrow> SignalingWorker
    \<Rightarrow> int \<times> SignalingWorker" where
  "process_stop_pull json ok cmdno root log_id w =
     (case do { uid \<leftarrow> json_asUInt64 json root ''uid'';
                stream_name \<leftarrow> json_asString json root ''stream_name'';
                Some (new_RtcMsg\<lparr>m_cmdno := cmdno, m_uid := uid, m_stream_name := stream_name, m_log_id := log_id\<rparr>) }
      of None \<Rightarrow> (-1, w) | Some msg \<Rightarrow> send_rtc_msg ok msg w)"

definition process_answer :: "'j jsoncpp \<Rightarrow> bool \<Rightarrow> int \<Rightarrow> 'j \<Rightarrow> u32 \<Rightarrow> SignalingWorker
    \<Rightarrow> int \<times> SignalingWorker" where
  "process_answer json ok cmdno root log_id w =
     (case do { uid \<leftarrow> json_asUInt64 json root ''uid'';
                stream_name \<leftarrow> json_asString json root ''stream_name'';
                answer \<leftarrow> json_asString json root ''answer'';
                stream_type \<leftarrow> json_asString json root ''type'';
                Some (new_RtcMsg\<lparr>m_cmdno := cmdno, m_uid := uid, m_stream_name := stream_name, m_sdp := answer,
                  m_stream_type := stream_type, m_log_id := log_id\<rparr>) }
      of None \<Rightarrow> (-1, w) | Some msg \<Rightarrow> send_rtc_msg ok msg w)"

definition process_request :: "'j jsoncpp \<Rightarrow> bool \<Rightarrow> conn_ptr \<Rightarrow> bytes \<Rightarrow> bytes \<Rightarrow> SignalingWorker
    \<Rightarrow> (int \<times> SignalingWorker) option" where
  "process_request json ok p header body w = do {
     c \<leftarrow> sw_heap w p;
     log_id \<leftarrow> xhead_log_id header;
     (case json_parse json body of None \<Rightarrow> Some (-1, w)
      | Some root \<Rightarrow> (case json_asInt json root ''cmdno'' of None \<Rightarrow> Some (-1, w)
         | Some cmdno \<Rightarrow>
             if cmdno = CMDNO_PUSH then Some (process_push json ok cmdno p (c_fd c) root log_id w)
             else if cmdno = CMDNO_PULL then Some (process_pull json ok cmdno p (c_fd c) root log_id w)
             else let (ret, w) =
                    (if cmdno = CMDNO_STOPPUSH then process_stop_push json ok cmdno root log_id w
                     else if cmdno = CMDNO_STOPPULL then process_stop_pull json ok cmdno root log_id w
                     else if cmdno = CMDNO_ANSWER then process_answer json ok cmdno root log_id w
                     else (-1, w));
                  res_root = (if ret = 0 then [(''err_no'', jint 0), (''err_msg'', jstr (bytes_of ''success''))]
                              else [(''err_no'', jint (-1)), (''err_msg'', jstr (bytes_of ''process error''))])
                in map_option (Pair 0) (add_reply p (make_reply header (json_write json res_root)) w)))
   }"

section \<open>Reading\<close>

text \<open>
  One round of the loop of \<^verbatim>\<open>_process_query_buffer\<close>: \<open>Inl\<close> is the return from the
  function, \<open>Inr\<close> the next round and \<open>None\<close> an access outside the buffer.  The whole loop
  is also \<open>None\<close> when it does not end; \<open>query_rounds\<close>, which runs a given number of
  rounds, tells the two apart.
\<close>

definition query_round :: "'j jsoncpp \<Rightarrow> bool \<Rightarrow> conn_ptr \<Rightarrow> SignalingWorker
    \<Rightarrow> ((int \<times> SignalingWorker) + SignalingWorker) option" where
  "query_round json ok p w = do {
     c \<leftarrow> sw_heap w p;
     (if sdslen (querybuf c) \<ge> bytes_processed c + bytes_expected c
      then do {
        magic_num \<leftarrow> xhead_magic_num (sds_buf (querybuf c));
        body_len \<leftarrow> xhead_body_len (sds_buf (querybuf c));
        (if current_state c = STATE_HEAD
         then if XHEAD_MAGIC_NUM \<noteq> magic_num then Some (Inl (-1, w))
              else Some (Inr (upd_tcp p (c\<lparr>current_state := STATE_BODY,
                     bytes_processed := XHEAD_SIZE, bytes_expected := int (unat body_len)\<rparr>) w))
         else do {
           header \<leftarrow> mem_read (sds_buf (querybuf c)) 0 (nat XHEAD_SIZE);
           body \<leftarrow> mem_read (sds_buf (querybuf c)) (nat XHEAD_SIZE) (unat body_len);
           (ret, w) \<leftarrow> process_request json ok p header body w;
           (if ret \<noteq> 0 then Some (Inl (-1, w))
            else do {
              c \<leftarrow> sw_heap w p;
              Some (Inr (upd_tcp p (c\<lparr>bytes_processed := 65535\<rparr>) w))
            })
         })
      }
      else Some (Inl (0, w)))
   }"

partial_function (option) process_query_buffer :: "'j jsoncpp \<Rightarrow> bool \<Rightarrow> conn_ptr \<Rightarrow> SignalingWorker
    \<Rightarrow> (int \<times> SignalingWorker) option" where
  "process_query_buffer json ok p w = do {
     r \<leftarrow> query_round json ok p w;
     (case r of Inl res \<Rightarrow> Some res | Inr w \<Rightarrow> process_query_buffer json ok p w)
   }"

primrec query_rounds :: "'j jsoncpp \<Rightarrow> bool \<Rightarrow> conn_ptr \<Rightarrow> nat \<Rightarrow> SignalingWorker
    \<Rightarrow> ((int \<times> SignalingWorker) + SignalingWorker) option" where
  "query_rounds json ok p 0 w = Some (Inr w)"
| "query_rounds json ok p (Suc n) w = do {
     r \<leftarrow> query_round json ok p w;
     (case r of Inl res \<Rightarrow> Some (Inl res) | Inr w \<Rightarrow> query_rounds json ok p n w)
   }"

text \<open>The outcome of the \<^verbatim>\<open>read\<close> call: data (none at the end of the stream) or an error.\<close>

datatype read_outcome = rd_ok bytes | rd_error errno

fun read_result :: "read_outcome \<Rightarrow> sys_result" where
  "read_result (rd_ok d) = sys_ok (int (length d))"
| "read_result (rd_error e) = sys_error e"

fun read_bytes :: "read_outcome \<Rightarrow> bytes" where
  "read_bytes (rd_ok d) = d"
| "read_bytes (rd_error e) = []"

text \<open>
  \<^verbatim>\<open>read\<close> of Linux fails for a count that does not fit into \<^verbatim>\<open>ssize_t\<close>, whatever
  has arrived.
\<close>

definition SSIZE_MAX :: int where "SSIZE_MAX = 2 ^ 63 - 1"

definition kernel_read :: "int \<Rightarrow> read_outcome \<Rightarrow> read_outcome" where
  "kernel_read count rd = (if count > SSIZE_MAX then rd_error other_errno else rd)"

text \<open>The number of bytes asked from the kernel: the \<^verbatim>\<open>int\<close> is converted to \<^verbatim>\<open>size_t\<close>.\<close>

definition read_count :: "TcpConnection \<Rightarrow> int" where
  "read_count c = size_t (c_int (bytes_expected c))"

definition read_query :: "int \<Rightarrow> 'j jsoncpp \<Rightarrow> bool \<Rightarrow> int \<Rightarrow> read_outcome \<Rightarrow> int \<Rightarrow> SignalingWorker
    \<Rightarrow> SignalingWorker option" where
  "read_query limit json ok now rd fd w =
     (if fd < 0 \<or> nat fd \<ge> length (sw_conns w) then Some w
      else do {
        p \<leftarrow> sw_conns w ! nat fd;
        c \<leftarrow> sw_heap w p;
        let qb_len = nat (sdslen (querybuf c));
        buf \<leftarrow> sdsMakeRoomFor limit (read_count c) (querybuf c);
        let rd = kernel_read (read_count c) rd;
        buf \<leftarrow> sds_store qb_len (read_bytes rd) buf;
        let nread = sock_read_data (read_result rd);
        let c = c\<lparr>querybuf := buf, last_interaction := now\<rparr>;
        (if nread = -1 then close_conn p (upd_tcp p c w)
         else do {
           buf \<leftarrow> (if nread > 0 then sdsIncrLen nread buf else Some buf);
           (ret, w) \<leftarrow> process_query_buffer json ok p (upd_tcp p (c\<lparr>querybuf := buf\<rparr>) w);
           (if ret \<noteq> 0 then close_conn p w else Some w)
         })
      })"

section \<open>Writing\<close>

datatype write_end = wr_finished | wr_closed | wr_looping

text \<open>
  The loop of \<^verbatim>\<open>_write_reply\<close> over the successive outcomes of \<^verbatim>\<open>write\<close>: the bytes
  handed to the kernel are added to the output, and \<open>wr_looping\<close> says that it is still looping
  when the outcomes are used up.
\<close>

fun write_loop :: "sys_result list \<Rightarrow> Slice list \<Rightarrow> nat \<Rightarrow> bytes
    \<Rightarrow> (write_end \<times> Slice list \<times> nat \<times> bytes) option" where
  "write_loop rs [] pos out = Some (wr_finished, [], pos, out)"
| "write_loop [] (reply # l) pos out = Some (wr_looping, reply # l, pos, out)"
| "write_loop (r # rs) (reply # l) pos out =
     (case mem_read (slice_data reply) pos (slice_size reply - pos) of None \<Rightarrow> None
      | Some buf \<Rightarrow>
         let nwritten = sock_write_data r
         in if nwritten = -1 then Some (wr_closed, l, pos, out)
            else if nwritten = 0 then write_loop rs (reply # l) pos out
            else if nat nwritten + pos \<ge> slice_size reply
                 then write_loop rs l 0 (out @ take (nat nwritten) buf)
                 else write_loop rs (reply # l) (pos + nat nwritten) (out @ take (nat nwritten) buf))"

definition write_reply :: "int \<Rightarrow> sys_result list \<Rightarrow> int \<Rightarrow> SignalingWorker
    \<Rightarrow> (write_end \<times> SignalingWorker) option" where
  "write_reply now rs fd w =
     (if fd \<le> 0 \<or> nat fd \<ge> length (sw_conns w) then Some (wr_finished, w)
      else (case sw_conns w ! nat fd of None \<Rightarrow> Some (wr_finished, w)
        | Some p \<Rightarrow> do {
            c \<leftarrow> sw_heap w p;
            (r, l, pos, out) \<leftarrow> write_loop rs (reply_list c) (cur_resp_pos c) [];
            let w = upd_tcp p (c\<lparr>reply_list := l, cur_resp_pos := pos\<rparr>) (w\<lparr>written := written w @ [(fd, out)]\<rparr>);
            (case r of
               wr_closed \<Rightarrow> map_option (Pair wr_closed) (close_conn p w)
             | wr_looping \<Rightarrow> Some (wr_looping, w)
             | wr_finished \<Rightarrow> Some (wr_finished, upd_tcp p (c\<lparr>reply_list := [], cur_resp_pos := pos,
                 last_interaction := now, io_watcher := stop_io_event fd EL_WRITE (io_watcher c)\<rparr>) w))
          }))"

section \<open>Timeouts and notifications\<close>

definition process_timeout :: "int \<Rightarrow> conn_ptr \<Rightarrow> SignalingWorker \<Rightarrow> SignalingWorker option" where
  "process_timeout now p w = do {
     c \<leftarrow> sw_heap w p;
     (if size_t (now - last_interaction c) \<ge> size_t (connection_timeout w) then close_conn p w else Some w)
   }"

definition sw_push_msg :: "RtcMsg \<Rightarrow> SignalingWorker \<Rightarrow> SignalingWorker" where
  "sw_push_msg msg w = w\<lparr>sw_q_msg := sw_q_msg w @ [msg]\<rparr>"

definition sw_pop_msg :: "SignalingWorker \<Rightarrow> RtcMsg option \<times> SignalingWorker" where
  "sw_pop_msg w = (case sw_q_msg w of [] \<Rightarrow> (None, w) | msg # q \<Rightarrow> (Some msg, w\<lparr>sw_q_msg := q\<rparr>))"

definition response_server_offer :: "'j jsoncpp \<Rightarrow> RtcMsg \<Rightarrow> SignalingWorker \<Rightarrow> SignalingWorker option" where
  "response_server_offer json msg w =
     (case m_conn msg of None \<Rightarrow> Some w
      | Some p \<Rightarrow>
          if m_fd msg \<le> 0 \<or> nat (m_fd msg) \<ge> length (sw_conns w) then Some w
          else if sw_conns w ! nat (m_fd msg) \<noteq> Some p then Some w
          else do {
            c \<leftarrow> sw_heap w p;
            header \<leftarrow> mem_read (sds_buf (querybuf c)) 0 (nat XHEAD_SIZE);
            let res_root = (''err_no'', jint (m_err_no msg)) #
              (if m_err_no msg \<noteq> 0
               then [(''err_msg'', jstr (bytes_of ''process error'')), (''offer'', jstr [])]
               else [(''err_msg'', jstr (bytes_of ''success'')), (''offer'', jstr (m_sdp msg))]);
            add_reply p (make_reply header (json_write json res_root)) w
          })"

definition sw_process_rtc_msg :: "'j jsoncpp \<Rightarrow> SignalingWorker \<Rightarrow> SignalingWorker option" where
  "sw_process_rtc_msg json w = (case sw_pop_msg w of
      (None, w) \<Rightarrow> Some w
    | (Some msg, w) \<Rightarrow> if m_cmdno msg = CMDNO_PUSH \<or> m_cmdno msg = CMDNO_PULL
        then response_server_offer json msg w else Some w)"

definition SW_QUIT :: int where "SW_QUIT = 0"
definition SW_NEW_CONN :: int where "SW_NEW_CONN = 1"
definition SW_RTC_MSG :: int where "SW_RTC_MSG = 2"

definition sw_process_notify :: "'j jsoncpp \<Rightarrow> int \<Rightarrow> conn_ptr \<Rightarrow> int \<Rightarrow> SignalingWorker \<Rightarrow> SignalingWorker option" where
  "sw_process_notify json now p msg w =
     (if msg = SW_QUIT then Some (w\<lparr>sw_stopped := True\<rparr>)
      else if msg = SW_NEW_CONN then
        (case sw_q_conn w of [] \<Rightarrow> Some w | fd # q \<Rightarrow> new_conn now p fd (w\<lparr>sw_q_conn := q\<rparr>))
      else if msg = SW_RTC_MSG then sw_process_rtc_msg json w
      else Some w)"

definition notify_new_conn :: "int \<Rightarrow> SignalingWorker \<Rightarrow> SignalingWorker" where
  "notify_new_conn fd w = w\<lparr>sw_q_conn := sw_q_conn w @ [fd]\<rparr>"

text \<open>\<^verbatim>\<open>conn_io_cb\<close>: reading first, then writing.\<close>

definition conn_io_cb :: "int \<Rightarrow> 'j jsoncpp \<Rightarrow> bool \<Rightarrow> int \<Rightarrow> read_outcome \<Rightarrow> sys_result list \<Rightarrow> u32 \<Rightarrow> int
    \<Rightarrow> SignalingWorker \<Rightarrow> (write_end \<times> SignalingWorker) option" where
  "conn_io_cb limit json ok now rd rs events fd w = do {
     w \<leftarrow> (if events AND EL_READ \<noteq> 0 then read_query limit json ok now rd fd w else Some w);
     (if events AND EL_WRITE \<noteq> 0 then write_reply now rs fd w else Some (wr_finished, w))
   }"

section \<open>Framing\<close>

abbreviation magic_of :: "bytes \<Rightarrow> u32" where "magic_of recv \<equiv> le32 (take 4 (drop 24 recv))"
abbreviation body_len_of :: "bytes \<Rightarrow> nat" where "body_len_of recv \<equiv> unat (le32 (take 4 (drop 32 recv)))"

text \<open>
  A connection that has received \<open>recv\<close> and waits for more bytes, and one whose new bytes have
  not been looked at yet.
\<close>

definition conn_repr :: "TcpConnection \<Rightarrow> bytes \<Rightarrow> bool" where
  "conn_repr c recv \<longleftrightarrow> sds_ok (querybuf c) \<and> sds_contents (querybuf c) = recv
     \<and> (if length recv < 36
        then current_state c = STATE_HEAD \<and> bytes_processed c = 0 \<and> bytes_expected c = 36
        else current_state c = STATE_BODY \<and> bytes_processed c = 36 \<and> magic_of recv = XHEAD_MAGIC_NUM
          \<and> bytes_expected c = int (body_len_of recv) \<and> length recv < 36 + body_len_of recv)"

definition conn_pre :: "TcpConnection \<Rightarrow> bytes \<Rightarrow> bool" where
  "conn_pre c recv \<longleftrightarrow> sds_ok (querybuf c) \<and> sds_contents (querybuf c) = recv
     \<and> (current_state c = STATE_HEAD \<and> bytes_processed c = 0 \<and> bytes_expected c = 36
        \<or> current_state c = STATE_BODY \<and> bytes_processed c = 36 \<and> 36 \<le> length recv
          \<and> magic_of recv = XHEAD_MAGIC_NUM \<and> bytes_expected c = int (body_len_of recv))"

lemma upd_tcp_heap [simp]: "sw_heap (upd_tcp p c w) p = Some c" "sw_conns (upd_tcp p c w) = sw_conns w"
  "upd_tcp p c' (upd_tcp p c w) = upd_tcp p c' w" "rtc_server_q (upd_tcp p c w) = rtc_server_q w"
  "sw_id (upd_tcp p c w) = sw_id w"
  by (simp_all add: upd_tcp_def)

lemma upd_tcp_same [simp]: "sw_heap w p = Some c \<Longrightarrow> upd_tcp p c w = w"
  by (simp add: upd_tcp_def fun_upd_idem)

lemma mem_read_sds:
  assumes "sds_ok s" and "off + n \<le> length (sds_contents s)"
  shows "mem_read (sds_buf s) off n = Some (take n (drop off (sds_contents s)))"
proof -
  have "length (sds_contents s) \<le> length (sds_buf s)" by (simp add: sds_contents_def)
  moreover have "take n (drop off (sds_contents s)) = take n (drop off (sds_buf s))"
    using assms(2) by (auto simp: sds_contents_def drop_take min_def split: if_splits)
  ultimately show ?thesis using assms(2) by (simp add: mem_read_def)
qed

lemma xhead_sds:
  assumes "sds_ok s" and "sds_contents s = recv" and "36 \<le> length recv"
  shows "xhead_magic_num (sds_buf s) = Some (magic_of recv)"
    and "xhead_body_len (sds_buf s) = Some (le32 (take 4 (drop 32 recv)))"
    and "mem_read (sds_buf s) 0 36 = Some (take 36 recv)"
    and "36 + n \<le> length recv \<Longrightarrow> mem_read (sds_buf s) 36 n = Some (take n (drop 36 recv))"
  using assms mem_read_sds [of s] by (simp_all add: xhead_magic_num_def xhead_body_len_def)

lemma add_reply_effect:
  assumes "sw_heap w p = Some c"
  shows "\<exists>c'. add_reply p r w = Some (upd_tcp p c' w) \<and> querybuf c' = querybuf c
    \<and> bytes_expected c' = bytes_expected c \<and> current_state c' = current_state c \<and> c_fd c' = c_fd c"
  using assms
  by (intro exI [of _ "c\<lparr>reply_list := reply_list c @ [r], io_watcher := start_io_event (c_fd c) EL_WRITE (io_watcher c)\<rparr>"])
    (simp add: add_reply_def)

lemma send_rtc_msg_effect:
  "send_rtc_msg ok msg w = (ret, w') \<Longrightarrow> sw_heap w' = sw_heap w \<and> sw_conns w' = sw_conns w"
  by (auto simp: send_rtc_msg_def)

lemma process_commands_effect:
  "process_push json ok cmdno p fd root log_id w = (ret, w') \<Longrightarrow> sw_heap w' = sw_heap w \<and> sw_conns w' = sw_conns w"
  "process_pull json ok cmdno p fd root log_id w = (ret, w') \<Longrightarrow> sw_heap w' = sw_heap w \<and> sw_conns w' = sw_conns w"
  "process_stop_push json ok cmdno root log_id w = (ret, w') \<Longrightarrow> sw_heap w' = sw_heap w \<and> sw_conns w' = sw_conns w"
  "process_stop_pull json ok cmdno root log_id w = (ret, w') \<Longrightarrow> sw_heap w' = sw_heap w \<and> sw_conns w' = sw_conns w"
  "process_answer json ok cmdno root log_id w = (ret, w') \<Longrightarrow> sw_heap w' = sw_heap w \<and> sw_conns w' = sw_conns w"
  unfolding process_push_def process_pull_def process_stop_push_def process_stop_pull_def process_answer_def
  by (auto split: option.splits dest: send_rtc_msg_effect)

text \<open>A request changes its own connection only by a reply, and no other connection.\<close>

lemma process_request_effect:
  assumes c: "sw_heap w p = Some c" and h: "length header = 36"
  shows "\<exists>ret w' c'. process_request json ok p header body w = Some (ret, w')
    \<and> sw_heap w' = (sw_heap w)(p \<mapsto> c') \<and> sw_conns w' = sw_conns w
    \<and> querybuf c' = querybuf c \<and> bytes_expected c' = bytes_expected c \<and> current_state c' = current_state c
    \<and> c_fd c' = c_fd c"
proof -
  have log: "xhead_log_id header = Some (le32 (take 4 (drop 4 header)))"
    using h by (simp add: xhead_log_id_def)
  have same: "(sw_heap w)(p \<mapsto> c) = sw_heap w" using c by auto
  have reply: "\<exists>w' c'. map_option (Pair 0) (add_reply p r w1) = Some (0 :: int, w')
      \<and> sw_heap w' = (sw_heap w)(p \<mapsto> c') \<and> sw_conns w' = sw_conns w
      \<and> querybuf c' = querybuf c \<and> bytes_expected c' = bytes_expected c \<and> current_state c' = current_state c
      \<and> c_fd c' = c_fd c"
    if "sw_heap w1 = sw_heap w" "sw_conns w1 = sw_conns w" for r w1
    using add_reply_effect [of w1 p c r] that c by (auto simp: upd_tcp_def)
  let ?other = "\<lambda>cmdno root log_id. (if cmdno = CMDNO_STOPPUSH then process_stop_push json ok cmdno root log_id w
      else if cmdno = CMDNO_STOPPULL then process_stop_pull json ok cmdno root log_id w
      else if cmdno = CMDNO_ANSWER then process_answer json ok cmdno root log_id w else (-1, w))"
  have other: "sw_heap (snd (?other cmdno root log_id)) = sw_heap w
      \<and> sw_conns (snd (?other cmdno root log_id)) = sw_conns w" for cmdno root log_id
    using process_commands_effect(3-5) [of json ok cmdno root log_id w] by (auto simp: prod_eq_iff)
  show ?thesis
  proof (cases "json_parse json body")
    case None
    then show ?thesis using c log same by (simp add: process_request_def) (metis fun_upd_triv)
  next
    case (Some root)
    show ?thesis
    proof (cases "json_asInt json root ''cmdno''")
      case None
      then show ?thesis using Some c log same by (simp add: process_request_def) (metis fun_upd_triv)
    next
      case cmd: (Some cmdno)
      consider "cmdno = CMDNO_PUSH" | "cmdno \<noteq> CMDNO_PUSH" "cmdno = CMDNO_PULL"
        | "cmdno \<noteq> CMDNO_PUSH" "cmdno \<noteq> CMDNO_PULL" by blast
      then show ?thesis
      proof cases
        case 1
        obtain ret w' where r: "process_push json ok cmdno p (c_fd c) root (le32 (take 4 (drop 4 header))) w = (ret, w')"
          by fastforce
        then show ?thesis
          using 1 Some cmd c log same process_commands_effect(1) [OF r] by (simp add: process_request_def) (metis)
      next
        case 2
        obtain ret w' where r: "process_pull json ok cmdno p (c_fd c) root (le32 (take 4 (drop 4 header))) w = (ret, w')"
          by fastforce
        then show ?thesis
          using 2 Some cmd c log same process_commands_effect(2) [OF r] by (simp add: process_request_def) (metis)
      next
        case 3
        let ?l = "le32 (take 4 (drop 4 header))"
        obtain ret w1 where o: "?other cmdno root ?l = (ret, w1)" by fastforce
        have "sw_heap w1 = sw_heap w" "sw_conns w1 = sw_conns w" using other [of cmdno root ?l] unfolding o by simp_all
        from reply [OF this] show ?thesis
          using 3 Some cmd c log o unfolding process_request_def by (auto simp: Let_def)
      qed
    qed
  qed
qed

declare of_nat_unat [simp del]

text \<open>What happens once the whole request is in the buffer of \<open>c\<close>.\<close>

definition finish_request :: "'j jsoncpp \<Rightarrow> bool \<Rightarrow> conn_ptr \<Rightarrow> bytes \<Rightarrow> bytes \<Rightarrow> SignalingWorker
    \<Rightarrow> (int \<times> SignalingWorker) option" where
  "finish_request json ok p header body w = do {
     (ret, w) \<leftarrow> process_request json ok p header body w;
     (if ret \<noteq> 0 then Some (-1, w)
      else do { c \<leftarrow> sw_heap w p; Some (0, upd_tcp p (c\<lparr>bytes_processed := 65535\<rparr>) w) })
   }"

abbreviation in_body :: "TcpConnection \<Rightarrow> bytes \<Rightarrow> TcpConnection" where
  "in_body c recv \<equiv> c\<lparr>current_state := STATE_BODY, bytes_processed := 36, bytes_expected := int (body_len_of recv)\<rparr>"

lemma process_query_buffer_wait:
  "sw_heap w p = Some c \<Longrightarrow> sdslen (querybuf c) < bytes_processed c + bytes_expected c \<Longrightarrow> process_query_buffer json ok p w = Some (0, w)"
  by (subst process_query_buffer.simps) (simp add: query_round_def)

lemma process_body:
  assumes c: "sw_heap w p = Some c" and ok: "sds_ok (querybuf c)" "sds_contents (querybuf c) = recv"
    and st: "current_state c = STATE_BODY" "bytes_processed c = 36" "bytes_expected c = int (body_len_of recv)"
    and len: "36 + body_len_of recv \<le> length recv" "length recv < 65535 + body_len_of recv"
  shows "process_query_buffer json ok' p w
    = finish_request json ok' p (take 36 recv) (take (body_len_of recv) (drop 36 recv)) w"
proof -
  let ?h = "take 36 recv" and ?b = "take (body_len_of recv) (drop 36 recv)"
  have l: "sdslen (querybuf c) = int (length recv)" using ok by (simp add: sds_len_contents)
  obtain ret w' c' where r: "process_request json ok' p ?h ?b w = Some (ret, w')"
    "sw_heap w' = (sw_heap w)(p \<mapsto> c')" "querybuf c' = querybuf c" "bytes_expected c' = bytes_expected c"
    using process_request_effect [OF c, of ?h json ok' ?b] len by auto
  have again: "process_query_buffer json ok' p (upd_tcp p (c'\<lparr>bytes_processed := 65535\<rparr>) w')
      = Some (0, upd_tcp p (c'\<lparr>bytes_processed := 65535\<rparr>) w')"
    by (rule process_query_buffer_wait [of _ _ "c'\<lparr>bytes_processed := 65535\<rparr>"]) (use l len r st in simp_all)
  show ?thesis
    by (subst process_query_buffer.simps)
      (use c l len st xhead_sds [OF ok] r again in \<open>simp add: query_round_def finish_request_def XHEAD_SIZE_def\<close>)
qed

lemma process_query_buffer_cases:
  assumes c: "sw_heap w p = Some c" and pre: "conn_pre c recv"
    and len: "length recv < 65535 + body_len_of recv"
  shows "length recv < 36 \<Longrightarrow> process_query_buffer json ok p w = Some (0, w) \<and> conn_repr c recv"
    and "36 \<le> length recv \<Longrightarrow> magic_of recv \<noteq> XHEAD_MAGIC_NUM \<Longrightarrow> process_query_buffer json ok p w = Some (-1, w)"
    and "36 \<le> length recv \<Longrightarrow> magic_of recv = XHEAD_MAGIC_NUM \<Longrightarrow> length recv < 36 + body_len_of recv \<Longrightarrow>
      process_query_buffer json ok p w = Some (0, upd_tcp p (in_body c recv) w) \<and> conn_repr (in_body c recv) recv"
    and "magic_of recv = XHEAD_MAGIC_NUM \<Longrightarrow> 36 + body_len_of recv \<le> length recv \<Longrightarrow>
      process_query_buffer json ok p w
        = finish_request json ok p (take 36 recv) (take (body_len_of recv) (drop 36 recv)) (upd_tcp p (in_body c recv) w)"
proof -
  have ok: "sds_ok (querybuf c)" "sds_contents (querybuf c) = recv" using pre by (simp_all add: conn_pre_def)
  have l: "sdslen (querybuf c) = int (length recv)" using ok by (simp add: sds_len_contents)
  have body: "c = in_body c recv" if "current_state c \<noteq> STATE_HEAD" using pre that by (auto simp: conn_pre_def)
  have head: "bytes_processed c = 0" "bytes_expected c = 36" if "current_state c = STATE_HEAD"
    using pre that by (auto simp: conn_pre_def)
  have step: "process_query_buffer json ok p w = process_query_buffer json ok p (upd_tcp p (in_body c recv) w)"
    if "36 \<le> length recv" "magic_of recv = XHEAD_MAGIC_NUM"
  proof (cases "current_state c = STATE_HEAD")
    case True
    show ?thesis
      by (subst process_query_buffer.simps)
        (use c l that True head xhead_sds [OF ok] in \<open>simp add: query_round_def XHEAD_SIZE_def\<close>)
  next
    case False
    then show ?thesis using c body by (metis upd_tcp_same)
  qed
  show "process_query_buffer json ok p w = Some (0, w) \<and> conn_repr c recv" if "length recv < 36"
    using pre that c l process_query_buffer_wait [OF c] by (auto simp: conn_pre_def conn_repr_def)
  show "process_query_buffer json ok p w = Some (-1, w)" if "36 \<le> length recv" "magic_of recv \<noteq> XHEAD_MAGIC_NUM"
    by (subst process_query_buffer.simps)
      (use c l that pre xhead_sds [OF ok] in \<open>auto simp: query_round_def conn_pre_def\<close>)
  show "process_query_buffer json ok p w = Some (0, upd_tcp p (in_body c recv) w) \<and> conn_repr (in_body c recv) recv"
    if h: "36 \<le> length recv" "magic_of recv = XHEAD_MAGIC_NUM" and "length recv < 36 + body_len_of recv"
    unfolding step [OF h] using that l ok
    by (subst process_query_buffer.simps) (simp add: query_round_def conn_repr_def)
  show "process_query_buffer json ok p w
        = finish_request json ok p (take 36 recv) (take (body_len_of recv) (drop 36 recv)) (upd_tcp p (in_body c recv) w)"
    if h: "magic_of recv = XHEAD_MAGIC_NUM" and all: "36 + body_len_of recv \<le> length recv"
  proof -
    have "36 \<le> length recv" using all by simp
    from step [OF this h] show ?thesis using ok len all by (simp add: process_body)
  qed
qed

text \<open>A read that delivers \<open>d\<close>.\<close>

lemma room_mono: "room limit n \<Longrightarrow> m \<le> n \<Longrightarrow> room limit m"
  by (simp add: room_def)

lemma read_query_data:
  assumes fd: "0 \<le> fd" "nat fd < length (sw_conns w)" "sw_conns w ! nat fd = Some p"
    and c: "sw_heap w p = Some c" and repr: "conn_repr c recv"
    and d: "d \<noteq> []" "int (length d) \<le> bytes_expected c"
    and room: "room limit (int (length recv) + bytes_expected c)"
  shows "\<exists>c'. conn_pre c' (recv @ d) \<and> c_fd c' = c_fd c \<and> reply_list c' = reply_list c
    \<and> read_query limit json ok now (rd_ok d) fd w = do {
        (ret, w) \<leftarrow> process_query_buffer json ok p (upd_tcp p c' w);
        (if ret \<noteq> 0 then close_conn p w else Some w) }"
proof -
  have s: "sds_ok (querybuf c)" "sds_contents (querybuf c) = recv" using repr by (simp_all add: conn_repr_def)
  have l: "sds_len (querybuf c) = int (length recv)" using s by (simp add: sds_len_contents)
  have e: "0 \<le> bytes_expected c" using d by simp
  have small: "bytes_expected c < 2 ^ 31" using room by (simp add: room_def SDS_MAX_PREALLOC_def)
  have cnt: "read_count c = bytes_expected c" using e small by (simp add: read_count_def c_int_id)
  have kernel_read_fits: "kernel_read (bytes_expected c) rd = rd" for rd using small by (simp add: kernel_read_def SSIZE_MAX_def)
  obtain s1 where s1: "sdsMakeRoomFor limit (bytes_expected c) (querybuf c) = Some s1" "sds_ok s1"
    "sds_contents s1 = recv" "sds_len s1 = sds_len (querybuf c)" "bytes_expected c \<le> sds_free s1"
    using sdsMakeRoomFor_ok [OF s(1) e, of limit] room s(2) l by auto
  obtain s2 s3 where st: "sds_store (nat (sds_len s1)) d s1 = Some s2" "sdsIncrLen (int (length d)) s2 = Some s3"
    "sds_ok s3" "sds_contents s3 = recv @ d"
    using sds_store_incr [OF s1(2), of d] d s1(3,5) by auto
  let ?c = "c\<lparr>last_interaction := now, querybuf := s3\<rparr>"
  have "conn_pre ?c (recv @ d)"
    using repr st(3,4) by (auto simp: conn_repr_def conn_pre_def split: if_splits)
  moreover have nr: "sock_read_data (sys_ok (int (length d))) = int (length d)"
    using d(1) by (simp add: sock_read_data_def)
  have "read_query limit json ok now (rd_ok d) fd w = do {
        (ret, w) \<leftarrow> process_query_buffer json ok p (upd_tcp p ?c w);
        (if ret \<noteq> 0 then close_conn p w else Some w) }"
    using fd c s s1 st d nr
    by (simp add: read_query_def cnt kernel_read_fits Let_def)
  ultimately show ?thesis by (intro exI [of _ ?c]) simp
qed

text \<open>Successive read events with the given data.\<close>

fun feed :: "int \<Rightarrow> 'j jsoncpp \<Rightarrow> bool \<Rightarrow> int \<Rightarrow> int \<Rightarrow> bytes list \<Rightarrow> SignalingWorker \<Rightarrow> SignalingWorker option" where
  "feed limit json ok now fd [] w = Some w"
| "feed limit json ok now fd (d # ds) w =
     Option.bind (read_query limit json ok now (rd_ok d) fd w) (feed limit json ok now fd ds)"

text \<open>The kernel delivers at least one and at most as many bytes as were asked for.\<close>

fun chunks_fit :: "nat \<Rightarrow> nat \<Rightarrow> bytes list \<Rightarrow> bool" where
  "chunks_fit k n [] \<longleftrightarrow> True"
| "chunks_fit k n (d # ds) \<longleftrightarrow> d \<noteq> [] \<and> length d \<le> (if k < 36 then 36 else n) \<and> chunks_fit (k + length d) n ds"

lemma feed_last: "Option.bind x (feed limit json ok now fd []) = x"
  by (cases x) simp_all

lemma prefix_header:
  assumes "recv @ xs = hdr @ body" and "length hdr = 36" and "36 \<le> length recv"
  shows "magic_of recv = magic_of hdr" and "body_len_of recv = body_len_of hdr"
    and "take 36 recv = hdr" and "drop 36 recv @ xs = body"
proof -
  from assms have "take 36 (recv @ xs) = hdr" by simp
  then show t: "take 36 recv = hdr" using assms(3) by simp
  have "take 4 (drop k recv) = take 4 (drop k hdr)" if "k + 4 \<le> 36" for k
    using that unfolding t [symmetric] by (simp add: drop_take min_def)
  then show "magic_of recv = magic_of hdr" "body_len_of recv = body_len_of hdr" by simp_all
  have "drop 36 (recv @ xs) = body" using assms by simp
  then show "drop 36 recv @ xs = body" using assms(3) by simp
qed

lemma feed_request:
  assumes fd: "0 \<le> fd" "nat fd < length (sw_conns w)" "sw_conns w ! nat fd = Some p"
    and "sw_heap w p = Some c" "conn_repr c recv"
    and "ds \<noteq> []" "recv @ concat ds = hdr @ body" "chunks_fit (length recv) (length body) ds"
    and hdr: "length hdr = 36" "magic_of hdr = XHEAD_MAGIC_NUM" "body_len_of hdr = length body"
    and room: "room limit (int (72 + 2 * length body))"
  shows "\<exists>c'. sds_contents (querybuf c') = hdr @ body \<and> c_fd c' = c_fd c \<and> reply_list c' = reply_list c
    \<and> feed limit json ok now fd ds w = do {
        (ret, w) \<leftarrow> finish_request json ok p hdr body (upd_tcp p c' w);
        (if ret \<noteq> 0 then close_conn p w else Some w) }"
  using assms(1-8)
proof (induction ds arbitrary: c recv w)
  case (Cons d ds)
  have len: "length recv + length d + length (concat ds) = 36 + length body"
    using arg_cong [OF Cons.prems(7), of length] hdr(1) by simp
  have exp: "bytes_expected c = int (if length recv < 36 then 36 else length body)"
  proof (cases "length recv < 36")
    case False
    then have "body_len_of recv = length body"
      using prefix_header(2) [OF Cons.prems(7) hdr(1)] hdr(3) by simp
    with False show ?thesis using Cons.prems(5) by (simp add: conn_repr_def)
  qed (use Cons.prems(5) in \<open>simp add: conn_repr_def\<close>)
  have d: "d \<noteq> []" "int (length d) \<le> bytes_expected c" "chunks_fit (length (recv @ d)) (length body) ds"
    using Cons.prems(8) exp by auto
  have r: "room limit (int (length recv) + bytes_expected c)"
    by (rule room_mono [OF room]) (use exp len in auto)
  obtain c1 where c1: "conn_pre c1 (recv @ d)" "c_fd c1 = c_fd c" "reply_list c1 = reply_list c"
    and rq: "read_query limit json ok now (rd_ok d) fd w = do {
        (ret, w) \<leftarrow> process_query_buffer json ok p (upd_tcp p c1 w);
        (if ret \<noteq> 0 then close_conn p w else Some w) }"
    using read_query_data [OF Cons.prems(1-5) d(1,2) r] by blast
  have all: "(recv @ d) @ concat ds = hdr @ body" using Cons.prems(7) by simp
  note ph = prefix_header [OF all hdr(1)]
  have small: "length (recv @ d) < 65535 + body_len_of (recv @ d)"
  proof (cases "36 \<le> length (recv @ d)")
    case True
    then show ?thesis using ph(2) hdr(3) len by simp
  qed simp
  note pqb = process_query_buffer_cases [OF upd_tcp_heap(1) [of p c1 w] c1(1) small, of json ok]
  show ?case
  proof (cases "ds = []")
    case True
    have whole: "recv @ d = hdr @ body" using all True by simp
    then have "magic_of (recv @ d) = XHEAD_MAGIC_NUM" "body_len_of (recv @ d) = length body" "36 \<le> length (recv @ d)"
      using ph hdr by auto
    with pqb(4) whole hdr(1) have "process_query_buffer json ok p (upd_tcp p c1 w)
        = finish_request json ok p hdr body (upd_tcp p (in_body c1 (recv @ d)) w)" by simp
    moreover have "sds_contents (querybuf (in_body c1 (recv @ d))) = hdr @ body"
      using c1(1) whole by (simp add: conn_pre_def)
    ultimately show ?thesis
      using rq True c1(2,3) unfolding True feed.simps(2) feed_last
      by (intro exI [of _ "in_body c1 (recv @ d)"]) simp
  next
    case False
    then have "0 < length (concat ds)" using d(3) by (cases ds) auto
    then have less: "length (recv @ d) < 36 + length body" using len unfolding length_append by linarith
    obtain c2 where c2: "process_query_buffer json ok p (upd_tcp p c1 w) = Some (0, upd_tcp p c2 w)"
      "conn_repr c2 (recv @ d)" "c_fd c2 = c_fd c" "reply_list c2 = reply_list c"
    proof (cases "length (recv @ d) < 36")
      case True
      then show thesis using that [of c1] pqb(1) c1(2,3) by simp
    next
      case False
      then show thesis
        using that [of "in_body c1 (recv @ d)"] pqb(3) ph(1,2) hdr(2,3) less c1(2,3) by simp
    qed
    have "read_query limit json ok now (rd_ok d) fd w = Some (upd_tcp p c2 w)" using rq c2(1) by simp
    moreover note Cons.IH [of "upd_tcp p c2 w" c2 "recv @ d", OF _ _ _ _ c2(2) False all d(3)]
    ultimately show ?thesis using Cons.prems(1-3) c2(3,4) by simp
  qed
qed simp

text \<open>
  C9. However TCP cuts a request into pieces, the request is processed exactly once, when its last
  byte has arrived, with its header and exactly its body; the connection is closed if processing
  reports an error.  Until then the worker only stores bytes, none of them outside the buffer.
\<close>

theorem signaling_request_framing:
  assumes "0 \<le> fd" "nat fd < length (sw_conns w)" "sw_conns w ! nat fd = Some p"
    and "sw_heap w p = Some c" "conn_repr c []"
    and "concat ds = hdr @ body" "chunks_fit 0 (length body) ds"
    and "length hdr = 36" "magic_of hdr = XHEAD_MAGIC_NUM" "body_len_of hdr = length body"
    and "room limit (int (72 + 2 * length body))"
  shows "\<exists>c'. sds_contents (querybuf c') = hdr @ body \<and> c_fd c' = c_fd c \<and> reply_list c' = reply_list c
    \<and> feed limit json ok now fd ds w = do {
        (ret, w) \<leftarrow> finish_request json ok p hdr body (upd_tcp p c' w);
        (if ret \<noteq> 0 then close_conn p w else Some w) }"
proof (rule feed_request [where recv = "[]"])
  show "ds \<noteq> []" using assms(6,8) by auto
qed (use assms in simp_all)

end
