(* ===== verification/Signaling_Safety.thy ===== *)
theory Signaling_Safety
  imports Signaling_Worker
begin

text \<open>
  Properties of the signalling worker beyond framing: the inputs that make it hang or leave its
  buffers, the order of replies, timeouts, and the invariant of the connection table.
\<close>

section \<open>Bytes after the request\<close>

text \<open>
  After a request \<^verbatim>\<open>bytes_processed\<close> is 65535.  Once the buffer holds that many bytes
  more than the body, the loop condition stays true and the same request is processed again.
\<close>

definition replays :: "'j jsoncpp \<Rightarrow> TcpConnection \<Rightarrow> bool" where
  "replays json c \<longleftrightarrow> (\<exists>recv root cmdno. sds_ok (querybuf c) \<and> sds_contents (querybuf c) = recv
     \<and> current_state c = STATE_BODY \<and> bytes_processed c \<le> 65535 \<and> bytes_expected c = int (body_len_of recv)
     \<and> 65535 + body_len_of recv \<le> length recv
     \<and> json_parse json (take (body_len_of recv) (drop 36 recv)) = Some root
     \<and> json_asInt json root ''cmdno'' = Some cmdno \<and> cmdno \<noteq> CMDNO_PUSH \<and> cmdno \<noteq> CMDNO_PULL)"

lemma process_request_replies:
  assumes "sw_heap w p = Some c" and "length header = 36"
    and "json_parse json body = Some root" and "json_asInt json root ''cmdno'' = Some cmdno"
    and "cmdno \<noteq> CMDNO_PUSH" "cmdno \<noteq> CMDNO_PULL"
  shows "\<exists>w' reply io. process_request json ok p header body w = Some (0, w')
    \<and> sw_heap w' p = Some (c\<lparr>reply_list := reply_list c @ [reply], io_watcher := io\<rparr>)"
proof -
  have heap: "sw_heap (snd (process_stop_push json ok n root id w)) = sw_heap w"
    "sw_heap (snd (process_stop_pull json ok n root id w)) = sw_heap w"
    "sw_heap (snd (process_answer json ok n root id w)) = sw_heap w" for id n
    by (auto simp: process_stop_push_def process_stop_pull_def process_answer_def send_rtc_msg_def split: option.split)
  obtain id where id: "xhead_log_id header = Some id" using assms(2) by (auto simp: xhead_log_id_def)
  define inner where "inner = (if cmdno = CMDNO_STOPPUSH then process_stop_push json ok cmdno root id w
    else if cmdno = CMDNO_STOPPULL then process_stop_pull json ok cmdno root id w
    else if cmdno = CMDNO_ANSWER then process_answer json ok cmdno root id w else (-1, w))"
  have "sw_heap (snd inner) = sw_heap w" using heap by (simp add: inner_def)
  moreover obtain reply where "process_request json ok p header body w = map_option (Pair 0) (add_reply p reply (snd inner))"
    using assms id unfolding process_request_def inner_def [symmetric] by (auto simp: case_prod_unfold Let_def simp flip: inner_def)
  ultimately have "process_request json ok p header body w = Some (0, upd_tcp p (c\<lparr>reply_list := reply_list c @ [reply],
      io_watcher := start_io_event (c_fd c) EL_WRITE (io_watcher c)\<rparr>) (snd inner))"
    using assms(1) by (simp add: add_reply_def)
  then show ?thesis by (simp add: upd_tcp_def) blast
qed

lemma replays_round:
  assumes "sw_heap w p = Some c" and "replays json c"
  shows "\<exists>w' c'. query_round json ok p w = Some (Inr w') \<and> sw_heap w' p = Some c' \<and> replays json c'
    \<and> length (reply_list c') = length (reply_list c) + 1"
proof -
  from assms(2) obtain recv root cmdno where h: "sds_ok (querybuf c)" "sds_contents (querybuf c) = recv"
    "current_state c = STATE_BODY" "bytes_processed c \<le> 65535" "bytes_expected c = int (body_len_of recv)"
    "65535 + body_len_of recv \<le> length recv"
    "json_parse json (take (body_len_of recv) (drop 36 recv)) = Some root"
    "json_asInt json root ''cmdno'' = Some cmdno" "cmdno \<noteq> CMDNO_PUSH" "cmdno \<noteq> CMDNO_PULL"
    unfolding replays_def by blast
  have h36: "length (take 36 recv) = 36" using h(6) by simp
  have l: "sdslen (querybuf c) = int (length recv)" using h(1,2) by (simp add: sds_len_contents)
  obtain w' reply io where w': "process_request json ok p (take 36 recv) (take (body_len_of recv) (drop 36 recv)) w = Some (0, w')"
    "sw_heap w' p = Some (c\<lparr>reply_list := reply_list c @ [reply], io_watcher := io\<rparr>)"
    using process_request_replies [OF assms(1) h36 h(7-10)] by blast
  let ?c = "c\<lparr>reply_list := reply_list c @ [reply], io_watcher := io, bytes_processed := 65535\<rparr>"
  have "query_round json ok p w = Some (Inr (upd_tcp p ?c w'))"
    using assms(1) h(3-6) l xhead_sds [OF h(1,2)] w' by (simp add: query_round_def XHEAD_SIZE_def)
  moreover have "replays json ?c"
    unfolding replays_def using h by (intro exI [of _ recv] exI [of _ root] exI [of _ cmdno]) simp
  ultimately show ?thesis by (intro exI [of _ "upd_tcp p ?c w'"] exI [of _ ?c]) (simp add: upd_tcp_def)
qed

lemma replays_rounds:
  "sw_heap w p = Some c \<Longrightarrow> replays json c \<Longrightarrow> \<exists>w' c'. query_rounds json ok p n w = Some (Inr w')
     \<and> sw_heap w' p = Some c' \<and> length (reply_list c') = length (reply_list c) + n"
proof (induction n arbitrary: w c)
  case (Suc n)
  obtain w1 c1 where "query_round json ok p w = Some (Inr w1)" "sw_heap w1 p = Some c1" "replays json c1"
    "length (reply_list c1) = length (reply_list c) + 1"
    using replays_round [OF Suc.prems] by blast
  with Suc.IH [of w1 c1] show ?case by auto
qed simp

lemma replays_diverges:
  assumes "process_query_buffer json ok p w = Some r"
  shows "\<forall>c. sw_heap w p = Some c \<longrightarrow> \<not> replays json c"
proof (rule process_query_buffer.raw_induct
    [where P = "\<lambda>json ok p w r. \<forall>c. sw_heap w p = Some c \<longrightarrow> \<not> replays json c", OF _ assms], intro allI impI notI)
  fix f and json :: "'a jsoncpp" and ok p w r c
  assume IH: "\<And>(json :: 'a jsoncpp) ok p w r. f json ok p w = Some r \<Longrightarrow> \<forall>c. sw_heap w p = Some c \<longrightarrow> \<not> replays json c"
    and eq: "do { r \<leftarrow> query_round json ok p w; (case r of Inl res \<Rightarrow> Some res | Inr w \<Rightarrow> f json ok p w) } = Some r"
    and c: "sw_heap w p = Some c" "replays json c"
  obtain w' c' where w': "query_round json ok p w = Some (Inr w')" "sw_heap w' p = Some c'" "replays json c'"
    using replays_round [OF c] by blast
  then have "f json ok p w' = Some r" using eq by simp
  from IH [OF this] w' show False by blast
qed

text \<open>
  C35. A client that keeps sending after its request hangs the worker.  Take a connection whose
  request is complete, parses and is not a push or pull command, and whose buffer holds 65535 bytes
  more than the body: the loop of \<^verbatim>\<open>_process_query_buffer\<close> runs forever.  Any number of
  rounds can be run, none of them returns or is undefined, each queues one more reply, and the
  function has no result.
\<close>

theorem trailing_bytes_hang_worker:
  assumes "sw_heap w p = Some c" and "replays json c"
  shows "(\<forall>n. \<exists>w' c'. query_rounds json ok p n w = Some (Inr w') \<and> sw_heap w' p = Some c'
        \<and> length (reply_list c') = length (reply_list c) + n)
    \<and> process_query_buffer json ok p w = None"
  using replays_diverges [of json ok p w] replays_rounds [OF assms, of ok] assms
  by (cases "process_query_buffer json ok p w") auto

section \<open>Oversized bodies\<close>

text \<open>
  A request header that announces a body of \<open>2 ^ 32 - k\<close> bytes, for most values of \<open>k\<close> up to
  \<open>2 ^ 31\<close>, ends the process: the length becomes a negative \<^verbatim>\<open>int\<close>, and the allocator
  is asked for about \<open>2 ^ 64 - k\<close> bytes, whatever its limit is.
\<close>

theorem oversized_body_aborts:
  assumes fd: "0 \<le> fd" "nat fd < length (sw_conns w)" "sw_conns w ! nat fd = Some p"
    and c: "sw_heap w p = Some c" "sds_ok (querybuf c)" "sds_len (querybuf c) = 36"
    and k: "bytes_expected c = 2 ^ 32 - k" "SDS_MAX_PREALLOC + 45 < k" "k \<le> 2 ^ 31" and limit: "limit < 2 ^ 63"
  shows "sdsMakeRoomFor limit (read_count c) (querybuf c) = None \<and> read_query limit json ok now rd fd w = None"
proof
  have len: "c_int (2 ^ 32 - k) = - k" using k by (subst c_int_wrap) (auto simp: SDS_MAX_PREALLOC_def)
  have wrap: "size_t (x + (2 ^ 64 - k)) = 2 ^ 64 - (k - x)" if "0 \<le> x" "x < k" for x
    using that k(3) by (simp add: size_t_def)
  have cnt: "read_count c = 2 ^ 64 - k"
    using wrap [of 0] k(2) unfolding read_count_def k(1) len by (simp add: SDS_MAX_PREALLOC_def size_t_def zmod_zminus1_eq_if)
  have n: "size_t (36 + (2 ^ 64 - k)) = 2 ^ 64 - (k - 36)" using k(2) by (intro wrap) (simp_all add: SDS_MAX_PREALLOC_def)
  have g: "grown_length (2 ^ 64 - (k - 36)) = 2 ^ 64 - (k - 36 - SDS_MAX_PREALLOC)"
    using k(2,3) by (simp add: grown_length_def SDS_MAX_PREALLOC_def)
  have t: "size_t (sizeof_sdshdr + (2 ^ 64 - (k - 36 - SDS_MAX_PREALLOC)) + 1) = 2 ^ 64 - (k - 45 - SDS_MAX_PREALLOC)"
    using k(2,3) by (simp add: sizeof_sdshdr_def SDS_MAX_PREALLOC_def)
  have avail: "sdsavail (querybuf c) < read_count c" using c(2,3) k(3) cnt by (simp add: sds_ok_def)
  have l: "sdslen (querybuf c) = 36" using c(2,3) by simp
  show none: "sdsMakeRoomFor limit (read_count c) (querybuf c) = None"
    using avail limit k(3) unfolding sdsMakeRoomFor_def l cnt Let_def n g t by (simp add: SDS_MAX_PREALLOC_def)
  show "read_query limit json ok now rd fd w = None"
    using fd c none by (simp add: read_query_def Let_def)
qed

section \<open>Replies\<close>

lemma make_reply_lengths:
  assumes "length header = 36" and "length json_data < 2 ^ 32"
  shows "length (slice_data (make_reply header json_data)) = 36 + 4096"
    and "slice_size (make_reply header json_data) = 36 + length json_data"
proof -
  have "unat (of_nat (length json_data) :: u32) = length json_data"
    using assms(2) by (simp add: unat_of_nat take_bit_nat_eq_self)
  then show "slice_size (make_reply header json_data) = 36 + length json_data"
    by (simp add: make_reply_def XHEAD_SIZE_def)
  show "length (slice_data (make_reply header json_data)) = 36 + 4096"
    using assms(1) by (simp add: make_reply_def le32_split_def MAX_RES_BUF_def min_def)
qed

definition slice_ok :: "Slice \<Rightarrow> bool" where
  "slice_ok s \<longleftrightarrow> slice_size s \<le> length (slice_data s)"

definition slice_bytes :: "Slice \<Rightarrow> bytes" where
  "slice_bytes s = take (slice_size s) (slice_data s)"

abbreviation unsent :: "Slice list \<Rightarrow> nat \<Rightarrow> bytes" where
  "unsent l pos \<equiv> (case l of [] \<Rightarrow> [] | _ \<Rightarrow> drop pos (concat (map slice_bytes l)))"

lemma write_loop_spec:
  assumes "list_all slice_ok l" and "case l of [] \<Rightarrow> True | s # _ \<Rightarrow> pos \<le> slice_size s"
  shows "\<exists>e l' pos' out'. write_loop rs l pos out = Some (e, l', pos', out')
    \<and> (e \<noteq> wr_closed \<longrightarrow> out' @ unsent l' pos' = out @ unsent l pos) \<and> (e = wr_finished \<longrightarrow> l' = [])"
  using assms
proof (induction rs l pos out rule: write_loop.induct)
  case (3 r rs reply l pos out)
  have ok: "slice_ok reply" "list_all slice_ok l" and pos: "pos \<le> slice_size reply" using 3(4,5) by simp_all
  define buf where "buf = take (slice_size reply - pos) (drop pos (slice_data reply))"
  have rd: "mem_read (slice_data reply) pos (slice_size reply - pos) = Some buf"
    using ok(1) pos by (simp add: slice_ok_def buf_def)
  have lb: "length (slice_bytes reply) = slice_size reply" using ok(1) by (simp add: slice_ok_def slice_bytes_def)
  have buf: "drop pos (slice_bytes reply) = buf" by (simp add: slice_bytes_def buf_def drop_take)
  have lbuf: "length buf = slice_size reply - pos" using ok(1) by (simp add: slice_ok_def buf_def)
  have un: "unsent (reply # l) pos = buf @ concat (map slice_bytes l)" using lb pos buf by simp
  let ?n = "sock_write_data r"
  consider "?n = -1" | "?n = 0" | "?n \<noteq> -1" "?n \<noteq> 0" "slice_size reply \<le> nat ?n + pos"
    | "?n \<noteq> -1" "?n \<noteq> 0" "nat ?n + pos < slice_size reply" by linarith
  then show ?case
  proof cases
    case 1
    then show ?thesis using rd by simp
  next
    case 2
    then show ?thesis using 3(1) [OF rd refl] rd 3(4,5) by simp
  next
    case c3: 3
    have "take (nat ?n) buf = buf" using c3 by (simp add: buf_def)
    moreover have "unsent l 0 = concat (map slice_bytes l)" by (cases l) simp_all
    moreover have "case l of [] \<Rightarrow> True | s # _ \<Rightarrow> 0 \<le> slice_size s" by (cases l) simp_all
    ultimately show ?thesis using 3(2) [OF rd refl] rd c3 ok(2) un by simp
  next
    case 4
    have "unsent (reply # l) (pos + nat ?n) = drop (nat ?n) (unsent (reply # l) pos)"
      by (simp only: list.case drop_drop add.commute)
    also have "\<dots> = drop (nat ?n) buf @ concat (map slice_bytes l)" unfolding un using 4 lbuf by simp
    finally have "out @ take (nat ?n) buf @ unsent (reply # l) (pos + nat ?n) = out @ unsent (reply # l) pos"
      unfolding un by (metis append.assoc append_take_drop_id)
    then show ?thesis using 3(3) [OF rd refl] rd 4 3(4) by (simp add: Let_def)
  qed
qed simp_all

text \<open>
  A reply whose JSON text is longer than 4096 bytes, which an SDP offer easily is, makes the
  worker send memory behind the reply buffer; shorter replies stay inside it.
\<close>

theorem long_reply_over_read_iff:
  assumes "length header = 36" and "length json_data < 2 ^ 32"
  shows "write_loop (r # rs) [make_reply header json_data] 0 [] = None \<longleftrightarrow> 4096 < length json_data"
proof (cases "4096 < length json_data")
  case True
  then show ?thesis using make_reply_lengths [OF assms] by simp
next
  case False
  then have "slice_ok (make_reply header json_data)" using make_reply_lengths [OF assms] by (simp add: slice_ok_def)
  then have "write_loop (r # rs) [make_reply header json_data] 0 [] \<noteq> None"
    using write_loop_spec [of "[make_reply header json_data]" 0 "r # rs" "[]"] by auto
  with False show ?thesis by simp
qed

text \<open>
  C36. Replies leave the socket in order and without gaps or repetition, however the kernel cuts
  the writes: what was written followed by what is unsent is what was unsent before; when the loop
  finishes everything was written.  While the kernel takes nothing the loop does not end.
\<close>

theorem replies_written_in_order:
  assumes "list_all slice_ok l" and "case l of [] \<Rightarrow> True | s # _ \<Rightarrow> pos \<le> slice_size s"
  shows "(\<exists>e l' pos' out. write_loop rs l pos [] = Some (e, l', pos', out)
      \<and> (e \<noteq> wr_closed \<longrightarrow> out @ unsent l' pos' = unsent l pos) \<and> (e = wr_finished \<longrightarrow> out = unsent l pos))
    \<and> (l \<noteq> [] \<longrightarrow> (\<exists>out. write_loop (replicate n (sys_error EAGAIN)) l pos [] = Some (wr_looping, l, pos, out)))"
proof
  obtain e l' pos' out where w: "write_loop rs l pos [] = Some (e, l', pos', out)"
    "e \<noteq> wr_closed \<longrightarrow> out @ unsent l' pos' = [] @ unsent l pos" "e = wr_finished \<longrightarrow> l' = []"
    using write_loop_spec [OF assms, of rs "[]"] by blast
  have "e = wr_finished \<longrightarrow> out = unsent l pos" using w(2,3) by (cases e) auto
  with w show "\<exists>e l' pos' out. write_loop rs l pos [] = Some (e, l', pos', out)
      \<and> (e \<noteq> wr_closed \<longrightarrow> out @ unsent l' pos' = unsent l pos) \<and> (e = wr_finished \<longrightarrow> out = unsent l pos)"
    by (intro exI [of _ e] exI [of _ l'] exI [of _ pos'] exI [of _ out]) simp
  show "l \<noteq> [] \<longrightarrow> (\<exists>out. write_loop (replicate n (sys_error EAGAIN)) l pos [] = Some (wr_looping, l, pos, out))"
  proof
    assume "l \<noteq> []"
    then obtain s l2 where l: "l = s # l2" by (cases l) auto
    have "mem_read (slice_data s) pos (slice_size s - pos) \<noteq> None"
      using assms l by (simp add: slice_ok_def)
    then have "write_loop (replicate n (sys_error EAGAIN)) l pos [] = Some (wr_looping, l, pos, [])"
      unfolding l by (induction n) (auto simp: sock_write_data_def)
    then show "\<exists>out. write_loop (replicate n (sys_error EAGAIN)) l pos [] = Some (wr_looping, l, pos, out)" by blast
  qed
qed

section \<open>Timeouts\<close>

text \<open>
  A connection is closed by the timer when at least the configured time has passed since the
  last interaction; but also, whatever the configured time, when the wall clock was set back below
  the time of the last interaction, since the difference is computed modulo \<open>2 ^ 64\<close>.
\<close>

theorem process_timeout_iff:
  assumes c: "sw_heap w p = Some c" and "0 \<le> now" "now < 2 ^ 63" "0 \<le> last_interaction c" "last_interaction c < 2 ^ 63"
    and "0 \<le> connection_timeout w" "connection_timeout w < 2 ^ 31"
  shows "process_timeout now p w =
    (if connection_timeout w \<le> now - last_interaction c \<or> now < last_interaction c then close_conn p w else Some w)"
proof (cases "now < last_interaction c")
  case True
  have "size_t (now - last_interaction c) = now - last_interaction c + 2 ^ 64"
    using True assms(2,5) unfolding size_t_def by (subst mod_add_self2 [symmetric], subst mod_pos_pos_trivial) auto
  with True show ?thesis using assms by (simp add: process_timeout_def)
next
  case False
  then show ?thesis using assms by (simp add: process_timeout_def)
qed

section \<open>Offers for a connection that is gone\<close>

lemma new_conn_effect:
  assumes "new_conn now p fd w = Some w'" and "0 \<le> fd"
  shows "nat fd < length (sw_conns w')" and "sw_conns w' ! nat fd = Some p"
    and "sw_heap w' = (sw_heap w)(p \<mapsto> (new_TcpConnection fd)\<lparr>io_watcher := start_io_event fd EL_READ create_io_event,
      last_interaction := now\<rparr>)"
proof -
  define conns where "conns = (if nat fd \<ge> length (sw_conns w)
      then take (nat (c_int (fd * 2))) (sw_conns w) @ replicate (nat (c_int (fd * 2)) - length (sw_conns w)) None
      else sw_conns w)"
  have n: "nat fd < length conns"
    and w': "w' = upd_tcp p ((new_TcpConnection fd)\<lparr>io_watcher := start_io_event fd EL_READ create_io_event,
      last_interaction := now\<rparr>) (w\<lparr>sw_conns := conns[nat fd := Some p]\<rparr>)"
    using assms unfolding new_conn_def Let_def conns_def [symmetric] by (auto split: if_splits)
  show "nat fd < length (sw_conns w')" "sw_conns w' ! nat fd = Some p" unfolding w' using n by simp_all
  show "sw_heap w' = (sw_heap w)(p \<mapsto> (new_TcpConnection fd)\<lparr>io_watcher := start_io_event fd EL_READ create_io_event,
      last_interaction := now\<rparr>)" unfolding w' by (simp add: upd_tcp_def)
qed

text \<open>
  When the client of a pending offer has disconnected and a new client got the same descriptor
  and its connection object the same address, the check in \<^verbatim>\<open>_response_server_offer\<close>
  passes and the worker copies a request header that the new client has not sent yet, reading past
  the new connection's buffer.
\<close>

theorem stale_offer_reads_past_buffer:
  assumes "new_conn now p fd w = Some w'" and "0 < fd" and "m_conn msg = Some p" and "m_fd msg = fd"
  shows "response_server_offer json msg w' = None"
proof -
  have fd: "0 \<le> fd" using assms(2) by simp
  have "length (sds_buf (querybuf (new_TcpConnection fd))) = 1"
    by (simp add: new_TcpConnection_def sdsempty_def sdsnewlen_def)
  then show ?thesis
    using new_conn_effect [OF assms(1) fd] assms(2-4)
    by (simp add: response_server_offer_def XHEAD_SIZE_def)
qed

section \<open>The connection table\<close>

text \<open>Table and heap describe each other: every entry points to a live connection with that descriptor.\<close>

definition worker_inv :: "SignalingWorker \<Rightarrow> bool" where
  "worker_inv w \<longleftrightarrow>
     (\<forall>i p. i < length (sw_conns w) \<longrightarrow> sw_conns w ! i = Some p \<longrightarrow> (\<exists>c. sw_heap w p = Some c \<and> c_fd c = int i))
     \<and> (\<forall>p c. sw_heap w p = Some c \<longrightarrow>
          0 \<le> c_fd c \<and> nat (c_fd c) < length (sw_conns w) \<and> sw_conns w ! nat (c_fd c) = Some p)"

lemma worker_inv_conn:
  assumes "worker_inv w" and "sw_heap w p = Some c"
  shows "0 \<le> c_fd c" "nat (c_fd c) < length (sw_conns w)" "sw_conns w ! nat (c_fd c) = Some p"
  using assms by (auto simp: worker_inv_def)

lemma worker_inv_entry:
  assumes "worker_inv w" and "i < length (sw_conns w)" and "sw_conns w ! i = Some p"
  obtains c where "sw_heap w p = Some c" "c_fd c = int i"
  using assms unfolding worker_inv_def by blast

lemma worker_inv_frame:
  assumes inv: "worker_inv w" and c: "sw_heap w p = Some c" and w': "sw_heap w' = (sw_heap w)(p \<mapsto> c')"
    "sw_conns w' = sw_conns w" and fd: "c_fd c' = c_fd c"
  shows "worker_inv w'"
  unfolding worker_inv_def w'
proof (intro conjI allI impI)
  fix i q
  assume "i < length (sw_conns w)" "sw_conns w ! i = Some q"
  then obtain c1 where "sw_heap w q = Some c1" "c_fd c1 = int i" by (rule worker_inv_entry [OF inv])
  then show "\<exists>c. ((sw_heap w)(p \<mapsto> c')) q = Some c \<and> c_fd c = int i" using c fd by (cases "q = p") auto
next
  fix q c1
  assume q: "((sw_heap w)(p \<mapsto> c')) q = Some c1"
  then obtain c2 where "sw_heap w q = Some c2" "c_fd c2 = c_fd c1" using c fd by (cases "q = p") auto
  with worker_inv_conn [OF inv this(1)]
  show "0 \<le> c_fd c1" "nat (c_fd c1) < length (sw_conns w)" "sw_conns w ! nat (c_fd c1) = Some q" by simp_all
qed

lemma worker_inv_same: "worker_inv w \<Longrightarrow> sw_heap w' = sw_heap w \<Longrightarrow> sw_conns w' = sw_conns w \<Longrightarrow> worker_inv w'"
  by (simp add: worker_inv_def)

lemma upd_tcp_inv: "worker_inv w \<Longrightarrow> sw_heap w p = Some c \<Longrightarrow> c_fd c' = c_fd c \<Longrightarrow> worker_inv (upd_tcp p c' w)"
  by (rule worker_inv_frame [of w p c _ c']) (simp_all add: upd_tcp_def)

lemma close_conn_inv:
  assumes inv: "worker_inv w" and c: "sw_heap w p = Some c"
  shows "\<exists>w'. close_conn p w = Some w' \<and> worker_inv w' \<and> sw_heap w' = (sw_heap w)(p := None)
    \<and> closed_fds w' = closed_fds w @ [c_fd c]"
proof -
  note fd = worker_inv_conn [OF inv c]
  let ?w = "w\<lparr>closed_fds := closed_fds w @ [c_fd c], sw_conns := (sw_conns w)[nat (c_fd c) := None],
    sw_heap := (sw_heap w)(p := None)\<rparr>"
  have "close_conn p w = Some ?w" using c fd by (simp add: close_conn_def remove_conn_def)
  moreover have "worker_inv ?w"
    unfolding worker_inv_def
  proof (intro conjI allI impI)
    fix i q
    assume i: "i < length (sw_conns ?w)" "sw_conns ?w ! i = Some q"
    then have ne: "i \<noteq> nat (c_fd c)" by auto
    with i have "i < length (sw_conns w)" "sw_conns w ! i = Some q" by simp_all
    then obtain c1 where c1: "sw_heap w q = Some c1" "c_fd c1 = int i" by (rule worker_inv_entry [OF inv])
    moreover have "q \<noteq> p" using c1 c ne by auto
    ultimately show "\<exists>c. sw_heap ?w q = Some c \<and> c_fd c = int i" by simp
  next
    fix q c1
    assume "sw_heap ?w q = Some c1"
    then have q: "q \<noteq> p" "sw_heap w q = Some c1" by (auto split: if_splits)
    note f = worker_inv_conn [OF inv q(2)]
    then have "nat (c_fd c1) \<noteq> nat (c_fd c)" using q(1) fd(3) by auto
    then show "0 \<le> c_fd c1" "nat (c_fd c1) < length (sw_conns ?w)" "sw_conns ?w ! nat (c_fd c1) = Some q"
      using f by simp_all
  qed
  ultimately show ?thesis by (intro exI [of _ ?w]) simp
qed

lemma new_conn_inv:
  assumes inv: "worker_inv w" and p: "sw_heap w p = None" and fd: "0 < fd" "fd < 2 ^ 30"
    and free: "nat fd < length (sw_conns w) \<Longrightarrow> sw_conns w ! nat fd = None"
  shows "\<exists>w'. new_conn now p fd w = Some w' \<and> worker_inv w'"
proof -
  have two: "c_int (fd * 2) = fd * 2" using fd by (intro c_int_id) auto
  define conns where "conns = (if nat fd \<ge> length (sw_conns w)
      then sw_conns w @ replicate (nat (fd * 2) - length (sw_conns w)) None else sw_conns w)"
  have n: "nat fd < length conns" using fd by (auto simp: conns_def)
  have tk: "take (nat (fd * 2)) (sw_conns w) = sw_conns w" if "length (sw_conns w) \<le> nat fd" using that fd by simp
  let ?c = "(new_TcpConnection fd)\<lparr>io_watcher := start_io_event fd EL_READ create_io_event, last_interaction := now\<rparr>"
  let ?w = "upd_tcp p ?c (w\<lparr>sw_conns := conns[nat fd := Some p]\<rparr>)"
  have eq: "(if nat fd \<ge> length (sw_conns w)
      then take (nat (c_int (fd * 2))) (sw_conns w) @ replicate (nat (c_int (fd * 2)) - length (sw_conns w)) None
      else sw_conns w) = conns"
    unfolding two conns_def using tk by simp
  have "new_conn now p fd w = Some ?w"
    using fd n unfolding new_conn_def Let_def eq by simp
  moreover have old: "i < length (sw_conns w) \<and> sw_conns w ! i = Some q" if "i < length conns" "conns ! i = Some q" for i q
    using that by (auto simp: conns_def nth_append split: if_splits)
  have keep: "i < length conns \<and> conns ! i = sw_conns w ! i" if "i < length (sw_conns w)" for i
    using that by (auto simp: conns_def nth_append)
  have "worker_inv ?w"
    unfolding worker_inv_def
  proof (intro conjI allI impI)
    fix i q
    assume i: "i < length (sw_conns ?w)" "sw_conns ?w ! i = Some q"
    show "\<exists>c. sw_heap ?w q = Some c \<and> c_fd c = int i"
    proof (cases "i = nat fd")
      case True
      then have "q = p" using i n by simp
      then show ?thesis using True fd by (simp add: new_TcpConnection_def)
    next
      case False
      then have "i < length (sw_conns w)" "sw_conns w ! i = Some q" using i old [of i q] by auto
      then obtain c1 where "sw_heap w q = Some c1" "c_fd c1 = int i" by (rule worker_inv_entry [OF inv])
      moreover have "q \<noteq> p" using p calculation by auto
      ultimately show ?thesis by (simp add: upd_tcp_def)
    qed
  next
    fix q c1
    assume q: "sw_heap ?w q = Some c1"
    have "0 \<le> c_fd c1 \<and> nat (c_fd c1) < length (sw_conns ?w) \<and> sw_conns ?w ! nat (c_fd c1) = Some q"
    proof (cases "q = p")
      case True
      then show ?thesis using q n fd by (auto simp: new_TcpConnection_def)
    next
      case False
      then have q': "sw_heap w q = Some c1" using q by (simp add: upd_tcp_def)
      note f = worker_inv_conn [OF inv q']
      moreover have "nat (c_fd c1) \<noteq> nat fd" using f free by auto
      ultimately show ?thesis using keep [OF f(2)] by simp
    qed
    then show "0 \<le> c_fd c1" "nat (c_fd c1) < length (sw_conns ?w)" "sw_conns ?w ! nat (c_fd c1) = Some q" by simp_all
  qed
  ultimately show ?thesis by blast
qed

lemma query_round_inv:
  assumes "query_round json ok p w = Some r" and inv: "worker_inv w"
  shows "case r of Inl (ret, w') \<Rightarrow> worker_inv w' \<and> (\<exists>c. sw_heap w' p = Some c) | Inr w' \<Rightarrow> worker_inv w'"
proof -
  obtain c where c: "sw_heap w p = Some c" using assms(1) by (cases "sw_heap w p") (auto simp: query_round_def)
  show ?thesis
  proof (cases "bytes_processed c + bytes_expected c \<le> sdslen (querybuf c) \<and> current_state c = STATE_BODY")
    case False
    then show ?thesis using assms(1) c inv upd_tcp_inv [OF inv c]
      by (cases "current_state c") (auto simp: query_round_def bind_eq_Some_conv split: if_splits)
  next
    case True
    then obtain body_len header bd where h: "xhead_body_len (sds_buf (querybuf c)) = Some body_len"
      "mem_read (sds_buf (querybuf c)) 0 (nat XHEAD_SIZE) = Some header"
      "mem_read (sds_buf (querybuf c)) (nat XHEAD_SIZE) (unat body_len) = Some bd"
      using assms(1) c by (auto simp: query_round_def bind_eq_Some_conv)
    have "length header = 36" using mem_read_SomeD [OF h(2)] by (simp add: XHEAD_SIZE_def)
    from process_request_effect [OF c this, of json ok bd] obtain ret w1 c1 where
      r1: "process_request json ok p header bd w = Some (ret, w1)" "sw_heap w1 = (sw_heap w)(p \<mapsto> c1)"
        "sw_conns w1 = sw_conns w" "c_fd c1 = c_fd c" by blast
    have inv1: "worker_inv w1" by (rule worker_inv_frame [OF inv c r1(2-4)])
    show ?thesis using assms(1) c True h r1 inv1 upd_tcp_inv [OF inv1, of p c1]
      by (auto simp: query_round_def bind_eq_Some_conv split: if_splits)
  qed
qed

lemma process_query_buffer_inv:
  assumes "process_query_buffer json ok p w = Some (ret, w')" and "worker_inv w"
  shows "worker_inv w' \<and> (\<exists>c. sw_heap w' p = Some c)"
proof -
  have "worker_inv w \<longrightarrow> worker_inv (snd r) \<and> (\<exists>c. sw_heap (snd r) p = Some c)"
    if "process_query_buffer json ok p w = Some r" for r
  proof (rule process_query_buffer.raw_induct
      [where P = "\<lambda>json ok p w r. worker_inv w \<longrightarrow> worker_inv (snd r) \<and> (\<exists>c. sw_heap (snd r) p = Some c)", OF _ that],
      intro impI)
    fix f and json :: "'a jsoncpp" and ok p w r
    assume IH: "\<And>(json :: 'a jsoncpp) ok p w r. f json ok p w = Some r \<Longrightarrow>
        worker_inv w \<longrightarrow> worker_inv (snd r) \<and> (\<exists>c. sw_heap (snd r) p = Some c)"
      and eq: "do { r \<leftarrow> query_round json ok p w; (case r of Inl res \<Rightarrow> Some res | Inr w \<Rightarrow> f json ok p w) } = Some r"
      and inv: "worker_inv w"
    then obtain r1 where r1: "query_round json ok p w = Some r1" "(case r1 of Inl res \<Rightarrow> Some res | Inr w \<Rightarrow> f json ok p w) = Some r"
      by (auto simp: bind_eq_Some_conv)
    show "worker_inv (snd r) \<and> (\<exists>c. sw_heap (snd r) p = Some c)"
      using query_round_inv [OF r1(1) inv] r1(2) IH by (cases r1) auto
  qed
  from this [OF assms(1)] show ?thesis using assms(2) by simp
qed

lemma read_query_inv:
  assumes "read_query limit json ok now rd fd w = Some w'" and inv: "worker_inv w"
  shows "worker_inv w'"
proof (cases "fd < 0 \<or> nat fd \<ge> length (sw_conns w)")
  case True
  then show ?thesis using assms by (simp add: read_query_def)
next
  case False
  then obtain p c s1 s2 where c: "sw_conns w ! nat fd = Some p" "sw_heap w p = Some c"
    and s: "sdsMakeRoomFor limit (read_count c) (querybuf c) = Some s1"
      "sds_store (nat (sdslen (querybuf c))) (read_bytes (kernel_read (read_count c) rd)) s1 = Some s2"
    using assms(1) by (auto simp: read_query_def Let_def bind_eq_Some_conv)
  let ?c = "c\<lparr>querybuf := s2, last_interaction := now\<rparr>"
  let ?n = "sock_read_data (read_result (kernel_read (read_count c) rd))"
  have inv2: "worker_inv (upd_tcp p (?c\<lparr>querybuf := b\<rparr>) w)" "worker_inv (upd_tcp p ?c w)" for b
    using upd_tcp_inv [OF inv c(2)] by simp_all
  show ?thesis
  proof (cases "?n = -1")
    case True
    then have "close_conn p (upd_tcp p ?c w) = Some w'"
      using assms(1) False c s by (simp add: read_query_def Let_def)
    then show ?thesis using close_conn_inv [OF inv2(2), of p ?c] by auto
  next
    case ne: False
    obtain b ret w1 where b: "(if ?n > 0 then sdsIncrLen ?n s2 else Some s2) = Some b"
      "process_query_buffer json ok p (upd_tcp p (?c\<lparr>querybuf := b\<rparr>) w) = Some (ret, w1)"
      "(if ret \<noteq> 0 then close_conn p w1 else Some w1) = Some w'"
      using assms(1) False c s ne by (auto simp: read_query_def Let_def bind_eq_Some_conv)
    have w1: "worker_inv w1" "\<exists>c. sw_heap w1 p = Some c"
      using process_query_buffer_inv [OF b(2) inv2(1)] by blast+
    then show ?thesis using b(3) close_conn_inv [OF w1(1), of p] by (auto split: if_splits)
  qed
qed

lemma write_reply_inv:
  assumes "write_reply now rs fd w = Some (e, w')" and inv: "worker_inv w"
  shows "worker_inv w'"
proof (cases "fd \<le> 0 \<or> nat fd \<ge> length (sw_conns w) \<or> sw_conns w ! nat fd = None")
  case True
  then show ?thesis using assms by (auto simp: write_reply_def split: if_splits)
next
  case False
  then obtain p where p: "sw_conns w ! nat fd = Some p" by blast
  then obtain c r l pos out where c: "sw_heap w p = Some c"
    and l: "write_loop rs (reply_list c) (cur_resp_pos c) [] = Some (r, l, pos, out)"
    using assms(1) False by (auto simp: write_reply_def bind_eq_Some_conv)
  let ?w = "upd_tcp p (c\<lparr>reply_list := l, cur_resp_pos := pos\<rparr>) (w\<lparr>written := written w @ [(fd, out)]\<rparr>)"
  have w: "worker_inv ?w"
    by (rule worker_inv_frame [OF inv c, of _ "c\<lparr>reply_list := l, cur_resp_pos := pos\<rparr>"]) (simp_all add: upd_tcp_def)
  show ?thesis
  proof (cases r)
    case wr_closed
    then have "close_conn p ?w = Some w'" using assms(1) False p c l by (auto simp: write_reply_def Let_def)
    then show ?thesis using close_conn_inv [OF w, of p] by auto
  next
    case wr_looping
    then show ?thesis using assms(1) False p c l w by (auto simp: write_reply_def Let_def)
  next
    case wr_finished
    then have "w' = upd_tcp p (c\<lparr>reply_list := [], cur_resp_pos := pos,
                 last_interaction := now, io_watcher := stop_io_event fd EL_WRITE (io_watcher c)\<rparr>) ?w"
      using assms(1) False p c l by (auto simp: write_reply_def Let_def)
    then show ?thesis using upd_tcp_inv [OF w, of p] by simp
  qed
qed

lemma process_timeout_inv:
  assumes "worker_inv w" and "sw_heap w p = Some c"
  shows "\<exists>w'. process_timeout now p w = Some w' \<and> worker_inv w'"
  using close_conn_inv [OF assms] assms by (auto simp: process_timeout_def)

lemma response_server_offer_inv:
  assumes "response_server_offer json msg w = Some w'" and inv: "worker_inv w"
  shows "worker_inv w'"
proof (cases "m_conn msg")
  case None
  then show ?thesis using assms by (simp add: response_server_offer_def)
next
  case (Some p)
  show ?thesis
  proof (cases "m_fd msg \<le> 0 \<or> nat (m_fd msg) \<ge> length (sw_conns w) \<or> sw_conns w ! nat (m_fd msg) \<noteq> Some p")
    case True
    then show ?thesis using assms Some by (auto simp: response_server_offer_def split: if_splits)
  next
    case False
    then obtain c r where "sw_heap w p = Some c" "add_reply p r w = Some w'"
      using assms(1) Some by (auto simp: response_server_offer_def bind_eq_Some_conv Let_def split: if_splits)
    then show ?thesis using add_reply_effect [of w p c r] upd_tcp_inv [OF inv] by auto
  qed
qed

lemma sw_process_rtc_msg_inv:
  assumes "sw_process_rtc_msg json w = Some w'" and inv: "worker_inv w"
  shows "worker_inv w'"
proof (cases "sw_q_msg w")
  case Nil
  then show ?thesis using assms by (simp add: sw_process_rtc_msg_def sw_pop_msg_def)
next
  case (Cons msg q)
  have "worker_inv (w\<lparr>sw_q_msg := q\<rparr>)" by (rule worker_inv_same [OF inv]) simp_all
  then show ?thesis
    using assms(1) Cons response_server_offer_inv
    by (auto simp: sw_process_rtc_msg_def sw_pop_msg_def split: if_splits)
qed

text \<open>
  The events of a worker: the event loop reports readiness of open connections, timers of live
  connections, accepted descriptors and messages that come back from the RTC workers.
\<close>

inductive sw_reach :: "int \<Rightarrow> 'j jsoncpp \<Rightarrow> SignalingWorker \<Rightarrow> bool" for limit json where
  init: "sw_reach limit json (new_SignalingWorker i timeout)"
| accept: "sw_reach limit json w \<Longrightarrow> sw_heap w p = None \<Longrightarrow> 0 < fd \<Longrightarrow> fd < 2 ^ 30 \<Longrightarrow>
    (nat fd < length (sw_conns w) \<Longrightarrow> sw_conns w ! nat fd = None) \<Longrightarrow> new_conn now p fd w = Some w' \<Longrightarrow>
    sw_reach limit json w'"
| io: "sw_reach limit json w \<Longrightarrow> conn_io_cb limit json ok now rd rs events fd w = Some (e, w') \<Longrightarrow>
    sw_reach limit json w'"
| timer: "sw_reach limit json w \<Longrightarrow> sw_heap w p = Some c \<Longrightarrow> process_timeout now p w = Some w' \<Longrightarrow>
    sw_reach limit json w'"
| enqueue: "sw_reach limit json w \<Longrightarrow> sw_reach limit json (sw_push_msg msg w)"
| offer: "sw_reach limit json w \<Longrightarrow> sw_process_rtc_msg json w = Some w' \<Longrightarrow> sw_reach limit json w'"

lemma sw_reach_inv: "sw_reach limit json w \<Longrightarrow> worker_inv w"
proof (induction rule: sw_reach.induct)
  case (init i timeout)
  show ?case by (simp add: worker_inv_def new_SignalingWorker_def)
next
  case (accept w p fd now w')
  then show ?case using new_conn_inv [of w p fd now] by auto
next
  case (io w ok now rd rs events fd e w')
  then obtain w1 where w1: "(if events AND EL_READ \<noteq> 0 then read_query limit json ok now rd fd w else Some w) = Some w1"
    "(if events AND EL_WRITE \<noteq> 0 then write_reply now rs fd w1 else Some (wr_finished, w1)) = Some (e, w')"
    by (auto simp: conn_io_cb_def bind_eq_Some_conv)
  have "worker_inv w1" using w1(1) io(3) read_query_inv by (auto split: if_splits)
  then show ?case using w1(2) write_reply_inv by (auto split: if_splits)
next
  case (timer w p c now w')
  then show ?case using process_timeout_inv [of w p c now] by auto
next
  case (enqueue w msg)
  show ?case by (rule worker_inv_same [OF enqueue(2)]) (simp_all add: sw_push_msg_def)
next
  case (offer w w')
  then show ?case using sw_process_rtc_msg_inv by blast
qed

text \<open>
  C32. In every reachable state the table of a worker and its connections describe each other:
  a descriptor's entry is empty or points to the live connection with that descriptor, and no
  connection is lost; closing, on a timeout or otherwise, always finds its table entry.
\<close>

theorem connection_table_invariant:
  assumes "sw_reach limit json w"
  shows "(\<forall>i < length (sw_conns w). case sw_conns w ! i of None \<Rightarrow> True
      | Some p \<Rightarrow> (\<exists>c. sw_heap w p = Some c \<and> c_fd c = int i))
    \<and> (\<forall>p c. sw_heap w p = Some c \<longrightarrow> nat (c_fd c) < length (sw_conns w) \<and> sw_conns w ! nat (c_fd c) = Some p
        \<and> (\<exists>w'. close_conn p w = Some w' \<and> sw_heap w' = (sw_heap w)(p := None)) \<and> process_timeout now p w \<noteq> None)"
proof -
  have inv: "worker_inv w" by (rule sw_reach_inv [OF assms])
  have "\<exists>w'. close_conn p w = Some w' \<and> sw_heap w' = (sw_heap w)(p := None)" "process_timeout now p w \<noteq> None"
    if "sw_heap w p = Some c" for p c
    using close_conn_inv [OF inv that] process_timeout_inv [OF inv that, of now] by auto
  then show ?thesis using inv unfolding worker_inv_def by (auto split: option.split)
qed

section \<open>Replies are framed\<close>

lemma le32_split_le32 [simp]: "le32 (le32_split v) = v"
proof (rule bit_word_eqI)
  fix n assume "n < LENGTH(32)"
  then show "bit (le32 (le32_split v)) n = bit v n"
    unfolding le32_def le32_split_def
    by (cases "n < 8"; cases "n < 16"; cases "n < 24"; auto simp: bit_simps)
qed

lemma length_le32_split [simp]: "length (le32_split v) = 4"
  by (simp add: le32_split_def)

text \<open>
  C37. A reply of at most 4095 bytes is itself a well-framed message: it keeps the request's header
  up to the length field, announces exactly the length of its body, and its body is the JSON text.
\<close>

theorem reply_well_framed:
  assumes "length header = 36" and "magic_of header = XHEAD_MAGIC_NUM" and "length json_data \<le> 4095"
  shows "magic_of (slice_bytes (make_reply header json_data)) = XHEAD_MAGIC_NUM
    \<and> body_len_of (slice_bytes (make_reply header json_data)) = length json_data
    \<and> drop 36 (slice_bytes (make_reply header json_data)) = json_data
    \<and> take 32 (slice_bytes (make_reply header json_data)) = take 32 header"
proof -
  have n: "unat (of_nat (length json_data) :: u32) = length json_data"
    using assms(3) by (simp add: unat_of_nat take_bit_nat_eq_self)
  have b: "slice_bytes (make_reply header json_data) = take 32 header @ le32_split (of_nat (length json_data)) @ json_data"
    unfolding slice_bytes_def make_reply_def using assms(1,3) n by (simp add: XHEAD_SIZE_def MAX_RES_BUF_def)
  have "take 4 (drop 24 (take 32 header)) = take 4 (drop 24 header)" by (simp add: drop_take)
  then show ?thesis unfolding b using assms(1,2) n by simp
qed

section \<open>Witnesses\<close>

definition sample_json :: "unit jsoncpp" where
  "sample_json = \<lparr>json_parse = \<lambda>_. Some (), json_asInt = \<lambda>_ _. Some 4, json_asUInt64 = \<lambda>_ _. Some 7,
     json_asString = \<lambda>_ _. Some (bytes_of ''room''), json_write = \<lambda>_. bytes_of ''done''\<rparr>"

definition sample_header :: "u32 \<Rightarrow> bytes" where
  "sample_header n = replicate 24 0 @ le32_split XHEAD_MAGIC_NUM @ replicate 4 0 @ le32_split n"

definition sample_worker :: "TcpConnection \<Rightarrow> SignalingWorker" where
  "sample_worker c = upd_tcp 0 c ((new_SignalingWorker 0 1000)\<lparr>sw_conns := replicate 5 None @ [Some 0]\<rparr>)"

lemma sample_header_fields [simp]:
  "length (sample_header n) = 36" "magic_of (sample_header n) = XHEAD_MAGIC_NUM"
  "body_len_of (sample_header n) = unat n" "magic_of (sample_header n @ xs) = XHEAD_MAGIC_NUM"
  "body_len_of (sample_header n @ xs) = unat n" "drop 32 (sample_header n) = le32_split n"
  by (simp_all add: sample_header_def)

lemma sample_worker_fields [simp]:
  "sw_heap (sample_worker c) 0 = Some c" "length (sw_conns (sample_worker c)) = 6"
  "sw_conns (sample_worker c) ! 5 = Some 0"
  by (simp_all add: sample_worker_def nth_append)

lemma sdsnewlen_ok: "length xs < 2 ^ 31 \<Longrightarrow> sds_ok (sdsnewlen xs) \<and> sds_contents (sdsnewlen xs) = xs
    \<and> sds_len (sdsnewlen xs) = int (length xs)"
  by (simp add: sds_ok_def sds_contents_def sdsnewlen_def c_int_id)

lemma new_conn_repr: "conn_repr (new_TcpConnection fd) []"
  by (simp add: conn_repr_def new_TcpConnection_def XHEAD_SIZE_def)

theorem signaling_request_framing_witness:
  "\<exists>c'. sds_contents (querybuf c') = sample_header 2 @ [1, 2]
    \<and> feed (2 ^ 30) sample_json True 0 5 [take 20 (sample_header 2), drop 20 (sample_header 2) @ [1], [2]]
        (sample_worker (new_TcpConnection 5)) = do {
        (ret, w) \<leftarrow> finish_request sample_json True 0 (sample_header 2) [1, 2] (upd_tcp 0 c' (sample_worker (new_TcpConnection 5)));
        (if ret \<noteq> 0 then close_conn 0 w else Some w) }"
proof -
  have "chunks_fit 0 (length [1, 2 :: 8 word]) [take 20 (sample_header 2), drop 20 (sample_header 2) @ [1], [2]]"
    by (auto simp flip: length_greater_0_conv)
  from signaling_request_framing [of 5 "sample_worker (new_TcpConnection 5)" 0 "new_TcpConnection 5" _ "sample_header 2" "[1, 2]",
      OF _ _ _ _ new_conn_repr _ this, of "2 ^ 30" sample_json True 0]
  show ?thesis by (auto simp: room_def SDS_MAX_PREALLOC_def)
qed

theorem trailing_bytes_hang_worker_witness:
  "\<exists>w'. query_rounds sample_json True 0 1000 (sample_worker ((new_TcpConnection 5)\<lparr>
     querybuf := sdsnewlen (sample_header 2 @ [1, 2] @ replicate 70000 0), current_state := STATE_BODY,
     bytes_processed := 36, bytes_expected := 2\<rparr>)) = Some (Inr w')"
proof -
  have "replays sample_json ((new_TcpConnection 5)\<lparr>
     querybuf := sdsnewlen (sample_header 2 @ [1, 2] @ replicate 70000 0), current_state := STATE_BODY,
     bytes_processed := 36, bytes_expected := 2\<rparr>)"
    unfolding replays_def
    by (intro exI [of _ "sample_header 2 @ [1, 2] @ replicate 70000 0"] exI [of _ "()"] exI [of _ 4])
      (simp add: sdsnewlen_ok sample_json_def CMDNO_PUSH_def CMDNO_PULL_def)
  from trailing_bytes_hang_worker [OF sample_worker_fields(1) this, of True] show ?thesis by blast
qed

theorem oversized_body_aborts_witness:
  "read_query (2 ^ 40) sample_json True 0 (rd_ok [0]) 5 (sample_worker ((new_TcpConnection 5)\<lparr>
     querybuf := sdsnewlen (sample_header 0x80000000), current_state := STATE_BODY, bytes_processed := 36,
     bytes_expected := 2 ^ 31\<rparr>)) = None"
proof -
  let ?c = "(new_TcpConnection 5)\<lparr>querybuf := sdsnewlen (sample_header 0x80000000),
      current_state := STATE_BODY, bytes_processed := 36, bytes_expected := 2 ^ 31\<rparr>"
  have "sds_ok (querybuf ?c)" "sds_len (querybuf ?c) = 36" "bytes_expected ?c = 2 ^ 32 - 2 ^ 31"
    using sdsnewlen_ok [of "sample_header 0x80000000"] by simp_all
  from oversized_body_aborts [of 5 "sample_worker ?c" 0, OF _ _ _ _ this, of "2 ^ 40" sample_json True 0 "rd_ok [0]"]
  show ?thesis by (simp add: SDS_MAX_PREALLOC_def)
qed

theorem long_reply_over_read_iff_witness:
  "write_loop [sys_ok 1] [make_reply (sample_header 2) (replicate 5000 0)] 0 [] = None"
  using long_reply_over_read_iff [of "sample_header 2" "replicate 5000 0" "sys_ok 1" "[]"] by simp

theorem replies_written_in_order_witness:
  "\<exists>e l' pos' out. write_loop [sys_ok 1, sys_ok 1] [\<lparr>slice_data = [1, 2, 3], slice_size = 2\<rparr>] 0 [] = Some (e, l', pos', out)
     \<and> (e = wr_finished \<longrightarrow> out = [1, 2])"
proof -
  have "unsent [\<lparr>slice_data = [1, 2, 3], slice_size = 2\<rparr>] 0 = [1, 2]" by (simp add: slice_bytes_def)
  then show ?thesis
    using replies_written_in_order [of "[\<lparr>slice_data = [1, 2, 3], slice_size = 2\<rparr>]" 0 "[sys_ok 1, sys_ok 1]" 0]
    unfolding slice_ok_def list.pred_inject list.case by (auto simp del: write_loop.simps)
qed

theorem process_timeout_iff_witness:
  "process_timeout 5 0 (sample_worker ((new_TcpConnection 5)\<lparr>last_interaction := 10\<rparr>))
     = close_conn 0 (sample_worker ((new_TcpConnection 5)\<lparr>last_interaction := 10\<rparr>))"
  using process_timeout_iff [of "sample_worker ((new_TcpConnection 5)\<lparr>last_interaction := 10\<rparr>)" 0 _ 5]
  by (simp add: sample_worker_def upd_tcp_def new_SignalingWorker_def)

lemma sample_accept:
  obtains w' where "new_conn 0 0 5 (new_SignalingWorker 0 1000) = Some w'"
  using new_conn_inv [of "new_SignalingWorker 0 1000" 0 5 0]
  by (auto simp: worker_inv_def new_SignalingWorker_def)

theorem stale_offer_reads_past_buffer_witness:
  "\<exists>w'. new_conn 0 0 5 (new_SignalingWorker 0 1000) = Some w'
     \<and> response_server_offer sample_json (new_RtcMsg\<lparr>m_conn := Some 0, m_fd := 5\<rparr>) w' = None"
proof -
  obtain w' where "new_conn 0 0 5 (new_SignalingWorker 0 1000) = Some w'" by (rule sample_accept)
  with stale_offer_reads_past_buffer [OF this, of "new_RtcMsg\<lparr>m_conn := Some 0, m_fd := 5\<rparr>" sample_json]
  show ?thesis by simp
qed

theorem connection_table_invariant_witness:
  "\<exists>w. sw_reach (2 ^ 30) sample_json w \<and> sw_heap w 0 \<noteq> None \<and> process_timeout 7 0 w \<noteq> None"
proof -
  obtain w' where w': "new_conn 0 0 5 (new_SignalingWorker 0 1000) = Some w'" by (rule sample_accept)
  have "sw_reach (2 ^ 30) sample_json w'"
    by (rule sw_reach.accept [OF sw_reach.init _ _ _ _ w']) (simp_all add: new_SignalingWorker_def)
  with connection_table_invariant [OF this, of 7] new_conn_effect(3) [OF w'] show ?thesis by auto
qed

theorem reply_well_framed_witness:
  "body_len_of (slice_bytes (make_reply (sample_header 2) (bytes_of ''done''))) = 4"
  using reply_well_framed [of "sample_header 2" "bytes_of ''done''"] by simp

end
