(* ===== verification/Signaling_Server.thy ===== *)
theory Signaling_Server
  imports Signaling_Worker
begin

text \<open>
  \<^verbatim>\<open>server/signaling_server.cpp\<close>: the thread that accepts TCP connections and deals them
  to the signalling workers.  The options read from the YAML file are arguments; an unreadable
  file makes \<^verbatim>\<open>init\<close> fail before anything else happens.
\<close>

section \<open>State\<close>

text \<open>
  \<open>ss_running\<close> says that the thread was started, \<open>ss_sent\<close> records the notifications
  written to the pipes of the workers, with the index of the worker.
\<close>

record SignalingServer =
  ss_worker_num :: int
  ss_connection_timeout :: int
  ss_workers :: "SignalingWorker list"
  next_worker_index :: nat
  ss_running :: bool
  ss_stopped :: bool
  ss_sent :: "(nat \<times> int) list"

definition SS_QUIT :: int where "SS_QUIT = 0"

definition new_SignalingServer :: "int \<Rightarrow> int \<Rightarrow> SignalingServer" where
  "new_SignalingServer worker_num timeout = \<lparr>ss_worker_num = worker_num, ss_connection_timeout = timeout, ss_workers = [],
     next_worker_index = 0, ss_running = False, ss_stopped = False, ss_sent = []\<rparr>"

section \<open>Operations\<close>

text \<open>\<open>ok i\<close> says that worker \<open>i\<close> can be initialised and started.\<close>

fun ss_create_workers :: "(nat \<Rightarrow> bool) \<Rightarrow> nat \<Rightarrow> nat \<Rightarrow> SignalingServer \<Rightarrow> int \<times> SignalingServer" where
  "ss_create_workers ok i 0 ss = (0, ss)"
| "ss_create_workers ok i (Suc n) ss =
     (if ok i then ss_create_workers ok (Suc i) n (ss\<lparr>ss_workers := ss_workers ss @ [new_SignalingWorker i (ss_connection_timeout ss)]\<rparr>)
      else (-1, ss))"

text \<open>\<open>piped\<close> and \<open>listen_fd\<close> are the results of creating the pipe and the listening socket.\<close>

definition ss_init :: "bool \<Rightarrow> int \<Rightarrow> (nat \<Rightarrow> bool) \<Rightarrow> SignalingServer \<Rightarrow> int \<times> SignalingServer" where
  "ss_init piped listen_fd ok ss =
     (if \<not> piped then (-1, ss)
      else if listen_fd = -1 then (-1, ss)
      else ss_create_workers ok 0 (nat (ss_worker_num ss)) ss)"

definition ss_start :: "SignalingServer \<Rightarrow> bool \<times> SignalingServer" where
  "ss_start ss = (if ss_running ss then (False, ss) else (True, ss\<lparr>ss_running := True\<rparr>))"

text \<open>Indexing the vector of workers out of range is undefined behaviour.\<close>

definition dispatch_new_conn :: "int \<Rightarrow> SignalingServer \<Rightarrow> SignalingServer option" where
  "dispatch_new_conn fd ss =
     (let index = next_worker_index ss;
          ss = ss\<lparr>next_worker_index := index + 1\<rparr>;
          ss = (if next_worker_index ss \<ge> length (ss_workers ss) then ss\<lparr>next_worker_index := 0\<rparr> else ss)
      in if index < length (ss_workers ss)
         then Some (ss\<lparr>ss_workers := (ss_workers ss)[index := notify_new_conn fd (ss_workers ss ! index)],
                ss_sent := ss_sent ss @ [(index, SW_NEW_CONN)]\<rparr>)
         else None)"

text \<open>\<open>cfd\<close> is the result of \<^verbatim>\<open>tcp_accept\<close>.\<close>

definition accept_new_conn :: "int \<Rightarrow> SignalingServer \<Rightarrow> SignalingServer option" where
  "accept_new_conn cfd ss = (if cfd = -1 then Some ss else dispatch_new_conn cfd ss)"

definition ss_stop :: "SignalingServer \<Rightarrow> SignalingServer" where
  "ss_stop ss = (if \<not> ss_running ss then ss
     else ss\<lparr>ss_stopped := True, ss_sent := ss_sent ss @ map (\<lambda>i. (i, SW_QUIT)) [0..<length (ss_workers ss)]\<rparr>)"

definition ss_process_notify :: "int \<Rightarrow> SignalingServer \<Rightarrow> SignalingServer" where
  "ss_process_notify msg ss = (if msg = SS_QUIT then ss_stop ss else ss)"

section \<open>Runs\<close>

text \<open>The listening socket becomes ready repeatedly; \<open>cfds\<close> are the results of accepting.\<close>

fun accept_all :: "int list \<Rightarrow> SignalingServer \<Rightarrow> SignalingServer option" where
  "accept_all [] ss = Some ss"
| "accept_all (cfd # cfds) ss = Option.bind (accept_new_conn cfd ss) (accept_all cfds)"

lemma accept_all_snoc: "accept_all (cfds @ [cfd]) ss = Option.bind (accept_all cfds ss) (accept_new_conn cfd)"
  by (induction cfds arbitrary: ss) (auto split: bind_split)

lemma ss_create_workers_spec:
  "ss_create_workers ok i n ss = (0, ss') \<Longrightarrow>
     ss' = ss\<lparr>ss_workers := ss_workers ss @ map (\<lambda>k. new_SignalingWorker k (ss_connection_timeout ss)) [i..<i + n]\<rparr>"
proof (induction n arbitrary: i ss)
  case (Suc n)
  have "[i..<i + Suc n] = i # [Suc i..<Suc i + n]" by (simp add: upt_conv_Cons del: upt_Suc)
  then show ?case
    using Suc.prems Suc.IH [of "Suc i" "ss\<lparr>ss_workers := ss_workers ss @ [new_SignalingWorker i (ss_connection_timeout ss)]\<rparr>"]
    by (simp del: upt_Suc split: if_splits)
qed simp

text \<open>What the workers have been handed after \<open>fds\<close> were accepted.\<close>

definition dealt :: "nat \<Rightarrow> int list \<Rightarrow> nat \<Rightarrow> int list" where
  "dealt n fds i = map ((!) fds) (filter (\<lambda>k. k mod n = i) [0..<length fds])"

lemma dealt_snoc: "dealt n (fds @ [fd]) i = dealt n fds i @ (if length fds mod n = i then [fd] else [])"
  by (auto simp: dealt_def nth_append intro!: map_cong)

definition rr_inv :: "nat \<Rightarrow> int list \<Rightarrow> SignalingServer \<Rightarrow> bool" where
  "rr_inv n fds ss \<longleftrightarrow> length (ss_workers ss) = n \<and> next_worker_index ss = length fds mod n
     \<and> (\<forall>i < n. sw_q_conn (ss_workers ss ! i) = dealt n fds i)"

lemma rr_inv_dispatch:
  assumes "rr_inv n fds ss" "0 < n"
  shows "\<exists>ss'. dispatch_new_conn fd ss = Some ss' \<and> rr_inv n (fds @ [fd]) ss'"
proof -
  have "length fds mod n < n" using assms(2) by simp
  moreover have "Suc (length fds) mod n = (if Suc (length fds mod n) \<ge> n then 0 else Suc (length fds mod n))"
    using calculation by (simp add: mod_Suc)
  ultimately show ?thesis using assms(1)
    by (auto simp: dispatch_new_conn_def rr_inv_def dealt_snoc nth_list_update notify_new_conn_def Let_def)
qed

lemma rr_inv_run:
  assumes "rr_inv n [] ss" "0 < n"
  shows "\<exists>ss'. accept_all cfds ss = Some ss' \<and> rr_inv n (filter (\<lambda>fd. fd \<noteq> -1) cfds) ss'"
proof (induction cfds rule: rev_induct)
  case (snoc cfd cfds)
  then obtain ss' where "accept_all cfds ss = Some ss'" "rr_inv n (filter (\<lambda>fd. fd \<noteq> -1) cfds) ss'" by blast
  then show ?case using rr_inv_dispatch [OF _ assms(2)] by (auto simp: accept_all_snoc accept_new_conn_def)
qed (use assms(1) in simp)

lemma ss_init_rr:
  assumes "ss_init piped listen_fd ok (new_SignalingServer worker_num timeout) = (0, ss)"
  shows "rr_inv (nat worker_num) [] ss"
  using assms by (auto simp: ss_init_def new_SignalingServer_def rr_inv_def dealt_def new_SignalingWorker_def
      split: if_splits dest!: ss_create_workers_spec)

text \<open>
  Connections are dealt to the workers in turn: the \<open>k\<close>-th accepted connection, counted from
  zero, goes to worker \<open>k mod n\<close>, and each worker gets its connections in the order of
  accepting.
\<close>

theorem connections_round_robin:
  assumes "ss_init piped listen_fd ok (new_SignalingServer worker_num timeout) = (0, ss)" "0 < worker_num"
  shows "\<exists>ss'. accept_all cfds ss = Some ss'
    \<and> (\<forall>i < nat worker_num. sw_q_conn (ss_workers ss' ! i) = dealt (nat worker_num) (filter (\<lambda>fd. fd \<noteq> -1) cfds) i)"
  using rr_inv_run [OF ss_init_rr [OF assms(1)]] assms(2) by (auto simp: rr_inv_def)

text \<open>With a configured number of workers that is not positive, initialisation succeeds and the first connection is undefined behaviour.\<close>

theorem no_workers_crash:
  assumes "worker_num \<le> 0" "listen_fd \<noteq> -1" "cfd \<noteq> -1"
  shows "\<exists>ss. ss_init True listen_fd ok (new_SignalingServer worker_num timeout) = (0, ss) \<and> accept_new_conn cfd ss = None"
  using assms by (simp add: ss_init_def new_SignalingServer_def accept_new_conn_def dispatch_new_conn_def)

end
