(* ===== verification/Session_Description.thy ===== *)
theory Session_Description
  imports Udp_Port
begin

text \<open>
  \<^verbatim>\<open>pc/session_description.cpp\<close>, \<^verbatim>\<open>pc/codec_info.h\<close>,
  \<^verbatim>\<open>pc/stream_params.cpp\<close> and \<^verbatim>\<open>rtc_base/ssl_fingerprint.cc\<close>: session
  descriptions, their parts, and the SDP text of an offer.  Text is built as a list of bytes; what
  the source streams before a line end is the argument of \<open>crlf\<close>.
\<close>

section \<open>Certificate fingerprints\<close>

record SSLFingerprint =
  fp_algorithm :: bytes
  fp_digest :: bytes

definition IsFips180DigestAlgorithm :: "bytes \<Rightarrow> bool" where
  "IsFips180DigestAlgorithm alg \<longleftrightarrow> alg = bytes_of ''sha-1'' \<or> alg = bytes_of ''sha-224''
     \<or> alg = bytes_of ''sha-256'' \<or> alg = bytes_of ''sha-384'' \<or> alg = bytes_of ''sha-512''"

definition kMaxSize :: nat where "kMaxSize = 64"

definition CreateUniqueFromRfc4572 :: "bytes \<Rightarrow> bytes \<Rightarrow> SSLFingerprint option" where
  "CreateUniqueFromRfc4572 algorithm fingerprint =
     (if algorithm = [] \<or> \<not> IsFips180DigestAlgorithm algorithm then None
      else if fingerprint = [] then None
      else (case hex_decode_with_delimiter kMaxSize fingerprint 0x3A of
              None \<Rightarrow> None
            | Some value \<Rightarrow> if value = [] then None
                else Some \<lparr>fp_algorithm = algorithm, fp_digest = value\<rparr>))"

definition GetRfc4572Fingerprint :: "SSLFingerprint \<Rightarrow> bytes" where
  "GetRfc4572Fingerprint fp = map to_upper (hex_encode_with_delimiter (fp_digest fp) 0x3A)"

section \<open>Codecs and streams\<close>

datatype SdpType = k_offer | k_answer
datatype MediaType = MEDIA_TYPE_AUDIO | MEDIA_TYPE_VIDEO
datatype RtpDirection = k_send_recv | k_send_only | k_recv_only | k_inactive

record FeedbackParam =
  fb_id :: bytes
  fb_param :: bytes

text \<open>\<^verbatim>\<open>channels\<close> is a member of \<^verbatim>\<open>AudioCodecInfo\<close> only.\<close>

record CodecInfo =
  codec_id :: int
  codec_name :: bytes
  clockrate :: int
  feedback_param :: "FeedbackParam list"
  codec_param :: "(bytes \<times> bytes) list"
  channels :: "int option"

text \<open>\<^verbatim>\<open>codec_param[k] = v\<close> on a \<^verbatim>\<open>std::map\<close>, kept in key order.\<close>

fun param_set :: "bytes \<Rightarrow> bytes \<Rightarrow> (bytes \<times> bytes) list \<Rightarrow> (bytes \<times> bytes) list" where
  "param_set k v [] = [(k, v)]"
| "param_set k v ((k', v') # ps) =
     (if k = k' then (k, v) # ps
      else if lexordp (<) k k' then (k, v) # (k', v') # ps
      else (k', v') # param_set k v ps)"

record SsrcGroup =
  semantics :: bytes
  group_ssrcs :: "u32 list"

record StreamParams =
  sp_id :: bytes
  sp_ssrcs :: "u32 list"
  sp_ssrc_groups :: "SsrcGroup list"
  sp_cname :: bytes
  sp_stream_id :: bytes

definition has_ssrc :: "u32 \<Rightarrow> StreamParams \<Rightarrow> bool" where
  "has_ssrc ssrc sp \<longleftrightarrow> ssrc \<in> set (sp_ssrcs sp)"

section \<open>Media contents\<close>

record MediaContentDescription =
  content_type :: MediaType
  codecs :: "CodecInfo list"
  direction :: RtpDirection
  rtcp_mux :: bool
  candidates :: "Candidate list"
  send_streams :: "StreamParams list"

definition media_mid :: "MediaType \<Rightarrow> bytes" where
  "media_mid t = (case t of MEDIA_TYPE_AUDIO \<Rightarrow> bytes_of ''audio'' | MEDIA_TYPE_VIDEO \<Rightarrow> bytes_of ''video'')"

abbreviation mid :: "MediaContentDescription \<Rightarrow> bytes" where
  "mid c \<equiv> media_mid (content_type c)"

text \<open>
  The constructors leave \<^verbatim>\<open>_direction\<close> uninitialised: its value is the argument.
\<close>

definition AudioContentDescription :: "RtpDirection \<Rightarrow> MediaContentDescription" where
  "AudioContentDescription dir =
     (let codec = \<lparr>codec_id = 111, codec_name = bytes_of ''opus'', clockrate = 48000,
            feedback_param = [\<lparr>fb_id = bytes_of ''transport-cc'', fb_param = []\<rparr>],
            codec_param = param_set (bytes_of ''useinbandfec'') (bytes_of ''1'')
              (param_set (bytes_of ''minptime'') (bytes_of ''10'') []),
            channels = Some 2\<rparr>
      in \<lparr>content_type = MEDIA_TYPE_AUDIO, codecs = [codec], direction = dir, rtcp_mux = True,
          candidates = [], send_streams = []\<rparr>)"

definition VideoContentDescription :: "RtpDirection \<Rightarrow> MediaContentDescription" where
  "VideoContentDescription dir =
     (let codec = \<lparr>codec_id = 107, codec_name = bytes_of ''H264'', clockrate = 90000,
            feedback_param = [\<lparr>fb_id = bytes_of ''goog-remb'', fb_param = []\<rparr>,
              \<lparr>fb_id = bytes_of ''transport-cc'', fb_param = []\<rparr>,
              \<lparr>fb_id = bytes_of ''ccm'', fb_param = bytes_of ''fir''\<rparr>,
              \<lparr>fb_id = bytes_of ''nack'', fb_param = []\<rparr>,
              \<lparr>fb_id = bytes_of ''nack'', fb_param = bytes_of ''pli''\<rparr>],
            codec_param = param_set (bytes_of ''profile-level-id'') (bytes_of ''42e01f'')
              (param_set (bytes_of ''packetization-mode'') (bytes_of ''1'')
              (param_set (bytes_of ''level-asymmetry-allowed'') (bytes_of ''1'') [])),
            channels = None\<rparr>;
          rtx_codec = \<lparr>codec_id = 99, codec_name = bytes_of ''rtx'', clockrate = 90000,
            feedback_param = [],
            codec_param = param_set (bytes_of ''apt'') (int_bytes (codec_id codec)) [],
            channels = None\<rparr>
      in \<lparr>content_type = MEDIA_TYPE_VIDEO, codecs = [codec, rtx_codec], direction = dir,
          rtcp_mux = True, candidates = [], send_streams = []\<rparr>)"

definition add_candidates :: "Candidate list \<Rightarrow> MediaContentDescription \<Rightarrow> MediaContentDescription" where
  "add_candidates cs c = c\<lparr>candidates := cs\<rparr>"

definition add_stream :: "StreamParams \<Rightarrow> MediaContentDescription \<Rightarrow> MediaContentDescription" where
  "add_stream stream c = c\<lparr>send_streams := send_streams c @ [stream]\<rparr>"

section \<open>Groups and transport descriptions\<close>

record ContentGroup =
  group_semantics :: bytes
  content_names :: "bytes list"

definition new_ContentGroup :: "bytes \<Rightarrow> ContentGroup" where
  "new_ContentGroup sem = \<lparr>group_semantics = sem, content_names = []\<rparr>"

definition has_content_name :: "bytes \<Rightarrow> ContentGroup \<Rightarrow> bool" where
  "has_content_name name g \<longleftrightarrow> name \<in> set (content_names g)"

definition add_content_name :: "bytes \<Rightarrow> ContentGroup \<Rightarrow> ContentGroup" where
  "add_content_name name g =
     (if \<not> has_content_name name g then g\<lparr>content_names := content_names g @ [name]\<rparr> else g)"

datatype ConnectionRole = NONE | ACTIVE | PASSIVE | ACTPASS | HOLDCONN

record TransportDescription =
  td_mid :: bytes
  td_ice_ufrag :: bytes
  td_ice_pwd :: bytes
  identity_fingerprint :: "SSLFingerprint option"
  connection_role :: ConnectionRole

definition new_TransportDescription :: TransportDescription where
  "new_TransportDescription = \<lparr>td_mid = [], td_ice_ufrag = [], td_ice_pwd = [],
     identity_fingerprint = None, connection_role = NONE\<rparr>"

definition connection_role_to_string :: "ConnectionRole \<Rightarrow> bytes" where
  "connection_role_to_string role = bytes_of (case role of ACTIVE \<Rightarrow> ''active'' | PASSIVE \<Rightarrow> ''passive''
     | ACTPASS \<Rightarrow> ''actpass'' | HOLDCONN \<Rightarrow> ''holdconn'' | NONE \<Rightarrow> ''none'')"

section \<open>Session descriptions\<close>

record SessionDescription =
  sdp_type :: SdpType
  contents :: "MediaContentDescription list"
  content_groups :: "ContentGroup list"
  transport_infos :: "TransportDescription list"

definition new_SessionDescription :: "SdpType \<Rightarrow> SessionDescription" where
  "new_SessionDescription t = \<lparr>sdp_type = t, contents = [], content_groups = [], transport_infos = []\<rparr>"

definition get_content :: "bytes \<Rightarrow> SessionDescription \<Rightarrow> MediaContentDescription option" where
  "get_content m desc = find (\<lambda>c. m = mid c) (contents desc)"

definition add_content :: "MediaContentDescription \<Rightarrow> SessionDescription \<Rightarrow> SessionDescription" where
  "add_content c desc = desc\<lparr>contents := contents desc @ [c]\<rparr>"

definition add_group :: "ContentGroup \<Rightarrow> SessionDescription \<Rightarrow> SessionDescription" where
  "add_group g desc = desc\<lparr>content_groups := content_groups desc @ [g]\<rparr>"

definition get_group_by_name :: "bytes \<Rightarrow> SessionDescription \<Rightarrow> ContentGroup list" where
  "get_group_by_name name desc = filter (\<lambda>g. group_semantics g = name) (content_groups desc)"

text \<open>
  \<^verbatim>\<open>add_transport_info\<close>.  The argument \<open>certificate\<close> is \<open>None\<close> for a null
  pointer, and otherwise the result of \<^verbatim>\<open>SSLFingerprint::CreateFromCertificate\<close>, which
  OpenSSL computes.
\<close>

definition add_transport_info :: "bytes \<Rightarrow> IceParameters \<Rightarrow> SSLFingerprint option option \<Rightarrow> SessionDescription
    \<Rightarrow> bool \<times> SessionDescription" where
  "add_transport_info m ice_param certificate desc =
     (let tdesc = new_TransportDescription\<lparr>td_mid := m, td_ice_ufrag := ice_ufrag ice_param,
            td_ice_pwd := ice_pwd ice_param\<rparr>;
          finish = (\<lambda>td. (True, desc\<lparr>transport_infos := transport_infos desc
            @ [td\<lparr>connection_role := (if sdp_type desc = k_offer then ACTPASS else ACTIVE)\<rparr>]\<rparr>))
      in case certificate of
           None \<Rightarrow> finish tdesc
         | Some None \<Rightarrow> (False, desc)
         | Some (Some fp) \<Rightarrow> finish (tdesc\<lparr>identity_fingerprint := Some fp\<rparr>))"

definition add_transport_info_td :: "TransportDescription \<Rightarrow> SessionDescription \<Rightarrow> SessionDescription" where
  "add_transport_info_td td desc = desc\<lparr>transport_infos := transport_infos desc @ [td]\<rparr>"

definition get_transport_info :: "bytes \<Rightarrow> SessionDescription \<Rightarrow> TransportDescription option" where
  "get_transport_info m desc = find (\<lambda>td. td_mid td = m) (transport_infos desc)"

definition is_bundle :: "bytes \<Rightarrow> SessionDescription \<Rightarrow> bool" where
  "is_bundle m desc \<longleftrightarrow>
     list_ex (\<lambda>g. m \<in> set (content_names g)) (get_group_by_name (bytes_of ''BUNDLE'') desc)"

text \<open>\<^verbatim>\<open>content_names()[0]\<close> of an empty group is out of range: \<open>None\<close>.\<close>

definition get_first_bundle_mid :: "SessionDescription \<Rightarrow> bytes option" where
  "get_first_bundle_mid desc = (case get_group_by_name (bytes_of ''BUNDLE'') desc of
     [] \<Rightarrow> Some []
   | g # _ \<Rightarrow> (case content_names g of [] \<Rightarrow> None | name # _ \<Rightarrow> Some name))"

section \<open>SDP text\<close>

definition crlf :: "bytes \<Rightarrow> bytes" where
  "crlf l = l @ [0x0D, 0x0A]"

definition k_media_protocol_dtls_savpf :: bytes where
  "k_media_protocol_dtls_savpf = bytes_of ''UDP/TLS/RTP/SAVPF''"

definition add_rtcp_fb_line :: "CodecInfo \<Rightarrow> bytes" where
  "add_rtcp_fb_line codec = concat (map (\<lambda>p. crlf (bytes_of ''a=rtcp-fb:'' @ int_bytes (codec_id codec)
     @ bytes_of '' '' @ fb_id p @ (if fb_param p \<noteq> [] then bytes_of '' '' @ fb_param p else [])))
     (feedback_param codec))"

definition add_fmtp_line :: "CodecInfo \<Rightarrow> bytes" where
  "add_fmtp_line codec = (if codec_param codec \<noteq> []
     then crlf (bytes_of ''a=fmtp:'' @ int_bytes (codec_id codec) @ bytes_of '' ''
       @ drop 1 (concat (map (\<lambda>(k, v). bytes_of '';'' @ k @ bytes_of ''='' @ v) (codec_param codec))))
     else [])"

text \<open>\<^verbatim>\<open>as_audio()\<close> of the codecs of an audio content is not null.\<close>

definition build_rtp_map :: "MediaContentDescription \<Rightarrow> bytes" where
  "build_rtp_map content = concat (map (\<lambda>codec.
     crlf (bytes_of ''a=rtpmap:'' @ int_bytes (codec_id codec) @ bytes_of '' '' @ codec_name codec
       @ bytes_of ''/'' @ int_bytes (clockrate codec)
       @ (if content_type content = MEDIA_TYPE_AUDIO then bytes_of ''/'' @ int_bytes (the (channels codec)) else []))
     @ add_rtcp_fb_line codec @ add_fmtp_line codec) (codecs content))"

definition build_rtp_direction :: "MediaContentDescription \<Rightarrow> bytes" where
  "build_rtp_direction content = crlf (bytes_of (case direction content of
     k_send_recv \<Rightarrow> ''a=sendrecv'' | k_send_only \<Rightarrow> ''a=sendonly'' | k_recv_only \<Rightarrow> ''a=recvonly''
   | k_inactive \<Rightarrow> ''a=inactive''))"

definition build_candidates :: "(IPAddress \<Rightarrow> bytes) \<Rightarrow> MediaContentDescription \<Rightarrow> bytes" where
  "build_candidates ntop content = concat (map (\<lambda>c. crlf (bytes_of ''a=candidate:'' @ cand_foundation c
     @ bytes_of '' '' @ int_bytes (component_code (cand_component c))
     @ bytes_of '' '' @ cand_protocol c
     @ bytes_of '' '' @ dec_bytes (unat (cand_priority c))
     @ bytes_of '' '' @ HostAsURIString ntop (cand_address c)
     @ bytes_of '' '' @ int_bytes (cand_port c)
     @ bytes_of '' typ '' @ cand_type c)) (candidates content))"

definition add_ssrc_line :: "u32 \<Rightarrow> bytes \<Rightarrow> bytes \<Rightarrow> bytes" where
  "add_ssrc_line ssrc attribute value =
     crlf (bytes_of ''a=ssrc:'' @ dec_bytes (unat ssrc) @ bytes_of '' '' @ attribute @ bytes_of '':'' @ value)"

definition build_ssrc :: "MediaContentDescription \<Rightarrow> bytes" where
  "build_ssrc content = concat (map (\<lambda>track.
     concat (map (\<lambda>g. if group_ssrcs g = [] then []
       else crlf (bytes_of ''a=ssrc-group:'' @ semantics g
         @ concat (map (\<lambda>ssrc. bytes_of '' '' @ dec_bytes (unat ssrc)) (group_ssrcs g)))) (sp_ssrc_groups track))
     @ (let msid = sp_stream_id track @ bytes_of '' '' @ sp_id track
        in concat (map (\<lambda>ssrc. add_ssrc_line ssrc (bytes_of ''cname'') (sp_cname track)
             @ add_ssrc_line ssrc (bytes_of ''msid'') msid
             @ add_ssrc_line ssrc (bytes_of ''mslabel'') (sp_stream_id track)
             @ add_ssrc_line ssrc (bytes_of ''lable'') (sp_id track)) (sp_ssrcs track)))) (send_streams content))"

definition build_transport :: "TransportDescription option \<Rightarrow> bytes" where
  "build_transport transport_info = (case transport_info of None \<Rightarrow> []
     | Some td \<Rightarrow> crlf (bytes_of ''a=ice-ufrag:'' @ td_ice_ufrag td)
         @ crlf (bytes_of ''a=ice-pwd:'' @ td_ice_pwd td)
         @ (case identity_fingerprint td of None \<Rightarrow> []
            | Some fp \<Rightarrow> crlf (bytes_of ''a=fingerprint:'' @ fp_algorithm fp @ bytes_of '' '' @ GetRfc4572Fingerprint fp)
                @ crlf (bytes_of ''a=setup:'' @ connection_role_to_string (connection_role td))))"

definition build_content :: "(IPAddress \<Rightarrow> bytes) \<Rightarrow> SessionDescription \<Rightarrow> MediaContentDescription \<Rightarrow> bytes" where
  "build_content ntop desc content =
     (let fmt = concat (map (\<lambda>codec. bytes_of '' '' @ int_bytes (codec_id codec)) (codecs content))
      in crlf (bytes_of ''m='' @ mid content @ bytes_of '' 9 '' @ k_media_protocol_dtls_savpf @ fmt)
         @ crlf (bytes_of ''c=IN IP4 0.0.0.0'')
         @ crlf (bytes_of ''a=rtcp:9 IN IP4 0.0.0.0'')
         @ build_candidates ntop content
         @ build_transport (get_transport_info (mid content) desc)
         @ crlf (bytes_of ''a=mid:'' @ mid content)
         @ build_rtp_direction content
         @ (if rtcp_mux content then crlf (bytes_of ''a=rtcp-mux'') else [])
         @ build_rtp_map content
         @ build_ssrc content)"

definition build_bundle :: "SessionDescription \<Rightarrow> bytes" where
  "build_bundle desc = (let content_group = get_group_by_name (bytes_of ''BUNDLE'') desc
     in if content_group \<noteq> []
        then crlf (bytes_of ''a=group:BUNDLE'' @ concat (map (\<lambda>g. concat (map (\<lambda>name. bytes_of '' '' @ name)
          (content_names g))) content_group))
        else [])"

definition sdp_to_string :: "(IPAddress \<Rightarrow> bytes) \<Rightarrow> SessionDescription \<Rightarrow> bytes" where
  "sdp_to_string ntop desc =
     crlf (bytes_of ''v=0'')
     @ crlf (bytes_of ''o=- 0 2 IN IP4 127.0.0.1'')
     @ crlf (bytes_of ''s=-'')
     @ crlf (bytes_of ''t=0 0'')
     @ build_bundle desc
     @ crlf (bytes_of ''a=msid-semantic: WMS'')
     @ concat (map (build_content ntop desc) (contents desc))"

section \<open>Properties\<close>

lemma fingerprint_round_trip:
  assumes "IsFips180DigestAlgorithm (fp_algorithm fp)" "fp_digest fp \<noteq> []" "length (fp_digest fp) \<le> 64"
  shows "CreateUniqueFromRfc4572 (fp_algorithm fp) (GetRfc4572Fingerprint fp) = Some fp"
proof -
  have "GetRfc4572Fingerprint fp \<noteq> []"
    using assms(2) by (cases "fp_digest fp") (simp_all add: GetRfc4572Fingerprint_def)
  moreover have "fp_algorithm fp \<noteq> []" using assms(1) by (auto simp: IsFips180DigestAlgorithm_def bytes_of_def)
  ultimately show ?thesis
    using assms hex_round_trip [OF assms(2,3)]
    by (simp add: CreateUniqueFromRfc4572_def GetRfc4572Fingerprint_def kMaxSize_def)
qed

end
