(* ===== verification/Sdp_Parser.thy ===== *)
theory Sdp_Parser
  imports Session_Description
begin

text \<open>
  The parser of SDP answers in \<^verbatim>\<open>pc/peer_connection.cpp\<close>
  (\<^verbatim>\<open>PeerConnection::set_remote_sdp\<close> and its static helpers) and the offer that
  \<^verbatim>\<open>PeerConnection::create_offer\<close> builds.  A result \<open>None\<close> is an exception
  (\<^verbatim>\<open>std::out_of_range\<close> of \<^verbatim>\<open>substr\<close>) that nobody catches; otherwise
  the result is the return code with what the function wrote through its arguments.
\<close>

section \<open>Attributes\<close>

definition get_attribute_value :: "bytes \<Rightarrow> bytes" where
  "get_attribute_value line = (case tokenize line 0x3A of [_, v] \<Rightarrow> v | _ \<Rightarrow> [])"

definition parse_transport_info :: "bytes \<Rightarrow> TransportDescription \<Rightarrow> (int \<times> TransportDescription) option" where
  "parse_transport_info line td =
     (if str_contains (bytes_of ''a=ice-ufrag'') line
      then let td = td\<lparr>td_ice_ufrag := get_attribute_value line\<rparr>
           in Some (if td_ice_ufrag td = [] then -1 else 0, td)
      else if str_contains (bytes_of ''a=ice-pwd'') line
      then let td = td\<lparr>td_ice_pwd := get_attribute_value line\<rparr>
           in Some (if td_ice_pwd td = [] then -1 else 0, td)
      else if str_contains (bytes_of ''a=fingerprint'') line
      then (case tokenize line 0x20 of
              [item0, item1] \<Rightarrow> do {
                alg \<leftarrow> str_substr 14 item0;
                let td = td\<lparr>identity_fingerprint := CreateUniqueFromRfc4572 (map to_lower alg) item1\<rparr>;
                Some (if identity_fingerprint td = None then -1 else 0, td)
              }
            | _ \<Rightarrow> Some (-1, td))
      else Some (0, td))"

record SsrcInfo =
  ssrc_id :: u32
  si_cname :: bytes
  si_stream_id :: bytes
  si_track_id :: bytes

text \<open>
  The search loop, the insertion at the end and the update through the iterator: the first entry
  with the identifier is changed by \<open>f\<close>, or a new one is appended and changed.
\<close>

fun update_ssrc :: "u32 \<Rightarrow> (SsrcInfo \<Rightarrow> SsrcInfo) \<Rightarrow> SsrcInfo list \<Rightarrow> SsrcInfo list" where
  "update_ssrc ssrc f [] = [f \<lparr>ssrc_id = ssrc, si_cname = [], si_stream_id = [], si_track_id = []\<rparr>]"
| "update_ssrc ssrc f (info # infos) =
     (if ssrc_id info = ssrc then f info # infos else info # update_ssrc ssrc f infos)"

definition parse_ssrc_info :: "bytes \<Rightarrow> SsrcInfo list \<Rightarrow> (int \<times> SsrcInfo list) option" where
  "parse_ssrc_info line ssrc_info =
     (if \<not> str_contains (bytes_of ''a=ssrc:'') line then Some (0, ssrc_info)
      else do {
        line2 \<leftarrow> str_substr 2 line;
        (case tokenize_first line2 0x20 of
           None \<Rightarrow> Some (-1, ssrc_info)
         | Some (field1, field2) \<Rightarrow> do {
             ssrc_id_s \<leftarrow> str_substr 5 field1;
             (case FromString ssrc_id_s of
                None \<Rightarrow> Some (-1, ssrc_info)
              | Some ssrc \<Rightarrow>
                  (case tokenize_first field2 0x3A of
                     None \<Rightarrow> Some (-1, ssrc_info)
                   | Some (attribute, value) \<Rightarrow>
                       if attribute = bytes_of ''cname''
                       then Some (0, update_ssrc ssrc (\<lambda>i. i\<lparr>si_cname := value\<rparr>) ssrc_info)
                       else if attribute = bytes_of ''msid''
                       then (case split value 0x20 of
                               [s] \<Rightarrow> Some (0, update_ssrc ssrc (\<lambda>i. i\<lparr>si_stream_id := s\<rparr>) ssrc_info)
                             | [s, t] \<Rightarrow> Some (0, update_ssrc ssrc (\<lambda>i. i\<lparr>si_stream_id := s, si_track_id := t\<rparr>) ssrc_info)
                             | _ \<Rightarrow> Some (-1, update_ssrc ssrc id ssrc_info))
                       else Some (0, update_ssrc ssrc id ssrc_info)))
           })
      })"

fun parse_ssrcs :: "bytes list \<Rightarrow> u32 list option" where
  "parse_ssrcs [] = Some []"
| "parse_ssrcs (f # fs) = (case FromString f of None \<Rightarrow> None
     | Some ssrc \<Rightarrow> map_option ((#) ssrc) (parse_ssrcs fs))"

definition parse_ssrc_group_info :: "bytes \<Rightarrow> SsrcGroup list \<Rightarrow> (int \<times> SsrcGroup list) option" where
  "parse_ssrc_group_info line ssrc_groups =
     (if \<not> str_contains (bytes_of ''a=ssrc-group:'') line then Some (0, ssrc_groups)
      else do {
        line2 \<leftarrow> str_substr 2 line;
        (case split line2 0x20 of
           f0 # f1 # fs \<Rightarrow>
             let sem = get_attribute_value f0
             in if sem = [] then Some (-1, ssrc_groups)
                else (case parse_ssrcs (f1 # fs) of
                        None \<Rightarrow> Some (-1, ssrc_groups)
                      | Some ssrcs \<Rightarrow> Some (0, ssrc_groups @ [\<lparr>semantics = sem, group_ssrcs = ssrcs\<rparr>]))
         | _ \<Rightarrow> Some (-1, ssrc_groups))
      })"

section \<open>Tracks\<close>

fun update_track :: "SsrcInfo \<Rightarrow> StreamParams list \<Rightarrow> StreamParams list" where
  "update_track info [] = [\<lparr>sp_id = si_track_id info, sp_ssrcs = [ssrc_id info], sp_ssrc_groups = [],
     sp_cname = si_cname info, sp_stream_id = si_stream_id info\<rparr>]"
| "update_track info (track # tracks) =
     (if sp_id track = si_track_id info
      then track\<lparr>sp_cname := si_cname info, sp_stream_id := si_stream_id info,
                 sp_ssrcs := sp_ssrcs track @ [ssrc_id info]\<rparr> # tracks
      else track # update_track info tracks)"

definition create_track_from_ssrc_info :: "SsrcInfo list \<Rightarrow> StreamParams list \<Rightarrow> StreamParams list" where
  "create_track_from_ssrc_info ssrc_infos tracks = fold update_track ssrc_infos tracks"

definition add_ssrc_group :: "SsrcGroup \<Rightarrow> StreamParams list \<Rightarrow> StreamParams list" where
  "add_ssrc_group g tracks = (case group_ssrcs g of [] \<Rightarrow> tracks
     | ssrc # _ \<Rightarrow> map (\<lambda>track. if has_ssrc ssrc track
         then track\<lparr>sp_ssrc_groups := sp_ssrc_groups track @ [g]\<rparr> else track) tracks)"

section \<open>The parser\<close>

text \<open>
  The local variables of \<^verbatim>\<open>set_remote_sdp\<close>.  The contents of the description under
  construction are pointers to the two content objects, so a media type stands for each.
\<close>

record sdp_state =
  media_type :: bytes
  remote_contents :: "MediaType list"
  remote_groups :: "ContentGroup list"
  audio_td :: TransportDescription
  video_td :: TransportDescription
  audio_ssrc_info :: "SsrcInfo list"
  video_ssrc_info :: "SsrcInfo list"
  video_ssrc_groups :: "SsrcGroup list"

definition new_sdp_state :: sdp_state where
  "new_sdp_state = \<lparr>media_type = [], remote_contents = [], remote_groups = [],
     audio_td = new_TransportDescription, video_td = new_TransportDescription,
     audio_ssrc_info = [], video_ssrc_info = [], video_ssrc_groups = []\<rparr>"

definition answer_bundle :: "bytes list \<Rightarrow> ContentGroup" where
  "answer_bundle names = fold add_content_name names (new_ContentGroup (bytes_of ''BUNDLE''))"

text \<open>The part of the loop body that recognises \<^verbatim>\<open>m=\<close> lines.\<close>

definition parse_media_line :: "bytes \<Rightarrow> sdp_state \<Rightarrow> (int \<times> sdp_state) option" where
  "parse_media_line field st =
     (if str_contains (bytes_of ''m=group:BUNDLE'') field
      then (case split field 0x20 of
              _ # n # names \<Rightarrow> Some (0, st\<lparr>remote_groups := remote_groups st @ [answer_bundle (n # names)]\<rparr>)
            | _ \<Rightarrow> Some (0, st))
      else if str_contains (bytes_of ''m='') field
      then let items = split field 0x20
           in if length items \<le> 2 then Some (-1, st)
              else do {
                media \<leftarrow> str_substr 2 (hd items);
                let st = st\<lparr>media_type := media\<rparr>;
                Some (0, if media = bytes_of ''audio''
                   then st\<lparr>remote_contents := remote_contents st @ [MEDIA_TYPE_AUDIO],
                           audio_td := (audio_td st)\<lparr>td_mid := bytes_of ''audio''\<rparr>\<rparr>
                   else if media = bytes_of ''video''
                   then st\<lparr>remote_contents := remote_contents st @ [MEDIA_TYPE_VIDEO],
                           video_td := (video_td st)\<lparr>td_mid := bytes_of ''video''\<rparr>\<rparr>
                   else st)
              }
      else Some (0, st))"

definition parse_field :: "bytes \<Rightarrow> sdp_state \<Rightarrow> (int \<times> sdp_state) option" where
  "parse_field field st = do {
     (ret, st) \<leftarrow> parse_media_line field st;
     if ret \<noteq> 0 then Some (-1, st)
     else if media_type st = bytes_of ''audio''
     then do {
       (ret, td) \<leftarrow> parse_transport_info field (audio_td st);
       let st = st\<lparr>audio_td := td\<rparr>;
       if ret \<noteq> 0 then Some (-1, st)
       else do {
         (ret, infos) \<leftarrow> parse_ssrc_info field (audio_ssrc_info st);
         Some (if ret \<noteq> 0 then -1 else 0, st\<lparr>audio_ssrc_info := infos\<rparr>)
       }
     }
     else if media_type st = bytes_of ''video''
     then do {
       (ret, td) \<leftarrow> parse_transport_info field (video_td st);
       let st = st\<lparr>video_td := td\<rparr>;
       if ret \<noteq> 0 then Some (-1, st)
       else do {
         (ret, groups) \<leftarrow> parse_ssrc_group_info field (video_ssrc_groups st);
         let st = st\<lparr>video_ssrc_groups := groups\<rparr>;
         if ret \<noteq> 0 then Some (-1, st)
         else do {
           (ret, infos) \<leftarrow> parse_ssrc_info field (video_ssrc_info st);
           Some (if ret \<noteq> 0 then -1 else 0, st\<lparr>video_ssrc_info := infos\<rparr>)
         }
       }
     }
     else Some (0, st)
   }"

fun parse_fields :: "bool \<Rightarrow> bytes list \<Rightarrow> sdp_state \<Rightarrow> (int \<times> sdp_state) option" where
  "parse_fields is_rn [] st = Some (0, st)"
| "parse_fields is_rn (field # rest_fields) st = do {
     (ret, st) \<leftarrow> parse_field (if is_rn then take (length field - 1) field else field) st;
     if ret \<noteq> 0 then Some (-1, st) else parse_fields is_rn rest_fields st
   }"

text \<open>
  The description that \<^verbatim>\<open>_remote_desc\<close> points to, given the streams of the two content
  objects and the transport descriptions added at the end; \<open>dir\<close> is the uninitialised
  direction.
\<close>

definition remote_description :: "RtpDirection \<Rightarrow> sdp_state \<Rightarrow> StreamParams list \<Rightarrow> StreamParams list
    \<Rightarrow> TransportDescription list \<Rightarrow> SessionDescription" where
  "remote_description dir st audio_streams video_streams tds =
     \<lparr>sdp_type = k_answer,
      contents = map (\<lambda>t. case t of
          MEDIA_TYPE_AUDIO \<Rightarrow> fold add_stream audio_streams (AudioContentDescription dir)
        | MEDIA_TYPE_VIDEO \<Rightarrow> fold add_stream video_streams (VideoContentDescription dir)) (remote_contents st),
      content_groups = remote_groups st,
      transport_infos = tds\<rparr>"

text \<open>
  \<^verbatim>\<open>set_remote_sdp\<close> up to the call of the transport controller: the return code and the new
  value of \<^verbatim>\<open>_remote_desc\<close>, which is \<open>None\<close> when it is left alone.
\<close>

definition parse_remote_sdp :: "RtpDirection \<Rightarrow> bytes \<Rightarrow> (int \<times> SessionDescription option) option" where
  "parse_remote_sdp dir sdp =
     (let lines = tokenize sdp 0x0A;
          is_rn = str_contains [0x0D, 0x0A] sdp
      in if lines = [] then Some (-1, None)
         else do {
           (ret, st) \<leftarrow> parse_fields is_rn lines new_sdp_state;
           if ret \<noteq> 0 then Some (-1, Some (remote_description dir st [] [] []))
           else let audio_tracks = create_track_from_ssrc_info (audio_ssrc_info st) [];
                    video_tracks = (if video_ssrc_info st = [] then []
                      else fold add_ssrc_group (video_ssrc_groups st) (create_track_from_ssrc_info (video_ssrc_info st) []))
                in Some (0, Some (remote_description dir st audio_tracks video_tracks [audio_td st, video_td st]))
         })"

section \<open>Offers\<close>

record RTCOfferAnswerOptions =
  send_audio :: bool
  send_video :: bool
  recv_audio :: bool
  recv_video :: bool
  use_rtp_mux :: bool
  use_rtcp_mux :: bool
  dtls_on :: bool

definition default_options :: RTCOfferAnswerOptions where
  "default_options = \<lparr>send_audio = True, send_video = True, recv_audio = True, recv_video = True,
     use_rtp_mux = True, use_rtcp_mux = True, dtls_on = True\<rparr>"

definition get_direction :: "bool \<Rightarrow> bool \<Rightarrow> RtpDirection" where
  "get_direction send recv = (if send \<and> recv then k_send_recv else if send \<and> \<not> recv then k_send_only
     else if \<not> send \<and> recv then k_recv_only else k_inactive)"

text \<open>
  One of the two blocks of \<^verbatim>\<open>create_offer\<close>.  The content is shared with the description, so
  the streams added after \<^verbatim>\<open>add_content\<close> are part of it.
\<close>

definition offer_content :: "bool \<Rightarrow> bool \<Rightarrow> RTCOfferAnswerOptions \<Rightarrow> MediaContentDescription \<Rightarrow> StreamParams list
    \<Rightarrow> IceParameters \<Rightarrow> SSLFingerprint option option \<Rightarrow> SessionDescription \<Rightarrow> SessionDescription" where
  "offer_content send recv options content source ice_param certificate desc =
     (if recv \<or> send
      then let content = content\<lparr>direction := get_direction send recv, rtcp_mux := use_rtcp_mux options\<rparr>;
               content = (if send then fold add_stream source content else content)
           in snd (add_transport_info (mid content) ice_param certificate (add_content content desc))
      else desc)"

text \<open>The description of an offer, before the transports are created.\<close>

definition offer_description :: "RtpDirection \<Rightarrow> RTCOfferAnswerOptions \<Rightarrow> IceParameters \<Rightarrow> SSLFingerprint option option
    \<Rightarrow> StreamParams list \<Rightarrow> StreamParams list \<Rightarrow> SessionDescription" where
  "offer_description dir options ice_param certificate audio_source video_source =
     (let desc = new_SessionDescription k_offer;
          desc = offer_content (send_audio options) (recv_audio options) options (AudioContentDescription dir)
            audio_source ice_param certificate desc;
          desc = offer_content (send_video options) (recv_video options) options (VideoContentDescription dir)
            video_source ice_param certificate desc
      in if use_rtp_mux options
         then let offer_bundle = fold (\<lambda>c. add_content_name (mid c)) (contents desc) (new_ContentGroup (bytes_of ''BUNDLE''))
              in if content_names offer_bundle \<noteq> [] then add_group offer_bundle desc else desc
         else desc)"

end
