(* ===== verification/Sdp_Round_Trip.thy ===== *)
theory Sdp_Round_Trip
  imports Sdp_Parser
begin

text \<open>
  The offer of a peer connection survives its own text: parsing the SDP that
  \<^verbatim>\<open>SessionDescription::to_string\<close> prints recovers the credentials, the fingerprint and
  the tracks.  The proof works line by line: each line is either skipped or changes one field of
  the parser's state.
\<close>

section \<open>Characters\<close>

text \<open>
  Values without an equals sign and a line feed cannot be mistaken for another line; values that
  also have no blank and no colon survive the splitting of a line.
\<close>

definition clean :: "bytes \<Rightarrow> bool" where
  "clean s \<longleftrightarrow> 0x3D \<notin> set s \<and> 0x0A \<notin> set s"

definition plain :: "bytes \<Rightarrow> bool" where
  "plain s \<longleftrightarrow> clean s \<and> 0x20 \<notin> set s \<and> 0x3A \<notin> set s"

lemma clean_simps [simp]:
  "clean []" "clean (c # s) \<longleftrightarrow> c \<noteq> 0x3D \<and> c \<noteq> 0x0A \<and> clean s" "clean (s @ t) \<longleftrightarrow> clean s \<and> clean t"
  "clean (concat ss) \<longleftrightarrow> (\<forall>s \<in> set ss. clean s)"
  by (auto simp: clean_def)

lemma plain_simps [simp]:
  "plain []" "plain (c # s) \<longleftrightarrow> c \<noteq> 0x3D \<and> c \<noteq> 0x0A \<and> c \<noteq> 0x20 \<and> c \<noteq> 0x3A \<and> plain s"
  "plain (s @ t) \<longleftrightarrow> plain s \<and> plain t"
  by (auto simp: plain_def)

lemma plainD: "plain s \<Longrightarrow> clean s" "plain s \<Longrightarrow> 0x20 \<notin> set s" "plain s \<Longrightarrow> 0x3A \<notin> set s"
  by (auto simp: plain_def)

lemma plain_dec_bytes [simp]: "plain (dec_bytes n)"
proof -
  have "c \<noteq> 0x3D \<and> c \<noteq> 0x0A \<and> c \<noteq> 0x20 \<and> c \<noteq> 0x3A" if "is_digit c" for c
    using that by (auto simp: is_digit_def)
  then show ?thesis using dec_bytes_digits [of _ n] by (auto simp: plain_def clean_def)
qed

lemma plain_int_bytes [simp]: "plain (int_bytes i)"
  by (simp add: int_bytes_def bytes_of_def)

lemma bytes_of_eq_iff [simp]: "bytes_of s = bytes_of t \<longleftrightarrow> s = t" "bytes_of s = [] \<longleftrightarrow> s = []"
proof -
  have "c = d" if "of_char c = (of_char d :: 8 word)" for c d
  proof -
    have "unat (of_char c :: 8 word) = unat (of_char d :: 8 word)" using that by simp
    then have "of_char c = (of_char d :: nat)"
      by (simp add: of_nat_of_char [symmetric, where ?'a = "8 word"] unat_of_nat take_bit_nat_eq_self del: of_nat_of_char)
    then show "c = d" by simp
  qed
  then have "inj (of_char :: char \<Rightarrow> 8 word)" by (rule injI)
  then show "bytes_of s = bytes_of t \<longleftrightarrow> s = t" by (simp add: bytes_of_def inj_map_eq_map)
qed (simp add: bytes_of_def)

section \<open>Lines that the parser skips\<close>

definition neutral :: "bytes \<Rightarrow> bool" where
  "neutral l \<longleftrightarrow> \<not> str_contains (bytes_of ''m='') l \<and> \<not> str_contains (bytes_of ''a=ice-ufrag'') l
     \<and> \<not> str_contains (bytes_of ''a=ice-pwd'') l \<and> \<not> str_contains (bytes_of ''a=fingerprint'') l
     \<and> \<not> str_contains (bytes_of ''a=ssrc:'') l \<and> \<not> str_contains (bytes_of ''a=ssrc-group:'') l"

lemma no_bundle_line: "\<not> str_contains (bytes_of ''m='') l \<Longrightarrow> \<not> str_contains (bytes_of ''m=group:BUNDLE'') l"
proof -
  have "sublist (bytes_of ''m='') (bytes_of ''m=group:BUNDLE'')"
    by (simp add: bytes_of_def)
  then show "\<not> str_contains (bytes_of ''m='') l \<Longrightarrow> \<not> str_contains (bytes_of ''m=group:BUNDLE'') l"
    using sublist_order.order.trans by (auto simp: str_contains_sublist)
qed

lemma parse_media_line_skip: "\<not> str_contains (bytes_of ''m='') l \<Longrightarrow> parse_media_line l st = Some (0, st)"
  by (simp add: parse_media_line_def no_bundle_line)

lemma parse_skips [simp]:
  assumes "neutral l"
  shows "parse_transport_info l td = Some (0, td)" "parse_ssrc_info l infos = Some (0, infos)"
    "parse_ssrc_group_info l gs = Some (0, gs)" "parse_media_line l st = Some (0, st)"
  using assms parse_media_line_skip
  by (simp_all add: neutral_def parse_transport_info_def parse_ssrc_info_def parse_ssrc_group_info_def)

lemma neutral_step: "neutral l \<Longrightarrow> parse_field l st = Some (0, st)"
  by (simp add: parse_field_def)

text \<open>A line \<^verbatim>\<open>a=...\<close> is recognised by what follows the equals sign.\<close>

lemma attr_line:
  assumes "clean t"
  shows "str_contains (bytes_of (''a='' @ q)) (bytes_of ''a='' @ t) \<longleftrightarrow> prefix (bytes_of q) t"
    "\<not> str_contains (bytes_of ''m='') (bytes_of ''a='' @ t)"
  using assms str_contains_key [of "0x3D" t "0x61" "bytes_of q" "0x61"]
    str_contains_key [of "0x3D" t "0x6D" "[]" "0x61"]
  by (simp_all add: bytes_of_def clean_def)

lemmas attr_keys = attr_line(1) [of _ "''ice-ufrag''", simplified] attr_line(1) [of _ "''ice-pwd''", simplified]
  attr_line(1) [of _ "''fingerprint''", simplified] attr_line(1) [of _ "''ssrc:''", simplified]
  attr_line(1) [of _ "''ssrc-group:''", simplified]

lemma neutral_attr:
  "clean t \<Longrightarrow> neutral (bytes_of ''a='' @ t) \<longleftrightarrow>
    \<not> prefix (bytes_of ''ice-ufrag'') t \<and> \<not> prefix (bytes_of ''ice-pwd'') t \<and> \<not> prefix (bytes_of ''fingerprint'') t
    \<and> \<not> prefix (bytes_of ''ssrc:'') t \<and> \<not> prefix (bytes_of ''ssrc-group:'') t"
  by (simp only: neutral_def attr_keys attr_line(2) simp_thms)

section \<open>Sections\<close>

definition td_of :: "MediaType \<Rightarrow> sdp_state \<Rightarrow> TransportDescription" where
  "td_of t st = (case t of MEDIA_TYPE_AUDIO \<Rightarrow> audio_td st | MEDIA_TYPE_VIDEO \<Rightarrow> video_td st)"

definition infos_of :: "MediaType \<Rightarrow> sdp_state \<Rightarrow> SsrcInfo list" where
  "infos_of t st = (case t of MEDIA_TYPE_AUDIO \<Rightarrow> audio_ssrc_info st | MEDIA_TYPE_VIDEO \<Rightarrow> video_ssrc_info st)"

definition put :: "MediaType \<Rightarrow> TransportDescription \<Rightarrow> SsrcGroup list \<Rightarrow> SsrcInfo list \<Rightarrow> sdp_state \<Rightarrow> sdp_state" where
  "put t td gs infos st = (case t of
     MEDIA_TYPE_AUDIO \<Rightarrow> st\<lparr>audio_td := td, audio_ssrc_info := infos\<rparr>
   | MEDIA_TYPE_VIDEO \<Rightarrow> st\<lparr>video_td := td, video_ssrc_groups := gs, video_ssrc_info := infos\<rparr>)"

text \<open>
  \<open>steps ls st st'\<close>: the lines \<open>ls\<close>, terminated by carriage return and line feed,
  take the parser from \<open>st\<close> to \<open>st'\<close> without an error.
\<close>

definition steps :: "bytes list \<Rightarrow> sdp_state \<Rightarrow> sdp_state \<Rightarrow> bool" where
  "steps ls st st' \<longleftrightarrow> parse_fields True (map (\<lambda>l. l @ [0x0D]) ls) st = Some (0, st')"

lemma steps_Nil [intro, simp]: "steps [] st st"
  by (simp add: steps_def)

lemma steps_Cons: "parse_field l st = Some (0, st') \<Longrightarrow> steps ls st' st'' \<Longrightarrow> steps (l # ls) st st''"
  by (simp add: steps_def)

lemma steps_append: "steps ls st st' \<Longrightarrow> steps ls' st' st'' \<Longrightarrow> steps (ls @ ls') st st''"
proof (induction ls arbitrary: st)
  case (Cons l ls)
  obtain r st1 where p: "parse_field l st = Some (r, st1)"
    using Cons.prems(1) by (cases "parse_field l st") (auto simp: steps_def)
  then have "r = 0" "steps ls st1 st'" using Cons.prems(1) by (auto simp: steps_def split: if_splits)
  with Cons p show ?case by (auto intro: steps_Cons)
qed (simp add: steps_def)

lemma steps_neutral: "(\<And>l. l \<in> set ls \<Longrightarrow> neutral l) \<Longrightarrow> steps ls st st"
  by (induction ls) (auto intro: steps_Cons neutral_step)

text \<open>A line of a section acts on the transport description, the groups and the sources of its medium.\<close>

lemma section_step:
  assumes "media_type st = media_mid t" "\<not> str_contains (bytes_of ''m='') l"
    "parse_transport_info l (td_of t st) = Some (0, td)"
    "parse_ssrc_group_info l (video_ssrc_groups st) = Some (0, gs)"
    "parse_ssrc_info l (infos_of t st) = Some (0, infos)"
  shows "parse_field l st = Some (0, put t td gs infos st)"
proof -
  have "bytes_of ''audio'' \<noteq> bytes_of ''video''" by (simp add: bytes_of_def)
  with assms show ?thesis
    by (cases t) (simp_all add: parse_field_def parse_media_line_skip media_mid_def td_of_def infos_of_def put_def)
qed

lemma put_simps [simp]:
  "media_type (put t td gs infos st) = media_type st" "remote_contents (put t td gs infos st) = remote_contents st"
  "remote_groups (put t td gs infos st) = remote_groups st"
  "td_of t (put t td gs infos st) = td" "infos_of t (put t td gs infos st) = infos"
  "put t td' gs' infos' (put t td gs infos st) = put t td' gs' infos' st"
  "put t (td_of t st) (video_ssrc_groups st) (infos_of t st) st = st"
  "video_ssrc_groups (put MEDIA_TYPE_VIDEO td gs infos st) = gs"
  "video_ssrc_groups (put MEDIA_TYPE_AUDIO td gs infos st) = video_ssrc_groups st"
  by (cases t; simp add: put_def td_of_def infos_of_def)+

section \<open>Transport lines\<close>

lemma get_attribute_value_key:
  assumes "0x3A \<notin> set k" "k \<noteq> []" "0x3A \<notin> set v" "v \<noteq> []"
  shows "get_attribute_value (k @ 0x3A # v) = v"
  using assms by (simp add: get_attribute_value_def tokenize_filter split_append)

lemma key_split:
  "bytes_of ''a=ice-ufrag:'' = bytes_of ''a='' @ bytes_of ''ice-ufrag'' @ [0x3A]"
  "bytes_of ''a=ice-pwd:'' = bytes_of ''a='' @ bytes_of ''ice-pwd'' @ [0x3A]"
  "bytes_of ''a=fingerprint:'' = bytes_of ''a='' @ bytes_of ''fingerprint'' @ [0x3A]"
  "bytes_of ''a=ssrc:'' = bytes_of ''a='' @ bytes_of ''ssrc'' @ [0x3A]"
  "bytes_of ''a=ssrc-group:'' = bytes_of ''a='' @ bytes_of ''ssrc-group'' @ [0x3A]"
  "bytes_of ''a=candidate:'' = bytes_of ''a='' @ bytes_of ''candidate'' @ [0x3A]"
  by (simp_all add: bytes_of_def)

text \<open>The two kinds of lines of a section.\<close>

lemma prefix_ssrc:
  "prefix (bytes_of ''ssrc:'') s \<Longrightarrow> prefix (bytes_of ''ssrc'') s"
  "prefix (bytes_of ''ssrc-group:'') s \<Longrightarrow> prefix (bytes_of ''ssrc'') s"
  by (auto simp: bytes_of_def prefix_def)

lemma transport_step:
  assumes "media_type st = media_mid t" "clean s" "\<not> prefix (bytes_of ''ssrc'') s"
    "parse_transport_info (bytes_of ''a='' @ s) (td_of t st) = Some (0, td)"
  shows "parse_field (bytes_of ''a='' @ s) st = Some (0, put t td (video_ssrc_groups st) (infos_of t st) st)"
proof (rule section_step [OF assms(1) attr_line(2) [OF assms(2)] assms(4)])
  show "parse_ssrc_group_info (bytes_of ''a='' @ s) gs = Some (0, gs)" for gs
    using assms(3) prefix_ssrc unfolding parse_ssrc_group_info_def attr_keys [OF assms(2)] by auto
  show "parse_ssrc_info (bytes_of ''a='' @ s) infos = Some (0, infos)" for infos
    using assms(3) prefix_ssrc unfolding parse_ssrc_info_def attr_keys [OF assms(2)] by auto
qed

lemma source_step:
  assumes "media_type st = media_mid t" "clean s" "prefix (bytes_of ''ssrc'') s"
    "parse_ssrc_group_info (bytes_of ''a='' @ s) (video_ssrc_groups st) = Some (0, gs)"
    "parse_ssrc_info (bytes_of ''a='' @ s) (infos_of t st) = Some (0, infos)"
  shows "parse_field (bytes_of ''a='' @ s) st = Some (0, put t (td_of t st) gs infos st)"
proof (rule section_step [OF assms(1) attr_line(2) [OF assms(2)] _ assms(4,5)])
  show "parse_transport_info (bytes_of ''a='' @ s) td = Some (0, td)" for td
    using assms(3) unfolding parse_transport_info_def attr_keys [OF assms(2)]
    by (auto simp: prefix_def bytes_of_def)
qed

lemma ufrag_step:
  assumes "media_type st = media_mid t" "plain u" "u \<noteq> []"
  shows "parse_field (bytes_of ''a=ice-ufrag:'' @ u) st
    = Some (0, put t ((td_of t st)\<lparr>td_ice_ufrag := u\<rparr>) (video_ssrc_groups st) (infos_of t st) st)"
proof -
  let ?t = "bytes_of ''ice-ufrag'' @ 0x3A # u"
  have c: "clean ?t" using assms(2) by (simp add: plainD bytes_of_def)
  have "get_attribute_value (bytes_of ''a='' @ ?t) = u"
    using get_attribute_value_key [of "bytes_of ''a=ice-ufrag''" u] assms(2,3) by (simp add: plainD bytes_of_def)
  then have "parse_transport_info (bytes_of ''a='' @ ?t) (td_of t st) = Some (0, (td_of t st)\<lparr>td_ice_ufrag := u\<rparr>)"
    using assms(3) unfolding parse_transport_info_def attr_keys [OF c] by simp
  moreover have "\<not> prefix (bytes_of ''ssrc'') ?t" by (simp add: bytes_of_def)
  ultimately show ?thesis using transport_step [OF assms(1) c] by (simp add: key_split)
qed

lemma pwd_step:
  assumes "media_type st = media_mid t" "plain u" "u \<noteq> []"
  shows "parse_field (bytes_of ''a=ice-pwd:'' @ u) st
    = Some (0, put t ((td_of t st)\<lparr>td_ice_pwd := u\<rparr>) (video_ssrc_groups st) (infos_of t st) st)"
proof -
  let ?t = "bytes_of ''ice-pwd'' @ 0x3A # u"
  have c: "clean ?t" using assms(2) by (simp add: plainD bytes_of_def)
  have "get_attribute_value (bytes_of ''a='' @ ?t) = u"
    using get_attribute_value_key [of "bytes_of ''a=ice-pwd''" u] assms(2,3) by (simp add: plainD bytes_of_def)
  moreover have "\<not> prefix (bytes_of ''ice-ufrag'') ?t" by (simp add: bytes_of_def)
  ultimately have "parse_transport_info (bytes_of ''a='' @ ?t) (td_of t st) = Some (0, (td_of t st)\<lparr>td_ice_pwd := u\<rparr>)"
    using assms(3) unfolding parse_transport_info_def attr_keys [OF c] by simp
  moreover have "\<not> prefix (bytes_of ''ssrc'') ?t" by (simp add: bytes_of_def)
  ultimately show ?thesis using transport_step [OF assms(1) c] by (simp add: key_split)
qed

definition fingerprint_ok :: "SSLFingerprint \<Rightarrow> bool" where
  "fingerprint_ok fp \<longleftrightarrow> IsFips180DigestAlgorithm (fp_algorithm fp) \<and> fp_digest fp \<noteq> [] \<and> length (fp_digest fp) \<le> 64"

lemma hex_digit_char:
  assumes "v < 16" "c = to_upper (hex_encode v)"
  shows "c \<noteq> 0x3D \<and> c \<noteq> 0x0A \<and> c \<noteq> 0x20"
proof -
  have "hex_decode c = Some v" using assms hex_decode_encode by simp
  then show ?thesis by (auto simp: hex_decode_def)
qed

lemma GetRfc4572Fingerprint_chars:
  "clean (GetRfc4572Fingerprint fp) \<and> 0x20 \<notin> set (GetRfc4572Fingerprint fp)"
proof -
  have "c \<noteq> 0x3D \<and> c \<noteq> 0x0A \<and> c \<noteq> 0x20" if "c \<in> set (map to_upper (hex_encode_with_delimiter bs 0x3A))" for c bs
    using that
  proof (induction bs)
    case (Cons b bs)
    have "to_upper 0x3A = 0x3A" by (simp add: to_upper_def)
    with Cons hex_digit_char [OF nibble_less] show ?case by (auto split: if_splits)
  qed simp
  then show ?thesis unfolding clean_def GetRfc4572Fingerprint_def by blast
qed

lemma fips_algorithm:
  assumes "IsFips180DigestAlgorithm alg"
  shows "plain alg" "map to_lower alg = alg" "alg \<noteq> []"
  using assms by (auto simp: IsFips180DigestAlgorithm_def bytes_of_def to_lower_def)

lemma fingerprint_step:
  assumes "media_type st = media_mid t" "fingerprint_ok fp"
  shows "parse_field (bytes_of ''a=fingerprint:'' @ fp_algorithm fp @ bytes_of '' '' @ GetRfc4572Fingerprint fp) st
    = Some (0, put t ((td_of t st)\<lparr>identity_fingerprint := Some fp\<rparr>) (video_ssrc_groups st) (infos_of t st) st)"
proof -
  let ?g = "GetRfc4572Fingerprint fp" and ?k = "bytes_of ''fingerprint'' @ 0x3A # fp_algorithm fp"
  let ?t = "?k @ 0x20 # ?g"
  have alg: "plain (fp_algorithm fp)" "map to_lower (fp_algorithm fp) = fp_algorithm fp"
    using fips_algorithm assms(2) by (simp_all add: fingerprint_ok_def)
  have c: "clean ?t" using alg(1) GetRfc4572Fingerprint_chars by (simp add: plainD bytes_of_def)
  have "fp_digest fp \<noteq> []" using assms(2) by (simp add: fingerprint_ok_def)
  then have g: "?g \<noteq> []" by (cases "fp_digest fp") (simp_all add: GetRfc4572Fingerprint_def)
  have "split (bytes_of ''a='' @ ?t) 0x20 = [bytes_of ''a='' @ ?k, ?g]"
    using split_append [of "0x20" "bytes_of ''a='' @ ?k" ?g] alg(1) GetRfc4572Fingerprint_chars [of fp]
    by (simp add: plainD bytes_of_def)
  then have "tokenize (bytes_of ''a='' @ ?t) 0x20 = [bytes_of ''a='' @ ?k, ?g]"
    using g by (simp add: tokenize_filter bytes_of_def)
  moreover have "str_substr 14 (bytes_of ''a='' @ ?k) = Some (fp_algorithm fp)"
    by (simp add: str_substr_def bytes_of_def)
  moreover have "CreateUniqueFromRfc4572 (fp_algorithm fp) ?g = Some fp"
    using fingerprint_round_trip assms(2) by (simp add: fingerprint_ok_def)
  moreover have "\<not> prefix (bytes_of ''ice-ufrag'') ?t" "\<not> prefix (bytes_of ''ice-pwd'') ?t" by (simp_all add: bytes_of_def)
  ultimately have "parse_transport_info (bytes_of ''a='' @ ?t) (td_of t st) = Some (0, (td_of t st)\<lparr>identity_fingerprint := Some fp\<rparr>)"
    unfolding parse_transport_info_def attr_keys [OF c] by (simp add: alg(2))
  moreover have "\<not> prefix (bytes_of ''ssrc'') ?t" by (simp add: bytes_of_def)
  ultimately have "parse_field (bytes_of ''a='' @ ?t) st
    = Some (0, put t ((td_of t st)\<lparr>identity_fingerprint := Some fp\<rparr>) (video_ssrc_groups st) (infos_of t st) st)"
    using transport_step [OF assms(1) c] by simp
  then show ?thesis by (simp add: bytes_of_def)
qed

section \<open>Source lines\<close>

lemma update_ssrc_new: "ssrc \<notin> ssrc_id ` set infos \<Longrightarrow>
    update_ssrc ssrc f infos = infos @ [f \<lparr>ssrc_id = ssrc, si_cname = [], si_stream_id = [], si_track_id = []\<rparr>]"
  by (induction infos) auto

lemma update_ssrc_last: "ssrc \<notin> ssrc_id ` set infos \<Longrightarrow> ssrc_id i = ssrc \<Longrightarrow>
    update_ssrc ssrc f (infos @ [i]) = infos @ [f i]"
  by (induction infos) auto

definition ssrc_line :: "u32 \<Rightarrow> bytes \<Rightarrow> bytes \<Rightarrow> bytes" where
  "ssrc_line ssrc attribute value =
     bytes_of ''a=ssrc:'' @ dec_bytes (unat ssrc) @ bytes_of '' '' @ attribute @ bytes_of '':'' @ value"

text \<open>What a source line says, and the list of sources after it.\<close>

lemma parse_ssrc_line:
  assumes "plain attr" "attr \<noteq> []" "clean v" "v = [] \<or> hd v \<noteq> 0x3A"
  shows "parse_ssrc_info (ssrc_line ssrc attr v) infos =
    (if attr = bytes_of ''cname'' then Some (0, update_ssrc ssrc (\<lambda>i. i\<lparr>si_cname := v\<rparr>) infos)
     else if attr = bytes_of ''msid''
     then (case split v 0x20 of
             [s] \<Rightarrow> Some (0, update_ssrc ssrc (\<lambda>i. i\<lparr>si_stream_id := s\<rparr>) infos)
           | [s, t] \<Rightarrow> Some (0, update_ssrc ssrc (\<lambda>i. i\<lparr>si_stream_id := s, si_track_id := t\<rparr>) infos)
           | _ \<Rightarrow> Some (-1, update_ssrc ssrc id infos))
     else Some (0, update_ssrc ssrc id infos))"
proof -
  let ?n = "dec_bytes (unat ssrc)"
  let ?s = "bytes_of ''ssrc:'' @ ?n @ 0x20 # attr @ 0x3A # v"
  have line: "ssrc_line ssrc attr v = bytes_of ''a='' @ ?s"
    by (simp add: ssrc_line_def bytes_of_def)
  have c: "clean ?s" using assms by (simp add: plainD bytes_of_def)
  have key: "str_contains (bytes_of ''a=ssrc:'') (bytes_of ''a='' @ ?s)" using attr_keys [OF c] by simp
  have s2: "str_substr 2 (bytes_of ''a='' @ ?s) = Some ?s" by (simp add: str_substr_def bytes_of_def)
  have "tokenize_first ((bytes_of ''ssrc:'' @ ?n) @ 0x20 # (attr @ 0x3A # v)) 0x20
      = Some (bytes_of ''ssrc:'' @ ?n, attr @ 0x3A # v)"
  proof (rule tokenize_first_append)
    show "0x20 \<notin> set (bytes_of ''ssrc:'' @ ?n)" by (simp add: plainD bytes_of_def)
    obtain x xs where "attr = x # xs" using assms(2) by (cases attr) simp_all
    then show "attr @ 0x3A # v = [] \<or> hd (attr @ 0x3A # v) \<noteq> 0x20" using assms(1) by simp
  qed
  then have f1: "tokenize_first ?s 0x20 = Some (bytes_of ''ssrc:'' @ ?n, attr @ 0x3A # v)" by simp
  have s5: "str_substr 5 (bytes_of ''ssrc:'' @ ?n) = Some ?n" by (simp add: str_substr_def bytes_of_def)
  have f2: "tokenize_first (attr @ 0x3A # v) 0x3A = Some (attr, v)"
    by (rule tokenize_first_append) (use assms in \<open>auto simp: plainD\<close>)
  show ?thesis
    unfolding line parse_ssrc_info_def using key s2 f1 s5 f2 by (simp add: FromString_dec_bytes)
qed

lemma ssrc_line_step:
  assumes "media_type st = media_mid t" "plain attr" "attr \<noteq> []" "clean v"
    "parse_ssrc_info (ssrc_line ssrc attr v) (infos_of t st) = Some (0, infos)"
  shows "parse_field (ssrc_line ssrc attr v) st = Some (0, put t (td_of t st) (video_ssrc_groups st) infos st)"
proof -
  let ?s = "bytes_of ''ssrc:'' @ dec_bytes (unat ssrc) @ 0x20 # attr @ 0x3A # v"
  have line: "ssrc_line ssrc attr v = bytes_of ''a='' @ ?s"
    by (simp add: ssrc_line_def bytes_of_def)
  have c: "clean ?s" using assms by (simp add: plainD bytes_of_def)
  moreover have "prefix (bytes_of ''ssrc'') ?s" by (simp add: bytes_of_def)
  moreover have "parse_ssrc_group_info (bytes_of ''a='' @ ?s) gs = Some (0, gs)" for gs
    unfolding parse_ssrc_group_info_def attr_keys [OF c] by (simp add: bytes_of_def)
  ultimately show ?thesis using source_step [OF assms(1)] assms(5) unfolding line by blast
qed

definition track_info :: "StreamParams \<Rightarrow> u32 \<Rightarrow> SsrcInfo" where
  "track_info track ssrc = \<lparr>ssrc_id = ssrc, si_cname = sp_cname track, si_stream_id = sp_stream_id track,
     si_track_id = sp_id track\<rparr>"

definition ssrc_lines :: "StreamParams \<Rightarrow> u32 \<Rightarrow> bytes list" where
  "ssrc_lines track ssrc = [ssrc_line ssrc (bytes_of ''cname'') (sp_cname track),
     ssrc_line ssrc (bytes_of ''msid'') (sp_stream_id track @ bytes_of '' '' @ sp_id track),
     ssrc_line ssrc (bytes_of ''mslabel'') (sp_stream_id track),
     ssrc_line ssrc (bytes_of ''lable'') (sp_id track)]"

definition track_plain :: "StreamParams \<Rightarrow> bool" where
  "track_plain track \<longleftrightarrow> plain (sp_cname track) \<and> plain (sp_stream_id track) \<and> plain (sp_id track)"

lemma plain_hd: "plain v \<Longrightarrow> v = [] \<or> hd v \<noteq> 0x3A"
  by (cases v) simp_all

lemma ssrc_lines_steps:
  assumes "media_type st = media_mid t" "track_plain track" "ssrc \<notin> ssrc_id ` set (infos_of t st)"
  shows "steps (ssrc_lines track ssrc) st
    (put t (td_of t st) (video_ssrc_groups st) (infos_of t st @ [track_info track ssrc]) st)"
proof -
  let ?td = "td_of t st" and ?gs = "video_ssrc_groups st" and ?is = "infos_of t st"
  let ?i1 = "\<lparr>ssrc_id = ssrc, si_cname = sp_cname track, si_stream_id = [], si_track_id = []\<rparr>"
  let ?msid = "sp_stream_id track @ bytes_of '' '' @ sp_id track"
  have p: "plain (sp_cname track)" "plain (sp_stream_id track)" "plain (sp_id track)"
    using assms(2) by (simp_all add: track_plain_def)
  have msid: "clean ?msid" "?msid = [] \<or> hd ?msid \<noteq> 0x3A" "split ?msid 0x20 = [sp_stream_id track, sp_id track]"
    using p plain_hd [OF p(2)] split_append [of "0x20" "sp_stream_id track" "sp_id track"]
    by (cases "sp_stream_id track"; simp add: plainD bytes_of_def)+
  have names: "plain (bytes_of ''cname'')" "plain (bytes_of ''msid'')" "plain (bytes_of ''mslabel'')" "plain (bytes_of ''lable'')"
    by (simp_all add: bytes_of_def)
  have l1: "parse_ssrc_info (ssrc_line ssrc (bytes_of ''cname'') (sp_cname track)) ?is = Some (0, ?is @ [?i1])"
    using parse_ssrc_line [OF names(1) _ plainD(1) [OF p(1)] plain_hd [OF p(1)]] update_ssrc_new [OF assms(3)] by simp
  have l2: "parse_ssrc_info (ssrc_line ssrc (bytes_of ''msid'') ?msid) (?is @ [?i1]) = Some (0, ?is @ [track_info track ssrc])"
    using parse_ssrc_line [OF names(2) _ msid(1,2)] update_ssrc_last [OF assms(3), of ?i1] msid(3)
    by (simp add: track_info_def)
  have l3: "parse_ssrc_info (ssrc_line ssrc (bytes_of ''mslabel'') (sp_stream_id track)) (?is @ [track_info track ssrc])
      = Some (0, ?is @ [track_info track ssrc])"
    using parse_ssrc_line [OF names(3) _ plainD(1) [OF p(2)] plain_hd [OF p(2)]]
      update_ssrc_last [OF assms(3), of "track_info track ssrc"] by (simp add: track_info_def)
  have l4: "parse_ssrc_info (ssrc_line ssrc (bytes_of ''lable'') (sp_id track)) (?is @ [track_info track ssrc])
      = Some (0, ?is @ [track_info track ssrc])"
    using parse_ssrc_line [OF names(4) _ plainD(1) [OF p(3)] plain_hd [OF p(3)]]
      update_ssrc_last [OF assms(3), of "track_info track ssrc"] by (simp add: track_info_def)
  show ?thesis
    unfolding ssrc_lines_def
    by (rule steps_Cons, rule ssrc_line_step [OF assms(1) names(1) _ plainD(1) [OF p(1)] l1], simp,
        rule steps_Cons, rule ssrc_line_step [OF _ names(2) _ msid(1)], simp add: assms(1), simp, simp add: l2,
        rule steps_Cons, rule ssrc_line_step [OF _ names(3) _ plainD(1) [OF p(2)]], simp add: assms(1), simp, simp add: l3,
        rule steps_Cons, rule ssrc_line_step [OF _ names(4) _ plainD(1) [OF p(3)]], simp add: assms(1), simp, simp add: l4)
      (cases t; simp)
qed

definition group_line :: "SsrcGroup \<Rightarrow> bytes" where
  "group_line g = bytes_of ''a=ssrc-group:'' @ semantics g
     @ concat (map (\<lambda>ssrc. bytes_of '' '' @ dec_bytes (unat ssrc)) (group_ssrcs g))"

definition group_plain :: "SsrcGroup \<Rightarrow> bool" where
  "group_plain g \<longleftrightarrow> plain (semantics g) \<and> semantics g \<noteq> [] \<and> group_ssrcs g \<noteq> []"

lemma parse_ssrcs_dec: "parse_ssrcs (map (\<lambda>n. dec_bytes (unat n)) ns) = Some ns"
  by (induction ns) (simp_all add: FromString_dec_bytes)

lemma split_blank_list:
  assumes "0x20 \<notin> set h" "\<And>f. f \<in> set fs \<Longrightarrow> 0x20 \<notin> set f"
  shows "split (h @ concat (map (\<lambda>f. 0x20 # f) fs)) 0x20 = h # fs"
  using assms
proof (induction fs arbitrary: h)
  case (Cons f fs)
  have "split (f @ concat (map (\<lambda>f. 0x20 # f) fs)) 0x20 = f # fs" using Cons by simp
  with Cons.prems(1) show ?case by (simp add: split_append)
qed simp

lemma group_line_step:
  assumes "media_type st = media_mid t" "group_plain g"
  shows "parse_field (group_line g) st
    = Some (0, put t (td_of t st) (video_ssrc_groups st @ [g]) (infos_of t st) st)"
proof -
  let ?fs = "map (\<lambda>n. dec_bytes (unat n)) (group_ssrcs g)" and ?k = "bytes_of ''ssrc-group'' @ 0x3A # semantics g"
  let ?s = "?k @ concat (map (\<lambda>f. 0x20 # f) ?fs)"
  have p: "plain (semantics g)" "semantics g \<noteq> []" "group_ssrcs g \<noteq> []" using assms(2) by (simp_all add: group_plain_def)
  have line: "group_line g = bytes_of ''a='' @ ?s" by (simp add: group_line_def bytes_of_def comp_def)
  have c: "clean ?s" using p(1) by (auto simp: plainD bytes_of_def)
  have "split ?s 0x20 = ?k # ?fs"
    by (rule split_blank_list) (use p(1) in \<open>auto simp: plainD bytes_of_def\<close>)
  moreover obtain f1 f2 where f12: "?fs = f1 # f2" using p(3) by (cases "group_ssrcs g") simp_all
  moreover have "str_substr 2 (bytes_of ''a='' @ ?s) = Some ?s" by (simp add: str_substr_def bytes_of_def)
  moreover have "get_attribute_value ?k = semantics g"
    using get_attribute_value_key [of "bytes_of ''ssrc-group''"] p by (simp add: plainD bytes_of_def)
  moreover have "prefix (bytes_of ''ssrc-group:'') ?s" by (simp add: bytes_of_def)
  ultimately have "parse_ssrc_group_info (bytes_of ''a='' @ ?s) gs = Some (0, gs @ [g])" for gs
    using p(2) parse_ssrcs_dec [of "group_ssrcs g"] unfolding parse_ssrc_group_info_def attr_keys [OF c] by simp
  moreover have "parse_ssrc_info (bytes_of ''a='' @ ?s) infos = Some (0, infos)" for infos
    unfolding parse_ssrc_info_def attr_keys [OF c] by (simp add: bytes_of_def)
  moreover have "prefix (bytes_of ''ssrc'') ?s" by (simp add: bytes_of_def)
  ultimately show ?thesis using source_step [OF assms(1) c] unfolding line by blast
qed

section \<open>Tracks\<close>

definition track_lines :: "StreamParams \<Rightarrow> bytes list" where
  "track_lines track = map group_line (sp_ssrc_groups track) @ concat (map (ssrc_lines track) (sp_ssrcs track))"

definition stream_infos :: "StreamParams list \<Rightarrow> SsrcInfo list" where
  "stream_infos streams = concat (map (\<lambda>track. map (track_info track) (sp_ssrcs track)) streams)"

definition stream_groups :: "StreamParams list \<Rightarrow> SsrcGroup list" where
  "stream_groups streams = concat (map sp_ssrc_groups streams)"

definition stream_ssrcs :: "StreamParams list \<Rightarrow> u32 list" where
  "stream_ssrcs streams = concat (map sp_ssrcs streams)"

lemma ids_stream_infos [simp]: "ssrc_id ` set (stream_infos streams) = set (stream_ssrcs streams)"
  by (auto simp: stream_infos_def stream_ssrcs_def track_info_def image_iff)

text \<open>
  The streams of a content that its SDP text describes without loss: distinct track identifiers,
  distinct sources, at least one per track, and groups that begin with a source of their track.
  Groups are parsed for video only.
\<close>

definition streams_ok :: "MediaType \<Rightarrow> StreamParams list \<Rightarrow> bool" where
  "streams_ok t streams \<longleftrightarrow> distinct (map sp_id streams) \<and> distinct (stream_ssrcs streams)
     \<and> (\<forall>track \<in> set streams. track_plain track \<and> sp_ssrcs track \<noteq> []
          \<and> (t = MEDIA_TYPE_AUDIO \<longrightarrow> sp_ssrc_groups track = [])
          \<and> (\<forall>g \<in> set (sp_ssrc_groups track). group_plain g \<and> hd (group_ssrcs g) \<in> set (sp_ssrcs track)))"

lemma group_lines_steps:
  assumes "media_type st = media_mid t" "\<And>g. g \<in> set gs \<Longrightarrow> group_plain g"
  shows "steps (map group_line gs) st (put t (td_of t st) (video_ssrc_groups st @ gs) (infos_of t st) st)"
  using assms
proof (induction gs arbitrary: st)
  case (Cons g gs)
  let ?st = "put t (td_of t st) (video_ssrc_groups st @ [g]) (infos_of t st) st"
  have "steps (map group_line gs) ?st (put t (td_of t ?st) (video_ssrc_groups ?st @ gs) (infos_of t ?st) ?st)"
    by (rule Cons.IH) (use Cons.prems in auto)
  moreover have "put t (td_of t ?st) (video_ssrc_groups ?st @ gs) (infos_of t ?st) ?st
      = put t (td_of t st) (video_ssrc_groups st @ g # gs) (infos_of t st) st"
    by (cases t) (simp_all add: put_def td_of_def infos_of_def)
  ultimately show ?case using group_line_step [OF Cons.prems(1), of g] Cons.prems(2) by (auto intro: steps_Cons)
qed simp

lemma concat_ssrc_lines_steps:
  assumes "media_type st = media_mid t" "track_plain track" "distinct ssrcs"
    "set ssrcs \<inter> ssrc_id ` set (infos_of t st) = {}"
  shows "steps (concat (map (ssrc_lines track) ssrcs)) st
    (put t (td_of t st) (video_ssrc_groups st) (infos_of t st @ map (track_info track) ssrcs) st)"
  using assms
proof (induction ssrcs arbitrary: st)
  case (Cons ssrc ssrcs)
  let ?st = "put t (td_of t st) (video_ssrc_groups st) (infos_of t st @ [track_info track ssrc]) st"
  have "set ssrcs \<inter> ssrc_id ` set (infos_of t ?st) = {}" using Cons.prems(3,4) by (auto simp: track_info_def)
  then have "steps (concat (map (ssrc_lines track) ssrcs)) ?st
    (put t (td_of t ?st) (video_ssrc_groups ?st) (infos_of t ?st @ map (track_info track) ssrcs) ?st)"
    by (intro Cons.IH) (use Cons.prems in simp_all)
  moreover have "put t (td_of t ?st) (video_ssrc_groups ?st) (infos_of t ?st @ map (track_info track) ssrcs) ?st
      = put t (td_of t st) (video_ssrc_groups st) (infos_of t st @ map (track_info track) (ssrc # ssrcs)) st"
    by (cases t) (simp_all add: put_def td_of_def infos_of_def)
  ultimately show ?case
    using steps_append [OF ssrc_lines_steps [OF Cons.prems(1,2)]] Cons.prems(4) by auto
qed simp

lemma streams_steps:
  assumes "media_type st = media_mid t" "distinct (stream_ssrcs streams)"
    "set (stream_ssrcs streams) \<inter> ssrc_id ` set (infos_of t st) = {}"
    "\<And>track. track \<in> set streams \<Longrightarrow> track_plain track \<and> (\<forall>g \<in> set (sp_ssrc_groups track). group_plain g)"
  shows "steps (concat (map track_lines streams)) st
    (put t (td_of t st) (video_ssrc_groups st @ stream_groups streams) (infos_of t st @ stream_infos streams) st)"
  using assms
proof (induction streams arbitrary: st)
  case (Cons track streams)
  let ?st1 = "put t (td_of t st) (video_ssrc_groups st @ sp_ssrc_groups track) (infos_of t st) st"
  let ?st = "put t (td_of t st) (video_ssrc_groups st @ sp_ssrc_groups track)
    (infos_of t st @ map (track_info track) (sp_ssrcs track)) st"
  have tr: "track_plain track" "\<forall>g \<in> set (sp_ssrc_groups track). group_plain g"
    "distinct (sp_ssrcs track)" "set (sp_ssrcs track) \<inter> ssrc_id ` set (infos_of t st) = {}"
    "set (sp_ssrcs track) \<inter> set (stream_ssrcs streams) = {}"
    using Cons.prems by (auto simp: stream_ssrcs_def)
  have gsteps: "steps (map group_line (sp_ssrc_groups track)) st ?st1"
    using group_lines_steps [OF Cons.prems(1)] tr(2) by blast
  have "put t (td_of t ?st1) (video_ssrc_groups ?st1) (infos_of t ?st1 @ map (track_info track) (sp_ssrcs track)) ?st1 = ?st"
    by (cases t) (simp_all add: put_def td_of_def infos_of_def)
  moreover have "media_type ?st1 = media_mid t" "set (sp_ssrcs track) \<inter> ssrc_id ` set (infos_of t ?st1) = {}"
    using Cons.prems(1) tr(4) by simp_all
  ultimately have "steps (concat (map (ssrc_lines track) (sp_ssrcs track))) ?st1 ?st"
    using concat_ssrc_lines_steps [of ?st1 t track "sp_ssrcs track"] tr(1,3) by simp
  then have "steps (track_lines track) st ?st" unfolding track_lines_def by (rule steps_append [OF gsteps])
  moreover have "set (stream_ssrcs streams) \<inter> ssrc_id ` set (infos_of t ?st) = {}"
  proof -
    have "ssrc_id ` set (infos_of t ?st) = ssrc_id ` set (infos_of t st) \<union> set (sp_ssrcs track)"
      by (simp add: track_info_def image_Un image_image)
    moreover have "set (stream_ssrcs streams) \<subseteq> set (stream_ssrcs (track # streams))" by (simp add: stream_ssrcs_def)
    ultimately show ?thesis using Cons.prems(3) tr(5) by blast
  qed
  then have "steps (concat (map track_lines streams)) ?st
    (put t (td_of t ?st) (video_ssrc_groups ?st @ stream_groups streams) (infos_of t ?st @ stream_infos streams) ?st)"
  proof (intro Cons.IH)
    show "track_plain tr \<and> (\<forall>g \<in> set (sp_ssrc_groups tr). group_plain g)" if "tr \<in> set streams" for tr
      using Cons.prems(4) [of tr] that by simp
  qed (use Cons.prems in \<open>simp_all add: stream_ssrcs_def\<close>)
  moreover have "put t (td_of t ?st) (video_ssrc_groups ?st @ stream_groups streams) (infos_of t ?st @ stream_infos streams) ?st
    = put t (td_of t st) (video_ssrc_groups st @ stream_groups (track # streams)) (infos_of t st @ stream_infos (track # streams)) st"
    by (cases t) (simp_all add: stream_groups_def stream_infos_def put_def td_of_def infos_of_def)
  ultimately show ?case by (auto intro: steps_append)
qed (simp add: stream_groups_def stream_infos_def)

text \<open>The tracks are rebuilt from their sources, and the groups attached to them.\<close>

definition bare :: "StreamParams \<Rightarrow> StreamParams" where
  "bare track = track\<lparr>sp_ssrc_groups := []\<rparr>"

lemma update_track_last:
  assumes "sp_id track \<notin> sp_id ` set tracks" "sp_id tr = sp_id track"
  shows "update_track (track_info track ssrc) (tracks @ [tr])
    = tracks @ [tr\<lparr>sp_cname := sp_cname track, sp_stream_id := sp_stream_id track, sp_ssrcs := sp_ssrcs tr @ [ssrc]\<rparr>]"
  using assms by (induction tracks) (auto simp: track_info_def)

lemma update_track_new:
  "sp_id track \<notin> sp_id ` set tracks \<Longrightarrow>
   update_track (track_info track ssrc) tracks = tracks @ [(bare track)\<lparr>sp_ssrcs := [ssrc]\<rparr>]"
  by (induction tracks) (auto simp: track_info_def bare_def)

lemma fold_update_track:
  assumes "sp_id track \<notin> sp_id ` set tracks"
  shows "fold update_track (map (track_info track) ssrcs) (tracks @ [(bare track)\<lparr>sp_ssrcs := acc\<rparr>])
    = tracks @ [(bare track)\<lparr>sp_ssrcs := acc @ ssrcs\<rparr>]"
proof (induction ssrcs arbitrary: acc)
  case (Cons ssrc ssrcs)
  have "update_track (track_info track ssrc) (tracks @ [(bare track)\<lparr>sp_ssrcs := acc\<rparr>])
      = tracks @ [(bare track)\<lparr>sp_ssrcs := acc @ [ssrc]\<rparr>]"
    by (subst update_track_last [OF assms]) (simp_all add: bare_def)
  then show ?case using Cons [of "acc @ [ssrc]"] by simp
qed simp

lemma create_tracks:
  assumes "distinct (map sp_id (tracks @ streams))" "\<And>track. track \<in> set streams \<Longrightarrow> sp_ssrcs track \<noteq> []"
  shows "create_track_from_ssrc_info (stream_infos streams) (map bare tracks) = map bare (tracks @ streams)"
  using assms
proof (induction streams arbitrary: tracks)
  case (Cons track streams)
  obtain ssrc ssrcs where s: "sp_ssrcs track = ssrc # ssrcs"
    using Cons.prems(2) [of track] by (cases "sp_ssrcs track") auto
  have new: "sp_id track \<notin> sp_id ` set (map bare tracks)" using Cons.prems(1) by (auto simp: bare_def)
  have "fold update_track (map (track_info track) (sp_ssrcs track)) (map bare tracks)
      = map bare tracks @ [(bare track)\<lparr>sp_ssrcs := sp_ssrcs track\<rparr>]"
    using fold_update_track [OF new, of ssrcs "[ssrc]"] by (simp add: s update_track_new [OF new])
  moreover have "(bare track)\<lparr>sp_ssrcs := sp_ssrcs track\<rparr> = bare track" by (simp add: bare_def)
  ultimately have "create_track_from_ssrc_info (stream_infos (track # streams)) (map bare tracks)
      = create_track_from_ssrc_info (stream_infos streams) (map bare (tracks @ [track]))"
    by (simp add: create_track_from_ssrc_info_def stream_infos_def)
  also have "\<dots> = map bare ((tracks @ [track]) @ streams)"
    by (rule Cons.IH) (use Cons.prems in \<open>auto\<close>)
  finally show ?case by simp
qed (simp add: create_track_from_ssrc_info_def stream_infos_def)

lemma add_ssrc_group_at:
  assumes "group_ssrcs g \<noteq> []" "hd (group_ssrcs g) \<in> set (sp_ssrcs track)"
    "\<And>tr. tr \<in> set (before @ after) \<Longrightarrow> set (sp_ssrcs tr) \<inter> set (sp_ssrcs track) = {}"
  shows "add_ssrc_group g (before @ track # after)
    = before @ track\<lparr>sp_ssrc_groups := sp_ssrc_groups track @ [g]\<rparr> # after"
proof -
  obtain n ns where g: "group_ssrcs g = n # ns" using assms(1) by (cases "group_ssrcs g") auto
  have "\<not> has_ssrc n tr" if "tr \<in> set (before @ after)" for tr
    using assms(2,3) that g by (auto simp: has_ssrc_def)
  then have "map (\<lambda>tr. if has_ssrc n tr then f tr else tr) before = before"
    "map (\<lambda>tr. if has_ssrc n tr then f tr else tr) after = after" for f
    by (auto intro: map_idI)
  moreover have "has_ssrc n track" using assms(2) g by (simp add: has_ssrc_def)
  ultimately show ?thesis by (simp add: add_ssrc_group_def g)
qed

lemma fold_add_ssrc_group:
  assumes "\<And>g. g \<in> set gs \<Longrightarrow> group_ssrcs g \<noteq> [] \<and> hd (group_ssrcs g) \<in> set (sp_ssrcs track)"
    "\<And>tr. tr \<in> set (before @ after) \<Longrightarrow> set (sp_ssrcs tr) \<inter> set (sp_ssrcs track) = {}"
  shows "fold add_ssrc_group gs (before @ track\<lparr>sp_ssrc_groups := acc\<rparr> # after)
    = before @ track\<lparr>sp_ssrc_groups := acc @ gs\<rparr> # after"
  using assms(1)
proof (induction gs arbitrary: acc)
  case (Cons g gs)
  have "add_ssrc_group g (before @ track\<lparr>sp_ssrc_groups := acc\<rparr> # after)
      = before @ track\<lparr>sp_ssrc_groups := acc @ [g]\<rparr> # after"
    using add_ssrc_group_at [of g "track\<lparr>sp_ssrc_groups := acc\<rparr>" before after] assms(2) Cons.prems [of g] by simp
  then show ?case using Cons.IH [of "acc @ [g]"] Cons.prems by simp
qed simp

lemma attach_groups:
  assumes "distinct (stream_ssrcs (tracks @ streams))"
    "\<And>track g. track \<in> set streams \<Longrightarrow> g \<in> set (sp_ssrc_groups track) \<Longrightarrow>
       group_ssrcs g \<noteq> [] \<and> hd (group_ssrcs g) \<in> set (sp_ssrcs track)"
  shows "fold add_ssrc_group (stream_groups streams) (tracks @ map bare streams) = tracks @ streams"
  using assms
proof (induction streams arbitrary: tracks)
  case (Cons track streams)
  have disj: "set (sp_ssrcs tr) \<inter> set (sp_ssrcs track) = {}" if "tr \<in> set (tracks @ map bare streams)" for tr
    using Cons.prems(1) that by (fastforce simp: stream_ssrcs_def bare_def)
  have "fold add_ssrc_group (sp_ssrc_groups track) (tracks @ track\<lparr>sp_ssrc_groups := []\<rparr> # map bare streams)
      = tracks @ track\<lparr>sp_ssrc_groups := [] @ sp_ssrc_groups track\<rparr> # map bare streams"
    by (rule fold_add_ssrc_group) (use Cons.prems(2) [of track] disj in auto)
  then have "fold add_ssrc_group (stream_groups (track # streams)) (tracks @ map bare (track # streams))
      = fold add_ssrc_group (stream_groups streams) ((tracks @ [track]) @ map bare streams)"
    by (simp add: stream_groups_def bare_def)
  also have "\<dots> = (tracks @ [track]) @ streams" by (rule Cons.IH) (use Cons.prems in auto)
  finally show ?case by simp
qed (simp add: stream_groups_def)

lemma tracks_rebuilt:
  assumes "streams_ok t streams"
  shows "create_track_from_ssrc_info (stream_infos streams) [] = map bare streams"
    "fold add_ssrc_group (stream_groups streams) (map bare streams) = streams"
  using assms create_tracks [of "[]" streams] attach_groups [of "[]" streams]
  by (auto simp: streams_ok_def group_plain_def)


section \<open>The lines of a media section\<close>

abbreviation default_codecs :: "MediaType \<Rightarrow> CodecInfo list" where
  "default_codecs t \<equiv> (case t of MEDIA_TYPE_AUDIO \<Rightarrow> codecs (AudioContentDescription k_inactive)
     | MEDIA_TYPE_VIDEO \<Rightarrow> codecs (VideoContentDescription k_inactive))"

definition media_line :: "MediaType \<Rightarrow> CodecInfo list \<Rightarrow> bytes" where
  "media_line t cs = bytes_of ''m='' @ media_mid t @ bytes_of '' 9 '' @ k_media_protocol_dtls_savpf
     @ concat (map (\<lambda>codec. bytes_of '' '' @ int_bytes (codec_id codec)) cs)"

definition codec_lines :: "MediaType \<Rightarrow> CodecInfo list \<Rightarrow> bytes list" where
  "codec_lines t cs = concat (map (\<lambda>codec.
     (bytes_of ''a=rtpmap:'' @ int_bytes (codec_id codec) @ bytes_of '' '' @ codec_name codec
       @ bytes_of ''/'' @ int_bytes (clockrate codec)
       @ (if t = MEDIA_TYPE_AUDIO then bytes_of ''/'' @ int_bytes (the (channels codec)) else []))
     # map (\<lambda>p. bytes_of ''a=rtcp-fb:'' @ int_bytes (codec_id codec)
         @ bytes_of '' '' @ fb_id p @ (if fb_param p \<noteq> [] then bytes_of '' '' @ fb_param p else [])) (feedback_param codec)
     @ (if codec_param codec \<noteq> [] then [bytes_of ''a=fmtp:'' @ int_bytes (codec_id codec) @ bytes_of '' ''
         @ drop 1 (concat (map (\<lambda>(k, v). bytes_of '';'' @ k @ bytes_of ''='' @ v) (codec_param codec)))] else [])) cs)"

definition direction_line :: "RtpDirection \<Rightarrow> bytes" where
  "direction_line dir = bytes_of (case dir of k_send_recv \<Rightarrow> ''a=sendrecv'' | k_send_only \<Rightarrow> ''a=sendonly''
     | k_recv_only \<Rightarrow> ''a=recvonly'' | k_inactive \<Rightarrow> ''a=inactive'')"

definition candidate_line :: "(IPAddress \<Rightarrow> bytes) \<Rightarrow> Candidate \<Rightarrow> bytes" where
  "candidate_line ntop c = bytes_of ''a=candidate:'' @ cand_foundation c
     @ bytes_of '' '' @ int_bytes (component_code (cand_component c))
     @ bytes_of '' '' @ cand_protocol c
     @ bytes_of '' '' @ dec_bytes (unat (cand_priority c))
     @ bytes_of '' '' @ HostAsURIString ntop (cand_address c)
     @ bytes_of '' '' @ int_bytes (cand_port c)
     @ bytes_of '' typ '' @ cand_type c"

definition transport_lines :: "TransportDescription \<Rightarrow> SSLFingerprint \<Rightarrow> bytes list" where
  "transport_lines td fp = [bytes_of ''a=ice-ufrag:'' @ td_ice_ufrag td, bytes_of ''a=ice-pwd:'' @ td_ice_pwd td,
     bytes_of ''a=fingerprint:'' @ fp_algorithm fp @ bytes_of '' '' @ GetRfc4572Fingerprint fp,
     bytes_of ''a=setup:'' @ connection_role_to_string (connection_role td)]"

definition content_lines :: "(IPAddress \<Rightarrow> bytes) \<Rightarrow> TransportDescription \<Rightarrow> SSLFingerprint \<Rightarrow> MediaContentDescription \<Rightarrow> bytes list" where
  "content_lines ntop td fp content =
     [media_line (content_type content) (codecs content), bytes_of ''c=IN IP4 0.0.0.0'', bytes_of ''a=rtcp:9 IN IP4 0.0.0.0'']
     @ map (candidate_line ntop) (candidates content)
     @ transport_lines td fp
     @ [bytes_of ''a=mid:'' @ mid content, direction_line (direction content)]
     @ (if rtcp_mux content then [bytes_of ''a=rtcp-mux''] else [])
     @ codec_lines (content_type content) (codecs content)
     @ concat (map track_lines (send_streams content))"

definition text_of :: "bytes list \<Rightarrow> bytes" where
  "text_of ls = concat (map crlf ls)"

lemma text_of_simps [simp]:
  "text_of [] = []" "text_of (l # ls) = crlf l @ text_of ls" "text_of (ls @ ls') = text_of ls @ text_of ls'"
  by (simp_all add: text_of_def)

lemma text_of_concat: "text_of (concat (map f xs)) = concat (map (\<lambda>x. text_of (f x)) xs)"
  by (induction xs) simp_all

lemma text_of_map: "text_of (map f xs) = concat (map (\<lambda>x. crlf (f x)) xs)"
  by (induction xs) simp_all

lemma text_codecs: "text_of (codec_lines (content_type content) (codecs content)) = build_rtp_map content"
  unfolding build_rtp_map_def codec_lines_def add_rtcp_fb_line_def add_fmtp_line_def
  by (rule trans [OF text_of_concat], rule arg_cong [where f = concat], rule map_cong [OF refl]) (simp add: text_of_map)

lemma text_tracks:
  assumes "\<And>track g. track \<in> set (send_streams content) \<Longrightarrow> g \<in> set (sp_ssrc_groups track) \<Longrightarrow> group_ssrcs g \<noteq> []"
  shows "text_of (concat (map track_lines (send_streams content))) = build_ssrc content"
proof -
  have "text_of (map group_line (sp_ssrc_groups track))
      = concat (map (\<lambda>g. if group_ssrcs g = [] then [] else crlf (bytes_of ''a=ssrc-group:'' @ semantics g
         @ concat (map (\<lambda>ssrc. bytes_of '' '' @ dec_bytes (unat ssrc)) (group_ssrcs g)))) (sp_ssrc_groups track))"
    if "track \<in> set (send_streams content)" for track
    unfolding text_of_map by (rule arg_cong [where f = concat], rule map_cong [OF refl])
      (use assms [OF that] in \<open>simp add: group_line_def\<close>)
  moreover have "text_of (concat (map (ssrc_lines track) (sp_ssrcs track))) = concat (map (\<lambda>ssrc.
       add_ssrc_line ssrc (bytes_of ''cname'') (sp_cname track)
       @ add_ssrc_line ssrc (bytes_of ''msid'') (sp_stream_id track @ bytes_of '' '' @ sp_id track)
       @ add_ssrc_line ssrc (bytes_of ''mslabel'') (sp_stream_id track)
       @ add_ssrc_line ssrc (bytes_of ''lable'') (sp_id track)) (sp_ssrcs track))" for track
    by (simp add: text_of_concat ssrc_lines_def ssrc_line_def add_ssrc_line_def)
  ultimately show ?thesis
    unfolding build_ssrc_def Let_def
    by (subst text_of_concat) (auto simp: track_lines_def intro!: arg_cong [where f = concat])
qed

lemma text_content:
  assumes "get_transport_info (mid content) desc = Some td" "identity_fingerprint td = Some fp"
    "streams_ok (content_type content) (send_streams content)"
  shows "text_of (content_lines ntop td fp content) = build_content ntop desc content"
proof -
  have "text_of (concat (map track_lines (send_streams content))) = build_ssrc content"
    by (rule text_tracks) (use assms(3) in \<open>auto simp: streams_ok_def group_plain_def\<close>)
  moreover have "text_of (map (candidate_line ntop) (candidates content)) = build_candidates ntop content"
    by (simp add: text_of_map build_candidates_def candidate_line_def)
  moreover have "text_of (transport_lines td fp) = build_transport (Some td)"
    using assms(2) by (simp add: transport_lines_def build_transport_def)
  ultimately show ?thesis
    using assms(1) unfolding content_lines_def build_content_def Let_def
    by (simp add: text_codecs media_line_def direction_line_def build_rtp_direction_def)
qed

section \<open>Parsing a media section\<close>

lemma fixed_lines:
  "neutral (bytes_of ''c=IN IP4 0.0.0.0'') \<and> neutral (bytes_of ''a=rtcp:9 IN IP4 0.0.0.0'')
   \<and> neutral (bytes_of ''a=rtcp-mux'')"
  by code_simp

lemma mid_line: "neutral (bytes_of ''a=mid:'' @ media_mid t)"
  by (cases t; hypsubst; code_simp)

lemma direction_line_neutral: "neutral (direction_line dir)"
  by (cases dir; hypsubst; code_simp)

lemma setup_line: "neutral (bytes_of ''a=setup:'' @ connection_role_to_string role)"
  by (cases role; hypsubst; code_simp)

lemma audio_params:
  "param_set (bytes_of ''useinbandfec'') (bytes_of ''1'') (param_set (bytes_of ''minptime'') (bytes_of ''10'') [])
   = [(bytes_of ''minptime'', bytes_of ''10''), (bytes_of ''useinbandfec'', bytes_of ''1'')]"
  by code_simp

lemma video_params:
  "param_set (bytes_of ''profile-level-id'') (bytes_of ''42e01f'')
     (param_set (bytes_of ''packetization-mode'') (bytes_of ''1'') (param_set (bytes_of ''level-asymmetry-allowed'') (bytes_of ''1'') []))
   = [(bytes_of ''level-asymmetry-allowed'', bytes_of ''1''), (bytes_of ''packetization-mode'', bytes_of ''1''),
      (bytes_of ''profile-level-id'', bytes_of ''42e01f'')]"
  by code_simp

lemma codec_numbers:
  "int_bytes 111 = bytes_of ''111''" "int_bytes 107 = bytes_of ''107''" "int_bytes 99 = bytes_of ''99''"
  "int_bytes 48000 = bytes_of ''48000''" "int_bytes 90000 = bytes_of ''90000''" "int_bytes 2 = bytes_of ''2''"
  by (simp_all add: int_bytes_def dec_bytes_rec bytes_of_def)

abbreviation audio_fmtp :: string where "audio_fmtp \<equiv> ''a=fmtp:111 minptime=10;useinbandfec=1''"
abbreviation video_fmtp :: string where
  "video_fmtp \<equiv> ''a=fmtp:107 level-asymmetry-allowed=1;packetization-mode=1;profile-level-id=42e01f''"

lemma audio_codec_lines:
  "codec_lines MEDIA_TYPE_AUDIO (default_codecs MEDIA_TYPE_AUDIO) =
     map (\<lambda>r. bytes_of ''a='' @ bytes_of r) [''rtpmap:111 opus/48000/2'', ''rtcp-fb:111 transport-cc''] @ [bytes_of audio_fmtp]"
  by (simp add: codec_lines_def AudioContentDescription_def audio_params codec_numbers del: param_set.simps) (simp add: bytes_of_def)

lemma video_codec_lines:
  "codec_lines MEDIA_TYPE_VIDEO (default_codecs MEDIA_TYPE_VIDEO) =
     map (\<lambda>r. bytes_of ''a='' @ bytes_of r) [''rtpmap:107 H264/90000'', ''rtcp-fb:107 goog-remb'',
       ''rtcp-fb:107 transport-cc'', ''rtcp-fb:107 ccm fir'', ''rtcp-fb:107 nack'', ''rtcp-fb:107 nack pli'']
     @ [bytes_of video_fmtp, bytes_of ''a='' @ bytes_of ''rtpmap:99 rtx/90000'', bytes_of ''a=fmtp:99 apt=107'']"
  by (simp add: codec_lines_def VideoContentDescription_def video_params codec_numbers del: param_set.simps) (simp add: bytes_of_def)

lemma fmtp_neutral: "neutral (bytes_of audio_fmtp) \<and> neutral (bytes_of video_fmtp) \<and> neutral (bytes_of ''a=fmtp:99 apt=107'')"
  by (simp add: neutral_def bytes_of_def)

lemma attr_r_neutral:
  assumes "clean (bytes_of q)"
  shows "neutral (bytes_of ''a='' @ bytes_of (CHR ''r'' # q))"
proof -
  have "clean (bytes_of (CHR ''r'' # q))" using assms by (simp add: bytes_of_def)
  then show ?thesis using neutral_attr by (simp add: bytes_of_def)
qed

lemma clean_bytes_of [simp]: "clean (bytes_of s) \<longleftrightarrow> CHR ''='' \<notin> set s \<and> CHR 0x0A \<notin> set s"
proof -
  have "of_char c = (of_char d :: 8 word) \<longleftrightarrow> c = d" for c d
    using bytes_of_eq_iff(1) [of "[c]" "[d]"] by (simp add: bytes_of_def)
  from this [of "CHR ''=''"] this [of "CHR 0x0A"] show ?thesis by (simp add: clean_def bytes_of_def image_iff)
qed

lemma codec_lines_neutral: "list_all neutral (codec_lines t (default_codecs t))"
proof -
  have "list_all neutral (codec_lines MEDIA_TYPE_AUDIO (default_codecs MEDIA_TYPE_AUDIO))"
    unfolding audio_codec_lines using fmtp_neutral by (simp add: attr_r_neutral)
  moreover have "list_all neutral (codec_lines MEDIA_TYPE_VIDEO (default_codecs MEDIA_TYPE_VIDEO))"
    unfolding video_codec_lines using fmtp_neutral by (simp add: attr_r_neutral)
  ultimately show ?thesis by (cases t) (simp_all only:)
qed

text \<open>Only the check for media lines reacts to a media line.\<close>

lemma media_key:
  assumes "clean s"
  shows "str_contains (bytes_of (''m='' @ q)) (bytes_of ''m='' @ s) \<longleftrightarrow> prefix (bytes_of q) s"
    "\<not> str_contains (bytes_of (''a='' @ q)) (bytes_of ''m='' @ s)"
  using assms str_contains_key [of "0x3D" s "0x6D" "bytes_of q" "0x6D"]
    str_contains_key [of "0x3D" s "0x61" "bytes_of q" "0x6D"]
  by (simp_all add: bytes_of_def clean_def)

lemmas media_keys = media_key(1) [of _ "''group:BUNDLE''", simplified] media_key(1) [of _ "[]", simplified]
  media_key(2) [of _ "''ice-ufrag''", simplified] media_key(2) [of _ "''ice-pwd''", simplified]
  media_key(2) [of _ "''fingerprint''", simplified] media_key(2) [of _ "''ssrc:''", simplified]
  media_key(2) [of _ "''ssrc-group:''", simplified]

lemma media_line_shape:
  obtains s where "media_line t (default_codecs t) = bytes_of ''m='' @ media_mid t @ bytes_of '' 9 '' @ s" "clean s"
proof
  show "media_line t (default_codecs t) = bytes_of ''m='' @ media_mid t @ bytes_of '' 9 ''
      @ k_media_protocol_dtls_savpf @ concat (map (\<lambda>codec. bytes_of '' '' @ int_bytes (codec_id codec)) (default_codecs t))"
    by (simp add: media_line_def)
  show "clean (k_media_protocol_dtls_savpf @ concat (map (\<lambda>codec. bytes_of '' '' @ int_bytes (codec_id codec)) (default_codecs t)))"
    by (auto simp: k_media_protocol_dtls_savpf_def bytes_of_def plainD)
qed

lemma media_line_facts:
  "\<not> str_contains (bytes_of ''m=group:BUNDLE'') (media_line t (default_codecs t))"
  "str_contains (bytes_of ''m='') (media_line t (default_codecs t))"
  "2 < length (split (media_line t (default_codecs t)) 0x20)"
  "str_substr 2 (hd (split (media_line t (default_codecs t)) 0x20)) = Some (media_mid t)"
  "\<not> str_contains (bytes_of ''a=ice-ufrag'') (media_line t (default_codecs t))"
  "\<not> str_contains (bytes_of ''a=ice-pwd'') (media_line t (default_codecs t))"
  "\<not> str_contains (bytes_of ''a=fingerprint'') (media_line t (default_codecs t))"
  "\<not> str_contains (bytes_of ''a=ssrc:'') (media_line t (default_codecs t))"
  "\<not> str_contains (bytes_of ''a=ssrc-group:'') (media_line t (default_codecs t))"
proof -
  obtain s where s: "media_line t (default_codecs t) = bytes_of ''m='' @ media_mid t @ bytes_of '' 9 '' @ s" "clean s"
    by (rule media_line_shape)
  let ?r = "media_mid t @ bytes_of '' 9 '' @ s"
  have c: "clean ?r" using s(2) by (cases t) (simp_all add: media_mid_def bytes_of_def)
  have m: "0x20 \<notin> set (media_mid t)" by (cases t) (simp_all add: media_mid_def bytes_of_def)
  have "\<not> prefix (bytes_of ''group:BUNDLE'') ?r" by (cases t) (simp_all add: media_mid_def bytes_of_def)
  with media_keys [OF c] show
    "\<not> str_contains (bytes_of ''m=group:BUNDLE'') (media_line t (default_codecs t))"
    "str_contains (bytes_of ''m='') (media_line t (default_codecs t))"
    "\<not> str_contains (bytes_of ''a=ice-ufrag'') (media_line t (default_codecs t))"
    "\<not> str_contains (bytes_of ''a=ice-pwd'') (media_line t (default_codecs t))"
    "\<not> str_contains (bytes_of ''a=fingerprint'') (media_line t (default_codecs t))"
    "\<not> str_contains (bytes_of ''a=ssrc:'') (media_line t (default_codecs t))"
    "\<not> str_contains (bytes_of ''a=ssrc-group:'') (media_line t (default_codecs t))"
    unfolding s(1) by (simp_all add: bytes_of_def [of "[]"])
  have "split (bytes_of ''m='' @ ?r) 0x20 = (bytes_of ''m='' @ media_mid t) # split (0x39 # 0x20 # s) 0x20"
    using split_append [of "0x20" "bytes_of ''m='' @ media_mid t" "0x39 # 0x20 # s"] m by (simp add: bytes_of_def)
  moreover have "split (0x39 # 0x20 # s) 0x20 = [0x39] # split s 0x20"
    using split_append [of "0x20" "[0x39]" s] by simp
  moreover have "split s 0x20 \<noteq> []" by (simp add: split_def split_loop_nonempty)
  ultimately show "2 < length (split (media_line t (default_codecs t)) 0x20)"
    "str_substr 2 (hd (split (media_line t (default_codecs t)) 0x20)) = Some (media_mid t)"
    unfolding s(1) by (simp_all add: str_substr_def bytes_of_def)
qed

definition enter :: "MediaType \<Rightarrow> sdp_state \<Rightarrow> sdp_state" where
  "enter t st = st\<lparr>media_type := media_mid t, remote_contents := remote_contents st @ [t]\<rparr>"

lemma media_line_step:
  "parse_field (media_line t (default_codecs t)) st
   = Some (0, put t ((td_of t st)\<lparr>td_mid := media_mid t\<rparr>) (video_ssrc_groups st) (infos_of t st) (enter t st))"
proof -
  define l where "l = media_line t (default_codecs t)"
  note facts = media_line_facts [of t, folded l_def]
  have skip: "parse_transport_info l td = Some (0, td)" "parse_ssrc_info l infos = Some (0, infos)"
    "parse_ssrc_group_info l gs = Some (0, gs)" for td infos gs
    using facts by (simp_all add: parse_transport_info_def parse_ssrc_info_def parse_ssrc_group_info_def)
  have "parse_media_line l st = Some (0, put t ((td_of t st)\<lparr>td_mid := media_mid t\<rparr>) (video_ssrc_groups st)
      (infos_of t st) (enter t st))"
    using facts by (cases t) (simp_all add: parse_media_line_def put_def enter_def td_of_def infos_of_def media_mid_def)
  then have "parse_field l st = Some (0, put t ((td_of t st)\<lparr>td_mid := media_mid t\<rparr>) (video_ssrc_groups st)
      (infos_of t st) (enter t st))"
    by (cases t) (simp_all add: parse_field_def skip put_def enter_def media_mid_def td_of_def infos_of_def)
  then show ?thesis unfolding l_def .
qed

definition candidate_ok :: "(IPAddress \<Rightarrow> bytes) \<Rightarrow> Candidate \<Rightarrow> bool" where
  "candidate_ok ntop c \<longleftrightarrow> clean (cand_foundation c) \<and> clean (cand_protocol c)
     \<and> clean (HostAsURIString ntop (cand_address c)) \<and> clean (cand_type c)"

lemma candidate_line_neutral:
  assumes "candidate_ok ntop c" shows "neutral (candidate_line ntop c)"
proof -
  have "\<exists>t. candidate_line ntop c = bytes_of ''a='' @ bytes_of ''candidate:'' @ t \<and> clean t"
    using assms plainD(1) by (intro exI conjI)
      (simp add: candidate_line_def bytes_of_def, simp add: candidate_ok_def bytes_of_def plainD)
  then obtain t where "candidate_line ntop c = bytes_of ''a='' @ bytes_of ''candidate:'' @ t" "clean t" by blast
  moreover have "clean (bytes_of ''candidate:'' @ t)" using \<open>clean t\<close> by (simp add: bytes_of_def)
  ultimately show ?thesis using neutral_attr by (simp add: bytes_of_def)
qed

definition td_ok :: "TransportDescription \<Rightarrow> SSLFingerprint \<Rightarrow> bool" where
  "td_ok td fp \<longleftrightarrow> plain (td_ice_ufrag td) \<and> td_ice_ufrag td \<noteq> [] \<and> plain (td_ice_pwd td) \<and> td_ice_pwd td \<noteq> []
     \<and> fingerprint_ok fp"

lemma transport_lines_steps:
  assumes "media_type st = media_mid t" "td_ok td fp"
  shows "steps (transport_lines td fp) st (put t ((td_of t st)\<lparr>td_ice_ufrag := td_ice_ufrag td, td_ice_pwd := td_ice_pwd td,
    identity_fingerprint := Some fp\<rparr>) (video_ssrc_groups st) (infos_of t st) st)"
proof -
  have p: "plain (td_ice_ufrag td)" "td_ice_ufrag td \<noteq> []" "plain (td_ice_pwd td)" "td_ice_pwd td \<noteq> []" "fingerprint_ok fp"
    using assms(2) by (simp_all add: td_ok_def)
  show ?thesis
    unfolding transport_lines_def
    by (rule steps_Cons [OF ufrag_step [OF assms(1) p(1,2)]], rule steps_Cons [OF pwd_step [OF _ p(3,4), of _ t]],
        simp add: assms(1), rule steps_Cons [OF fingerprint_step [OF _ p(5), of _ t]], simp add: assms(1),
        rule steps_Cons [OF neutral_step [OF setup_line]]) (cases t; simp)
qed

definition content_ok :: "(IPAddress \<Rightarrow> bytes) \<Rightarrow> MediaContentDescription \<Rightarrow> bool" where
  "content_ok ntop c \<longleftrightarrow> codecs c = default_codecs (content_type c) \<and> streams_ok (content_type c) (send_streams c)
     \<and> (\<forall>cand \<in> set (candidates c). candidate_ok ntop cand)"

text \<open>The effect of a section on the state of the parser.\<close>

definition parsed_section :: "TransportDescription \<Rightarrow> SSLFingerprint \<Rightarrow> MediaContentDescription \<Rightarrow> sdp_state \<Rightarrow> sdp_state" where
  "parsed_section td fp c st = (let t = content_type c in
     put t ((td_of t st)\<lparr>td_mid := media_mid t, td_ice_ufrag := td_ice_ufrag td, td_ice_pwd := td_ice_pwd td,
              identity_fingerprint := Some fp\<rparr>)
       (video_ssrc_groups st @ stream_groups (send_streams c)) (infos_of t st @ stream_infos (send_streams c)) (enter t st))"

lemma section_steps:
  assumes "content_ok ntop c" "td_ok td fp" "infos_of (content_type c) st = []"
  shows "steps (content_lines ntop td fp c) st (parsed_section td fp c st)"
proof -
  let ?t = "content_type c"
  define st1 where "st1 = put ?t ((td_of ?t st)\<lparr>td_mid := media_mid ?t\<rparr>) (video_ssrc_groups st) (infos_of ?t st) (enter ?t st)"
  define st2 where "st2 = put ?t ((td_of ?t st1)\<lparr>td_ice_ufrag := td_ice_ufrag td, td_ice_pwd := td_ice_pwd td,
      identity_fingerprint := Some fp\<rparr>) (video_ssrc_groups st1) (infos_of ?t st1) st1"
  have m1: "media_type st1 = media_mid ?t" by (simp add: st1_def enter_def)
  have m2: "media_type st2 = media_mid ?t" "infos_of ?t st2 = []" using m1 assms(3) by (simp_all add: st2_def st1_def)
  have ok: "codecs c = default_codecs ?t" "streams_ok ?t (send_streams c)" "\<And>x. x \<in> set (candidates c) \<Longrightarrow> candidate_ok ntop x"
    using assms(1) by (simp_all add: content_ok_def)
  have "steps (concat (map track_lines (send_streams c))) st2 (put ?t (td_of ?t st2)
      (video_ssrc_groups st2 @ stream_groups (send_streams c)) (infos_of ?t st2 @ stream_infos (send_streams c)) st2)"
    by (rule streams_steps [OF m2(1)]) (use ok(2) m2(2) in \<open>auto simp: streams_ok_def\<close>)
  moreover have "put ?t (td_of ?t st2) (video_ssrc_groups st2 @ stream_groups (send_streams c))
      (infos_of ?t st2 @ stream_infos (send_streams c)) st2 = parsed_section td fp c st"
    unfolding parsed_section_def st2_def st1_def Let_def
    by (cases ?t) (simp_all add: put_def td_of_def infos_of_def enter_def)
  ultimately have s3: "steps (concat (map track_lines (send_streams c))) st2 (parsed_section td fp c st)" by simp
  have "list_all neutral (codec_lines ?t (codecs c))" using codec_lines_neutral [of ?t] ok(1) by simp
  then have neutral_tail: "steps ([bytes_of ''a=mid:'' @ mid c, direction_line (direction c)]
      @ (if rtcp_mux c then [bytes_of ''a=rtcp-mux''] else []) @ codec_lines ?t (codecs c)) st2 st2"
    using fixed_lines by (intro steps_neutral) (auto simp: mid_line direction_line_neutral list_all_iff)
  have s2: "steps (transport_lines td fp) st1 st2" unfolding st2_def by (rule transport_lines_steps [OF m1 assms(2)])
  have s1: "steps ([bytes_of ''c=IN IP4 0.0.0.0'', bytes_of ''a=rtcp:9 IN IP4 0.0.0.0''] @ map (candidate_line ntop) (candidates c)) st1 st1"
    using fixed_lines ok(3) candidate_line_neutral by (intro steps_neutral) auto
  have "steps [media_line ?t (codecs c)] st st1"
    unfolding ok(1) st1_def by (rule steps_Cons [OF media_line_step steps_Nil])
  from steps_append [OF this steps_append [OF s1 steps_append [OF s2 steps_append [OF neutral_tail s3]]]]
  show ?thesis by (simp add: content_lines_def)
qed

end
