(* ===== verification/Sdp_Offer.thy ===== *)
theory Sdp_Offer
  imports Sdp_Round_Trip
begin

text \<open>
  The text of a session description as a whole (\<^verbatim>\<open>pc/session_description.cpp\<close>,
  \<^verbatim>\<open>pc/peer_connection.cpp\<close>): the lines of its sections one after the other, what
  the parser makes of them, and the proof that the offers of the server survive their text.
\<close>

section \<open>The lines contain no line feed\<close>

definition one_line :: "bytes \<Rightarrow> bool" where
  "one_line l \<longleftrightarrow> 0x0A \<notin> set l"

lemma one_line_clean: "clean l \<Longrightarrow> one_line l"
  by (simp add: one_line_def clean_def)

lemma one_line_plain: "plain l \<Longrightarrow> one_line l"
  by (simp add: plainD one_line_clean)

lemma one_line_simps [simp]:
  "one_line []" "one_line (c # s) \<longleftrightarrow> c \<noteq> 0x0A \<and> one_line s" "one_line (s @ t) \<longleftrightarrow> one_line s \<and> one_line t"
  "one_line (concat ss) \<longleftrightarrow> (\<forall>s \<in> set ss. one_line s)"
  by (auto simp: one_line_def)

lemma one_line_bytes_of [simp]: "one_line (bytes_of s) \<longleftrightarrow> CHR 0x0A \<notin> set s"
proof -
  have "of_char c = (of_char d :: 8 word) \<longleftrightarrow> c = d" for c d
    using bytes_of_eq_iff(1) [of "[c]" "[d]"] by (simp add: bytes_of_def)
  from this [of "CHR 0x0A"] show ?thesis by (simp add: one_line_def bytes_of_def image_iff)
qed

lemma one_line_numbers [simp]: "one_line (dec_bytes n)" "one_line (int_bytes i)"
  by (simp_all add: one_line_plain)

lemma codec_lines_one_line: "list_all one_line (codec_lines t (default_codecs t))"
proof -
  have "list_all one_line (codec_lines MEDIA_TYPE_AUDIO (default_codecs MEDIA_TYPE_AUDIO))"
    unfolding audio_codec_lines by simp
  moreover have "list_all one_line (codec_lines MEDIA_TYPE_VIDEO (default_codecs MEDIA_TYPE_VIDEO))"
    unfolding video_codec_lines by simp
  ultimately show ?thesis by (cases t) (simp_all only:)
qed

lemma media_line_one_line: "one_line (media_line t (default_codecs t))"
proof -
  obtain s where "media_line t (default_codecs t) = bytes_of ''m='' @ media_mid t @ bytes_of '' 9 '' @ s" "clean s"
    by (rule media_line_shape)
  then show ?thesis by (cases t) (simp_all add: media_mid_def one_line_clean)
qed

lemma track_lines_one_line:
  assumes "track_plain track" "\<And>g. g \<in> set (sp_ssrc_groups track) \<Longrightarrow> group_plain g"
  shows "list_all one_line (track_lines track)"
proof -
  have "one_line (sp_cname track)" "one_line (sp_stream_id track)" "one_line (sp_id track)"
    using assms(1) by (simp_all add: track_plain_def one_line_plain)
  then have "list_all one_line (ssrc_lines track ssrc)" for ssrc
    by (simp add: ssrc_lines_def ssrc_line_def)
  moreover have "one_line (group_line g)" if "g \<in> set (sp_ssrc_groups track)" for g
    using assms(2) [OF that] by (auto simp: group_line_def group_plain_def one_line_plain)
  ultimately show ?thesis by (auto simp: track_lines_def list_all_iff)
qed

lemma transport_lines_one_line:
  assumes "td_ok td fp" shows "list_all one_line (transport_lines td fp)"
proof -
  have "one_line (td_ice_ufrag td)" "one_line (td_ice_pwd td)" "one_line (fp_algorithm fp)"
    using assms fips_algorithm(1) by (auto simp: td_ok_def fingerprint_ok_def intro: one_line_plain)
  moreover have "one_line (GetRfc4572Fingerprint fp)" using GetRfc4572Fingerprint_chars one_line_clean by blast
  ultimately show ?thesis
    by (cases "connection_role td") (simp_all add: transport_lines_def connection_role_to_string_def)
qed

lemma content_lines_one_line:
  assumes "content_ok ntop c" "td_ok td fp"
  shows "list_all one_line (content_lines ntop td fp c)"
proof -
  have "one_line (candidate_line ntop x)" if "x \<in> set (candidates c)" for x
    using assms(1) that by (auto simp: content_ok_def candidate_ok_def candidate_line_def one_line_clean)
  moreover have "list_all one_line (track_lines track)" if "track \<in> set (send_streams c)" for track
    using assms(1) that by (intro track_lines_one_line) (auto simp: content_ok_def streams_ok_def)
  moreover have "one_line (mid c)" by (cases "content_type c") (simp_all add: media_mid_def)
  moreover have "one_line (direction_line (direction c))" by (cases "direction c") (simp_all add: direction_line_def)
  moreover have "codecs c = default_codecs (content_type c)" using assms(1) by (simp add: content_ok_def)
  then have "list_all one_line (codec_lines (content_type c) (codecs c))" "one_line (media_line (content_type c) (codecs c))"
    using codec_lines_one_line media_line_one_line by (simp_all only:)
  ultimately show ?thesis
    using transport_lines_one_line [OF assms(2)] by (auto simp: content_lines_def list_all_iff)
qed

section \<open>The sections together\<close>

text \<open>
  The conditions under which a description survives its text: at most one section per medium, and
  in each section values that a line of SDP can carry, with a fingerprint that the parser accepts.
\<close>

definition content_td :: "SessionDescription \<Rightarrow> MediaContentDescription \<Rightarrow> TransportDescription" where
  "content_td desc c = the (get_transport_info (mid c) desc)"

definition section_ok :: "(IPAddress \<Rightarrow> bytes) \<Rightarrow> SessionDescription \<Rightarrow> MediaContentDescription \<Rightarrow> bool" where
  "section_ok ntop desc c \<longleftrightarrow> content_ok ntop c
     \<and> (case get_transport_info (mid c) desc of None \<Rightarrow> False
        | Some td \<Rightarrow> (case identity_fingerprint td of None \<Rightarrow> False | Some fp \<Rightarrow> td_ok td fp))"

definition describable :: "(IPAddress \<Rightarrow> bytes) \<Rightarrow> SessionDescription \<Rightarrow> bool" where
  "describable ntop desc \<longleftrightarrow> distinct (map content_type (contents desc)) \<and> list_all (section_ok ntop desc) (contents desc)
     \<and> list_all (\<lambda>g. list_all clean (content_names g)) (content_groups desc)"

text \<open>What the parser makes of the text.\<close>

definition read_td :: "TransportDescription \<Rightarrow> TransportDescription" where
  "read_td td = td\<lparr>connection_role := NONE\<rparr>"

definition read_content :: "RtpDirection \<Rightarrow> MediaContentDescription \<Rightarrow> MediaContentDescription" where
  "read_content dir c = (case content_type c of MEDIA_TYPE_AUDIO \<Rightarrow> AudioContentDescription dir
     | MEDIA_TYPE_VIDEO \<Rightarrow> VideoContentDescription dir)\<lparr>send_streams := send_streams c\<rparr>"

definition section_of :: "MediaType \<Rightarrow> MediaContentDescription list \<Rightarrow> MediaContentDescription option" where
  "section_of t cs = find (\<lambda>c. content_type c = t) cs"

definition read_transport :: "SessionDescription \<Rightarrow> MediaType \<Rightarrow> TransportDescription" where
  "read_transport desc t = (case section_of t (contents desc) of
     None \<Rightarrow> new_TransportDescription | Some c \<Rightarrow> read_td (content_td desc c))"

definition read_description :: "RtpDirection \<Rightarrow> SessionDescription \<Rightarrow> SessionDescription" where
  "read_description dir desc = \<lparr>sdp_type = k_answer, contents = map (read_content dir) (contents desc), content_groups = [],
     transport_infos = [read_transport desc MEDIA_TYPE_AUDIO, read_transport desc MEDIA_TYPE_VIDEO]\<rparr>"

definition section_lines :: "(IPAddress \<Rightarrow> bytes) \<Rightarrow> SessionDescription \<Rightarrow> MediaContentDescription \<Rightarrow> bytes list" where
  "section_lines ntop desc c = content_lines ntop (content_td desc c) (the (identity_fingerprint (content_td desc c))) c"

definition read_section :: "SessionDescription \<Rightarrow> MediaContentDescription \<Rightarrow> sdp_state \<Rightarrow> sdp_state" where
  "read_section desc c = parsed_section (content_td desc c) (the (identity_fingerprint (content_td desc c))) c"

lemma section_okD:
  assumes "section_ok ntop desc c"
  shows "content_ok ntop c" "get_transport_info (mid c) desc = Some (content_td desc c)"
    "identity_fingerprint (content_td desc c) = Some (the (identity_fingerprint (content_td desc c)))"
    "td_ok (content_td desc c) (the (identity_fingerprint (content_td desc c)))"
    "td_mid (content_td desc c) = mid c"
proof -
  obtain td fp where td: "get_transport_info (mid c) desc = Some td" "identity_fingerprint td = Some fp" "td_ok td fp"
    "content_ok ntop c"
    using assms by (auto simp: section_ok_def split: option.splits)
  moreover have "td_mid td = mid c" using td(1) by (auto simp: get_transport_info_def find_Some_iff)
  ultimately show "content_ok ntop c" "get_transport_info (mid c) desc = Some (content_td desc c)"
    "identity_fingerprint (content_td desc c) = Some (the (identity_fingerprint (content_td desc c)))"
    "td_ok (content_td desc c) (the (identity_fingerprint (content_td desc c)))"
    "td_mid (content_td desc c) = mid c"
    by (simp_all add: content_td_def)
qed

lemma other_put [simp]:
  "t' \<noteq> t \<Longrightarrow> td_of t' (put t td gs infos st) = td_of t' st"
  "t' \<noteq> t \<Longrightarrow> infos_of t' (put t td gs infos st) = infos_of t' st"
  by (cases t; cases t'; simp add: td_of_def infos_of_def put_def)+

lemma enter_simps [simp]:
  "td_of t (enter t' st) = td_of t st" "infos_of t (enter t' st) = infos_of t st"
  "video_ssrc_groups (enter t' st) = video_ssrc_groups st" "remote_groups (enter t' st) = remote_groups st"
  "remote_contents (enter t' st) = remote_contents st @ [t']"
  by (cases t; simp add: td_of_def infos_of_def enter_def)+

lemma read_section_simps:
  "remote_contents (read_section desc c st) = remote_contents st @ [content_type c]"
  "remote_groups (read_section desc c st) = remote_groups st"
  "infos_of t (read_section desc c st) = infos_of t st @ (if content_type c = t then stream_infos (send_streams c) else [])"
  "video_ssrc_groups (read_section desc c st) = video_ssrc_groups st
     @ (if content_type c = MEDIA_TYPE_VIDEO then stream_groups (send_streams c) else [])"
  "content_type c \<noteq> t \<Longrightarrow> td_of t (read_section desc c st) = td_of t st"
  by (cases "content_type c"; cases t; simp add: read_section_def parsed_section_def Let_def)+

lemma read_section_td:
  assumes "section_ok ntop desc c" "td_of (content_type c) st = new_TransportDescription"
  shows "td_of (content_type c) (read_section desc c st) = read_td (content_td desc c)"
  using section_okD(3,5) [OF assms(1)] assms(2)
  by (simp add: read_section_def parsed_section_def Let_def read_td_def new_TransportDescription_def)

lemma sections_steps:
  assumes "distinct (map content_type cs)" "\<And>c. c \<in> set cs \<Longrightarrow> section_ok ntop desc c \<and> infos_of (content_type c) st = []"
  shows "steps (concat (map (section_lines ntop desc) cs)) st (fold (read_section desc) cs st)"
  using assms
proof (induction cs arbitrary: st)
  case (Cons c cs)
  have "steps (section_lines ntop desc c) st (read_section desc c st)"
    unfolding section_lines_def read_section_def
    by (rule section_steps) (use Cons.prems(2) [of c] section_okD in auto)
  moreover have "steps (concat (map (section_lines ntop desc) cs)) (read_section desc c st)
      (fold (read_section desc) cs (read_section desc c st))"
  proof (rule Cons.IH)
    fix c' assume "c' \<in> set cs"
    moreover from this Cons.prems(1) have "content_type c \<noteq> content_type c'" by auto
    ultimately show "section_ok ntop desc c' \<and> infos_of (content_type c') (read_section desc c st) = []"
      using Cons.prems(2) [of c'] by (simp add: read_section_simps)
  qed (use Cons.prems in simp)
  ultimately show ?case by (simp add: steps_append)
qed simp

lemma section_of_None: "t \<notin> content_type ` set cs \<Longrightarrow> section_of t cs = None"
  by (induction cs) (auto simp: section_of_def)

lemma sections_result:
  "remote_contents (fold (read_section desc) cs st) = remote_contents st @ map content_type cs"
  "remote_groups (fold (read_section desc) cs st) = remote_groups st"
  "distinct (map content_type cs) \<Longrightarrow> infos_of t (fold (read_section desc) cs st)
     = infos_of t st @ (case section_of t cs of None \<Rightarrow> [] | Some c \<Rightarrow> stream_infos (send_streams c))"
  "distinct (map content_type cs) \<Longrightarrow> video_ssrc_groups (fold (read_section desc) cs st)
     = video_ssrc_groups st @ (case section_of MEDIA_TYPE_VIDEO cs of None \<Rightarrow> [] | Some c \<Rightarrow> stream_groups (send_streams c))"
proof (induction cs arbitrary: st)
  case (Cons c cs)
  have none: "content_type c = t \<Longrightarrow> t \<notin> content_type ` set cs \<Longrightarrow> section_of t cs = None" for t
    by (rule section_of_None)
  {
    case 1 show ?case using Cons.IH(1) by (simp add: read_section_simps)
  next
    case 2 show ?case using Cons.IH(2) by (simp add: read_section_simps)
  next
    case 3 then show ?case using Cons.IH(3) none by (auto simp: read_section_simps section_of_def split: option.splits)
  next
    case 4 then show ?case using Cons.IH(4) none by (auto simp: read_section_simps section_of_def split: option.splits)
  }
qed (simp_all add: section_of_def)

lemma sections_td:
  assumes "distinct (map content_type cs)" "\<And>c. c \<in> set cs \<Longrightarrow> section_ok ntop desc c"
    "\<And>t. t \<in> content_type ` set cs \<Longrightarrow> td_of t st = new_TransportDescription"
  shows "td_of t (fold (read_section desc) cs st) = (case section_of t cs of None \<Rightarrow> td_of t st | Some c \<Rightarrow> read_td (content_td desc c))"
  using assms
proof (induction cs arbitrary: st)
  case (Cons c cs)
  have "td_of t (fold (read_section desc) cs (read_section desc c st)) = (case section_of t cs of
      None \<Rightarrow> td_of t (read_section desc c st) | Some c \<Rightarrow> read_td (content_td desc c))"
  proof (rule Cons.IH)
    fix t' assume t': "t' \<in> content_type ` set cs"
    then have "content_type c \<noteq> t'" using Cons.prems(1) by auto
    then show "td_of t' (read_section desc c st) = new_TransportDescription"
      using read_section_simps(5) Cons.prems(3) [of t'] t' by simp
  qed (use Cons.prems in auto)
  moreover have "td_of (content_type c) (read_section desc c st) = read_td (content_td desc c)"
    by (rule read_section_td) (use Cons.prems in auto)
  moreover have "content_type c = t \<Longrightarrow> section_of t cs = None"
    using Cons.prems(1) by (auto intro: section_of_None)
  moreover have "content_type c \<noteq> t \<Longrightarrow> td_of t (read_section desc c st) = td_of t st"
    by (rule read_section_simps(5))
  ultimately show ?case by (cases "content_type c = t") (simp_all add: section_of_def cong: option.case_cong)
qed (simp add: section_of_def)


section \<open>The whole text\<close>

definition session_lines :: "SessionDescription \<Rightarrow> bytes list" where
  "session_lines desc = [bytes_of ''v=0'', bytes_of ''o=- 0 2 IN IP4 127.0.0.1'', bytes_of ''s=-'', bytes_of ''t=0 0'']
     @ (let groups = get_group_by_name (bytes_of ''BUNDLE'') desc
        in if groups \<noteq> [] then [bytes_of ''a='' @ bytes_of ''group:BUNDLE'' @ concat (map (\<lambda>g. concat (map (\<lambda>name. bytes_of '' '' @ name)
             (content_names g))) groups)] else [])
     @ [bytes_of ''a=msid-semantic: WMS'']"

definition sdp_lines :: "(IPAddress \<Rightarrow> bytes) \<Rightarrow> SessionDescription \<Rightarrow> bytes list" where
  "sdp_lines ntop desc = session_lines desc @ concat (map (section_lines ntop desc) (contents desc))"

lemma session_lines_ok:
  assumes "describable ntop desc"
  shows "list_all neutral (session_lines desc)" "list_all one_line (session_lines desc)"
proof -
  define names where "names = concat (map (\<lambda>g. concat (map (\<lambda>name. bytes_of '' '' @ name) (content_names g)))
    (get_group_by_name (bytes_of ''BUNDLE'') desc))"
  have "clean names"
    using assms by (auto simp: names_def describable_def get_group_by_name_def list_all_iff)
  then have c: "clean (bytes_of ''group:BUNDLE'' @ names)" by simp
  have "neutral (bytes_of ''v=0'') \<and> neutral (bytes_of ''o=- 0 2 IN IP4 127.0.0.1'') \<and> neutral (bytes_of ''s=-'')
      \<and> neutral (bytes_of ''t=0 0'') \<and> neutral (bytes_of ''a=msid-semantic: WMS'')"
    by code_simp
  moreover have "neutral (bytes_of ''a='' @ bytes_of ''group:BUNDLE'' @ names)"
    unfolding neutral_attr [OF c] by (simp add: bytes_of_def)
  ultimately show "list_all neutral (session_lines desc)"
    by (simp add: session_lines_def Let_def names_def)
  from c show "list_all one_line (session_lines desc)"
    by (simp add: session_lines_def Let_def names_def [symmetric] one_line_clean)
qed

lemma text_of_lines:
  assumes "describable ntop desc"
  shows "sdp_to_string ntop desc = text_of (sdp_lines ntop desc)"
proof -
  have "text_of (section_lines ntop desc c) = build_content ntop desc c" if "c \<in> set (contents desc)" for c
  proof -
    have ok: "section_ok ntop desc c" using assms that by (simp add: describable_def list_all_iff)
    show ?thesis unfolding section_lines_def
      by (rule text_content [OF section_okD(2,3) [OF ok]]) (use section_okD(1) [OF ok] in \<open>simp add: content_ok_def\<close>)
  qed
  then have "text_of (concat (map (section_lines ntop desc) (contents desc))) = concat (map (build_content ntop desc) (contents desc))"
    by (subst text_of_concat) (simp cong: map_cong)
  moreover have "bytes_of ''a=group:BUNDLE'' = bytes_of ''a='' @ bytes_of ''group:BUNDLE''" by (simp add: bytes_of_def)
  ultimately show ?thesis
    by (simp add: sdp_to_string_def sdp_lines_def session_lines_def build_bundle_def Let_def)
qed

lemma tokenize_text:
  assumes "list_all one_line ls"
  shows "tokenize (text_of ls) 0x0A = map (\<lambda>l. l @ [0x0D]) ls"
proof -
  have "text_of ls = concat (map (\<lambda>l. l @ [0x0A]) (map (\<lambda>l. l @ [0x0D]) ls))"
    by (simp add: text_of_def crlf_def [abs_def] comp_def)
  then show ?thesis using assms by (simp only:) (rule tokenize_lines, auto simp: list_all_iff one_line_def)
qed

lemma contains_crlf: "ls \<noteq> [] \<Longrightarrow> str_contains [0x0D, 0x0A] (text_of ls)"
proof (cases ls)
  case (Cons l ls')
  then have "text_of ls = l @ [0x0D, 0x0A] @ text_of ls'" by (simp add: crlf_def)
  then show ?thesis unfolding str_contains_sublist sublist_def by blast
qed simp

lemma fold_add_stream: "fold add_stream streams c = c\<lparr>send_streams := send_streams c @ streams\<rparr>"
  by (induction streams arbitrary: c) (simp_all add: add_stream_def)

lemma stream_infos_empty: "streams_ok t streams \<Longrightarrow> stream_infos streams = [] \<longleftrightarrow> streams = []"
  by (cases streams) (auto simp: stream_infos_def streams_ok_def)

lemma section_of_member: "distinct (map content_type cs) \<Longrightarrow> c \<in> set cs \<Longrightarrow> section_of (content_type c) cs = Some c"
  by (induction cs) (auto simp: section_of_def)

lemma new_state_simps [simp]:
  "td_of t new_sdp_state = new_TransportDescription" "infos_of t new_sdp_state = []"
  "video_ssrc_groups new_sdp_state = []" "remote_contents new_sdp_state = []" "remote_groups new_sdp_state = []"
  by (cases t; simp add: td_of_def infos_of_def new_sdp_state_def)+

lemma default_content_simps [simp]:
  "content_type (AudioContentDescription dir) = MEDIA_TYPE_AUDIO" "content_type (VideoContentDescription dir) = MEDIA_TYPE_VIDEO"
  "send_streams (AudioContentDescription dir) = []" "send_streams (VideoContentDescription dir) = []"
  "candidates (AudioContentDescription dir) = []" "candidates (VideoContentDescription dir) = []"
  by (simp_all add: AudioContentDescription_def VideoContentDescription_def Let_def del: param_set.simps)

lemma default_content_codecs:
  "codecs (AudioContentDescription dir) = codecs (AudioContentDescription k_inactive)"
  "codecs (VideoContentDescription dir) = codecs (VideoContentDescription k_inactive)"
  by (simp_all add: AudioContentDescription_def VideoContentDescription_def Let_def del: param_set.simps)

lemma sdp_lines_steps:
  assumes "describable ntop desc"
  shows "steps (sdp_lines ntop desc) new_sdp_state (fold (read_section desc) (contents desc) new_sdp_state)"
proof -
  have "steps (session_lines desc) new_sdp_state new_sdp_state"
    using session_lines_ok(1) [OF assms] by (intro steps_neutral) (simp add: list_all_iff)
  moreover have "steps (concat (map (section_lines ntop desc) (contents desc))) new_sdp_state
      (fold (read_section desc) (contents desc) new_sdp_state)"
    using assms by (intro sections_steps)
      (auto simp: describable_def list_all_iff)
  ultimately show ?thesis unfolding sdp_lines_def by (rule steps_append)
qed

lemma sdp_lines_one_line:
  assumes "describable ntop desc" shows "list_all one_line (sdp_lines ntop desc)"
proof -
  have "list_all one_line (section_lines ntop desc c)" if "c \<in> set (contents desc)" for c
    unfolding section_lines_def using assms that section_okD
    by (intro content_lines_one_line) (auto simp: describable_def list_all_iff)
  with session_lines_ok(2) [OF assms] show ?thesis by (auto simp: sdp_lines_def list_all_iff)
qed

text \<open>The streams of the two media in the final state.\<close>

lemma tracks_of_sections:
  assumes "describable ntop desc" "c \<in> set (contents desc)"
  defines "st \<equiv> fold (read_section desc) (contents desc) new_sdp_state"
  shows "content_type c = MEDIA_TYPE_AUDIO \<Longrightarrow> create_track_from_ssrc_info (audio_ssrc_info st) [] = send_streams c"
    "content_type c = MEDIA_TYPE_VIDEO \<Longrightarrow> (if video_ssrc_info st = [] then []
       else fold add_ssrc_group (video_ssrc_groups st) (create_track_from_ssrc_info (video_ssrc_info st) [])) = send_streams c"
proof -
  have d: "distinct (map content_type (contents desc))" using assms(1) by (simp add: describable_def)
  have ok: "streams_ok (content_type c) (send_streams c)"
    using assms(1,2) by (auto simp: describable_def list_all_iff section_ok_def content_ok_def)
  have infos: "infos_of (content_type c) st = stream_infos (send_streams c)"
    using sections_result(3) [OF d] section_of_member [OF d assms(2)]
    by (simp add: st_def)
  show "content_type c = MEDIA_TYPE_AUDIO \<Longrightarrow> create_track_from_ssrc_info (audio_ssrc_info st) [] = send_streams c"
  proof -
    assume a: "content_type c = MEDIA_TYPE_AUDIO"
    then have "map bare (send_streams c) = send_streams c"
      using ok by (intro map_idI) (auto simp: streams_ok_def bare_def)
    then show ?thesis using tracks_rebuilt(1) [OF ok] infos a by (simp add: infos_of_def)
  qed
  assume v: "content_type c = MEDIA_TYPE_VIDEO"
  have "video_ssrc_groups st = stream_groups (send_streams c)"
    using sections_result(4) [OF d] section_of_member [OF d assms(2)] v by (simp add: st_def)
  then show "(if video_ssrc_info st = [] then []
       else fold add_ssrc_group (video_ssrc_groups st) (create_track_from_ssrc_info (video_ssrc_info st) [])) = send_streams c"
    using tracks_rebuilt [OF ok] stream_infos_empty [OF ok] infos v by (simp add: infos_of_def)
qed

text \<open>
  The offers of the server are describable: ICE credentials and stream names from a plain alphabet
  and a fingerprint with a FIPS 180 algorithm are all it takes.
\<close>

lemma offer_content_simps:
  "contents (offer_content send recv options c source ice certificate desc) = contents desc
     @ (if recv \<or> send then [c\<lparr>direction := get_direction send recv, rtcp_mux := use_rtcp_mux options,
          send_streams := send_streams c @ (if send then source else [])\<rparr>] else [])"
  "transport_infos (offer_content send recv options c source ice (Some (Some fp)) desc) = transport_infos desc
     @ (if recv \<or> send then [\<lparr>td_mid = mid c, td_ice_ufrag = ice_ufrag ice, td_ice_pwd = ice_pwd ice,
          identity_fingerprint = Some fp, connection_role = (if sdp_type desc = k_offer then ACTPASS else ACTIVE)\<rparr>] else [])"
  "content_groups (offer_content send recv options c source ice certificate desc) = content_groups desc"
  "sdp_type (offer_content send recv options c source ice certificate desc) = sdp_type desc"
  by (auto simp: offer_content_def Let_def add_content_def add_transport_info_def fold_add_stream
      new_TransportDescription_def split: option.split)

lemma clean_media_mid: "clean (media_mid t)"
  by (cases t) (simp_all add: media_mid_def)

lemma bundle_names_clean:
  "list_all clean (content_names g) \<Longrightarrow> list_all clean (content_names (fold (\<lambda>c. add_content_name (mid c)) cs g))"
  by (induction cs arbitrary: g) (simp_all add: add_content_name_def clean_media_mid)

lemma offer_describable:
  assumes "plain (ice_ufrag ice)" "ice_ufrag ice \<noteq> []" "plain (ice_pwd ice)" "ice_pwd ice \<noteq> []" "fingerprint_ok fp"
    "streams_ok MEDIA_TYPE_AUDIO audio_source" "streams_ok MEDIA_TYPE_VIDEO video_source"
  shows "describable ntop (offer_description dir options ice (Some (Some fp)) audio_source video_source)"
proof -
  define a where "a = offer_content (send_audio options) (recv_audio options) options (AudioContentDescription dir)
    audio_source ice (Some (Some fp)) (new_SessionDescription k_offer)"
  define v where "v = offer_content (send_video options) (recv_video options) options (VideoContentDescription dir)
    video_source ice (Some (Some fp)) a"
  define d where "d = offer_description dir options ice (Some (Some fp)) audio_source video_source"
  have dv: "d = (if use_rtp_mux options
     then let b = fold (\<lambda>c. add_content_name (mid c)) (contents v) (new_ContentGroup (bytes_of ''BUNDLE''))
          in if content_names b \<noteq> [] then add_group b v else v
     else v)"
    unfolding d_def offer_description_def Let_def a_def v_def by (rule refl)
  have v: "content_groups v = []" by (simp add: v_def a_def offer_content_simps new_SessionDescription_def)
  have d: "contents d = contents v" "transport_infos d = transport_infos v"
    "list_all (\<lambda>g. list_all clean (content_names g)) (content_groups d)"
    using bundle_names_clean by (simp_all add: dv Let_def add_group_def v new_ContentGroup_def)
  have "distinct (map content_type (contents d))"
    by (simp add: d(1) v_def a_def offer_content_simps new_SessionDescription_def)
  moreover have "section_ok ntop d c" if "c \<in> set (contents d)" for c
  proof -
    have "content_ok ntop c"
      using that assms(6,7) default_content_codecs [of dir] unfolding d(1) v_def a_def
      by (auto simp: offer_content_simps new_SessionDescription_def content_ok_def streams_ok_def stream_ssrcs_def
          split: if_splits)
    moreover have "get_transport_info (mid c) d = Some \<lparr>td_mid = mid c, td_ice_ufrag = ice_ufrag ice, td_ice_pwd = ice_pwd ice,
        identity_fingerprint = Some fp, connection_role = ACTPASS\<rparr>"
      using that unfolding get_transport_info_def d(1,2) v_def a_def
      by (auto simp: offer_content_simps new_SessionDescription_def media_mid_def split: if_splits)
    ultimately show ?thesis using assms(1-5) by (simp add: section_ok_def td_ok_def)
  qed
  ultimately show ?thesis using d(3) unfolding d_def by (simp add: describable_def list_all_iff)
qed

definition with_candidates :: "(MediaType \<Rightarrow> Candidate list) \<Rightarrow> SessionDescription \<Rightarrow> SessionDescription" where
  "with_candidates cands desc = desc\<lparr>contents := map (\<lambda>c. add_candidates (cands (content_type c)) c) (contents desc)\<rparr>"

lemma describable_candidates:
  assumes "describable ntop desc" "\<And>t cand. cand \<in> set (cands t) \<Longrightarrow> candidate_ok ntop cand"
  shows "describable ntop (with_candidates cands desc)"
  using assms
  by (auto simp: describable_def with_candidates_def list_all_iff section_ok_def content_ok_def add_candidates_def
      get_transport_info_def comp_def)

section \<open>Claims\<close>

text \<open>
  C10. Every describable session description (one section per medium, values without blanks, colons,
  equals signs and line feeds, a fingerprint of a FIPS 180 algorithm) is read back by
  \<^verbatim>\<open>set_remote_sdp\<close> from the text that \<^verbatim>\<open>to_string\<close> prints: the contents
  in their order with all their tracks, sources and source groups, and per medium the ICE credentials
  and the fingerprint.  Lost are the type, the connection role and the bundle group.
\<close>

theorem sdp_round_trip:
  assumes "describable ntop desc"
  shows "parse_remote_sdp dir (sdp_to_string ntop desc) = Some (0, Some (read_description dir desc))"
proof -
  define st where "st = fold (read_section desc) (contents desc) new_sdp_state"
  have ne: "sdp_lines ntop desc \<noteq> []" by (simp add: sdp_lines_def session_lines_def)
  have d: "distinct (map content_type (contents desc))" "\<And>c. c \<in> set (contents desc) \<Longrightarrow> section_ok ntop desc c"
    using assms by (simp_all add: describable_def list_all_iff)
  have "parse_fields True (tokenize (sdp_to_string ntop desc) 0x0A) new_sdp_state = Some (0, st)"
    using sdp_lines_steps [OF assms] tokenize_text [OF sdp_lines_one_line [OF assms]] text_of_lines [OF assms]
    by (simp add: steps_def st_def)
  moreover have "tokenize (sdp_to_string ntop desc) 0x0A \<noteq> []" "str_contains [0x0D, 0x0A] (sdp_to_string ntop desc)"
    using tokenize_text [OF sdp_lines_one_line [OF assms]] contains_crlf [OF ne] ne by (simp_all add: text_of_lines [OF assms])
  moreover have "td_of t st = read_transport desc t" for t
    using sections_td [OF d, of new_sdp_state t] by (simp add: st_def read_transport_def cong: option.case_cong)
  from this [of MEDIA_TYPE_AUDIO] this [of MEDIA_TYPE_VIDEO]
  have "audio_td st = read_transport desc MEDIA_TYPE_AUDIO" "video_td st = read_transport desc MEDIA_TYPE_VIDEO"
    by (simp_all add: td_of_def)
  moreover have "remote_contents st = map content_type (contents desc)" "remote_groups st = []"
    by (simp_all add: st_def sections_result)
  ultimately show ?thesis
    using tracks_of_sections [OF assms, folded st_def]
    by (auto simp: parse_remote_sdp_def Let_def read_description_def remote_description_def read_content_def fold_add_stream
        split: MediaType.split)
qed


definition sample_fingerprint :: SSLFingerprint where
  "sample_fingerprint = \<lparr>fp_algorithm = bytes_of ''sha-256'', fp_digest = [0xAB, 0x01, 0xFF]\<rparr>"

definition sample_audio :: "StreamParams list" where
  "sample_audio = [\<lparr>sp_id = bytes_of ''a0'', sp_ssrcs = [1111], sp_ssrc_groups = [], sp_cname = bytes_of ''c'',
     sp_stream_id = bytes_of ''s''\<rparr>]"

definition sample_video :: "StreamParams list" where
  "sample_video = [\<lparr>sp_id = bytes_of ''v0'', sp_ssrcs = [4294967295, 7],
     sp_ssrc_groups = [\<lparr>semantics = bytes_of ''FID'', group_ssrcs = [4294967295, 7]\<rparr>], sp_cname = bytes_of ''c'',
     sp_stream_id = bytes_of ''s''\<rparr>]"

definition sample_offer :: SessionDescription where
  "sample_offer = offer_description k_inactive default_options \<lparr>ice_ufrag = bytes_of ''F7+a'', ice_pwd = bytes_of ''x/9''\<rparr>
     (Some (Some sample_fingerprint)) sample_audio sample_video"

lemma sample_offer_describable: "describable ntop sample_offer"
  unfolding sample_offer_def
  by (rule offer_describable)
    (simp_all add: sample_fingerprint_def fingerprint_ok_def IsFips180DigestAlgorithm_def sample_audio_def sample_video_def
      streams_ok_def stream_ssrcs_def track_plain_def group_plain_def bytes_of_def)

theorem sdp_round_trip_witness:
  "describable (\<lambda>_. []) sample_offer \<and>
   parse_remote_sdp k_inactive (sdp_to_string (\<lambda>_. []) sample_offer) = Some (0, Some (read_description k_inactive sample_offer))
   \<and> map send_streams (contents (read_description k_inactive sample_offer)) = [sample_audio, sample_video]"
proof -
  have "map send_streams (contents (read_description k_inactive sample_offer)) = [sample_audio, sample_video]"
    by (simp add: read_description_def sample_offer_def offer_description_def Let_def offer_content_simps default_options_def
        new_SessionDescription_def read_content_def add_group_def comp_def)
  then show ?thesis using sdp_round_trip [OF sample_offer_describable] sample_offer_describable by simp
qed

text \<open>
  An answer whose first line contains \<^verbatim>\<open>m=\<close> (but not \<^verbatim>\<open>m=group:BUNDLE\<close>) and
  has at least three words, the first with fewer than two characters, makes
  \<^verbatim>\<open>set_remote_sdp\<close> throw \<^verbatim>\<open>std::out_of_range\<close>, which nobody catches,
  whatever follows.
\<close>

theorem media_line_throws:
  assumes "one_line l" "str_contains (bytes_of ''m='') l" "\<not> str_contains (bytes_of ''m=group:BUNDLE'') l"
    "2 < length (split l 0x20)" "length (hd (split l 0x20)) < 2"
  shows "parse_remote_sdp dir (l @ [0x0D, 0x0A] @ more_text) = None"
proof -
  have "tokenize ((l @ [0x0D]) @ 0x0A # more_text) 0x0A = (l @ [0x0D]) # tokenize more_text 0x0A"
    using assms(1) by (simp add: tokenize_filter split_append one_line_def del: append_assoc)
  then have "tokenize (l @ [0x0D, 0x0A] @ more_text) 0x0A = (l @ [0x0D]) # tokenize more_text 0x0A" by simp
  moreover have "str_contains [0x0D, 0x0A] (l @ [0x0D, 0x0A] @ more_text)"
    unfolding str_contains_sublist sublist_def by blast
  moreover have "parse_field l new_sdp_state = None"
    using assms(2-5) by (simp add: parse_field_def parse_media_line_def str_substr_def)
  ultimately show ?thesis by (simp add: parse_remote_sdp_def Let_def)
qed

theorem media_line_throws_witness:
  "parse_remote_sdp k_inactive (bytes_of ''x y m='' @ [0x0D, 0x0A] @ bytes_of ''s=-'') = None"
proof (rule media_line_throws)
  show "one_line (bytes_of ''x y m='')" by simp
  show "str_contains (bytes_of ''m='') (bytes_of ''x y m='')" "\<not> str_contains (bytes_of ''m=group:BUNDLE'') (bytes_of ''x y m='')"
    "2 < length (split (bytes_of ''x y m='') 0x20)" "length (hd (split (bytes_of ''x y m='') 0x20)) < 2"
    by code_simp+
qed

end
