(* ===== verification/Rtp_Utils.thy ===== *)
theory Rtp_Utils
  imports ByteBuffer
begin

text \<open>
  \<^verbatim>\<open>module/rtp_rtcp/rtp_utils.cpp\<close> and the packet tests of
  \<^verbatim>\<open>pc/dtls_transport.cpp\<close>: how the server tells STUN, DTLS, RTP and RTCP apart on
  one port.  A read past the packet is \<open>None\<close>.
\<close>

definition k_rtp_version :: u8 where "k_rtp_version = 2"
definition k_min_rtp_packet_len :: nat where "k_min_rtp_packet_len = 12"
definition k_min_rtcp_packet_len :: nat where "k_min_rtcp_packet_len = 4"

datatype RtpPacketType = k_rtp | k_rtcp | k_unknown

definition byte_at :: "bytes \<Rightarrow> nat \<Rightarrow> u8 option" where
  "byte_at packet i = (if i < length packet then Some (packet ! i) else None)"

definition has_correct_rtp_version :: "bytes \<Rightarrow> bool option" where
  "has_correct_rtp_version packet = map_option (\<lambda>b. drop_bit 6 b = k_rtp_version) (byte_at packet 0)"

definition payload_type_is_reserved_for_rtcp :: "u8 \<Rightarrow> bool" where
  "payload_type_is_reserved_for_rtcp payload_type \<longleftrightarrow> 64 \<le> payload_type \<and> payload_type < 96"

text \<open>\<open>and_then\<close> is \<^verbatim>\<open>&&\<close>: the second operand is evaluated only when the
  first is true.\<close>

definition and_then :: "bool option \<Rightarrow> bool option \<Rightarrow> bool option" where
  "and_then a b = (case a of None \<Rightarrow> None | Some False \<Rightarrow> Some False | Some True \<Rightarrow> b)"

definition is_rtp_packet :: "bytes \<Rightarrow> bool option" where
  "is_rtp_packet packet = and_then (Some (length packet \<ge> k_min_rtp_packet_len))
     (and_then (has_correct_rtp_version packet)
       (map_option (\<lambda>b. \<not> payload_type_is_reserved_for_rtcp (b AND 0x7F)) (byte_at packet 1)))"

definition is_rtcp_packet :: "bytes \<Rightarrow> bool option" where
  "is_rtcp_packet packet = and_then (Some (length packet \<ge> k_min_rtcp_packet_len))
     (and_then (has_correct_rtp_version packet)
       (map_option (\<lambda>b. payload_type_is_reserved_for_rtcp (b AND 0x7F)) (byte_at packet 1)))"

definition infer_rtp_packet_type :: "bytes \<Rightarrow> RtpPacketType option" where
  "infer_rtp_packet_type packet = do {
     rtp \<leftarrow> is_rtp_packet packet;
     if rtp then Some k_rtp
     else do {
       rtcp \<leftarrow> is_rtcp_packet packet;
       Some (if rtcp then k_rtcp else k_unknown)
     }
   }"

definition parse_rtp_sequence_number :: "bytes \<Rightarrow> u16 option" where
  "parse_rtp_sequence_number packet = GetBE16 packet 2"

definition parse_rtp_ssrc :: "bytes \<Rightarrow> u32 option" where
  "parse_rtp_ssrc packet = GetBE32 packet 8"

text \<open>The result false is \<open>None\<close>.\<close>

definition get_rtcp_type :: "bytes \<Rightarrow> int option" where
  "get_rtcp_type data = (if length data < k_min_rtcp_packet_len then None else Some (uint (data ! 1)))"

section \<open>Packets of the DTLS transport\<close>

definition k_dtls_record_header_len :: nat where "k_dtls_record_header_len = 13"

definition is_dtls_packet :: "bytes \<Rightarrow> bool option" where
  "is_dtls_packet buf = and_then (Some (length buf \<ge> k_dtls_record_header_len))
     (map_option (\<lambda>b. b > 19 \<and> b < 64) (byte_at buf 0))"

definition is_dtls_client_hello_packet :: "bytes \<Rightarrow> bool option" where
  "is_dtls_client_hello_packet buf = do {
     b \<leftarrow> is_dtls_packet buf;
     if \<not> b then Some False
     else and_then (Some (length buf > 17))
       (and_then (map_option (\<lambda>b. b = 22) (byte_at buf 0)) (map_option (\<lambda>b. b = 1) (byte_at buf 13)))
   }"

text \<open>The test of the same name in the DTLS transport accepts RTP and RTCP.\<close>

definition dtls_is_rtp_packet :: "bytes \<Rightarrow> bool option" where
  "dtls_is_rtp_packet buf = and_then (Some (length buf \<ge> k_min_rtp_packet_len))
     (map_option (\<lambda>b. b AND 0xC0 = 0x80) (byte_at buf 0))"

section \<open>Properties\<close>

lemma and_then_simps [simp]:
  "and_then (Some True) b = b" "and_then (Some False) b = Some False"
  "and_then a b \<noteq> None \<longleftrightarrow> a \<noteq> None \<and> (a = Some True \<longrightarrow> b \<noteq> None)"
  "and_then a b = Some True \<longleftrightarrow> a = Some True \<and> b = Some True"
  by (auto simp: and_then_def split: option.splits bool.splits)

lemma byte_at_simps [simp]: "i < length p \<Longrightarrow> byte_at p i = Some (p ! i)"
  by (simp add: byte_at_def)

lemma unat_high_bits: "unat (drop_bit 6 (b :: u8)) = unat b div 64" "unat (b AND 0xC0) = 64 * (unat b div 64)"
proof -
  show d: "unat (drop_bit 6 b) = unat b div 64"
    by (simp add: drop_bit_eq_div unat_div)
  have e: "(0xC0 :: u8) = NOT (mask 6)" by (simp add: mask_eq_exp_minus_1 not_eq_complement)
  have "b AND 0xC0 = push_bit 6 (drop_bit 6 b)"
    unfolding e by (rule bit_word_eqI) (auto simp: bit_simps)
  moreover have "unat b div 64 < 4" using unsigned_less [of b, where ?'a = nat] by simp
  ultimately show "unat (b AND 0xC0) = 64 * (unat b div 64)"
    using d by (simp add: push_bit_eq_mult unat_word_ariths mult.commute)
qed

lemma version_word: "b AND 0xC0 = 0x80 \<longleftrightarrow> drop_bit 6 (b :: u8) = 2"
  by (simp add: word_unat_eq_iff unat_high_bits)

lemma infer_rtp_packet_type_total: "infer_rtp_packet_type p \<noteq> None"
proof (cases "length p < 4")
  case True
  then show ?thesis by (simp add: infer_rtp_packet_type_def is_rtp_packet_def is_rtcp_packet_def k_min_rtp_packet_len_def k_min_rtcp_packet_len_def)
next
  case False
  then have "byte_at p 0 = Some (p ! 0)" "byte_at p (Suc 0) = Some (p ! 1)" by (auto simp: byte_at_def)
  then show ?thesis
    by (auto simp: infer_rtp_packet_type_def is_rtp_packet_def is_rtcp_packet_def has_correct_rtp_version_def and_then_def split: bool.split)
qed

text \<open>What the DTLS transport passes on is RTP or RTCP, and DTLS records are neither.\<close>

lemma media_packet_known:
  assumes "dtls_is_rtp_packet p = Some True"
  shows "infer_rtp_packet_type p = Some k_rtp \<or> infer_rtp_packet_type p = Some k_rtcp"
proof -
  have l: "12 \<le> length p" using assms by (simp add: dtls_is_rtp_packet_def k_min_rtp_packet_len_def)
  then have b: "byte_at p 0 = Some (p ! 0)" "byte_at p (Suc 0) = Some (p ! 1)" by (auto simp: byte_at_def)
  then have "drop_bit 6 (p ! 0) = 2" using assms version_word [of "p ! 0"] by (simp add: dtls_is_rtp_packet_def)
  then show ?thesis using l b
    by (auto simp: infer_rtp_packet_type_def is_rtp_packet_def is_rtcp_packet_def has_correct_rtp_version_def
        k_rtp_version_def k_min_rtp_packet_len_def k_min_rtcp_packet_len_def)
qed

lemma dtls_not_media:
  assumes "is_dtls_packet p = Some True" shows "dtls_is_rtp_packet p = Some False"
proof -
  have l: "13 \<le> length p" using assms by (simp add: is_dtls_packet_def k_dtls_record_header_len_def)
  then have b: "byte_at p 0 = Some (p ! 0)" by (intro byte_at_simps) auto
  with assms have "p ! 0 < 64" by (simp add: is_dtls_packet_def)
  then have "unat (p ! 0) < 64" by (simp add: word_less_nat_alt)
  then have "p ! 0 AND 0xC0 \<noteq> 0x80" by (simp add: word_unat_eq_iff unat_high_bits)
  with l b show ?thesis by (simp add: dtls_is_rtp_packet_def k_min_rtp_packet_len_def)
qed

end
