(* ===== verification/Srtp.thy ===== *)
theory Srtp
  imports ByteBuffer
begin

text \<open>
  \<^verbatim>\<open>pc/srtp_session.cpp\<close> and \<^verbatim>\<open>pc/srtp_transport.cpp\<close>: the SRTP
  sessions of a transport.  The library libsrtp is a parameter: a record of what its functions
  return, with contexts of an arbitrary type.  The usage counter of the library is a global
  variable of the source and is passed along.
\<close>

section \<open>The library\<close>

datatype ssrc_type = ssrc_any_inbound | ssrc_any_outbound

record crypto_policy =
  cipher_key_len :: int
  auth_tag_len :: int

record srtp_policy =
  policy_rtp :: crypto_policy
  policy_rtcp :: crypto_policy
  policy_ssrc :: ssrc_type
  policy_key :: bytes

text \<open>
  \<open>None\<close> is a status other than \<^verbatim>\<open>srtp_err_status_ok\<close>; a context that a
  failed call leaves behind is part of the result where the caller keeps it.
\<close>

record 'ctx libsrtp =
  srtp_init :: bool
  srtp_install_event_handler :: bool
  policy_from_profile_for_rtp :: "int \<Rightarrow> crypto_policy option"
  policy_from_profile_for_rtcp :: "int \<Rightarrow> crypto_policy option"
  srtp_create :: "srtp_policy \<Rightarrow> 'ctx option"
  srtp_update :: "'ctx \<Rightarrow> srtp_policy \<Rightarrow> 'ctx option"
  srtp_protect :: "'ctx \<Rightarrow> bytes \<Rightarrow> 'ctx \<times> bytes option"
  srtp_protect_rtcp :: "'ctx \<Rightarrow> bytes \<Rightarrow> 'ctx \<times> bytes option"
  srtp_unprotect :: "'ctx \<Rightarrow> bytes \<Rightarrow> 'ctx \<times> bytes option"
  srtp_unprotect_rtcp :: "'ctx \<Rightarrow> bytes \<Rightarrow> 'ctx \<times> bytes option"

section \<open>Sessions\<close>

record 'ctx SrtpSession =
  srtp_ctx :: "'ctx option"
  srtp_inited :: bool
  rtp_auth_tag_len :: int
  rtcp_auth_tag_len :: int

definition new_SrtpSession :: "'ctx SrtpSession" where
  "new_SrtpSession = \<lparr>srtp_ctx = None, srtp_inited = False, rtp_auth_tag_len = 0, rtcp_auth_tag_len = 0\<rparr>"

definition increment_libsrtp_usage_count_and_maybe_init :: "'ctx libsrtp \<Rightarrow> int \<Rightarrow> bool \<times> int" where
  "increment_libsrtp_usage_count_and_maybe_init lib usage =
     (if usage = 0 \<and> \<not> srtp_init lib then (False, usage)
      else if usage = 0 \<and> \<not> srtp_install_event_handler lib then (False, usage)
      else (True, usage + 1))"

definition decrement_libsrtp_usage_count_and_maybe_deinit :: "int \<Rightarrow> int" where
  "decrement_libsrtp_usage_count_and_maybe_deinit usage = usage - 1"

definition delete_SrtpSession :: "'ctx SrtpSession \<Rightarrow> int \<Rightarrow> int" where
  "delete_SrtpSession s usage =
     (if srtp_inited s then decrement_libsrtp_usage_count_and_maybe_deinit usage else usage)"

definition do_set_key :: "'ctx libsrtp \<Rightarrow> ssrc_type \<Rightarrow> int \<Rightarrow> bytes \<Rightarrow> 'ctx SrtpSession
    \<Rightarrow> bool \<times> 'ctx SrtpSession" where
  "do_set_key lib type cs key s =
     (case (policy_from_profile_for_rtp lib cs, policy_from_profile_for_rtcp lib cs) of
        (Some rtp, Some rtcp) \<Rightarrow>
          if int (length key) \<noteq> cipher_key_len rtp then (False, s)
          else let policy = \<lparr>policy_rtp = rtp, policy_rtcp = rtcp, policy_ssrc = type, policy_key = key\<rparr>
               in (case (case srtp_ctx s of None \<Rightarrow> srtp_create lib policy
                         | Some ctx \<Rightarrow> srtp_update lib ctx policy) of
                     None \<Rightarrow> (False, s)
                   | Some ctx \<Rightarrow> (True, s\<lparr>srtp_ctx := Some ctx, rtp_auth_tag_len := auth_tag_len rtp,
                       rtcp_auth_tag_len := auth_tag_len rtcp\<rparr>))
      | _ \<Rightarrow> (False, s))"

definition set_key :: "'ctx libsrtp \<Rightarrow> ssrc_type \<Rightarrow> int \<Rightarrow> bytes \<Rightarrow> 'ctx SrtpSession \<Rightarrow> int
    \<Rightarrow> bool \<times> 'ctx SrtpSession \<times> int" where
  "set_key lib type cs key s usage =
     (if srtp_ctx s \<noteq> None then (False, s, usage)
      else let (ok, usage) = increment_libsrtp_usage_count_and_maybe_init lib usage
           in if ok then let (ret, s) = do_set_key lib type cs key (s\<lparr>srtp_inited := True\<rparr>) in (ret, s, usage)
              else (False, s, usage))"

definition update_key :: "'ctx libsrtp \<Rightarrow> ssrc_type \<Rightarrow> int \<Rightarrow> bytes \<Rightarrow> 'ctx SrtpSession
    \<Rightarrow> bool \<times> 'ctx SrtpSession" where
  "update_key lib type cs key s = (if srtp_ctx s = None then (False, s) else do_set_key lib type cs key s)"

abbreviation "set_send lib \<equiv> set_key lib ssrc_any_outbound"
abbreviation "set_recv lib \<equiv> set_key lib ssrc_any_inbound"
abbreviation "update_send lib \<equiv> update_key lib ssrc_any_outbound"
abbreviation "update_recv lib \<equiv> update_key lib ssrc_any_inbound"

text \<open>
  The packet operations: the protected or plain packet, \<open>None\<close> for false.  \<open>max_len\<close>
  is the capacity of the caller's buffer.
\<close>

definition session_unprotect :: "('ctx \<Rightarrow> bytes \<Rightarrow> 'ctx \<times> bytes option) \<Rightarrow> bytes \<Rightarrow> 'ctx SrtpSession
    \<Rightarrow> bytes option \<times> 'ctx SrtpSession" where
  "session_unprotect unprotect p s = (case srtp_ctx s of None \<Rightarrow> (None, s)
     | Some ctx \<Rightarrow> let (ctx, out) = unprotect ctx p in (out, s\<lparr>srtp_ctx := Some ctx\<rparr>))"

definition session_protect :: "('ctx \<Rightarrow> bytes \<Rightarrow> 'ctx \<times> bytes option) \<Rightarrow> int \<Rightarrow> bytes \<Rightarrow> int \<Rightarrow> 'ctx SrtpSession
    \<Rightarrow> bytes option \<times> 'ctx SrtpSession" where
  "session_protect protect trailer p max_len s = (case srtp_ctx s of None \<Rightarrow> (None, s)
     | Some ctx \<Rightarrow> if max_len < int (length p) + trailer then (None, s)
         else let (ctx, out) = protect ctx p in (out, s\<lparr>srtp_ctx := Some ctx\<rparr>))"

section \<open>Transports\<close>

record 'ctx SrtpTransport =
  rtcp_mux_enabled :: bool
  send_session :: "'ctx SrtpSession option"
  recv_session :: "'ctx SrtpSession option"

definition new_SrtpTransport :: "bool \<Rightarrow> 'ctx SrtpTransport" where
  "new_SrtpTransport mux = \<lparr>rtcp_mux_enabled = mux, send_session = None, recv_session = None\<rparr>"

definition is_srtp_active :: "('ctx, 'a) SrtpTransport_scheme \<Rightarrow> bool" where
  "is_srtp_active t \<longleftrightarrow> send_session t \<noteq> None \<and> recv_session t \<noteq> None"

definition delete_session :: "'ctx SrtpSession option \<Rightarrow> int \<Rightarrow> int" where
  "delete_session s usage = (case s of None \<Rightarrow> usage | Some s \<Rightarrow> delete_SrtpSession s usage)"

definition reset_params :: "('ctx, 'a) SrtpTransport_scheme \<Rightarrow> int \<Rightarrow> ('ctx, 'a) SrtpTransport_scheme \<times> int" where
  "reset_params t usage = (t\<lparr>send_session := None, recv_session := None\<rparr>,
     delete_session (recv_session t) (delete_session (send_session t) usage))"

definition create_srtp_session :: "('ctx, 'a) SrtpTransport_scheme \<Rightarrow> int \<Rightarrow> ('ctx, 'a) SrtpTransport_scheme \<times> int" where
  "create_srtp_session t usage = (t\<lparr>send_session := Some new_SrtpSession, recv_session := Some new_SrtpSession\<rparr>,
     delete_session (recv_session t) (delete_session (send_session t) usage))"

text \<open>A session pointer that is null where the source dereferences it is the outer \<open>None\<close>.\<close>

definition set_rtp_params :: "'ctx libsrtp \<Rightarrow> int \<Rightarrow> bytes \<Rightarrow> int \<Rightarrow> bytes \<Rightarrow> ('ctx, 'a) SrtpTransport_scheme \<Rightarrow> int
    \<Rightarrow> (bool \<times> ('ctx, 'a) SrtpTransport_scheme \<times> int) option" where
  "set_rtp_params lib send_cs send_key recv_cs recv_key t usage =
     (let new_session = (send_session t = None);
          (t, usage) = (if new_session then create_srtp_session t usage else (t, usage))
      in do {
        send \<leftarrow> send_session t;
        let (ret, send, usage) = (if new_session then set_send lib send_cs send_key send usage
            else let (ret, send) = update_send lib send_cs send_key send in (ret, send, usage));
        let t = t\<lparr>send_session := Some send\<rparr>;
        if \<not> ret then let (t, usage) = reset_params t usage in Some (False, t, usage)
        else do {
          recv \<leftarrow> recv_session t;
          let (ret, recv, usage) = (if new_session then set_recv lib recv_cs recv_key recv usage
              else let (ret, recv) = update_recv lib recv_cs recv_key recv in (ret, recv, usage));
          let t = t\<lparr>recv_session := Some recv\<rparr>;
          if \<not> ret then let (t, usage) = reset_params t usage in Some (False, t, usage)
          else Some (True, t, usage)
        }
      })"

definition get_send_auth_tag_len :: "('ctx, 'a) SrtpTransport_scheme \<Rightarrow> int \<times> int" where
  "get_send_auth_tag_len t = (case send_session t of
     Some s \<Rightarrow> if srtp_ctx s \<noteq> None then (rtp_auth_tag_len s, rtcp_auth_tag_len s) else (0, 0)
   | None \<Rightarrow> (0, 0))"

definition unprotect_rtp :: "'ctx libsrtp \<Rightarrow> bytes \<Rightarrow> ('ctx, 'a) SrtpTransport_scheme
    \<Rightarrow> bytes option \<times> ('ctx, 'a) SrtpTransport_scheme" where
  "unprotect_rtp lib p t = (case (send_session t, recv_session t) of
     (Some _, Some s) \<Rightarrow> let (out, s) = session_unprotect (srtp_unprotect lib) p s in (out, t\<lparr>recv_session := Some s\<rparr>)
   | _ \<Rightarrow> (None, t))"

definition unprotect_rtcp :: "'ctx libsrtp \<Rightarrow> bytes \<Rightarrow> ('ctx, 'a) SrtpTransport_scheme
    \<Rightarrow> bytes option \<times> ('ctx, 'a) SrtpTransport_scheme" where
  "unprotect_rtcp lib p t = (case (send_session t, recv_session t) of
     (Some _, Some s) \<Rightarrow> let (out, s) = session_unprotect (srtp_unprotect_rtcp lib) p s in (out, t\<lparr>recv_session := Some s\<rparr>)
   | _ \<Rightarrow> (None, t))"

definition protect_rtp :: "'ctx libsrtp \<Rightarrow> bytes \<Rightarrow> int \<Rightarrow> ('ctx, 'a) SrtpTransport_scheme
    \<Rightarrow> bytes option \<times> ('ctx, 'a) SrtpTransport_scheme" where
  "protect_rtp lib p max_len t = (case (send_session t, recv_session t) of
     (Some s, Some _) \<Rightarrow> let (out, s) = session_protect (srtp_protect lib) (rtp_auth_tag_len s) p max_len s
       in (out, t\<lparr>send_session := Some s\<rparr>)
   | _ \<Rightarrow> (None, t))"

definition protect_rtcp :: "'ctx libsrtp \<Rightarrow> bytes \<Rightarrow> int \<Rightarrow> ('ctx, 'a) SrtpTransport_scheme
    \<Rightarrow> bytes option \<times> ('ctx, 'a) SrtpTransport_scheme" where
  "protect_rtcp lib p max_len t = (case (send_session t, recv_session t) of
     (Some s, Some _) \<Rightarrow> let (out, s) = session_protect (srtp_protect_rtcp lib) (rtcp_auth_tag_len s + 4) p max_len s
       in (out, t\<lparr>send_session := Some s\<rparr>)
   | _ \<Rightarrow> (None, t))"

section \<open>Properties\<close>

text \<open>
  The sessions of a transport come in pairs, with contexts, and each holds one use of the library;
  \<open>uses\<close> counts them.
\<close>

definition session_use :: "'ctx SrtpSession option \<Rightarrow> int" where
  "session_use s = (case s of None \<Rightarrow> 0 | Some s \<Rightarrow> if srtp_inited s then 1 else 0)"

definition srtp_uses :: "('ctx, 'a) SrtpTransport_scheme \<Rightarrow> int" where
  "srtp_uses t = session_use (send_session t) + session_use (recv_session t)"

definition session_ready :: "'ctx SrtpSession option \<Rightarrow> bool" where
  "session_ready s \<longleftrightarrow> (\<exists>s'. s = Some s' \<and> srtp_ctx s' \<noteq> None \<and> srtp_inited s')"

definition srtp_inv :: "('ctx, 'a) SrtpTransport_scheme \<Rightarrow> bool" where
  "srtp_inv t \<longleftrightarrow> (send_session t = None \<and> recv_session t = None)
     \<or> (session_ready (send_session t) \<and> session_ready (recv_session t))"

lemma delete_session_use: "delete_session s usage = usage - session_use s"
  by (simp add: delete_session_def delete_SrtpSession_def decrement_libsrtp_usage_count_and_maybe_deinit_def
      session_use_def split: option.split)

lemma reset_params_spec:
  assumes "reset_params t usage = (t', usage')"
  shows "send_session t' = None" "recv_session t' = None" "srtp_inv t'" "srtp_uses t' = 0"
    "usage' = usage - srtp_uses t" "\<not> is_srtp_active t'"
  using assms by (auto simp: reset_params_def srtp_inv_def delete_session_use srtp_uses_def session_use_def is_srtp_active_def)

lemma do_set_key_spec:
  assumes "do_set_key lib type cs key s = (ret, s')"
  shows "srtp_inited s' = srtp_inited s" "ret \<Longrightarrow> srtp_ctx s' \<noteq> None" "\<not> ret \<Longrightarrow> s' = s"
  using assms by (auto simp: do_set_key_def Let_def split: option.splits if_splits)

lemma set_key_spec:
  assumes "set_key lib type cs key s usage = (ret, s', usage')" "\<not> srtp_inited s"
  shows "usage' = usage + session_use (Some s')" "ret \<Longrightarrow> session_ready (Some s')"
proof -
  consider "srtp_ctx s \<noteq> None" | "srtp_ctx s = None" "fst (increment_libsrtp_usage_count_and_maybe_init lib usage)"
    | "srtp_ctx s = None" "\<not> fst (increment_libsrtp_usage_count_and_maybe_init lib usage)" by blast
  then have "usage' = usage + session_use (Some s') \<and> (ret \<longrightarrow> session_ready (Some s'))"
  proof cases
    case 2
    then have inc: "increment_libsrtp_usage_count_and_maybe_init lib usage = (True, usage + 1)"
      by (auto simp: increment_libsrtp_usage_count_and_maybe_init_def split: if_splits)
    obtain r s1 where d: "do_set_key lib type cs key (s\<lparr>srtp_inited := True\<rparr>) = (r, s1)" by fastforce
    have "ret = r" "s' = s1" "usage' = usage + 1" using assms(1) 2 inc d by (simp_all add: set_key_def)
    then show ?thesis using do_set_key_spec [OF d] by (simp add: session_use_def session_ready_def)
  qed (use assms in \<open>auto simp: set_key_def session_use_def increment_libsrtp_usage_count_and_maybe_init_def Let_def
      split: if_splits prod.splits\<close>)
  then show "usage' = usage + session_use (Some s')" "ret \<Longrightarrow> session_ready (Some s')" by auto
qed

lemma update_key_spec:
  assumes "update_key lib type cs key s = (ret, s')" "srtp_ctx s \<noteq> None" "srtp_inited s"
  shows "session_ready (Some s')" "session_use (Some s') = 1"
  using assms do_set_key_spec [of lib type cs key s ret s']
  by (cases ret; auto simp: update_key_def session_ready_def session_use_def)+

text \<open>
  Installing keys keeps the sessions in pairs and the usage counter balanced, and the transport is
  active afterwards exactly when it succeeded: \<open>installed t usage r\<close> for the result \<open>r\<close>
  of an installation from \<open>t\<close>.
\<close>

definition installed :: "('ctx, 'a) SrtpTransport_scheme \<Rightarrow> int \<Rightarrow> (bool \<times> ('ctx, 'a) SrtpTransport_scheme \<times> int) option \<Rightarrow> bool" where
  "installed t usage r = (case r of None \<Rightarrow> False
     | Some (ret, t', usage') \<Rightarrow> srtp_inv t' \<and> usage' - srtp_uses t' = usage - srtp_uses t \<and> ret = is_srtp_active t')"

lemma installed_reset:
  assumes "u - srtp_uses t1 = usage - srtp_uses t"
  shows "installed t usage (Some (False, reset_params t1 u))"
  using assms reset_params_spec [of t1 u] by (cases "reset_params t1 u") (simp add: installed_def)

lemma installed_active:
  assumes "session_ready (send_session t1)" "session_ready (recv_session t1)" "u - srtp_uses t1 = usage - srtp_uses t"
  shows "installed t usage (Some (True, t1, u))"
  using assms by (auto simp: installed_def srtp_inv_def is_srtp_active_def session_ready_def)

lemma installed_new:
  assumes "send_session t = None" "recv_session t = None"
  shows "installed t usage (set_rtp_params lib send_cs send_key recv_cs recv_key t usage)"
proof -
  obtain ret1 s1 u1 where k1: "set_send lib send_cs send_key new_SrtpSession usage = (ret1, s1, u1)" by (metis prod_cases3)
  obtain ret2 s2 u2 where k2: "set_recv lib recv_cs recv_key new_SrtpSession u1 = (ret2, s2, u2)" by (metis prod_cases3)
  have n: "\<not> srtp_inited (new_SrtpSession :: 'a SrtpSession)" by (simp add: new_SrtpSession_def)
  note spec = set_key_spec [OF k1 n] set_key_spec [OF k2 n]
  let ?t1 = "t\<lparr>recv_session := Some new_SrtpSession, send_session := Some s1\<rparr>"
  let ?t2 = "t\<lparr>send_session := Some s1, recv_session := Some s2\<rparr>"
  have base: "create_srtp_session t usage = (t\<lparr>send_session := Some new_SrtpSession, recv_session := Some new_SrtpSession\<rparr>, usage)"
    "srtp_uses t = 0"
    using assms by (simp_all add: create_srtp_session_def delete_session_def srtp_uses_def session_use_def)
  have uses: "srtp_uses ?t1 = session_use (Some s1)" "srtp_uses ?t2 = session_use (Some s1) + session_use (Some s2)"
    by (simp_all add: srtp_uses_def session_use_def new_SrtpSession_def)
  have b1: "installed t usage (Some (False, reset_params ?t1 u1))"
    by (rule installed_reset) (simp add: uses spec(1) base(2))
  have b2: "installed t usage (Some (False, reset_params ?t2 u2))"
    by (rule installed_reset) (simp add: uses spec(1,3) base(2))
  have b3: "ret1 \<Longrightarrow> ret2 \<Longrightarrow> installed t usage (Some (True, ?t2, u2))"
    by (rule installed_active) (use spec in \<open>simp_all add: uses base(2)\<close>)
  show ?thesis
    using b1 b2 b3 assms(1) base(1) k1 k2 by (cases ret1; cases ret2) (simp_all add: set_rtp_params_def Let_def)
qed

lemma installed_update:
  assumes "session_ready (send_session t)" "session_ready (recv_session t)"
  shows "installed t usage (set_rtp_params lib send_cs send_key recv_cs recv_key t usage)"
proof -
  obtain s r where sr: "send_session t = Some s" "recv_session t = Some r" "srtp_ctx s \<noteq> None" "srtp_inited s"
    "srtp_ctx r \<noteq> None" "srtp_inited r"
    using assms by (auto simp: session_ready_def)
  obtain ret1 s1 where k1: "update_send lib send_cs send_key s = (ret1, s1)" by fastforce
  obtain ret2 s2 where k2: "update_recv lib recv_cs recv_key r = (ret2, s2)" by fastforce
  note spec = update_key_spec [OF k1 sr(3,4)] update_key_spec [OF k2 sr(5,6)]
  let ?t1 = "t\<lparr>send_session := Some s1\<rparr>" and ?t2 = "t\<lparr>send_session := Some s1, recv_session := Some s2\<rparr>"
  have uses: "srtp_uses t = 2" "srtp_uses ?t1 = 2" "srtp_uses ?t2 = 2"
    using sr spec by (simp_all add: srtp_uses_def session_use_def)
  have b: "installed t usage (Some (False, reset_params ?t1 usage))"
    "installed t usage (Some (False, reset_params ?t2 usage))"
    "installed t usage (Some (True, ?t2, usage))"
    using spec by (auto intro!: installed_reset installed_active simp: uses)
  show ?thesis using b sr k1 k2 by (cases ret1; cases ret2) (simp_all add: set_rtp_params_def Let_def)
qed

lemma set_rtp_params_installed:
  "srtp_inv t \<Longrightarrow> installed t usage (set_rtp_params lib send_cs send_key recv_cs recv_key t usage)"
  using installed_new installed_update by (auto simp: srtp_inv_def)

lemma srtp_inv_session:
  assumes "srtp_inv t" "is_srtp_active t"
  obtains s r cs cr where "send_session t = Some s" "recv_session t = Some r" "srtp_ctx s = Some cs" "srtp_ctx r = Some cr"
    "srtp_inited s" "srtp_inited r"
  using assms by (auto simp: srtp_inv_def is_srtp_active_def session_ready_def)

text \<open>Packet operations change the contexts only.\<close>

lemma packet_ops_inv:
  assumes "srtp_inv t"
  shows "srtp_inv (snd (unprotect_rtp lib p t)) \<and> srtp_uses (snd (unprotect_rtp lib p t)) = srtp_uses t"
    "srtp_inv (snd (unprotect_rtcp lib p t)) \<and> srtp_uses (snd (unprotect_rtcp lib p t)) = srtp_uses t"
    "srtp_inv (snd (protect_rtp lib p m t)) \<and> srtp_uses (snd (protect_rtp lib p m t)) = srtp_uses t"
    "srtp_inv (snd (protect_rtcp lib p m t)) \<and> srtp_uses (snd (protect_rtcp lib p m t)) = srtp_uses t"
  using assms
  by (auto simp: srtp_inv_def session_ready_def unprotect_rtp_def unprotect_rtcp_def protect_rtp_def protect_rtcp_def
      session_unprotect_def session_protect_def srtp_uses_def session_use_def split: option.splits prod.splits)

lemma packet_ops_active [simp]:
  "is_srtp_active (snd (unprotect_rtp lib p t)) = is_srtp_active t"
  "is_srtp_active (snd (unprotect_rtcp lib p t)) = is_srtp_active t"
  "is_srtp_active (snd (protect_rtp lib p m t)) = is_srtp_active t"
  "is_srtp_active (snd (protect_rtcp lib p m t)) = is_srtp_active t"
  by (auto simp: is_srtp_active_def unprotect_rtp_def unprotect_rtcp_def protect_rtp_def protect_rtcp_def
      split: option.splits prod.splits)

end
