(* ===== verification/Dtls_Transport.thy ===== *)
theory Dtls_Transport
  imports Rtp_Utils Srtp
begin

text \<open>
  \<^verbatim>\<open>pc/dtls_transport.cpp\<close> and \<^verbatim>\<open>pc/dtls_srtp_transport.cpp\<close>: the
  DTLS transport of a media section and the SRTP transport that takes its keys from it.  The SSL
  stream adapter around OpenSSL is a parameter: what its functions return, and what it does with
  the stream below and the signals above whenever it runs, an arbitrary list of actions.  A signal
  is a direct call of the slot connected to it; signals that leave the two transports, and packets
  for the ICE channel, are appended to \<open>signals\<close>.  The result \<open>None\<close> is the use of
  a null or deleted object, or a read outside a packet.
\<close>

section \<open>The stream below the adapter\<close>

datatype StreamState = SS_CLOSED | SS_OPENING | SS_OPEN
datatype StreamResult = SR_ERROR int | SR_SUCCESS | SR_BLOCK | SR_EOS

definition k_max_dtls_packet_len :: nat where "k_max_dtls_packet_len = 2048"
definition k_max_pending_packets :: nat where "k_max_pending_packets = 2"

record StreamInterfaceChannel =
  sic_packets :: "bytes list"
  sic_state :: StreamState

definition new_StreamInterfaceChannel :: StreamInterfaceChannel where
  "new_StreamInterfaceChannel = \<lparr>sic_packets = [], sic_state = SS_OPEN\<rparr>"

text \<open>The buffer queue holds at most \<open>k_max_pending_packets\<close> packets; buffers are recycled.\<close>

definition WriteBack :: "bytes \<Rightarrow> bytes list \<Rightarrow> bool \<times> bytes list" where
  "WriteBack data q = (if length q = k_max_pending_packets then (False, q) else (True, q @ [data]))"

definition ReadFront :: "nat \<Rightarrow> bytes list \<Rightarrow> bytes option \<times> bytes list" where
  "ReadFront n q = (case q of [] \<Rightarrow> (None, []) | p # q \<Rightarrow> (Some (take n p), q))"

definition sic_Read :: "nat \<Rightarrow> StreamInterfaceChannel \<Rightarrow> StreamResult \<times> bytes \<times> StreamInterfaceChannel" where
  "sic_Read buffer_len s =
     (if sic_state s = SS_CLOSED then (SR_EOS, [], s)
      else if sic_state s = SS_OPENING then (SR_BLOCK, [], s)
      else (case ReadFront buffer_len (sic_packets s) of
              (None, q) \<Rightarrow> (SR_BLOCK, [], s\<lparr>sic_packets := q\<rparr>)
            | (Some p, q) \<Rightarrow> (SR_SUCCESS, p, s\<lparr>sic_packets := q\<rparr>)))"

definition sic_Close :: "StreamInterfaceChannel \<Rightarrow> StreamInterfaceChannel" where
  "sic_Close s = s\<lparr>sic_state := SS_CLOSED, sic_packets := []\<rparr>"

section \<open>State\<close>

datatype DtlsTransportState = k_dtls_new | k_dtls_connecting | k_dtls_connected | k_dtls_closed | k_dtls_failed

text \<open>
  \<open>ssl_adapter\<close> tells whether \<^verbatim>\<open>_dtls\<close> is set; \<open>downward\<close> is the object
  behind \<^verbatim>\<open>_downward\<close>, \<open>None\<close> before it exists and after the adapter that owns
  it was deleted.  Certificates are compared by pointer.
\<close>

record DtlsTransport =
  dtls_state :: DtlsTransportState
  dtls_receiving :: bool
  dtls_writable :: bool
  ssl_adapter :: bool
  downward :: "StreamInterfaceChannel option"
  cached_client_hello :: bytes
  local_certificate :: "nat option"
  remote_fingerprint_value :: bytes
  remote_fingerprint_alg :: bytes
  dtls_active :: bool
  srtp_ciphers :: "int list"

definition new_DtlsTransport :: "int list \<Rightarrow> DtlsTransport" where
  "new_DtlsTransport ciphers = \<lparr>dtls_state = k_dtls_new, dtls_receiving = False, dtls_writable = False,
     ssl_adapter = False, downward = None, cached_client_hello = [], local_certificate = None,
     remote_fingerprint_value = [], remote_fingerprint_alg = [], dtls_active = False, srtp_ciphers = ciphers\<rparr>"

record 'ctx DtlsSrtpTransport = "'ctx SrtpTransport" +
  unprotect_fail_count :: int
  last_send_seq_num :: u16

definition new_DtlsSrtpTransport :: "bool \<Rightarrow> 'ctx DtlsSrtpTransport" where
  "new_DtlsSrtpTransport mux = \<lparr>rtcp_mux_enabled = mux, send_session = None, recv_session = None,
     unprotect_fail_count = 0, last_send_seq_num = 0\<rparr>"

datatype media_signal =
    sig_dtls_state DtlsTransportState
  | sig_dtls_writable
  | sig_dtls_receiving
  | sig_closed
  | sig_rtp_packet bytes int
  | sig_rtcp_packet bytes int
  | sig_ice_send bytes

text \<open>
  The two transports of a media section with what they read elsewhere: the writability of their ICE
  channel and the usage counter of libsrtp.
\<close>

record 'ctx MediaTransport =
  dtls :: DtlsTransport
  dtls_srtp :: "'ctx DtlsSrtpTransport"
  ice_writable :: bool
  libsrtp_usage :: int
  signals :: "media_signal list"

definition raise :: "media_signal \<Rightarrow> 'ctx MediaTransport \<Rightarrow> 'ctx MediaTransport" where
  "raise s w = w\<lparr>signals := signals w @ [s]\<rparr>"

definition upd_dtls :: "(DtlsTransport \<Rightarrow> DtlsTransport) \<Rightarrow> 'ctx MediaTransport \<Rightarrow> 'ctx MediaTransport" where
  "upd_dtls f w = w\<lparr>dtls := f (dtls w)\<rparr>"

section \<open>The adapter\<close>

datatype ssl_action =
    ssl_Read nat
  | ssl_Write bytes
  | ssl_Close
  | ssl_SignalEvent int int "StreamResult list"

text \<open>
  What the adapter returns during one event.  \<open>on_data\<close> is what it does when the stream
  below signals data and \<open>on_start\<close> what it does in \<^verbatim>\<open>StartSSL\<close>.
  \<open>SetPeerCertificateDigest\<close> returns the error, if any, as whether it is a failed verification.
\<close>

record ssl_stream =
  SetPeerCertificateDigest :: "bytes \<Rightarrow> bytes \<Rightarrow> bool option"
  SetDtlsSrtpCryptoSuites :: "int list \<Rightarrow> bool"
  StartSSL :: int
  GetDtlsSrtpCryptoSuite :: "int option"
  ExportKeyingMaterial :: "bytes \<Rightarrow> nat \<Rightarrow> bytes option"
  on_data :: "ssl_action list"
  on_start :: "ssl_action list"

section \<open>SRTP keys\<close>

definition kSrtpAes128CmSha1_80 :: int where "kSrtpAes128CmSha1_80 = 1"
definition kSrtpAes128CmSha1_32 :: int where "kSrtpAes128CmSha1_32 = 2"
definition kSrtpAeadAes128Gcm :: int where "kSrtpAeadAes128Gcm = 7"
definition kSrtpAeadAes256Gcm :: int where "kSrtpAeadAes256Gcm = 8"

definition GetSrtpKeyAndSaltLengths :: "int \<Rightarrow> (nat \<times> nat) option" where
  "GetSrtpKeyAndSaltLengths crypto_suite =
     (if crypto_suite = kSrtpAes128CmSha1_32 \<or> crypto_suite = kSrtpAes128CmSha1_80 then Some (16, 14)
      else if crypto_suite = kSrtpAeadAes128Gcm then Some (16, 12)
      else if crypto_suite = kSrtpAeadAes256Gcm then Some (32, 12)
      else None)"

definition k_dtls_srtp_exporter_label :: bytes where
  "k_dtls_srtp_exporter_label = bytes_of ''EXTRACTOR-dtls_srtp''"

definition get_srtp_crypto_suite :: "ssl_stream \<Rightarrow> DtlsTransport \<Rightarrow> int option option" where
  "get_srtp_crypto_suite ssl d =
     (if dtls_state d \<noteq> k_dtls_connected then Some None
      else if \<not> ssl_adapter d then None
      else Some (GetDtlsSrtpCryptoSuite ssl))"

definition export_keying_material :: "ssl_stream \<Rightarrow> bytes \<Rightarrow> nat \<Rightarrow> DtlsTransport \<Rightarrow> bytes option" where
  "export_keying_material ssl label result_len d =
     (if ssl_adapter d then ExportKeyingMaterial ssl label result_len else None)"

text \<open>The suite, the key for sending and the key for receiving; the inner \<open>None\<close> is false.\<close>

definition extract_params :: "ssl_stream \<Rightarrow> DtlsTransport \<Rightarrow> (int \<times> bytes \<times> bytes) option option" where
  "extract_params ssl d =
     (if \<not> dtls_active d then Some None
      else do {
        suite \<leftarrow> get_srtp_crypto_suite ssl d;
        Some (do {
          selected_crypto_suite \<leftarrow> suite;
          (key_len, salt_len) \<leftarrow> GetSrtpKeyAndSaltLengths selected_crypto_suite;
          dtls_buffer \<leftarrow> export_keying_material ssl k_dtls_srtp_exporter_label (key_len * 2 + salt_len * 2) d;
          let client_write_key = take key_len dtls_buffer @ take salt_len (drop (key_len + key_len) dtls_buffer);
          let server_write_key = take key_len (drop key_len dtls_buffer)
            @ take salt_len (drop (key_len + key_len + salt_len) dtls_buffer);
          Some (selected_crypto_suite, server_write_key, client_write_key)
        })
      })"

definition setup_dtls_srtp :: "'ctx libsrtp \<Rightarrow> ssl_stream \<Rightarrow> 'ctx MediaTransport \<Rightarrow> 'ctx MediaTransport option" where
  "setup_dtls_srtp lib ssl w = do {
     params \<leftarrow> extract_params ssl (dtls w);
     (case params of None \<Rightarrow> Some w
      | Some (selected_crypto_suite, send_key, recv_key) \<Rightarrow> do {
          (_, t, usage) \<leftarrow> set_rtp_params lib selected_crypto_suite send_key selected_crypto_suite recv_key
            (dtls_srtp w) (libsrtp_usage w);
          Some (w\<lparr>dtls_srtp := t, libsrtp_usage := usage\<rparr>)
        })
   }"

text \<open>There is no separate transport for RTCP: the controller passes a null pointer for it.\<close>

definition is_dtls_writable :: "'ctx MediaTransport \<Rightarrow> bool" where
  "is_dtls_writable w \<longleftrightarrow> dtls_writable (dtls w)"

definition maybe_setup_dtls_srtp :: "'ctx libsrtp \<Rightarrow> ssl_stream \<Rightarrow> 'ctx MediaTransport \<Rightarrow> 'ctx MediaTransport option" where
  "maybe_setup_dtls_srtp lib ssl w =
     (if is_srtp_active (dtls_srtp w) \<or> \<not> is_dtls_writable w then Some w else setup_dtls_srtp lib ssl w)"

definition srtp_on_dtls_state :: "'ctx libsrtp \<Rightarrow> ssl_stream \<Rightarrow> DtlsTransportState \<Rightarrow> 'ctx MediaTransport
    \<Rightarrow> 'ctx MediaTransport option" where
  "srtp_on_dtls_state lib ssl state w =
     (if state \<noteq> k_dtls_connected
      then let (t, usage) = reset_params (dtls_srtp w) (libsrtp_usage w)
           in Some (w\<lparr>dtls_srtp := t, libsrtp_usage := usage\<rparr>)
      else maybe_setup_dtls_srtp lib ssl w)"

section \<open>The DTLS state\<close>

definition set_dtls_state :: "'ctx libsrtp \<Rightarrow> ssl_stream \<Rightarrow> DtlsTransportState \<Rightarrow> 'ctx MediaTransport
    \<Rightarrow> 'ctx MediaTransport option" where
  "set_dtls_state lib ssl state w =
     (if dtls_state (dtls w) = state then Some w
      else srtp_on_dtls_state lib ssl state (raise (sig_dtls_state state) (upd_dtls (dtls_state_update (\<lambda>_. state)) w)))"

definition set_writable_state :: "bool \<Rightarrow> 'ctx MediaTransport \<Rightarrow> 'ctx MediaTransport" where
  "set_writable_state writable w =
     (if dtls_writable (dtls w) = writable then w
      else raise sig_dtls_writable (upd_dtls (dtls_writable_update (\<lambda>_. writable)) w))"

definition dtls_set_receiving :: "bool \<Rightarrow> 'ctx MediaTransport \<Rightarrow> 'ctx MediaTransport" where
  "dtls_set_receiving receiving w =
     (if dtls_receiving (dtls w) = receiving then w
      else raise sig_dtls_receiving (upd_dtls (dtls_receiving_update (\<lambda>_. receiving)) w))"

section \<open>Events of the adapter\<close>

definition SE_OPEN :: int where "SE_OPEN = 1"
definition SE_READ :: int where "SE_READ = 2"
definition SE_CLOSE :: int where "SE_CLOSE = 8"

definition close_dtls :: "'ctx libsrtp \<Rightarrow> ssl_stream \<Rightarrow> DtlsTransportState \<Rightarrow> 'ctx MediaTransport
    \<Rightarrow> 'ctx MediaTransport option" where
  "close_dtls lib ssl state w = set_dtls_state lib ssl state (set_writable_state False w)"

text \<open>The loop over \<^verbatim>\<open>_dtls->Read\<close>, given the results of the calls; without a further
  result the adapter has nothing to read.\<close>

fun read_loop :: "'ctx libsrtp \<Rightarrow> ssl_stream \<Rightarrow> StreamResult list \<Rightarrow> 'ctx MediaTransport \<Rightarrow> 'ctx MediaTransport option" where
  "read_loop lib ssl [] w = Some w"
| "read_loop lib ssl (SR_SUCCESS # rs) w = read_loop lib ssl rs w"
| "read_loop lib ssl (SR_BLOCK # rs) w = Some w"
| "read_loop lib ssl (SR_EOS # rs) w = map_option (raise sig_closed) (close_dtls lib ssl k_dtls_closed w)"
| "read_loop lib ssl (SR_ERROR e # rs) w = map_option (raise sig_closed) (close_dtls lib ssl k_dtls_failed w)"

definition on_dtls_event :: "'ctx libsrtp \<Rightarrow> ssl_stream \<Rightarrow> int \<Rightarrow> int \<Rightarrow> StreamResult list \<Rightarrow> 'ctx MediaTransport
    \<Rightarrow> 'ctx MediaTransport option" where
  "on_dtls_event lib ssl sig error results w = do {
     w \<leftarrow> (if sig AND SE_OPEN \<noteq> 0 then set_dtls_state lib ssl k_dtls_connected (set_writable_state True w) else Some w);
     w \<leftarrow> (if sig AND SE_READ \<noteq> 0 then (if ssl_adapter (dtls w) then read_loop lib ssl results w else None) else Some w);
     if sig AND SE_CLOSE \<noteq> 0
     then (if error = 0 then close_dtls lib ssl k_dtls_closed w else close_dtls lib ssl k_dtls_failed w)
     else Some w
   }"

definition upd_downward :: "(StreamInterfaceChannel \<Rightarrow> StreamInterfaceChannel) \<Rightarrow> 'ctx MediaTransport
    \<Rightarrow> 'ctx MediaTransport option" where
  "upd_downward f w = (case downward (dtls w) of None \<Rightarrow> None
     | Some s \<Rightarrow> Some (upd_dtls (downward_update (\<lambda>_. Some (f s))) w))"

fun ssl_act :: "'ctx libsrtp \<Rightarrow> ssl_stream \<Rightarrow> ssl_action \<Rightarrow> 'ctx MediaTransport \<Rightarrow> 'ctx MediaTransport option" where
  "ssl_act lib ssl (ssl_Read n) w = upd_downward (\<lambda>s. snd (snd (sic_Read n s))) w"
| "ssl_act lib ssl (ssl_Write data) w = Some (raise (sig_ice_send data) w)"
| "ssl_act lib ssl ssl_Close w = upd_downward sic_Close w"
| "ssl_act lib ssl (ssl_SignalEvent sig error results) w = on_dtls_event lib ssl sig error results w"

fun ssl_run :: "'ctx libsrtp \<Rightarrow> ssl_stream \<Rightarrow> ssl_action list \<Rightarrow> 'ctx MediaTransport \<Rightarrow> 'ctx MediaTransport option" where
  "ssl_run lib ssl [] w = Some w"
| "ssl_run lib ssl (a # as) w = do { w \<leftarrow> ssl_act lib ssl a w; ssl_run lib ssl as w }"

section \<open>Packets\<close>

text \<open>The walk over the records of a datagram.\<close>

function walk_records :: "bytes \<Rightarrow> bool" where
  "walk_records tmp_data =
     (if tmp_data = [] then True
      else if length tmp_data < k_dtls_record_header_len then False
      else let record_len = unat (be16_join (tmp_data ! 11) (tmp_data ! 12))
           in if record_len + k_dtls_record_header_len > length tmp_data then False
              else walk_records (drop (k_dtls_record_header_len + record_len) tmp_data))"
  by auto
termination
  by (relation "measure length") (auto simp: k_dtls_record_header_len_def)

declare walk_records.simps [simp del]

text \<open>A full queue drops the datagram; the adapter is told to read either way.\<close>

definition on_received_packet :: "'ctx libsrtp \<Rightarrow> ssl_stream \<Rightarrow> bytes \<Rightarrow> 'ctx MediaTransport \<Rightarrow> 'ctx MediaTransport option" where
  "on_received_packet lib ssl data w = do {
     w \<leftarrow> upd_downward (\<lambda>s. s\<lparr>sic_packets := snd (WriteBack data (sic_packets s))\<rparr>) w;
     ssl_run lib ssl (on_data ssl) w
   }"

definition handle_dtls_packet :: "'ctx libsrtp \<Rightarrow> ssl_stream \<Rightarrow> bytes \<Rightarrow> 'ctx MediaTransport
    \<Rightarrow> (bool \<times> 'ctx MediaTransport) option" where
  "handle_dtls_packet lib ssl data w =
     (if walk_records data then map_option (Pair True) (on_received_packet lib ssl data w) else Some (False, w))"

text \<open>The greeting that arrived before DTLS was started.\<close>

definition deliver_client_hello :: "'ctx libsrtp \<Rightarrow> ssl_stream \<Rightarrow> 'ctx MediaTransport \<Rightarrow> 'ctx MediaTransport option" where
  "deliver_client_hello lib ssl w =
     (if cached_client_hello (dtls w) \<noteq> []
      then do {
        (ok, w) \<leftarrow> handle_dtls_packet lib ssl (cached_client_hello (dtls w)) w;
        w \<leftarrow> (if ok then Some w else set_dtls_state lib ssl k_dtls_failed w);
        Some (upd_dtls (cached_client_hello_update (\<lambda>_. [])) w)
      }
      else Some w)"

definition maybe_start_dtls :: "'ctx libsrtp \<Rightarrow> ssl_stream \<Rightarrow> 'ctx MediaTransport \<Rightarrow> 'ctx MediaTransport option" where
  "maybe_start_dtls lib ssl w =
     (if ssl_adapter (dtls w) \<and> ice_writable w
      then do {
        w \<leftarrow> ssl_run lib ssl (on_start ssl) w;
        if StartSSL ssl \<noteq> 0 then set_dtls_state lib ssl k_dtls_failed w
        else do {
          w \<leftarrow> set_dtls_state lib ssl k_dtls_connecting w;
          deliver_client_hello lib ssl w
        }
      }
      else Some w)"

text \<open>
  \<^verbatim>\<open>SSLStreamAdapter::Create\<close> always returns an adapter.  The result is the value
  returned and the new state.
\<close>

definition setup_dtls :: "'ctx libsrtp \<Rightarrow> ssl_stream \<Rightarrow> 'ctx MediaTransport \<Rightarrow> (bool \<times> 'ctx MediaTransport) option" where
  "setup_dtls lib ssl w = do {
     let w = upd_dtls (\<lambda>d. d\<lparr>ssl_adapter := True, downward := Some new_StreamInterfaceChannel\<rparr>) w;
     _ \<leftarrow> local_certificate (dtls w);
     if remote_fingerprint_value (dtls w) \<noteq> []
        \<and> SetPeerCertificateDigest ssl (remote_fingerprint_alg (dtls w)) (remote_fingerprint_value (dtls w)) \<noteq> None
     then Some (False, w)
     else if srtp_ciphers (dtls w) \<noteq> [] \<and> \<not> SetDtlsSrtpCryptoSuites ssl (srtp_ciphers (dtls w))
     then Some (False, w)
     else map_option (Pair True) (maybe_start_dtls lib ssl w)
   }"

section \<open>Media packets\<close>

definition on_rtp_packet_received :: "'ctx libsrtp \<Rightarrow> bytes \<Rightarrow> int \<Rightarrow> 'ctx MediaTransport \<Rightarrow> 'ctx MediaTransport option" where
  "on_rtp_packet_received lib packet ts w =
     (if \<not> is_srtp_active (dtls_srtp w) then Some w
      else let (out, t) = unprotect_rtp lib packet (dtls_srtp w)
           in (case out of
                 None \<Rightarrow> do {
                   _ \<leftarrow> (if c_mod (unprotect_fail_count t) 100 = 0
                         then do { _ \<leftarrow> parse_rtp_sequence_number packet; parse_rtp_ssrc packet } else Some 0);
                   Some (w\<lparr>dtls_srtp := t\<lparr>unprotect_fail_count := c_int (unprotect_fail_count t + 1)\<rparr>\<rparr>)
                 }
               | Some p \<Rightarrow> Some (raise (sig_rtp_packet p ts) (w\<lparr>dtls_srtp := t\<rparr>))))"

definition on_rtcp_packet_received :: "'ctx libsrtp \<Rightarrow> bytes \<Rightarrow> int \<Rightarrow> 'ctx MediaTransport \<Rightarrow> 'ctx MediaTransport" where
  "on_rtcp_packet_received lib packet ts w =
     (if \<not> is_srtp_active (dtls_srtp w) then w
      else let (out, t) = unprotect_rtcp lib packet (dtls_srtp w)
           in (case out of None \<Rightarrow> w\<lparr>dtls_srtp := t\<rparr>
               | Some p \<Rightarrow> raise (sig_rtcp_packet p ts) (w\<lparr>dtls_srtp := t\<rparr>)))"

definition srtp_on_read_packet :: "'ctx libsrtp \<Rightarrow> bytes \<Rightarrow> int \<Rightarrow> 'ctx MediaTransport \<Rightarrow> 'ctx MediaTransport option" where
  "srtp_on_read_packet lib data ts w = do {
     packet_type \<leftarrow> infer_rtp_packet_type data;
     (case packet_type of k_unknown \<Rightarrow> Some w
      | k_rtcp \<Rightarrow> Some (on_rtcp_packet_received lib data ts w)
      | k_rtp \<Rightarrow> on_rtp_packet_received lib data ts w)
   }"

definition dtls_on_read_packet :: "'ctx libsrtp \<Rightarrow> ssl_stream \<Rightarrow> bytes \<Rightarrow> int \<Rightarrow> 'ctx MediaTransport
    \<Rightarrow> 'ctx MediaTransport option" where
  "dtls_on_read_packet lib ssl buf ts w =
     (if dtls_state (dtls w) = k_dtls_new
      then do {
        hello \<leftarrow> is_dtls_client_hello_packet buf;
        if hello
        then let w = upd_dtls (cached_client_hello_update (\<lambda>_. buf)) w
             in if \<not> ssl_adapter (dtls w) \<and> local_certificate (dtls w) \<noteq> None
                then map_option snd (setup_dtls lib ssl w) else Some w
        else Some w
      }
      else if dtls_state (dtls w) = k_dtls_connecting \<or> dtls_state (dtls w) = k_dtls_connected
      then do {
        is_dtls \<leftarrow> is_dtls_packet buf;
        if is_dtls then map_option snd (handle_dtls_packet lib ssl buf w)
        else if dtls_state (dtls w) \<noteq> k_dtls_connected then Some w
        else do {
          rtp \<leftarrow> dtls_is_rtp_packet buf;
          if \<not> rtp then Some w else srtp_on_read_packet lib buf ts w
        }
      }
      else Some w)"

definition dtls_on_writable_state :: "'ctx libsrtp \<Rightarrow> ssl_stream \<Rightarrow> 'ctx MediaTransport \<Rightarrow> 'ctx MediaTransport option" where
  "dtls_on_writable_state lib ssl w =
     (if \<not> dtls_active (dtls w) then Some (set_writable_state (ice_writable w) w)
      else (case dtls_state (dtls w) of
              k_dtls_new \<Rightarrow> maybe_start_dtls lib ssl w
            | k_dtls_connected \<Rightarrow> Some (set_writable_state (ice_writable w) w)
            | _ \<Rightarrow> Some w))"

section \<open>Configuration\<close>

definition set_local_certificate :: "nat option \<Rightarrow> 'ctx MediaTransport \<Rightarrow> bool \<times> 'ctx MediaTransport" where
  "set_local_certificate cert w =
     (if dtls_active (dtls w) then (cert = local_certificate (dtls w), w)
      else (True, if cert \<noteq> None then upd_dtls (\<lambda>d. d\<lparr>local_certificate := cert, dtls_active := True\<rparr>) w else w))"

definition set_remote_fingerprint :: "'ctx libsrtp \<Rightarrow> ssl_stream \<Rightarrow> bytes \<Rightarrow> bytes \<Rightarrow> 'ctx MediaTransport
    \<Rightarrow> (bool \<times> 'ctx MediaTransport) option" where
  "set_remote_fingerprint lib ssl digest_alg digest w =
     (if dtls_active (dtls w) \<and> remote_fingerprint_value (dtls w) = digest \<and> digest_alg \<noteq> [] then Some (True, w)
      else if digest_alg = [] then Some (False, upd_dtls (dtls_active_update (\<lambda>_. False)) w)
      else if \<not> dtls_active (dtls w) then Some (False, w)
      else let fingerprint_change = (remote_fingerprint_value (dtls w) \<noteq> []);
               w = upd_dtls (\<lambda>d. d\<lparr>remote_fingerprint_value := digest, remote_fingerprint_alg := digest_alg\<rparr>) w
           in if ssl_adapter (dtls w) \<and> \<not> fingerprint_change
              then (case SetPeerCertificateDigest ssl digest_alg digest of
                      None \<Rightarrow> Some (True, w)
                    | Some verification_failed \<Rightarrow>
                        map_option (Pair verification_failed) (set_dtls_state lib ssl k_dtls_failed w))
              else do {
                w \<leftarrow> (if ssl_adapter (dtls w)
                      then map_option (set_writable_state False)
                        (set_dtls_state lib ssl k_dtls_new (upd_dtls (\<lambda>d. d\<lparr>ssl_adapter := False, downward := None\<rparr>) w))
                      else Some w);
                (ok, w) \<leftarrow> setup_dtls lib ssl w;
                if ok then Some (True, w)
                else map_option (Pair False) (set_dtls_state lib ssl k_dtls_failed w)
              })"

section \<open>Sending\<close>

definition srtp_send_rtp :: "'ctx libsrtp \<Rightarrow> bytes \<Rightarrow> 'ctx MediaTransport \<Rightarrow> (bool \<times> 'ctx MediaTransport) option" where
  "srtp_send_rtp lib buf w =
     (if \<not> is_srtp_active (dtls_srtp w) then Some (False, w)
      else do {
        let (rtp_auth_tag_len, _) = get_send_auth_tag_len (dtls_srtp w);
        seq_num \<leftarrow> parse_rtp_sequence_number buf;
        let (out, t) = protect_rtp lib buf (int (length buf) + rtp_auth_tag_len) (dtls_srtp w);
        (case out of None \<Rightarrow> do { _ \<leftarrow> parse_rtp_ssrc buf; Some (False, w\<lparr>dtls_srtp := t\<rparr>) }
         | Some p \<Rightarrow> Some (True, raise (sig_ice_send p) (w\<lparr>dtls_srtp := t\<lparr>last_send_seq_num := seq_num\<rparr>\<rparr>)))
      })"

definition srtp_send_rtcp :: "'ctx libsrtp \<Rightarrow> bytes \<Rightarrow> 'ctx MediaTransport \<Rightarrow> bool \<times> 'ctx MediaTransport" where
  "srtp_send_rtcp lib buf w =
     (if \<not> is_srtp_active (dtls_srtp w) then (False, w)
      else let (_, rtcp_auth_tag_len) = get_send_auth_tag_len (dtls_srtp w);
               (out, t) = protect_rtcp lib buf (int (length buf) + rtcp_auth_tag_len + 4) (dtls_srtp w)
           in (case out of None \<Rightarrow> (False, w\<lparr>dtls_srtp := t\<rparr>)
               | Some p \<Rightarrow> (True, raise (sig_ice_send p) (w\<lparr>dtls_srtp := t\<rparr>))))"

definition new_MediaTransport :: "int list \<Rightarrow> bool \<Rightarrow> bool \<Rightarrow> int \<Rightarrow> 'ctx MediaTransport" where
  "new_MediaTransport ciphers mux writable usage = \<lparr>dtls = new_DtlsTransport ciphers,
     dtls_srtp = new_DtlsSrtpTransport mux, ice_writable = writable, libsrtp_usage = usage, signals = []\<rparr>"

end
