(* ===== verification/Dtls_Safety.thy ===== *)
theory Dtls_Safety
  imports Dtls_Transport
begin

text \<open>
  The DTLS and SRTP transports under every sequence of events: no null or deleted object is used,
  and SRTP is active only while DTLS is connected.  The adapter may do anything at any time.
\<close>

section \<open>Events\<close>

datatype media_input =
    in_ice_packet bytes int
  | in_ice_writable bool
  | in_ice_receiving bool
  | in_ssl "ssl_action list"
  | in_local_certificate "nat option"
  | in_remote_fingerprint bytes bytes
  | in_send_rtp bytes
  | in_send_rtcp bytes

fun media_run :: "'ctx libsrtp \<Rightarrow> ssl_stream \<Rightarrow> media_input \<Rightarrow> 'ctx MediaTransport \<Rightarrow> 'ctx MediaTransport option" where
  "media_run lib ssl (in_ice_packet buf ts) w = dtls_on_read_packet lib ssl buf ts w"
| "media_run lib ssl (in_ice_writable b) w = dtls_on_writable_state lib ssl (w\<lparr>ice_writable := b\<rparr>)"
| "media_run lib ssl (in_ice_receiving b) w = Some (dtls_set_receiving b w)"
| "media_run lib ssl (in_ssl as) w = ssl_run lib ssl as w"
| "media_run lib ssl (in_local_certificate c) w = Some (snd (set_local_certificate c w))"
| "media_run lib ssl (in_remote_fingerprint alg digest) w = map_option snd (set_remote_fingerprint lib ssl alg digest w)"
| "media_run lib ssl (in_send_rtp buf) w = map_option snd (srtp_send_rtp lib buf w)"
| "media_run lib ssl (in_send_rtcp buf) w = Some (snd (srtp_send_rtcp lib buf w))"

text \<open>
  An adapter that acts on its own (a retransmission timer) exists; packets to send have an RTP
  header, as every packet that was received has.
\<close>

definition media_enabled :: "media_input \<Rightarrow> 'ctx MediaTransport \<Rightarrow> bool" where
  "media_enabled i w = (case i of in_ssl _ \<Rightarrow> ssl_adapter (dtls w) | in_send_rtp buf \<Rightarrow> 12 \<le> length buf | _ \<Rightarrow> True)"

inductive media_reach :: "'ctx libsrtp \<Rightarrow> int \<Rightarrow> 'ctx MediaTransport \<Rightarrow> bool" for lib usage where
  init: "media_reach lib usage (new_MediaTransport ciphers mux writable usage)"
| step: "media_reach lib usage w \<Longrightarrow> media_enabled i w \<Longrightarrow> media_run lib ssl i w = Some w' \<Longrightarrow> media_reach lib usage w'"

section \<open>The invariant\<close>

text \<open>The media packets among the signals, those for the peer connection.\<close>

fun is_media_signal :: "media_signal \<Rightarrow> bool" where
  "is_media_signal (sig_rtp_packet p ts) = True"
| "is_media_signal (sig_rtcp_packet p ts) = True"
| "is_media_signal _ = False"

definition media_out :: "'ctx MediaTransport \<Rightarrow> media_signal list" where
  "media_out w = filter is_media_signal (signals w)"

definition dtls_ok :: "DtlsTransport \<Rightarrow> bool" where
  "dtls_ok d \<longleftrightarrow> (ssl_adapter d \<longleftrightarrow> downward d \<noteq> None)
     \<and> (dtls_active d \<or> ssl_adapter d \<longrightarrow> local_certificate d \<noteq> None)
     \<and> (\<forall>s. downward d = Some s \<longrightarrow> length (sic_packets s) \<le> k_max_pending_packets)"

definition srtp_ok :: "int \<Rightarrow> 'ctx MediaTransport \<Rightarrow> bool" where
  "srtp_ok usage w \<longleftrightarrow> srtp_inv (dtls_srtp w) \<and> libsrtp_usage w - srtp_uses (dtls_srtp w) = usage"

definition media_inv :: "int \<Rightarrow> 'ctx MediaTransport \<Rightarrow> bool" where
  "media_inv usage w \<longleftrightarrow> dtls_ok (dtls w) \<and> srtp_ok usage w
     \<and> (dtls_state (dtls w) = k_dtls_connecting \<or> dtls_state (dtls w) = k_dtls_connected \<longrightarrow> ssl_adapter (dtls w))
     \<and> (is_srtp_active (dtls_srtp w) \<longrightarrow> dtls_state (dtls w) = k_dtls_connected)"

lemmas inv_defs = media_inv_def dtls_ok_def srtp_ok_def

lemma world_simps [simp]:
  "dtls (raise s w) = dtls w" "dtls_srtp (raise s w) = dtls_srtp w" "ice_writable (raise s w) = ice_writable w"
  "libsrtp_usage (raise s w) = libsrtp_usage w"
  "dtls (upd_dtls f w) = f (dtls w)" "dtls_srtp (upd_dtls f w) = dtls_srtp w" "ice_writable (upd_dtls f w) = ice_writable w"
  "libsrtp_usage (upd_dtls f w) = libsrtp_usage w" "signals (upd_dtls f w) = signals w"
  "media_out (upd_dtls f w) = media_out w" "media_out (raise s w) = media_out w @ (if is_media_signal s then [s] else [])"
  "media_out (w\<lparr>dtls_srtp := t\<rparr>) = media_out w" "media_out (w\<lparr>libsrtp_usage := n\<rparr>) = media_out w"
  "media_out (w\<lparr>ice_writable := b\<rparr>) = media_out w"
  by (simp_all add: raise_def upd_dtls_def media_out_def)

lemma media_inv_raise [simp]: "media_inv u (raise s w) = media_inv u w"
  by (simp add: inv_defs)

lemma dtls_ok_state [simp]:
  "dtls_ok (d\<lparr>dtls_state := st\<rparr>) = dtls_ok d" "dtls_ok (d\<lparr>dtls_writable := b\<rparr>) = dtls_ok d"
  "dtls_ok (d\<lparr>dtls_receiving := b\<rparr>) = dtls_ok d" "dtls_ok (d\<lparr>cached_client_hello := h\<rparr>) = dtls_ok d"
  "dtls_ok (d\<lparr>remote_fingerprint_value := v, remote_fingerprint_alg := a\<rparr>) = dtls_ok d"
  by (simp_all add: dtls_ok_def)

lemma set_writable_inv [simp]: "media_inv u (set_writable_state b w) = media_inv u w"
  by (simp add: set_writable_state_def inv_defs)

lemma set_writable_simps [simp]:
  "ssl_adapter (dtls (set_writable_state b w)) = ssl_adapter (dtls w)" "ice_writable (set_writable_state b w) = ice_writable w"
  "dtls_state (dtls (set_writable_state b w)) = dtls_state (dtls w)" "dtls_ok (dtls (set_writable_state b w)) = dtls_ok (dtls w)"
  "dtls_srtp (set_writable_state b w) = dtls_srtp w" "dtls_writable (dtls (set_writable_state b w)) = b"
  "libsrtp_usage (set_writable_state b w) = libsrtp_usage w" "srtp_ok u (set_writable_state b w) = srtp_ok u w"
  "media_out (set_writable_state b w) = media_out w"
  by (simp_all add: set_writable_state_def srtp_ok_def)

section \<open>Changes of the DTLS state\<close>

lemma setup_dtls_srtp_safe:
  assumes "srtp_ok u w" "dtls_state (dtls w) = k_dtls_connected \<longrightarrow> ssl_adapter (dtls w)"
  shows "safely (\<lambda>w'. srtp_ok u w' \<and> dtls w' = dtls w \<and> ice_writable w' = ice_writable w \<and> media_out w' = media_out w)
    (setup_dtls_srtp lib ssl w)"
proof -
  obtain suite where "get_srtp_crypto_suite ssl (dtls w) = Some suite"
    using assms(2) by (cases "dtls_state (dtls w) = k_dtls_connected") (auto simp: get_srtp_crypto_suite_def)
  then obtain ps where ps: "extract_params ssl (dtls w) = Some ps"
    by (cases "dtls_active (dtls w)") (simp_all add: extract_params_def)
  show ?thesis
  proof (cases ps)
    case None
    then show ?thesis using ps assms(1) by (simp add: setup_dtls_srtp_def)
  next
    case (Some q)
    obtain cs k1 k2 where q: "q = (cs, k1, k2)" by (cases q)
    have "installed (dtls_srtp w) (libsrtp_usage w) (set_rtp_params lib cs k1 cs k2 (dtls_srtp w) (libsrtp_usage w))"
      using assms(1) by (intro set_rtp_params_installed) (simp add: srtp_ok_def)
    then show ?thesis using ps Some q assms(1)
      by (auto simp: setup_dtls_srtp_def installed_def srtp_ok_def split: option.splits)
  qed
qed

lemma set_dtls_state_safe:
  assumes "dtls_ok (dtls w)" "srtp_ok u w" "st = k_dtls_connecting \<or> st = k_dtls_connected \<longrightarrow> ssl_adapter (dtls w)"
    "dtls_state (dtls w) = st \<longrightarrow> media_inv u w"
  shows "safely (\<lambda>w'. media_inv u w' \<and> dtls w' = (dtls w)\<lparr>dtls_state := st\<rparr> \<and> ice_writable w' = ice_writable w
    \<and> media_out w' = media_out w) (set_dtls_state lib ssl st w)"
proof (cases "dtls_state (dtls w) = st")
  case True
  then show ?thesis using assms(4) by (auto simp: set_dtls_state_def)
next
  case False
  let ?w = "raise (sig_dtls_state st) (upd_dtls (dtls_state_update (\<lambda>_. st)) w)"
  have ok: "srtp_ok u ?w" using assms(2) by (simp add: srtp_ok_def)
  show ?thesis
  proof (cases "st = k_dtls_connected")
    case True
    have "safely (\<lambda>w'. srtp_ok u w' \<and> dtls w' = dtls ?w \<and> ice_writable w' = ice_writable ?w \<and> media_out w' = media_out ?w) (maybe_setup_dtls_srtp lib ssl ?w)"
      using setup_dtls_srtp_safe [OF ok] assms(3) True ok by (auto simp: maybe_setup_dtls_srtp_def)
    then show ?thesis using False True assms(1,3)
      by (auto simp: set_dtls_state_def srtp_on_dtls_state_def media_inv_def elim!: safely_mono)
  next
    case False
    obtain t v where r: "reset_params (dtls_srtp ?w) (libsrtp_usage ?w) = (t, v)" by fastforce
    show ?thesis using \<open>dtls_state (dtls w) \<noteq> st\<close> False r reset_params_spec [OF r] assms(1-3)
      by (auto simp: set_dtls_state_def srtp_on_dtls_state_def media_inv_def srtp_ok_def)
  qed
qed

text \<open>What every part of an event keeps.\<close>

definition media_good :: "int \<Rightarrow> 'ctx MediaTransport \<Rightarrow> 'ctx MediaTransport \<Rightarrow> bool" where
  "media_good u w w' \<longleftrightarrow> media_inv u w' \<and> ssl_adapter (dtls w') = ssl_adapter (dtls w)
     \<and> cached_client_hello (dtls w') = cached_client_hello (dtls w) \<and> ice_writable w' = ice_writable w
     \<and> media_out w' = media_out w"

lemma media_good_refl: "media_inv u w \<Longrightarrow> media_good u w w"
  by (simp add: media_good_def)

lemma media_good_trans: "media_good u w w' \<Longrightarrow> media_good u w' w'' \<Longrightarrow> media_good u w w''"
  by (simp add: media_good_def)

lemma media_goodD:
  "media_good u w w' \<Longrightarrow> media_inv u w'" "media_good u w w' \<Longrightarrow> ssl_adapter (dtls w') = ssl_adapter (dtls w)"
  "media_good u w w' \<Longrightarrow> media_out w' = media_out w"
  by (simp_all add: media_good_def)

lemma good_bind:
  "safely (media_good u w) r \<Longrightarrow> (\<And>x. media_good u w x \<Longrightarrow> safely (media_good u x) (f x)) \<Longrightarrow> safely (media_good u w) (r \<bind> f)"
  by (rule safely_bind, assumption) (auto intro: safely_mono media_good_trans)

lemma set_dtls_state_good:
  assumes "media_inv u w" "st = k_dtls_connecting \<or> st = k_dtls_connected \<longrightarrow> ssl_adapter (dtls w)"
  shows "safely (media_good u w) (set_dtls_state lib ssl st w)"
proof (rule safely_mono [OF set_dtls_state_safe [of w u st]])
  show "dtls_ok (dtls w)" "srtp_ok u w" using assms(1) by (simp_all add: media_inv_def)
qed (use assms in \<open>auto simp: media_good_def\<close>)

lemma set_writable_good: "media_inv u w \<Longrightarrow> media_good u w (set_writable_state b w)"
  by (simp add: media_good_def) (simp add: set_writable_state_def)

lemma close_dtls_good:
  assumes "media_inv u w" "st \<noteq> k_dtls_connecting" "st \<noteq> k_dtls_connected"
  shows "safely (media_good u w) (close_dtls lib ssl st w)"
  unfolding close_dtls_def using assms set_writable_good [OF assms(1), of False]
  by (auto intro: safely_mono [OF set_dtls_state_good] media_good_trans)

lemma read_loop_good: "media_inv u w \<Longrightarrow> safely (media_good u w) (read_loop lib ssl rs w)"
proof (induction lib ssl rs w rule: read_loop.induct)
qed (auto intro: media_good_refl safely_mono [OF close_dtls_good] simp: media_good_def)

lemma on_dtls_event_good:
  assumes "media_inv u w" "ssl_adapter (dtls w)"
  shows "safely (media_good u w) (on_dtls_event lib ssl sig error results w)"
  unfolding on_dtls_event_def
proof (rule good_bind)
  show "safely (media_good u w) (if sig AND SE_OPEN \<noteq> 0 then set_dtls_state lib ssl k_dtls_connected (set_writable_state True w) else Some w)"
    using assms set_writable_good [OF assms(1), of True]
    by (auto intro: media_good_refl safely_mono [OF set_dtls_state_good] media_good_trans)
next
  fix w1 assume w1: "media_good u w w1"
  then have a: "ssl_adapter (dtls w1)" "media_inv u w1" using assms(2) by (simp_all add: media_good_def)
  show "safely (media_good u w1) ((if sig AND SE_READ \<noteq> 0 then if ssl_adapter (dtls w1) then read_loop lib ssl results w1 else None
      else Some w1) \<bind> (\<lambda>w. if sig AND SE_CLOSE \<noteq> 0 then if error = 0 then close_dtls lib ssl k_dtls_closed w
      else close_dtls lib ssl k_dtls_failed w else Some w))"
    by (rule good_bind) (use a in \<open>auto intro: media_good_refl read_loop_good close_dtls_good media_goodD(1)\<close>)
qed

lemma upd_downward_good:
  assumes "media_inv u w" "ssl_adapter (dtls w)"
    "\<And>s. length (sic_packets s) \<le> k_max_pending_packets \<Longrightarrow> length (sic_packets (f s)) \<le> k_max_pending_packets"
  shows "safely (media_good u w) (upd_downward f w)"
proof -
  obtain s where s: "downward (dtls w) = Some s" using assms(1,2) by (auto simp: inv_defs)
  then show ?thesis using assms(1) assms(3) [of s]
    by (auto simp: upd_downward_def media_good_def inv_defs)
qed

lemma ssl_act_good:
  assumes "media_inv u w" "ssl_adapter (dtls w)"
  shows "safely (media_good u w) (ssl_act lib ssl a w)"
proof (cases a)
  case (ssl_Read n)
  have "length (sic_packets (snd (snd (sic_Read n s)))) \<le> length (sic_packets s)" for s
    by (simp add: sic_Read_def ReadFront_def split: list.split)
  then show ?thesis using assms ssl_Read by (auto intro!: upd_downward_good intro: order_trans)
next
  case ssl_Close
  then show ?thesis using assms by (auto intro!: upd_downward_good simp: sic_Close_def)
qed (use assms on_dtls_event_good in \<open>auto simp: media_good_def\<close>)

lemma ssl_run_good:
  "media_inv u w \<Longrightarrow> ssl_adapter (dtls w) \<Longrightarrow> safely (media_good u w) (ssl_run lib ssl as w)"
proof (induction "as" arbitrary: w)
  case (Cons a "as")
  show ?case unfolding ssl_run.simps
    by (rule good_bind [OF ssl_act_good [OF Cons.prems]]) (use Cons.IH Cons.prems media_goodD in blast)
qed (simp add: media_good_refl)

section \<open>Packets and configuration\<close>

lemma on_received_packet_good:
  assumes "media_inv u w" "ssl_adapter (dtls w)"
  shows "safely (media_good u w) (on_received_packet lib ssl data w)"
  unfolding on_received_packet_def
proof (rule good_bind)
  show "safely (media_good u w) (upd_downward (\<lambda>s. s\<lparr>sic_packets := snd (WriteBack data (sic_packets s))\<rparr>) w)"
    by (rule upd_downward_good [OF assms]) (auto simp: WriteBack_def)
qed (use assms(2) media_goodD ssl_run_good in blast)

lemma handle_dtls_packet_good:
  assumes "media_inv u w" "ssl_adapter (dtls w)"
  shows "safely (\<lambda>(ok, w'). media_good u w w') (handle_dtls_packet lib ssl data w)"
  using on_received_packet_good [OF assms] assms(1) by (auto simp: handle_dtls_packet_def media_good_refl)

text \<open>The weaker promise of events that consume the cached greeting.\<close>

definition media_fine :: "int \<Rightarrow> 'ctx MediaTransport \<Rightarrow> 'ctx MediaTransport \<Rightarrow> bool" where
  "media_fine u w w' \<longleftrightarrow> media_inv u w' \<and> ssl_adapter (dtls w') = ssl_adapter (dtls w) \<and> media_out w' = media_out w"

lemma good_fine: "media_good u w w' \<Longrightarrow> media_fine u w w'"
  by (simp add: media_good_def media_fine_def)

lemma good_fine_trans: "media_good u w w' \<Longrightarrow> media_fine u w' w'' \<Longrightarrow> media_fine u w w''"
  by (simp add: media_good_def media_fine_def)

lemma fine_bind:
  "safely (media_good u w) r \<Longrightarrow> (\<And>x. media_good u w x \<Longrightarrow> safely (media_fine u x) (f x)) \<Longrightarrow> safely (media_fine u w) (r \<bind> f)"
  by (rule safely_bind, assumption) (auto intro: safely_mono good_fine_trans)

lemma set_failed_good: "media_inv u w \<Longrightarrow> safely (media_good u w) (set_dtls_state lib ssl k_dtls_failed w)"
  by (rule set_dtls_state_good) simp_all

lemma deliver_client_hello_fine:
  assumes "media_inv u w" "ssl_adapter (dtls w)"
  shows "safely (media_fine u w) (deliver_client_hello lib ssl w)"
proof -
  have cleared: "media_fine u w1 (upd_dtls (cached_client_hello_update (\<lambda>_. [])) w1)" if "media_inv u w1" for w1 :: "'a MediaTransport"
    using that by (simp add: media_fine_def media_inv_def srtp_ok_def)
  have "safely (media_good u w) (if ok then Some w1 else set_dtls_state lib ssl k_dtls_failed w1)" if "media_good u w w1" for ok w1
    using that set_failed_good [OF media_goodD(1) [OF that]] by (auto intro: safely_mono media_good_trans)
  then have "safely (media_fine u w) (handle_dtls_packet lib ssl h w \<bind> (\<lambda>(ok, w). (if ok then Some w
      else set_dtls_state lib ssl k_dtls_failed w) \<bind> (\<lambda>w. Some (upd_dtls (cached_client_hello_update (\<lambda>_. [])) w))))" for h
    by (intro safely_bind [OF handle_dtls_packet_good [OF assms]])
      (auto intro!: fine_bind simp: cleared media_goodD)
  then show ?thesis using assms(1) by (simp add: deliver_client_hello_def media_fine_def)
qed

lemma maybe_start_dtls_fine:
  assumes "media_inv u w" shows "safely (media_fine u w) (maybe_start_dtls lib ssl w)"
proof (cases "ssl_adapter (dtls w) \<and> ice_writable w")
  case True
  have "safely (media_fine u w1) (if StartSSL ssl \<noteq> 0 then set_dtls_state lib ssl k_dtls_failed w1
      else set_dtls_state lib ssl k_dtls_connecting w1 \<bind> deliver_client_hello lib ssl)" if "media_good u w w1" for w1
  proof (rule safely_if)
    have i1: "media_inv u w1" "ssl_adapter (dtls w1)" using that True by (simp_all add: media_good_def)
    show "safely (media_fine u w1) (set_dtls_state lib ssl k_dtls_failed w1)"
      using set_failed_good [OF i1(1)] good_fine by (rule safely_mono)
    have "safely (media_fine u x) (deliver_client_hello lib ssl x)" if "media_good u w1 x" for x
      by (rule deliver_client_hello_fine) (use i1(2) media_goodD [OF that] in simp_all)
    with i1(2) show "safely (media_fine u w1) (set_dtls_state lib ssl k_dtls_connecting w1 \<bind> deliver_client_hello lib ssl)"
      by (intro fine_bind [OF set_dtls_state_good [OF i1(1)]]) simp_all
  qed
  then show ?thesis
    unfolding maybe_start_dtls_def if_P [OF True] using assms True by (intro fine_bind ssl_run_good) auto
qed (use assms in \<open>auto simp: maybe_start_dtls_def media_fine_def\<close>)

lemma setup_dtls_fine:
  assumes "media_inv u w" "local_certificate (dtls w) \<noteq> None"
  shows "safely (\<lambda>(ok, w'). media_inv u w' \<and> ssl_adapter (dtls w') \<and> media_out w' = media_out w) (setup_dtls lib ssl w)"
proof -
  let ?w = "upd_dtls (\<lambda>d. d\<lparr>ssl_adapter := True, downward := Some new_StreamInterfaceChannel\<rparr>) w"
  have i: "media_inv u ?w" "ssl_adapter (dtls ?w)"
    using assms by (auto simp: inv_defs new_StreamInterfaceChannel_def)
  obtain c where "local_certificate (dtls w) = Some c" using assms(2) by blast
  moreover have "safely (\<lambda>w'. media_inv u w' \<and> ssl_adapter (dtls w') \<and> media_out w' = media_out w) (maybe_start_dtls lib ssl ?w)"
    using i(2) by (intro safely_mono [OF maybe_start_dtls_fine [OF i(1)]]) (simp add: media_fine_def)
  ultimately show ?thesis using i by (simp add: setup_dtls_def Let_def)
qed

lemma media_inv_srtp:
  assumes "media_inv u w" "srtp_inv t" "srtp_uses t = srtp_uses (dtls_srtp w)" "is_srtp_active t = is_srtp_active (dtls_srtp w)"
  shows "media_inv u (w\<lparr>dtls_srtp := t\<rparr>)"
  using assms by (simp add: media_inv_def srtp_ok_def)

lemma counter_simps [simp]:
  "srtp_inv (t\<lparr>unprotect_fail_count := n\<rparr>) = srtp_inv t" "srtp_uses (t\<lparr>unprotect_fail_count := n\<rparr>) = srtp_uses t"
  "is_srtp_active (t\<lparr>unprotect_fail_count := n\<rparr>) = is_srtp_active t" "srtp_inv (t\<lparr>last_send_seq_num := m\<rparr>) = srtp_inv t"
  "srtp_uses (t\<lparr>last_send_seq_num := m\<rparr>) = srtp_uses t" "is_srtp_active (t\<lparr>last_send_seq_num := m\<rparr>) = is_srtp_active t"
  by (simp_all add: srtp_inv_def srtp_uses_def is_srtp_active_def)

lemma rtp_packet_inv:
  assumes "media_inv u w" "12 \<le> length p"
  shows "safely (media_inv u) (on_rtp_packet_received lib p ts w)" "safely (media_inv u) (map_option snd (srtp_send_rtp lib p w))"
proof -
  have s: "srtp_inv (dtls_srtp w)" using assms(1) by (simp add: inv_defs)
  obtain a b where r: "parse_rtp_sequence_number p = Some a" "parse_rtp_ssrc p = Some b"
    using assms(2) GetBE16_in_bounds [of 2 p] GetBE32_in_bounds [of 8 p]
    by (auto simp: parse_rtp_sequence_number_def parse_rtp_ssrc_def)
  obtain out t where e: "unprotect_rtp lib p (dtls_srtp w) = (out, t)" by fastforce
  then show "safely (media_inv u) (on_rtp_packet_received lib p ts w)"
    using packet_ops_inv(1) [OF s, of lib p] packet_ops_active(1) [of lib p "dtls_srtp w"] assms(1) r
    by (auto simp: on_rtp_packet_received_def media_inv_srtp split: option.splits)
  obtain l l' where l: "get_send_auth_tag_len (dtls_srtp w) = (l, l')" by fastforce
  obtain out t where e: "protect_rtp lib p (int (length p) + l) (dtls_srtp w) = (out, t)" by fastforce
  then show "safely (media_inv u) (map_option snd (srtp_send_rtp lib p w))"
    using packet_ops_inv(3) [OF s, of lib p "int (length p) + l"] packet_ops_active(3) [of lib p "int (length p) + l" "dtls_srtp w"] assms(1) r l
    by (auto simp: srtp_send_rtp_def media_inv_srtp split: option.splits)
qed

lemma rtcp_packet_inv:
  assumes "media_inv u w"
  shows "media_inv u (on_rtcp_packet_received lib p ts w)" "media_inv u (snd (srtp_send_rtcp lib p w))"
proof -
  have s: "srtp_inv (dtls_srtp w)" using assms by (simp add: inv_defs)
  obtain out t where e: "unprotect_rtcp lib p (dtls_srtp w) = (out, t)" by fastforce
  then show "media_inv u (on_rtcp_packet_received lib p ts w)"
    using packet_ops_inv(2) [OF s, of lib p] packet_ops_active(2) [of lib p "dtls_srtp w"] assms
    by (auto simp: on_rtcp_packet_received_def media_inv_srtp split: option.splits)
  obtain l l' where l: "get_send_auth_tag_len (dtls_srtp w) = (l, l')" by fastforce
  obtain out t where e: "protect_rtcp lib p (int (length p) + l' + 4) (dtls_srtp w) = (out, t)" by fastforce
  then show "media_inv u (snd (srtp_send_rtcp lib p w))"
    using packet_ops_inv(4) [OF s, of lib p "int (length p) + l' + 4"]
      packet_ops_active(4) [of lib p "int (length p) + l' + 4" "dtls_srtp w"] assms l
    by (auto simp: srtp_send_rtcp_def media_inv_srtp split: option.splits)
qed

lemma srtp_on_read_packet_inv:
  assumes "media_inv u w" shows "safely (media_inv u) (srtp_on_read_packet lib p ts w)"
proof -
  obtain t where t: "infer_rtp_packet_type p = Some t" using infer_rtp_packet_type_total by blast
  have "12 \<le> length p" if "t = k_rtp"
    using t that by (auto simp: infer_rtp_packet_type_def is_rtp_packet_def k_min_rtp_packet_len_def and_then_def
        split: option.splits bool.splits if_splits bind_splits)
  then show ?thesis using assms t rtp_packet_inv(1) rtcp_packet_inv(1)
    by (cases t) (simp_all add: srtp_on_read_packet_def)
qed

lemma set_remote_fingerprint_fine:
  assumes "media_inv u w"
  shows "safely (media_inv u) (map_option snd (set_remote_fingerprint lib ssl alg digest w))"
proof -
  let ?w = "upd_dtls (\<lambda>d. d\<lparr>remote_fingerprint_value := digest, remote_fingerprint_alg := alg\<rparr>) w"
  have i: "media_inv u ?w" using assms by (simp add: media_inv_def srtp_ok_def)
  let ?f = "\<lambda>(ok, w :: 'a MediaTransport). if ok then Some (True, w) else map_option (Pair False) (set_dtls_state lib ssl k_dtls_failed w)"
  have via_setup: "safely (media_inv u) (map_option snd (setup_dtls lib ssl w1 \<bind> ?f))"
    if "media_inv u w1" "local_certificate (dtls w1) \<noteq> None" for w1
  proof -
    have "safely (\<lambda>x. media_inv u (snd x)) (setup_dtls lib ssl w1 \<bind> ?f)"
    proof (rule safely_bind [OF setup_dtls_fine [OF that]])
      fix x :: "bool \<times> 'a MediaTransport" assume "case x of (ok, w') \<Rightarrow> media_inv u w' \<and> ssl_adapter (dtls w') \<and> media_out w' = media_out w1"
      then show "safely (\<lambda>x. media_inv u (snd x)) (?f x)"
        using safely_mono [OF set_failed_good media_goodD(1)] by (auto split: prod.splits)
    qed
    then show ?thesis by simp
  qed
  have reset: "safely (\<lambda>w'. media_inv u w' \<and> local_certificate (dtls w') = local_certificate (dtls w))
      (map_option (set_writable_state False) (set_dtls_state lib ssl k_dtls_new
        (upd_dtls (\<lambda>d. d\<lparr>ssl_adapter := False, downward := None\<rparr>) ?w)))"
  proof -
    let ?v = "upd_dtls (\<lambda>d. d\<lparr>ssl_adapter := False, downward := None\<rparr>) ?w"
    have "safely (\<lambda>w'. media_inv u w' \<and> dtls w' = (dtls ?v)\<lparr>dtls_state := k_dtls_new\<rparr> \<and> ice_writable w' = ice_writable ?v
        \<and> media_out w' = media_out ?v)
        (set_dtls_state lib ssl k_dtls_new ?v)"
      by (rule set_dtls_state_safe) (use assms in \<open>auto simp: inv_defs\<close>)
    moreover have "local_certificate (dtls (set_writable_state False w')) = local_certificate (dtls w')" for w' :: "'a MediaTransport"
      by (simp add: set_writable_state_def)
    ultimately show ?thesis by (auto elim!: safely_mono)
  qed
  have cert: "dtls_active (dtls w) \<Longrightarrow> local_certificate (dtls w) \<noteq> None" using assms by (auto simp: inv_defs)
  have change: "dtls_active (dtls w) \<Longrightarrow> safely (media_inv u) (map_option snd ((map_option (set_writable_state False)
      (set_dtls_state lib ssl k_dtls_new (upd_dtls (\<lambda>d. d\<lparr>ssl_adapter := False, downward := None\<rparr>) ?w)))
      \<bind> (\<lambda>w. setup_dtls lib ssl w \<bind> ?f)))"
    using safely_bind [OF reset, of "\<lambda>x. media_inv u (snd x)" "\<lambda>w. setup_dtls lib ssl w \<bind> ?f"] via_setup cert by auto
  have fresh: "dtls_active (dtls w) \<Longrightarrow> safely (media_inv u) (map_option snd (setup_dtls lib ssl ?w \<bind> ?f))"
    using via_setup [OF i] cert by simp
  have failed: "safely (media_inv u) (set_dtls_state lib ssl k_dtls_failed ?w)"
    using set_failed_good [OF i] media_goodD(1) by (rule safely_mono)
  have inactive: "media_inv u (upd_dtls (dtls_active_update (\<lambda>_. False)) w)" using assms by (auto simp: inv_defs)
  show ?thesis
    using change fresh failed inactive assms i
    by (auto simp: set_remote_fingerprint_def Let_def split: option.split)
qed

lemma media_run_inv:
  assumes "media_inv u w" "media_enabled i w"
  shows "safely (media_inv u) (media_run lib ssl i w)"
proof (cases i)
  case (in_ice_packet buf ts)
  have total: "is_dtls_client_hello_packet buf \<noteq> None" "is_dtls_packet buf \<noteq> None" "dtls_is_rtp_packet buf \<noteq> None"
    by (auto simp: is_dtls_client_hello_packet_def is_dtls_packet_def dtls_is_rtp_packet_def byte_at_def and_then_def
        k_dtls_record_header_len_def k_min_rtp_packet_len_def split: option.splits bool.splits)
  have "media_inv u (upd_dtls (cached_client_hello_update (\<lambda>_. buf)) w)" using assms(1) by (simp add: media_inv_def srtp_ok_def)
  moreover have "safely (media_inv u) (map_option snd (setup_dtls lib ssl (upd_dtls (cached_client_hello_update (\<lambda>_. buf)) w)))"
    if "local_certificate (dtls w) \<noteq> None"
    using safely_mono [OF setup_dtls_fine [OF calculation], where R = "\<lambda>x. media_inv u (snd x)"] that by auto
  moreover have "safely (media_inv u) (map_option snd (handle_dtls_packet lib ssl buf w))" if "ssl_adapter (dtls w)"
    unfolding safely_map by (rule safely_mono [OF handle_dtls_packet_good [OF assms(1) that]]) (auto dest: media_goodD)
  moreover have "dtls_state (dtls w) = k_dtls_connecting \<or> dtls_state (dtls w) = k_dtls_connected \<Longrightarrow> ssl_adapter (dtls w)"
    using assms(1) by (auto simp: media_inv_def)
  ultimately show ?thesis using in_ice_packet total assms(1) srtp_on_read_packet_inv [OF assms(1)]
    by (auto simp: dtls_on_read_packet_def Let_def)
next
  case (in_ice_writable b)
  let ?w = "w\<lparr>ice_writable := b\<rparr>"
  have i: "media_inv u ?w" using assms(1) by (simp add: media_inv_def srtp_ok_def)
  have "safely (media_inv u) (maybe_start_dtls lib ssl ?w)"
    by (rule safely_mono [OF maybe_start_dtls_fine [OF i]]) (simp add: media_fine_def)
  with i show ?thesis using in_ice_writable by (simp add: dtls_on_writable_state_def split: DtlsTransportState.split)
next
  case (in_ice_receiving b)
  then show ?thesis using assms(1) by (simp add: dtls_set_receiving_def media_inv_def srtp_ok_def)
next
  case (in_ssl as)
  then have "ssl_adapter (dtls w)" using assms(2) by (simp add: media_enabled_def)
  from safely_mono [OF ssl_run_good [OF assms(1) this] media_goodD(1)] show ?thesis using in_ssl by simp
next
  case (in_local_certificate c)
  then show ?thesis using assms(1) by (auto simp: set_local_certificate_def inv_defs)
next
  case (in_remote_fingerprint alg digest)
  then show ?thesis using set_remote_fingerprint_fine [OF assms(1)] by simp
next
  case (in_send_rtp buf)
  then show ?thesis using rtp_packet_inv(2) [OF assms(1)] assms(2) by (simp add: media_enabled_def)
next
  case (in_send_rtcp buf)
  then show ?thesis using rtcp_packet_inv(2) [OF assms(1)] by simp
qed


lemma media_reach_inv: "media_reach lib usage w \<Longrightarrow> media_inv usage w"
proof (induction rule: media_reach.induct)
  case (init ciphers mux writable)
  show ?case by (simp add: inv_defs new_MediaTransport_def new_DtlsTransport_def new_DtlsSrtpTransport_def srtp_inv_def
      srtp_uses_def session_use_def is_srtp_active_def)
next
  case (step w i ssl w')
  then show ?case using media_run_inv [OF step.IH step.hyps(2), of lib ssl] by simp
qed

section \<open>Claims\<close>

text \<open>A complete DTLS record: its header announces the bytes that follow.\<close>

definition dtls_record :: "bytes \<Rightarrow> bool" where
  "dtls_record r \<longleftrightarrow> 13 \<le> length r \<and> length r = 13 + unat (be16_join (r ! 11) (r ! 12))"

text \<open>
  The walk of \<^verbatim>\<open>_handle_dtls_packet\<close> accepts exactly the datagrams that are a
  sequence of complete DTLS records.
\<close>

theorem dtls_packet_walk: "walk_records d \<longleftrightarrow> (\<exists>rs. d = concat rs \<and> list_all dtls_record rs)"
proof
  show "walk_records d \<Longrightarrow> \<exists>rs. d = concat rs \<and> list_all dtls_record rs"
  proof (induction d rule: walk_records.induct)
    case (1 d)
    show ?case
    proof (cases "d = []")
      case False
      let ?n = "unat (be16_join (d ! 11) (d ! 12))"
      have l: "13 \<le> length d" "?n + 13 \<le> length d" "walk_records (drop (13 + ?n) d)"
        using 1(2) False by (auto simp: walk_records.simps [of d] k_dtls_record_header_len_def Let_def split: if_splits)
      have "\<exists>rs. drop (13 + ?n) d = concat rs \<and> list_all dtls_record rs"
        using 1(1) [OF False _ refl] l by (simp add: k_dtls_record_header_len_def)
      then obtain rs where rs: "drop (13 + ?n) d = concat rs" "list_all dtls_record rs" by blast
      have "dtls_record (take (13 + ?n) d)" using l(1,2) by (simp add: dtls_record_def)
      moreover have "d = concat (take (13 + ?n) d # rs)" using rs(1) append_take_drop_id [of "13 + ?n" d] by simp
      ultimately show ?thesis using rs(2) by (intro exI [of _ "take (13 + ?n) d # rs"]) simp
    qed (auto intro: exI [of _ "[]"])
  qed
  have "walk_records (concat rs)" if "list_all dtls_record rs" for rs
    using that
  proof (induction rs)
    case (Cons r rs)
    have r: "13 \<le> length r" "length r = 13 + unat (be16_join (r ! 11) (r ! 12))" using Cons.prems by (simp_all add: dtls_record_def)
    moreover have "walk_records (concat rs)" using Cons by simp
    moreover have "(r @ concat rs) ! 11 = r ! 11" "(r @ concat rs) ! 12 = r ! 12" using r(1) by (simp_all add: nth_append)
    moreover have "drop (13 + unat (be16_join (r ! 11) (r ! 12))) (r @ concat rs) = concat rs" using r(2) by simp
    ultimately show ?case by (simp add: walk_records.simps [of "r @ _"] k_dtls_record_header_len_def Let_def)
  qed (simp add: walk_records.simps)
  then show "\<exists>rs. d = concat rs \<and> list_all dtls_record rs \<Longrightarrow> walk_records d" by blast
qed

text \<open>
  C6. Whatever packets, signals, certificates and fingerprints arrive and whatever the SSL adapter
  does, no event uses a null or deleted object or reads outside a packet; SRTP is active only while
  DTLS is connected, and the usage count of libsrtp is balanced: it exceeds its initial value by the
  number of initialised sessions.
\<close>

theorem media_transport_safe:
  assumes "media_reach lib usage w" "media_enabled i w"
  shows "\<exists>w'. media_run lib ssl i w = Some w' \<and> media_reach lib usage w'
    \<and> (is_srtp_active (dtls_srtp w') \<longrightarrow> dtls_state (dtls w') = k_dtls_connected)
    \<and> libsrtp_usage w' = usage + srtp_uses (dtls_srtp w')"
proof -
  obtain w' where w': "media_run lib ssl i w = Some w'" "media_inv usage w'"
    using media_run_inv [OF media_reach_inv [OF assms(1)] assms(2), of lib ssl] by (auto elim: safelyE)
  moreover have "media_reach lib usage w'" by (rule media_reach.step [OF assms w'(1)])
  ultimately show ?thesis by (auto simp: media_inv_def srtp_ok_def)
qed

text \<open>
  A library that works: contexts remember their policy, protecting appends the tag.  It serves the
  concrete instances below.
\<close>

definition sample_lib :: "srtp_policy libsrtp" where
  "sample_lib = \<lparr>srtp_init = True, srtp_install_event_handler = True,
     policy_from_profile_for_rtp = (\<lambda>cs. if cs = 1 then Some \<lparr>cipher_key_len = 30, auth_tag_len = 2\<rparr> else None),
     policy_from_profile_for_rtcp = (\<lambda>cs. if cs = 1 then Some \<lparr>cipher_key_len = 30, auth_tag_len = 2\<rparr> else None),
     srtp_create = Some, srtp_update = (\<lambda>_. Some),
     srtp_protect = (\<lambda>c p. (c, Some (p @ [1, 2]))), srtp_protect_rtcp = (\<lambda>c p. (c, Some (p @ [1, 2]))),
     srtp_unprotect = (\<lambda>c p. (c, if length p < 14 then None else Some (take (length p - 2) p))),
     srtp_unprotect_rtcp = (\<lambda>c p. (c, if length p < 6 then None else Some (take (length p - 2) p)))\<rparr>"

definition sample_ssl :: ssl_stream where
  "sample_ssl = \<lparr>SetPeerCertificateDigest = (\<lambda>_ _. None), SetDtlsSrtpCryptoSuites = (\<lambda>_. True), StartSSL = 0,
     GetDtlsSrtpCryptoSuite = Some 1, ExportKeyingMaterial = (\<lambda>_ n. Some (map of_nat [0..<n])),
     on_data = [], on_start = []\<rparr>"

definition sample_media :: "srtp_policy MediaTransport" where
  "sample_media = new_MediaTransport [1] True True 0"

theorem media_transport_safe_witness:
  "\<exists>w'. media_run sample_lib sample_ssl (in_local_certificate (Some 7)) sample_media = Some w' \<and> media_reach sample_lib 0 w'
    \<and> (is_srtp_active (dtls_srtp w') \<longrightarrow> dtls_state (dtls w') = k_dtls_connected)
    \<and> libsrtp_usage w' = 0 + srtp_uses (dtls_srtp w')"
  by (rule media_transport_safe) (simp_all add: sample_media_def media_reach.init media_enabled_def)

text \<open>
  C17. When the handshake of an active transport completes, both SRTP sessions are created with the
  keys of RFC 5764: the exported material is client key, server key, client salt, server salt, and
  the server sends with its own key and salt and receives with those of the client.
\<close>

theorem handshake_installs_keys:
  assumes "media_reach lib usage w" "dtls_state (dtls w) = k_dtls_connecting" "dtls_active (dtls w)"
    "GetDtlsSrtpCryptoSuite ssl = Some cs" "GetSrtpKeyAndSaltLengths cs = Some (key_len, salt_len)"
    "ExportKeyingMaterial ssl k_dtls_srtp_exporter_label (key_len * 2 + salt_len * 2)
       = Some (client_key @ server_key @ client_salt @ server_salt)"
    "length client_key = key_len" "length server_key = key_len" "length client_salt = salt_len" "length server_salt = salt_len"
    "policy_from_profile_for_rtp lib cs = Some rtp" "policy_from_profile_for_rtcp lib cs = Some rtcp"
    "cipher_key_len rtp = int key_len + int salt_len" "srtp_init lib" "srtp_install_event_handler lib"
    "srtp_create lib \<lparr>policy_rtp = rtp, policy_rtcp = rtcp, policy_ssrc = ssrc_any_outbound,
       policy_key = server_key @ server_salt\<rparr> = Some send_ctx"
    "srtp_create lib \<lparr>policy_rtp = rtp, policy_rtcp = rtcp, policy_ssrc = ssrc_any_inbound,
       policy_key = client_key @ client_salt\<rparr> = Some recv_ctx"
  shows "\<exists>w' s r. on_dtls_event lib ssl SE_OPEN 0 [] w = Some w' \<and> dtls_state (dtls w') = k_dtls_connected
    \<and> dtls_writable (dtls w') \<and> send_session (dtls_srtp w') = Some s \<and> srtp_ctx s = Some send_ctx
    \<and> recv_session (dtls_srtp w') = Some r \<and> srtp_ctx r = Some recv_ctx"
proof -
  have inv: "media_inv usage w" by (rule media_reach_inv [OF assms(1)])
  have a: "ssl_adapter (dtls w)" "\<not> is_srtp_active (dtls_srtp w)" "srtp_inv (dtls_srtp w)"
    using inv assms(2) by (auto simp: inv_defs)
  then have none: "send_session (dtls_srtp w) = None" "recv_session (dtls_srtp w) = None"
    by (auto simp: srtp_inv_def session_ready_def is_srtp_active_def)
  let ?w = "raise (sig_dtls_state k_dtls_connected) (upd_dtls (dtls_state_update (\<lambda>_. k_dtls_connected)) (set_writable_state True w))"
  have ex: "extract_params ssl (dtls ?w) = Some (Some (cs, server_key @ server_salt, client_key @ client_salt))"
    using a(1) assms(3-10) by (simp add: extract_params_def get_srtp_crypto_suite_def export_keying_material_def set_writable_state_def)
  let ?s = "\<lambda>ctx. \<lparr>srtp_ctx = Some ctx, srtp_inited = True, rtp_auth_tag_len = auth_tag_len rtp, rtcp_auth_tag_len = auth_tag_len rtcp\<rparr>"
  have key: "set_key lib ty cs (k @ s) new_SrtpSession n = (True, ?s ctx, n + 1)"
    if "srtp_create lib \<lparr>policy_rtp = rtp, policy_rtcp = rtcp, policy_ssrc = ty, policy_key = k @ s\<rparr> = Some ctx"
      "length k = key_len" "length s = salt_len" for ty k s n ctx
    using that assms(11-15)
    by (simp add: set_key_def do_set_key_def new_SrtpSession_def increment_libsrtp_usage_count_and_maybe_init_def)
  obtain t n where "set_rtp_params lib cs (server_key @ server_salt) cs (client_key @ client_salt) (dtls_srtp w) (libsrtp_usage w)
      = Some (True, t, n)" "send_session t = Some (?s send_ctx)" "recv_session t = Some (?s recv_ctx)"
    using key [OF assms(16) assms(8,10)] key [OF assms(17) assms(7,9)] none
    by (simp add: set_rtp_params_def create_srtp_session_def Let_def)
  then show ?thesis
    using ex a(2) assms(2) by (simp add: on_dtls_event_def set_dtls_state_def srtp_on_dtls_state_def maybe_setup_dtls_srtp_def
        is_dtls_writable_def setup_dtls_srtp_def SE_OPEN_def SE_READ_def SE_CLOSE_def)
qed

text \<open>
  C18. Media reaches the peer connection only through a completed handshake: a datagram after which
  there is a new RTP or RTCP packet arrived while DTLS was connected, and the packet is what libsrtp
  returned for that datagram under the receiving session.
\<close>

theorem media_only_after_handshake:
  assumes "media_reach lib usage w" "media_run lib ssl (in_ice_packet buf ts) w = Some w'" "media_out w' \<noteq> media_out w"
  shows "dtls_state (dtls w) = k_dtls_connected \<and> (\<exists>r ctx p. recv_session (dtls_srtp w) = Some r \<and> srtp_ctx r = Some ctx
    \<and> ((snd (srtp_unprotect lib ctx buf) = Some p \<and> media_out w' = media_out w @ [sig_rtp_packet p ts])
       \<or> (snd (srtp_unprotect_rtcp lib ctx buf) = Some p \<and> media_out w' = media_out w @ [sig_rtcp_packet p ts])))"
proof -
  have inv: "media_inv usage w" by (rule media_reach_inv [OF assms(1)])
  have hello: "media_out w'' = media_out w"
    if "map_option snd (setup_dtls lib ssl (upd_dtls (cached_client_hello_update (\<lambda>_. buf)) w)) = Some w''"
      "local_certificate (dtls w) \<noteq> None" for w''
  proof -
    have "media_inv usage (upd_dtls (cached_client_hello_update (\<lambda>_. buf)) w)" using inv by (simp add: media_inv_def srtp_ok_def)
    from setup_dtls_fine [OF this, of lib ssl] that show ?thesis by auto
  qed
  have walked: "media_out w'' = media_out w"
    if "map_option snd (handle_dtls_packet lib ssl buf w) = Some w''" "ssl_adapter (dtls w)" for w''
    using handle_dtls_packet_good [OF inv that(2), of lib ssl buf] that(1) by (auto dest: media_goodD)
  have adapter: "dtls_state (dtls w) = k_dtls_connecting \<or> dtls_state (dtls w) = k_dtls_connected \<Longrightarrow> ssl_adapter (dtls w)"
    using inv by (auto simp: media_inv_def)
  have read: "dtls_state (dtls w) = k_dtls_connected \<and> srtp_on_read_packet lib buf ts w = Some w'"
    using assms(2,3) hello walked adapter
    by (auto simp: dtls_on_read_packet_def Let_def split: if_splits option.splits bind_splits)
  then have act: "is_srtp_active (dtls_srtp w)"
    using assms(3) by (auto simp: srtp_on_read_packet_def on_rtp_packet_received_def on_rtcp_packet_received_def
        split: if_splits bind_splits RtpPacketType.splits)
  have "srtp_inv (dtls_srtp w)" using inv by (simp add: inv_defs)
  then obtain s r cs cr where sr: "send_session (dtls_srtp w) = Some s" "recv_session (dtls_srtp w) = Some r" "srtp_ctx r = Some cr"
    by (rule srtp_inv_session [OF _ act])
  with read act assms(3) show ?thesis
    by (auto simp: srtp_on_read_packet_def on_rtp_packet_received_def on_rtcp_packet_received_def unprotect_rtp_def
        unprotect_rtcp_def session_unprotect_def split: if_splits bind_splits RtpPacketType.splits option.splits prod.splits)
qed

definition sample_connecting :: "srtp_policy MediaTransport" where
  "sample_connecting = upd_dtls (\<lambda>d. d\<lparr>dtls_state := k_dtls_connecting, ssl_adapter := True, local_certificate := Some 7,
     dtls_active := True, downward := Some new_StreamInterfaceChannel, remote_fingerprint_value := [2],
     remote_fingerprint_alg := [1]\<rparr>) (raise (sig_dtls_state k_dtls_connecting) sample_media)"

lemma sample_connecting_reach: "media_reach sample_lib 0 sample_connecting"
proof -
  let ?w = "snd (set_local_certificate (Some 7) sample_media)"
  have r1: "media_reach sample_lib 0 ?w"
    by (rule media_reach.step [where w = sample_media and i = "in_local_certificate (Some 7)" and ssl = sample_ssl])
      (simp_all add: sample_media_def media_reach.init media_enabled_def)
  have r2: "media_run sample_lib sample_ssl (in_remote_fingerprint [1] [2]) ?w = Some sample_connecting"
    by (simp add: sample_connecting_def sample_media_def new_MediaTransport_def new_DtlsTransport_def set_local_certificate_def
        set_remote_fingerprint_def setup_dtls_def maybe_start_dtls_def deliver_client_hello_def set_dtls_state_def
        srtp_on_dtls_state_def reset_params_def new_DtlsSrtpTransport_def delete_session_def sample_ssl_def upd_dtls_def raise_def)
  show ?thesis by (rule media_reach.step [OF r1 _ r2]) (simp add: media_enabled_def)
qed

lemma sample_material: "ExportKeyingMaterial sample_ssl k_dtls_srtp_exporter_label (16 * 2 + 14 * 2)
    = Some (map of_nat [0..<16] @ map of_nat [16..<32] @ map of_nat [32..<46] @ map of_nat [46..<60])"
  by (simp add: sample_ssl_def upt_rec)

theorem handshake_installs_keys_witness:
  "\<exists>w' s r. on_dtls_event sample_lib sample_ssl SE_OPEN 0 [] sample_connecting = Some w' \<and> dtls_state (dtls w') = k_dtls_connected
    \<and> dtls_writable (dtls w') \<and> send_session (dtls_srtp w') = Some s
    \<and> srtp_ctx s = Some \<lparr>policy_rtp = \<lparr>cipher_key_len = 30, auth_tag_len = 2\<rparr>, policy_rtcp = \<lparr>cipher_key_len = 30, auth_tag_len = 2\<rparr>,
         policy_ssrc = ssrc_any_outbound, policy_key = map of_nat [16..<32] @ map of_nat [46..<60]\<rparr>
    \<and> recv_session (dtls_srtp w') = Some r
    \<and> srtp_ctx r = Some \<lparr>policy_rtp = \<lparr>cipher_key_len = 30, auth_tag_len = 2\<rparr>, policy_rtcp = \<lparr>cipher_key_len = 30, auth_tag_len = 2\<rparr>,
         policy_ssrc = ssrc_any_inbound, policy_key = map of_nat [0..<16] @ map of_nat [32..<46]\<rparr>"
  by (rule handshake_installs_keys [OF sample_connecting_reach _ _ _ _ sample_material, where cs = 1])
    (simp_all add: sample_connecting_def sample_ssl_def sample_lib_def GetSrtpKeyAndSaltLengths_def
      kSrtpAes128CmSha1_80_def kSrtpAes128CmSha1_32_def)

definition sample_session :: "ssrc_type \<Rightarrow> bytes \<Rightarrow> srtp_policy SrtpSession" where
  "sample_session ty k = \<lparr>srtp_ctx = Some \<lparr>policy_rtp = \<lparr>cipher_key_len = 30, auth_tag_len = 2\<rparr>,
     policy_rtcp = \<lparr>cipher_key_len = 30, auth_tag_len = 2\<rparr>, policy_ssrc = ty, policy_key = k\<rparr>, srtp_inited = True,
     rtp_auth_tag_len = 2, rtcp_auth_tag_len = 2\<rparr>"

definition sample_connected :: "srtp_policy MediaTransport" where
  "sample_connected = sample_connecting\<lparr>dtls := (dtls sample_connecting)\<lparr>dtls_state := k_dtls_connected, dtls_writable := True\<rparr>,
     libsrtp_usage := 2,
     signals := signals sample_connecting @ [sig_dtls_writable, sig_dtls_state k_dtls_connected],
     dtls_srtp := (dtls_srtp sample_connecting)\<lparr>
       send_session := Some (sample_session ssrc_any_outbound (map of_nat [16..<32] @ map of_nat [46..<60])),
       recv_session := Some (sample_session ssrc_any_inbound (map of_nat [0..<16] @ map of_nat [32..<46]))\<rparr>\<rparr>"

definition sample_rtp :: bytes where
  "sample_rtp = [0x80, 0x6F] @ replicate 12 0"

lemma sample_connected_reach: "media_reach sample_lib 0 sample_connected"
proof -
  let ?w = "raise (sig_dtls_state k_dtls_connected) (upd_dtls (dtls_state_update (\<lambda>_. k_dtls_connected))
    (set_writable_state True sample_connecting))"
  have ex: "extract_params sample_ssl (dtls ?w) = Some (Some (1, map of_nat [16..<32] @ map of_nat [46..<60],
      map of_nat [0..<16] @ map of_nat [32..<46]))"
  proof -
    have "ssl_adapter (dtls ?w)" "dtls_active (dtls ?w)" "dtls_state (dtls ?w) = k_dtls_connected"
      by (simp_all add: sample_connecting_def set_writable_state_def)
    moreover have "GetDtlsSrtpCryptoSuite sample_ssl = Some 1" by (simp add: sample_ssl_def)
    moreover have "GetSrtpKeyAndSaltLengths 1 = Some (16, 14)"
      by (simp add: GetSrtpKeyAndSaltLengths_def kSrtpAes128CmSha1_80_def)
    ultimately show ?thesis
      using sample_material by (simp add: extract_params_def get_srtp_crypto_suite_def export_keying_material_def del: upt.simps upt_rec_numeral)
  qed
  have "length (map of_nat [16..<32] @ map of_nat [46..<60] :: bytes) = 30" "length (map of_nat [0..<16] @ map of_nat [32..<46] :: bytes) = 30"
    by (simp_all del: upt_rec_numeral)
  then have "setup_dtls_srtp sample_lib sample_ssl ?w = Some sample_connected"
    unfolding setup_dtls_srtp_def ex
    by (simp add: sample_connected_def sample_session_def sample_connecting_def sample_media_def new_MediaTransport_def new_DtlsTransport_def
        new_DtlsSrtpTransport_def set_rtp_params_def create_srtp_session_def delete_session_def set_key_def do_set_key_def new_SrtpSession_def
        increment_libsrtp_usage_count_and_maybe_init_def sample_lib_def Let_def set_writable_state_def raise_def upd_dtls_def
        del: upt_rec_numeral)
  moreover have "\<not> is_srtp_active (dtls_srtp sample_connecting)" "dtls_state (dtls sample_connecting) = k_dtls_connecting" "ssl_adapter (dtls sample_connecting)"
    by (simp_all add: sample_connecting_def sample_media_def new_MediaTransport_def new_DtlsSrtpTransport_def is_srtp_active_def)
  ultimately have "media_run sample_lib sample_ssl (in_ssl [ssl_SignalEvent SE_OPEN 0 []]) sample_connecting = Some sample_connected"
    by (simp add: on_dtls_event_def set_dtls_state_def srtp_on_dtls_state_def maybe_setup_dtls_srtp_def is_dtls_writable_def
        SE_OPEN_def SE_READ_def SE_CLOSE_def)
  then show ?thesis
    by (rule media_reach.step [OF sample_connecting_reach, rotated]) (simp add: media_enabled_def sample_connecting_def)
qed

theorem media_only_after_handshake_witness:
  "\<exists>w'. media_run sample_lib sample_ssl (in_ice_packet sample_rtp 5) sample_connected = Some w'
    \<and> media_out w' = media_out sample_connected @ [sig_rtp_packet (take 12 sample_rtp) 5]
    \<and> dtls_state (dtls sample_connected) = k_dtls_connected"
proof -
  have "is_dtls_packet sample_rtp = Some False" "dtls_is_rtp_packet sample_rtp = Some True" "infer_rtp_packet_type sample_rtp = Some k_rtp"
    by code_simp+
  then have run: "media_run sample_lib sample_ssl (in_ice_packet sample_rtp 5) sample_connected
      = Some (raise (sig_rtp_packet (take 12 sample_rtp) 5) sample_connected)"
    by (simp add: dtls_on_read_packet_def srtp_on_read_packet_def on_rtp_packet_received_def unprotect_rtp_def session_unprotect_def
        is_srtp_active_def sample_connected_def sample_session_def sample_lib_def sample_rtp_def del: upt_rec_numeral)
  then have "media_out (raise (sig_rtp_packet (take 12 sample_rtp) 5) sample_connected) \<noteq> media_out sample_connected" by simp
  from media_only_after_handshake [OF sample_connected_reach run this] show ?thesis using run by simp
qed

end
