(* ===== verification/Transport_Controller.thy ===== *)
theory Transport_Controller
  imports Dtls_Safety Sdp_Parser Ice_Agent "HOL-Library.AList"
begin

text \<open>
  \<^verbatim>\<open>pc/transport_controller.cpp\<close>: the controller that owns the ICE agent and the DTLS
  and SRTP transports of a peer connection and reports one connection state.  A handler of a channel
  or of a transport first runs to its end; the signals it raised are then delivered to their slots in
  the order in which they were raised.  While they are delivered, the fields the slots read (the
  state, writability and receiving flag of the channel, the state of DTLS) have the value they had
  when the signal was raised.  What leaves the controller is appended to \<open>tc_events\<close>: signals
  to the peer connection, datagrams of the ICE sockets, and packets the DTLS transport hands to its
  channel.  The result \<open>None\<close> is the use of a null or deleted object, a read outside a packet,
  or an exception.
\<close>

section \<open>State\<close>

datatype PeerConnectionState = k_pc_new | k_pc_connecting | k_pc_connected | k_pc_disconnected
  | k_pc_failed | k_pc_closed

datatype tc_event =
    tc_candidate_allocate_done bytes IceCandidateComponent "Candidate list"
  | tc_connection_state PeerConnectionState
  | tc_rtp_packet bytes int
  | tc_rtcp_packet bytes int
  | tc_send_to bytes nat bytes SocketAddress
  | tc_channel_send bytes bytes

text \<open>
  The two maps from names to DTLS and SRTP transports always have the same keys; an entry holds the
  channel of the DTLS transport, as its position in the agent, and the pair of transports.  The
  usage counter of libsrtp belongs to the process.
\<close>

record 'ctx TransportController =
  ice_agent :: IceAgent
  transports :: "(bytes \<times> nat \<times> 'ctx MediaTransport) list"
  tc_certificate :: "nat option"
  pc_state :: PeerConnectionState
  srtp_usage :: int
  tc_events :: "tc_event list"

definition new_TransportController :: "int \<Rightarrow> 'ctx TransportController" where
  "new_TransportController usage = \<lparr>ice_agent = new_IceAgent, transports = [], tc_certificate = None,
     pc_state = k_pc_new, srtp_usage = usage, tc_events = []\<rparr>"

definition notify :: "tc_event \<Rightarrow> 'ctx TransportController \<Rightarrow> 'ctx TransportController" where
  "notify e tc = tc\<lparr>tc_events := tc_events tc @ [e]\<rparr>"

definition the_channel :: "nat \<Rightarrow> 'ctx TransportController \<Rightarrow> IceTransportChannel" where
  "the_channel i tc = ag_channels (ice_agent tc) ! i"

definition upd_channel :: "nat \<Rightarrow> (IceTransportChannel \<Rightarrow> IceTransportChannel) \<Rightarrow> 'ctx TransportController
    \<Rightarrow> 'ctx TransportController" where
  "upd_channel i f tc = tc\<lparr>ice_agent := (ice_agent tc)\<lparr>ag_channels :=
     (ag_channels (ice_agent tc))[i := f (the_channel i tc)]\<rparr>\<rparr>"

definition set_transport :: "bytes \<Rightarrow> nat \<Rightarrow> 'ctx MediaTransport \<Rightarrow> 'ctx TransportController
    \<Rightarrow> 'ctx TransportController" where
  "set_transport name i t tc = tc\<lparr>transports := AList.update name (i, t) (transports tc)\<rparr>"

definition get_transport :: "bytes \<Rightarrow> 'ctx TransportController \<Rightarrow> (nat \<times> 'ctx MediaTransport) option" where
  "get_transport name tc = map_of (transports tc) name"

section \<open>The connection state\<close>

definition dtls_state_count :: "DtlsTransportState \<Rightarrow> 'ctx TransportController \<Rightarrow> nat" where
  "dtls_state_count st tc = length (filter (\<lambda>(_, _, t). dtls_state (dtls t) = st) (transports tc))"

definition ice_state_count :: "IceTransportState \<Rightarrow> 'ctx TransportController \<Rightarrow> nat" where
  "ice_state_count st tc = length (filter (\<lambda>(_, i, _). ch_state (the_channel i tc) = st) (transports tc))"

definition connection_state :: "'ctx TransportController \<Rightarrow> PeerConnectionState" where
  "connection_state tc =
     (let total_connected = ice_state_count k_connected tc + dtls_state_count k_dtls_connected tc;
          total_dtls_connecting = dtls_state_count k_dtls_connecting tc;
          total_failed = ice_state_count k_failed tc + dtls_state_count k_dtls_failed tc;
          total_closed = ice_state_count k_closed tc + dtls_state_count k_dtls_closed tc;
          total_new = ice_state_count k_new tc + dtls_state_count k_dtls_new tc;
          total_ice_checking = ice_state_count k_checking tc;
          total_ice_disconnected = ice_state_count k_disconnected tc;
          total_ice_completed = ice_state_count k_completed tc;
          total_transports = length (transports tc) * 2
      in if total_failed > 0 then k_pc_failed
         else if total_ice_disconnected > 0 then k_pc_disconnected
         else if total_new + total_closed = total_transports then k_pc_new
         else if total_ice_checking + total_dtls_connecting + total_new > 0 then k_pc_connecting
         else if total_connected + total_ice_completed + total_closed = total_transports then k_pc_connected
         else k_pc_new)"

definition tc_update_state :: "'ctx TransportController \<Rightarrow> 'ctx TransportController" where
  "tc_update_state tc = (let st = connection_state tc
     in if pc_state tc \<noteq> st then notify (tc_connection_state st) (tc\<lparr>pc_state := st\<rparr>) else tc)"

section \<open>Signals of the media transports\<close>

definition see_dtls_state :: "bytes \<Rightarrow> DtlsTransportState \<Rightarrow> 'ctx TransportController \<Rightarrow> 'ctx TransportController" where
  "see_dtls_state name st tc = (case get_transport name tc of None \<Rightarrow> tc
     | Some (i, t) \<Rightarrow> set_transport name i (upd_dtls (dtls_state_update (\<lambda>_. st)) t) tc)"

text \<open>
  Two slots are connected to \<^verbatim>\<open>signal_receiving_state\<close>, and none to
  \<^verbatim>\<open>signal_writable_state\<close> and \<^verbatim>\<open>signal_closed\<close>.
\<close>

fun on_media_signal :: "bytes \<Rightarrow> media_signal \<Rightarrow> 'ctx TransportController \<Rightarrow> 'ctx TransportController" where
  "on_media_signal name (sig_dtls_state st) tc = tc_update_state (see_dtls_state name st tc)"
| "on_media_signal name sig_dtls_receiving tc = tc_update_state (tc_update_state tc)"
| "on_media_signal name sig_dtls_writable tc = tc"
| "on_media_signal name sig_closed tc = tc"
| "on_media_signal name (sig_rtp_packet p ts) tc = notify (tc_rtp_packet p ts) tc"
| "on_media_signal name (sig_rtcp_packet p ts) tc = notify (tc_rtcp_packet p ts) tc"
| "on_media_signal name (sig_ice_send data) tc = notify (tc_channel_send name data) tc"

text \<open>
  A method of the media transports named \<open>name\<close>, if there are any, with the delivery of the
  signals it raised.  The transports read the writability of their channel and the usage counter
  where they are.
\<close>

definition run_media :: "bytes \<Rightarrow> ('ctx MediaTransport \<Rightarrow> 'ctx MediaTransport option) \<Rightarrow> 'ctx TransportController
    \<Rightarrow> 'ctx TransportController option" where
  "run_media name f tc = (case get_transport name tc of None \<Rightarrow> Some tc
     | Some (i, t) \<Rightarrow> do {
         t' \<leftarrow> f (t\<lparr>ice_writable := ch_writable (the_channel i tc), libsrtp_usage := srtp_usage tc, signals := []\<rparr>);
         let seen = upd_dtls (dtls_state_update (\<lambda>_. dtls_state (dtls t))) t'\<lparr>signals := []\<rparr>;
         Some (fold (on_media_signal name) (signals t')
           (set_transport name i seen (tc\<lparr>srtp_usage := libsrtp_usage t'\<rparr>)))
       })"

section \<open>Signals of the channels\<close>

text \<open>
  \<^verbatim>\<open>IceAgent::_update_state\<close> and the slot of the controller.  That slot is connected once
  for every media section of the local description; running it again changes nothing.
\<close>

definition on_agent_update :: "'ctx TransportController \<Rightarrow> 'ctx TransportController" where
  "on_agent_update tc = (let (ag, states) = ag_update_state (ice_agent tc)
     in fold (\<lambda>_. tc_update_state) states (tc\<lparr>ice_agent := ag\<rparr>))"

text \<open>The slots of the agent are connected before those of the DTLS transport.\<close>

fun on_channel_event :: "'ctx libsrtp \<Rightarrow> ssl_stream \<Rightarrow> nat \<Rightarrow> ice_event \<Rightarrow> 'ctx TransportController
    \<Rightarrow> 'ctx TransportController option" where
  "on_channel_event lib ssl i (ev_send_to port buf addr) tc =
     Some (notify (tc_send_to (transport_name (the_channel i tc)) port buf addr) tc)"
| "on_channel_event lib ssl i (ev_candidate_allocate_done cs) tc =
     Some (notify (tc_candidate_allocate_done (transport_name (the_channel i tc)) (ch_component (the_channel i tc)) cs) tc)"
| "on_channel_event lib ssl i ev_receiving_state tc =
     (let tc = on_agent_update (upd_channel i (ch_receiving_update Not) tc)
      in run_media (transport_name (the_channel i tc))
           (\<lambda>t. Some (dtls_set_receiving (ch_receiving (the_channel i tc)) t)) tc)"
| "on_channel_event lib ssl i ev_writable_state tc =
     (let tc = on_agent_update (upd_channel i (ch_writable_update Not) tc)
      in run_media (transport_name (the_channel i tc)) (dtls_on_writable_state lib ssl) tc)"
| "on_channel_event lib ssl i (ev_ice_state_changed st) tc =
     Some (on_agent_update (upd_channel i (ch_state_update (\<lambda>_. st)) tc))"
| "on_channel_event lib ssl i (ev_read_packet buf ts) tc =
     run_media (transport_name (the_channel i tc)) (dtls_on_read_packet lib ssl buf ts) tc"

text \<open>The SSL adapter may answer differently each time it is used: \<open>ssl\<close> is indexed.\<close>

fun on_channel_events :: "'ctx libsrtp \<Rightarrow> (nat \<Rightarrow> ssl_stream) \<Rightarrow> nat \<Rightarrow> ice_event list \<Rightarrow> 'ctx TransportController
    \<Rightarrow> 'ctx TransportController option" where
  "on_channel_events lib ssl i [] tc = Some tc"
| "on_channel_events lib ssl i (e # es) tc = do {
     tc \<leftarrow> on_channel_event lib (ssl (length es)) i e tc;
     on_channel_events lib ssl i es tc
   }"

definition run_channel :: "(bytes \<Rightarrow> bytes) \<Rightarrow> (IPAddress \<Rightarrow> bytes) \<Rightarrow> 'ctx libsrtp \<Rightarrow> (nat \<Rightarrow> ssl_stream) \<Rightarrow> nat \<Rightarrow> chan_input
    \<Rightarrow> 'ctx TransportController \<Rightarrow> 'ctx TransportController option" where
  "run_channel sha1 ntop lib ssl i inp tc = do {
     let ch = the_channel i tc;
     ch' \<leftarrow> chan_run sha1 ntop inp (ch\<lparr>trace := []\<rparr>);
     let seen = ch'\<lparr>ch_state := ch_state ch, ch_writable := ch_writable ch, ch_receiving := ch_receiving ch, trace := []\<rparr>;
     on_channel_events lib ssl i (trace ch') (upd_channel i (\<lambda>_. seen) tc)
   }"

section \<open>Operations\<close>

definition tc_set_local_certificate :: "nat option \<Rightarrow> 'ctx TransportController \<Rightarrow> 'ctx TransportController" where
  "tc_set_local_certificate cert tc = tc\<lparr>tc_certificate := cert\<rparr>"

text \<open>The suites the DTLS transport offers: \<^verbatim>\<open>CryptoOptions\<close> with its defaults.\<close>

definition GetSupportedDtlsSrtpCryptoSuites :: "bool \<Rightarrow> bool \<Rightarrow> bool \<Rightarrow> int list" where
  "GetSupportedDtlsSrtpCryptoSuites enable_gcm enable_aes128_sha1_32 enable_aes128_sha1_80 =
     (if enable_aes128_sha1_32 then [kSrtpAes128CmSha1_32] else [])
     @ (if enable_aes128_sha1_80 then [kSrtpAes128CmSha1_80] else [])
     @ (if enable_gcm then [kSrtpAeadAes256Gcm, kSrtpAeadAes128Gcm] else [])"

text \<open>The sections of a bundle other than its first one have no transport of their own.\<close>

definition bundled_away :: "SessionDescription \<Rightarrow> bytes \<Rightarrow> bool option" where
  "bundled_away desc m =
     (if is_bundle m desc then map_option (\<lambda>first. m \<noteq> first) (get_first_bundle_mid desc) else Some False)"

definition ice_params_of :: "TransportDescription \<Rightarrow> IceParameters" where
  "ice_params_of td = \<lparr>ice_ufrag = td_ice_ufrag td, ice_pwd = td_ice_pwd td\<rparr>"

text \<open>A transport with the same name is deleted, and its SRTP sessions with it.\<close>

definition delete_transport :: "bytes \<Rightarrow> 'ctx TransportController \<Rightarrow> 'ctx TransportController" where
  "delete_transport name tc = (case get_transport name tc of None \<Rightarrow> tc
     | Some (_, t) \<Rightarrow> tc\<lparr>srtp_usage := snd (reset_params (dtls_srtp t) (srtp_usage tc))\<rparr>)"

definition add_section :: "'ctx libsrtp \<Rightarrow> ssl_stream \<Rightarrow> SessionDescription \<Rightarrow> bytes \<Rightarrow> 'ctx TransportController
    \<Rightarrow> 'ctx TransportController option" where
  "add_section lib ssl desc m tc = do {
     skip \<leftarrow> bundled_away desc m;
     if skip then Some tc
     else do {
       let ag = create_channel m RTP (ice_agent tc);
       let ag = (case get_transport_info m desc of None \<Rightarrow> ag | Some td \<Rightarrow> ag_set_ice_params m RTP (ice_params_of td) ag);
       i \<leftarrow> get_channel m RTP ag;
       let tc = tc\<lparr>ice_agent := ag\<rparr>;
       let t = new_MediaTransport (GetSupportedDtlsSrtpCryptoSuites False False True) True
         (ch_writable (the_channel i tc)) (srtp_usage tc);
       let t = snd (set_local_certificate (tc_certificate tc) t);
       t \<leftarrow> maybe_setup_dtls_srtp lib ssl t;
       let tc = delete_transport m (tc\<lparr>srtp_usage := libsrtp_usage t\<rparr>);
       Some (set_transport m i t tc)
     }
   }"

fun add_sections :: "'ctx libsrtp \<Rightarrow> ssl_stream \<Rightarrow> SessionDescription \<Rightarrow> bytes list \<Rightarrow> 'ctx TransportController
    \<Rightarrow> 'ctx TransportController option" where
  "add_sections lib ssl desc [] tc = Some tc"
| "add_sections lib ssl desc (m # ms) tc = do {
     tc \<leftarrow> add_section lib ssl desc m tc;
     add_sections lib ssl desc ms tc
   }"

text \<open>\<open>bound i n\<close> is the port given to the socket of channel \<open>i\<close> on network \<open>n\<close>.\<close>

fun gather_channels :: "(bytes \<Rightarrow> bytes) \<Rightarrow> (IPAddress \<Rightarrow> bytes) \<Rightarrow> 'ctx libsrtp \<Rightarrow> (nat \<Rightarrow> ssl_stream) \<Rightarrow> (nat \<Rightarrow> Network \<Rightarrow> int option)
    \<Rightarrow> PortAllocator \<Rightarrow> nat list \<Rightarrow> 'ctx TransportController \<Rightarrow> 'ctx TransportController option" where
  "gather_channels sha1 ntop lib ssl bound pa [] tc = Some tc"
| "gather_channels sha1 ntop lib ssl bound pa (i # ids) tc = do {
     tc \<leftarrow> run_channel sha1 ntop lib ssl i (in_gathering_candidate (bound i) pa) tc;
     gather_channels sha1 ntop lib ssl bound pa ids tc
   }"

definition tc_set_local_description :: "(bytes \<Rightarrow> bytes) \<Rightarrow> (IPAddress \<Rightarrow> bytes) \<Rightarrow> 'ctx libsrtp \<Rightarrow> (nat \<Rightarrow> ssl_stream)
    \<Rightarrow> (nat \<Rightarrow> Network \<Rightarrow> int option) \<Rightarrow> PortAllocator \<Rightarrow> SessionDescription option \<Rightarrow> 'ctx TransportController
    \<Rightarrow> (int \<times> 'ctx TransportController) option" where
  "tc_set_local_description sha1 ntop lib ssl bound pa desc tc = (case desc of None \<Rightarrow> Some (-1, tc)
     | Some desc \<Rightarrow> do {
         tc \<leftarrow> add_sections lib (ssl 0) desc (map mid (contents desc)) tc;
         tc \<leftarrow> gather_channels sha1 ntop lib ssl bound pa [0..<length (ag_channels (ice_agent tc))] tc;
         Some (0, tc)
       })"

text \<open>The parameters of one section of the answer; a missing fingerprint is a null pointer.\<close>

definition remote_section :: "(bytes \<Rightarrow> bytes) \<Rightarrow> (IPAddress \<Rightarrow> bytes) \<Rightarrow> 'ctx libsrtp \<Rightarrow> (nat \<Rightarrow> ssl_stream) \<Rightarrow> int
    \<Rightarrow> SessionDescription \<Rightarrow> bytes \<Rightarrow> 'ctx TransportController \<Rightarrow> 'ctx TransportController option" where
  "remote_section sha1 ntop lib ssl now desc m tc = do {
     skip \<leftarrow> bundled_away desc m;
     if skip then Some tc
     else (case get_transport_info m desc of None \<Rightarrow> Some tc
       | Some td \<Rightarrow> do {
           tc \<leftarrow> (case get_channel m RTP (ice_agent tc) of None \<Rightarrow> Some tc
             | Some i \<Rightarrow> run_channel sha1 ntop lib ssl i (in_set_remote_ice_params now (ice_params_of td)) tc);
           (case get_transport m tc of None \<Rightarrow> Some tc
            | Some _ \<Rightarrow> do {
                fp \<leftarrow> identity_fingerprint td;
                run_media m (\<lambda>t. map_option snd (set_remote_fingerprint lib (ssl 0) (fp_algorithm fp) (fp_digest fp) t)) tc
              })
         })
   }"

fun remote_sections :: "(bytes \<Rightarrow> bytes) \<Rightarrow> (IPAddress \<Rightarrow> bytes) \<Rightarrow> 'ctx libsrtp \<Rightarrow> (nat \<Rightarrow> ssl_stream) \<Rightarrow> int
    \<Rightarrow> SessionDescription \<Rightarrow> bytes list \<Rightarrow> 'ctx TransportController \<Rightarrow> 'ctx TransportController option" where
  "remote_sections sha1 ntop lib ssl now desc [] tc = Some tc"
| "remote_sections sha1 ntop lib ssl now desc (m # ms) tc = do {
     tc \<leftarrow> remote_section sha1 ntop lib ssl now desc m tc;
     remote_sections sha1 ntop lib ssl now desc ms tc
   }"

definition tc_set_remote_description :: "(bytes \<Rightarrow> bytes) \<Rightarrow> (IPAddress \<Rightarrow> bytes) \<Rightarrow> 'ctx libsrtp \<Rightarrow> (nat \<Rightarrow> ssl_stream) \<Rightarrow> int
    \<Rightarrow> SessionDescription option \<Rightarrow> 'ctx TransportController \<Rightarrow> (int \<times> 'ctx TransportController) option" where
  "tc_set_remote_description sha1 ntop lib ssl now desc tc = (case desc of None \<Rightarrow> Some (-1, tc)
     | Some desc \<Rightarrow> map_option (Pair 0) (remote_sections sha1 ntop lib ssl now desc (map mid (contents desc)) tc))"

text \<open>
  Sending.  A packet that could be protected is handed to the channel, whose result is what these
  functions return then; otherwise, and without a transport of that name, they return -1.
\<close>

definition tc_send_rtp :: "'ctx libsrtp \<Rightarrow> bytes \<Rightarrow> bytes \<Rightarrow> 'ctx TransportController \<Rightarrow> 'ctx TransportController option" where
  "tc_send_rtp lib name data tc = run_media name (\<lambda>t. map_option snd (srtp_send_rtp lib data t)) tc"

definition tc_send_rtcp :: "'ctx libsrtp \<Rightarrow> bytes \<Rightarrow> bytes \<Rightarrow> 'ctx TransportController \<Rightarrow> 'ctx TransportController option" where
  "tc_send_rtcp lib name data tc = run_media name (\<lambda>t. Some (snd (srtp_send_rtcp lib data t))) tc"

end
