(* ===== verification/Transport_Signals.thy ===== *)
theory Transport_Signals
  imports Transport_Controller
begin

text \<open>
  The signals of a channel and of the media transports carry the states that their slots read: after
  a handler, its state is the one its signals announced, so that delivering them in order after the
  handler ran (as \<^verbatim>\<open>Transport_Controller\<close> does) is the same as delivering each when it
  is raised.
\<close>

section \<open>The signals of a channel carry its state\<close>

text \<open>
  What the slots read of a channel, and how each signal announces a change of it.  Every handler
  only appends signals, and its final state is the one the signals announce.
\<close>

definition seen_state :: "IceTransportChannel \<Rightarrow> IceTransportState \<times> bool \<times> bool" where
  "seen_state w = (ch_state w, ch_writable w, ch_receiving w)"

fun see_event :: "ice_event \<Rightarrow> IceTransportState \<times> bool \<times> bool \<Rightarrow> IceTransportState \<times> bool \<times> bool" where
  "see_event (ev_ice_state_changed st) (_, wr, rc) = (st, wr, rc)"
| "see_event ev_writable_state (st, wr, rc) = (st, \<not> wr, rc)"
| "see_event ev_receiving_state (st, wr, rc) = (st, wr, \<not> rc)"
| "see_event _ s = s"

fun reported_state :: "ice_event \<Rightarrow> bool" where
  "reported_state (ev_ice_state_changed st) \<longleftrightarrow> st \<noteq> k_closed \<and> st \<noteq> k_completed"
| "reported_state _ \<longleftrightarrow> True"

definition announced :: "IceTransportChannel \<Rightarrow> IceTransportChannel \<Rightarrow> bool" where
  "announced w w' \<longleftrightarrow> transport_name w' = transport_name w \<and> ch_component w' = ch_component w
     \<and> (\<exists>evs. trace w' = trace w @ evs \<and> seen_state w' = fold see_event evs (seen_state w) \<and> list_all reported_state evs)"

lemma announced_same:
  "transport_name w' = transport_name w \<Longrightarrow> ch_component w' = ch_component w \<Longrightarrow> trace w' = trace w
    \<Longrightarrow> seen_state w' = seen_state w \<Longrightarrow> announced w w'"
  by (simp add: announced_def)

lemma announced_refl [simp]: "announced w w"
  by (rule announced_same) simp_all

lemma announced_trans [trans]: "announced w w' \<Longrightarrow> announced w' w'' \<Longrightarrow> announced w w''"
  by (auto simp: announced_def)

lemma announced_emit: "announced w w' \<Longrightarrow> see_event e (seen_state w') = seen_state w' \<Longrightarrow> reported_state e \<Longrightarrow> announced w (emit e w')"
  by (auto simp: announced_def emit_def seen_state_def)

lemma announced_quiet [simp]:
  "announced v (w\<lparr>heap := h\<rparr>) = announced v w" "announced v (w\<lparr>ice_controller := c\<rparr>) = announced v w"
  "announced v (w\<lparr>selected_connection := s\<rparr>) = announced v w" "announced v (w\<lparr>ports := ps\<rparr>) = announced v w"
  "announced v (w\<lparr>next_ptr := p\<rparr>) = announced v w" "announced v (w\<lparr>had_connection := b\<rparr>) = announced v w"
  "announced v (w\<lparr>has_been_connection := b\<rparr>) = announced v w" "announced v (w\<lparr>ping_watcher := pw\<rparr>) = announced v w"
  "announced v (w\<lparr>start_pinging := b\<rparr>) = announced v w" "announced v (w\<lparr>cur_ping_interval := n\<rparr>) = announced v w"
  "announced v (w\<lparr>last_ping_sent_ms := n\<rparr>) = announced v w" "announced v (w\<lparr>local_candidates := cs\<rparr>) = announced v w"
  "announced v (w\<lparr>ice_params := ps'\<rparr>) = announced v w" "announced v (w\<lparr>remote_ice_params := ps'\<rparr>) = announced v w"
  by (simp_all add: announced_def seen_state_def)

lemma announced_step:
  assumes "announced v w" "transport_name w' = transport_name w" "ch_component w' = ch_component w" "trace w' = trace w @ [e]"
    "seen_state w' = see_event e (seen_state w)" "reported_state e"
  shows "announced v w'"
  using assms by (auto simp: announced_def)

lemma announced_set_writable: "announced v w \<Longrightarrow> announced v (set_writable b w)"
proof (cases "ch_writable w = b")
  case False
  assume "announced v w"
  then show ?thesis
    by (rule announced_step [where e = ev_writable_state]) (use False in \<open>auto simp: set_writable_def emit_def seen_state_def Let_def\<close>)
qed (simp add: set_writable_def)

lemma announced_set_receiving: "announced v w \<Longrightarrow> announced v (set_receiving b w)"
proof (cases "ch_receiving w = b")
  case False
  assume "announced v w"
  then show ?thesis
    by (rule announced_step [where e = ev_receiving_state]) (use False in \<open>auto simp: set_receiving_def emit_def seen_state_def\<close>)
qed (simp add: set_receiving_def)

lemma announced_send_opt: "announced v w \<Longrightarrow> announced v (send_opt i pkt addr w)"
  by (auto simp: send_opt_def send_to_def intro!: announced_emit split: option.split)

lemma compute_state_reported: "compute_ice_transport_state w = Some st \<Longrightarrow> st \<noteq> k_closed \<and> st \<noteq> k_completed"
  by (auto simp: compute_ice_transport_state_def split: bind_splits if_splits)

lemma announced_state:
  "announced v w \<Longrightarrow> compute_ice_transport_state w = Some st \<Longrightarrow> announced v (emit (ev_ice_state_changed st) (w\<lparr>ch_state := st\<rparr>))"
  by (erule announced_step [where e = "ev_ice_state_changed st"]) (auto simp: emit_def seen_state_def dest: compute_state_reported)

lemma update_state_tells: "announced v w \<Longrightarrow> yields (announced v) (update_state w)"
  unfolding update_state_def Let_def
  by (intro yields_read) (auto intro!: announced_state announced_set_receiving announced_set_writable)

lemma upd_conn_tells: "announced v w \<Longrightarrow> yields (announced v) (upd_conn p f w)"
  by (simp add: upd_conn_def split: option.split)

lemma switch_selected_tells: "announced v w \<Longrightarrow> yields (announced v) (switch_selected_connection conn w)"
  unfolding switch_selected_connection_def Let_def
  by (auto intro!: yields_keep upd_conn_tells split: option.split)

lemma maybe_start_pinging_tells: "announced v w \<Longrightarrow> yields (announced v) (maybe_start_pinging now w)"
  unfolding maybe_start_pinging_def by (auto intro!: yields_read)

lemma sort_connections_tells: "announced v w \<Longrightarrow> yields (announced v) (sort_connections_and_update_state now w)"
proof -
  assume w: "announced v w"
  have "yields (announced v) (maybe_switch_selected_connection conn (w\<lparr>ice_controller := ctl\<rparr>) \<bind> (\<lambda>w. update_state w \<bind> maybe_start_pinging now))"
    for conn ctl
    by (intro yields_keep update_state_tells maybe_start_pinging_tells)
      (use w in \<open>simp_all add: maybe_switch_selected_connection_def switch_selected_tells split: option.split\<close>)
  then show ?thesis unfolding sort_connections_and_update_state_def by (intro yields_read) (simp split: prod.split)
qed

lemmas channel_tells = upd_conn_tells sort_connections_tells update_state_tells switch_selected_tells announced_send_opt

lemma call_conn_tells: "announced v w \<Longrightarrow> yields (announced v) (call_conn now p f w)"
  unfolding call_conn_def on_connection_state_change_def
  by (auto simp: Let_def intro!: yields_read sort_connections_tells split: prod.split)

lemma conn_update_state_tells: "announced v w \<Longrightarrow> yields (announced v) (conn_update_state now p w)"
  unfolding conn_update_state_def by (intro yields_read yields_keep call_conn_tells)

lemma destroy_tells: "announced v w \<Longrightarrow> yields (announced v) (destroy now p w)"
  unfolding destroy_def on_connection_destroyed_def Let_def
  by (intro yields_read yields_keep) (auto intro!: channel_tells yields_keep)

lemma response_tells: "announced v w \<Longrightarrow> yields (announced v) (on_connection_request_response now request p w)"
  unfolding on_connection_request_response_def received_ping_response_def
  by (intro yields_keep upd_conn_tells call_conn_tells)

lemma error_response_tells: "announced v w \<Longrightarrow> yields (announced v) (on_connection_request_error_response now msg p w)"
  unfolding on_connection_request_error_response_def fail_and_destroy_def
  by (auto simp: Let_def intro!: yields_keep upd_conn_tells destroy_tells)

lemma delete_request_tells: "announced v w \<Longrightarrow> yields (announced v) (delete_request tid p w)"
  unfolding delete_request_def by (intro yields_read upd_conn_tells)

lemma check_response_tells: "announced v w \<Longrightarrow> yields (announced v) (check_response now msg p w)"
  unfolding check_response_def
  by (rule yields_read) (auto intro!: yields_keep response_tells error_response_tells delete_request_tells split: response_kind.split)

lemma binding_request_tells: "announced v w \<Longrightarrow> yields (announced v) (handle_stun_binding_request sha1 m p w)"
  unfolding handle_stun_binding_request_def Let_def by (intro yields_read) (simp add: announced_send_opt)

lemma conn_on_read_packet_tells: "announced v w \<Longrightarrow> yields (announced v) (conn_on_read_packet sha1 now buf ts p w)"
  unfolding conn_on_read_packet_def Let_def
  by (intro yields_read) (auto intro!: yields_read announced_emit announced_send_opt binding_request_tells check_response_tells
      split: stun_input.split)

lemma on_unknown_address_tells: "announced v w \<Longrightarrow> yields (announced v) (on_unknown_address sha1 now i addr msg uf w)"
  unfolding on_unknown_address_def ch_add_connection_def Let_def
  by (intro yields_read) (auto intro!: yields_keep announced_send_opt binding_request_tells sort_connections_tells split: option.split)

lemma port_on_read_packet_tells: "announced v w \<Longrightarrow> yields (announced v) (port_on_read_packet sha1 now i buf addr ts w)"
  unfolding port_on_read_packet_def
  by (intro yields_read) (auto intro!: yields_read conn_on_read_packet_tells on_unknown_address_tells announced_send_opt
      split: option.split stun_input.split)

lemma update_connection_states_tells: "announced v w \<Longrightarrow> yields (announced v) (update_connection_states now ps w)"
  by (induction ps arbitrary: w) (auto intro!: yields_keep conn_update_state_tells)

lemma ping_connection_tells: "announced v w \<Longrightarrow> yields (announced v) (ping_connection sha1 now tid p w)"
  unfolding ping_connection_def Let_def by (intro yields_read) (auto intro: announced_send_opt split: prod.split)

lemma on_check_and_ping_tells: "announced v w \<Longrightarrow> yields (announced v) (on_check_and_ping sha1 now tid w)"
  unfolding on_check_and_ping_def Let_def
  by (rule yields_keep, erule update_connection_states_tells, rule yields_read)
    (auto intro!: yields_keep ping_connection_tells split: prod.split option.split)

lemma set_remote_ice_params_tells: "announced v w \<Longrightarrow> yields (announced v) (ch_set_remote_ice_params now params w)"
proof -
  have "announced v w \<Longrightarrow> yields (announced v) (upd_conns f ps w)" for f ps w
    by (induction ps arbitrary: w) (auto intro!: yields_keep upd_conn_tells)
  then show "announced v w \<Longrightarrow> ?thesis"
    unfolding ch_set_remote_ice_params_def Let_def by (auto intro!: yields_keep sort_connections_tells)
qed

lemma gathering_tells: "announced v w \<Longrightarrow> announced v (ch_gathering_candidate ntop bound pa w)"
proof -
  have "announced v w \<Longrightarrow> announced v (gather_ports ntop bound ns w)" for ns w
    by (induction ns arbitrary: w) (auto simp: Let_def split: prod.split option.split)
  then show "announced v w \<Longrightarrow> ?thesis"
    by (auto simp: ch_gathering_candidate_def Let_def intro!: announced_emit)
qed

lemma send_packet_tells: "announced v w \<Longrightarrow> yields (\<lambda>x. announced v (snd x)) (ch_send_packet sent data w)"
  by (auto simp: ch_send_packet_def send_to_def intro!: announced_emit split: option.split bind_splits)

lemma chan_run_tells: "chan_run sha1 ntop inp w = Some w' \<Longrightarrow> announced w w'"
proof -
  have "yields (announced w) (chan_run sha1 ntop inp w)"
    by (cases inp) (simp_all add: port_on_read_packet_tells on_check_and_ping_tells ch_set_ice_params_def
        set_remote_ice_params_tells gathering_tells send_packet_tells)
  then show "chan_run sha1 ntop inp w = Some w' \<Longrightarrow> announced w w'" by (simp add: yields_def)
qed

section \<open>The signals of the media transports carry the DTLS state\<close>

fun see_signal :: "media_signal \<Rightarrow> DtlsTransportState \<Rightarrow> DtlsTransportState" where
  "see_signal (sig_dtls_state st) _ = st"
| "see_signal _ st = st"

text \<open>An RTP packet handed on is one that libsrtp decrypted.\<close>

definition decrypted :: "'ctx libsrtp \<Rightarrow> bytes \<Rightarrow> bool" where
  "decrypted lib p \<longleftrightarrow> (\<exists>ctx buf. snd (srtp_unprotect lib ctx buf) = Some p)"

fun genuine_signal :: "'ctx libsrtp \<Rightarrow> media_signal \<Rightarrow> bool" where
  "genuine_signal lib (sig_rtp_packet p ts) = decrypted lib p"
| "genuine_signal lib _ = True"

definition signalled :: "'ctx libsrtp \<Rightarrow> 'ctx MediaTransport \<Rightarrow> 'ctx MediaTransport \<Rightarrow> bool" where
  "signalled lib t t' \<longleftrightarrow> (\<exists>sgs. signals t' = signals t @ sgs \<and> dtls_state (dtls t') = fold see_signal sgs (dtls_state (dtls t))
     \<and> list_all (genuine_signal lib) sgs)"

lemma signalled_refl [simp]: "signalled lib t t"
  by (simp add: signalled_def)

lemma signalled_same:
  "signalled lib v t \<Longrightarrow> signals t' = signals t \<Longrightarrow> dtls_state (dtls t') = dtls_state (dtls t) \<Longrightarrow> signalled lib v t'"
  by (simp add: signalled_def)

lemma signalled_step:
  assumes "signalled lib v t" "signals t' = signals t @ [s]" "dtls_state (dtls t') = see_signal s (dtls_state (dtls t))"
    "genuine_signal lib s"
  shows "signalled lib v t'"
  using assms by (auto simp: signalled_def)

lemma signalled_quiet [simp]:
  "signalled lib v (t\<lparr>dtls_srtp := d\<rparr>) = signalled lib v t" "signalled lib v (t\<lparr>libsrtp_usage := u\<rparr>) = signalled lib v t"
  "signalled lib v (t\<lparr>ice_writable := b\<rparr>) = signalled lib v t"
  "signalled lib v (upd_dtls (\<lambda>d. d\<lparr>ssl_adapter := a, downward := dw\<rparr>) t) = signalled lib v t"
  "signalled lib v (upd_dtls (cached_client_hello_update f) t) = signalled lib v t"
  "signalled lib v (upd_dtls (downward_update g) t) = signalled lib v t"
  "signalled lib v (upd_dtls (dtls_active_update h) t) = signalled lib v t"
  "signalled lib v (upd_dtls (\<lambda>d. d\<lparr>local_certificate := c, dtls_active := e\<rparr>) t) = signalled lib v t"
  "signalled lib v (upd_dtls (\<lambda>d. d\<lparr>remote_fingerprint_value := x, remote_fingerprint_alg := y\<rparr>) t) = signalled lib v t"
  by (simp_all add: signalled_def upd_dtls_def)

lemma signalled_raise:
  "signalled lib v t \<Longrightarrow> see_signal s (dtls_state (dtls t)) = dtls_state (dtls t) \<Longrightarrow> genuine_signal lib s \<Longrightarrow> signalled lib v (raise s t)"
  by (erule signalled_step [where s = s]) (simp_all add: raise_def)

lemma set_writable_signals: "signalled lib v t \<Longrightarrow> signalled lib v (set_writable_state b t)"
  by (auto simp: set_writable_state_def raise_def upd_dtls_def intro: signalled_step [where s = sig_dtls_writable])

lemma set_receiving_signals: "signalled lib v t \<Longrightarrow> signalled lib v (dtls_set_receiving b t)"
  by (auto simp: dtls_set_receiving_def raise_def upd_dtls_def intro: signalled_step [where s = sig_dtls_receiving])

lemma setup_dtls_srtp_signals: "signalled lib v t \<Longrightarrow> yields (signalled lib v) (setup_dtls_srtp lib ssl t)"
  unfolding setup_dtls_srtp_def by (auto intro!: yields_read split: option.split prod.split)

lemma set_dtls_state_signals: "signalled lib v t \<Longrightarrow> yields (signalled lib v) (set_dtls_state lib ssl st t)"
proof -
  assume "signalled lib v t"
  then have "signalled lib v (raise (sig_dtls_state st) (upd_dtls (dtls_state_update (\<lambda>_. st)) t))"
    by (rule signalled_step [where s = "sig_dtls_state st"]) (simp_all add: raise_def upd_dtls_def)
  with \<open>signalled lib v t\<close> show ?thesis
    by (auto simp: set_dtls_state_def srtp_on_dtls_state_def maybe_setup_dtls_srtp_def Let_def
        intro!: setup_dtls_srtp_signals split: prod.split)
qed

lemma close_dtls_signals: "signalled lib v t \<Longrightarrow> yields (signalled lib v) (close_dtls lib ssl st t)"
  unfolding close_dtls_def by (intro set_dtls_state_signals set_writable_signals)

lemma read_loop_signals: "signalled lib v t \<Longrightarrow> yields (signalled lib v) (read_loop lib ssl rs t)"
  by (induction rs arbitrary: t rule: list.induct)
    (simp, case_tac x1, auto intro!: yields_mono [OF close_dtls_signals] signalled_raise)

lemma on_dtls_event_signals: "signalled lib v t \<Longrightarrow> yields (signalled lib v) (on_dtls_event lib ssl sg er rs t)"
  unfolding on_dtls_event_def
  by (intro yields_keep yields_if set_dtls_state_signals set_writable_signals read_loop_signals close_dtls_signals) simp_all

lemma upd_downward_signals: "signalled lib v t \<Longrightarrow> yields (signalled lib v) (upd_downward f t)"
  by (simp add: upd_downward_def split: option.split)

lemma ssl_run_signals: "signalled lib v t \<Longrightarrow> yields (signalled lib v) (ssl_run lib ssl acts t)"
proof (induction acts arbitrary: t)
  case (Cons a acts)
  have "yields (signalled lib v) (ssl_act lib ssl a t)"
    using Cons.prems by (cases a) (simp_all add: upd_downward_signals signalled_raise on_dtls_event_signals)
  then show ?case by (simp add: yields_keep Cons.IH)
qed simp

lemma handle_dtls_packet_signals: "signalled lib v t \<Longrightarrow> yields (\<lambda>x. signalled lib v (snd x)) (handle_dtls_packet lib ssl data t)"
  by (auto simp: handle_dtls_packet_def on_received_packet_def intro!: yields_keep upd_downward_signals ssl_run_signals)

lemma deliver_client_hello_signals: "signalled lib v t \<Longrightarrow> yields (signalled lib v) (deliver_client_hello lib ssl t)"
  by (auto simp: deliver_client_hello_def intro!: yields_keep set_dtls_state_signals
      yields_bind [OF handle_dtls_packet_signals] split: prod.split)

lemma maybe_start_dtls_signals: "signalled lib v t \<Longrightarrow> yields (signalled lib v) (maybe_start_dtls lib ssl t)"
  unfolding maybe_start_dtls_def
  by (intro yields_if yields_keep ssl_run_signals set_dtls_state_signals deliver_client_hello_signals) simp_all

lemma setup_dtls_signals: "signalled lib v t \<Longrightarrow> yields (\<lambda>x. signalled lib v (snd x)) (setup_dtls lib ssl t)"
  unfolding setup_dtls_def Let_def
  by (auto intro!: yields_read maybe_start_dtls_signals)

lemma unprotect_decrypted: "unprotect_rtp lib data t = (Some p, t') \<Longrightarrow> decrypted lib p"
  by (auto simp: unprotect_rtp_def session_unprotect_def decrypted_def Let_def split: if_splits option.splits prod.splits) (metis snd_conv)+

lemma srtp_on_read_packet_signals: "signalled lib v t \<Longrightarrow> yields (signalled lib v) (srtp_on_read_packet lib data ts t)"
  unfolding srtp_on_read_packet_def
  by (rule yields_read) (auto simp: on_rtcp_packet_received_def on_rtp_packet_received_def Let_def
      intro!: signalled_raise yields_read dest: unprotect_decrypted split: RtpPacketType.split option.split prod.split)

lemma dtls_on_read_packet_signals: "signalled lib v t \<Longrightarrow> yields (signalled lib v) (dtls_on_read_packet lib ssl buf ts t)"
  unfolding dtls_on_read_packet_def
  by (auto simp: Let_def intro!: yields_read setup_dtls_signals handle_dtls_packet_signals srtp_on_read_packet_signals)

lemma dtls_on_writable_state_signals: "signalled lib v t \<Longrightarrow> yields (signalled lib v) (dtls_on_writable_state lib ssl t)"
  by (simp add: dtls_on_writable_state_def set_writable_signals maybe_start_dtls_signals split: DtlsTransportState.split)

lemma set_remote_fingerprint_signals: "signalled lib v t \<Longrightarrow> yields (\<lambda>x. signalled lib v (snd x)) (set_remote_fingerprint lib ssl alg d t)"
proof -
  have via_setup: "yields (\<lambda>x. signalled lib v (snd x)) (setup_dtls lib ssl t \<bind>
      (\<lambda>(ok, t). if ok then Some (True, t) else map_option (Pair False) (set_dtls_state lib ssl k_dtls_failed t)))"
    if "signalled lib v t" for t
    by (rule yields_bind [OF setup_dtls_signals [OF that]]) (auto intro: set_dtls_state_signals)
  have reset: "yields (signalled lib v) (map_option (set_writable_state False) (set_dtls_state lib ssl k_dtls_new t))"
    if "signalled lib v t" for t
    using yields_mono [OF set_dtls_state_signals [OF that] set_writable_signals] by simp
  assume t: "signalled lib v t"
  show ?thesis
    using t unfolding set_remote_fingerprint_def Let_def
    by (auto intro!: set_dtls_state_signals via_setup yields_bind [OF reset] split: option.split)
qed

lemma send_signals: "signalled lib v t \<Longrightarrow> yields (\<lambda>x. signalled lib v (snd x)) (srtp_send_rtp lib data t)"
  "signalled lib v t \<Longrightarrow> signalled lib v (snd (srtp_send_rtcp lib data t))"
  by (auto simp: srtp_send_rtp_def srtp_send_rtcp_def Let_def intro!: signalled_raise yields_read split: prod.split option.split)

end
