(* ===== verification/Transport_Safety.thy ===== *)
theory Transport_Safety
  imports Transport_Signals
begin

text \<open>
  The transport controller over its channels and transports: the connection state it reports is
  always the one of its parts, and no event uses a null or deleted object, but for the packets and
  answers characterised here.
\<close>

section \<open>What each step of the controller changes\<close>

abbreviation chans :: "'ctx TransportController \<Rightarrow> IceTransportChannel list" where
  "chans tc \<equiv> ag_channels (ice_agent tc)"

definition dtls_states :: "'ctx TransportController \<Rightarrow> DtlsTransportState list" where
  "dtls_states tc = map (\<lambda>(_, _, t). dtls_state (dtls t)) (transports tc)"

text \<open>The connection state the controller reported last.\<close>

fun last_state :: "tc_event list \<Rightarrow> PeerConnectionState \<Rightarrow> PeerConnectionState" where
  "last_state [] st = st"
| "last_state (tc_connection_state st' # es) st = last_state es st'"
| "last_state (_ # es) st = last_state es st"

lemma last_state_append: "last_state (es @ [e]) st = (case e of tc_connection_state st' \<Rightarrow> st' | _ \<Rightarrow> last_state es st)"
  by (induction es st rule: last_state.induct) (auto split: tc_event.split)

lemma notify_simps [simp]:
  "ice_agent (notify e tc) = ice_agent tc" "transports (notify e tc) = transports tc" "pc_state (notify e tc) = pc_state tc"
  "srtp_usage (notify e tc) = srtp_usage tc" "tc_events (notify e tc) = tc_events tc @ [e]"
  by (simp_all add: notify_def)

lemma update_state_simps [simp]:
  "ice_agent (tc_update_state tc) = ice_agent tc" "transports (tc_update_state tc) = transports tc"
  "srtp_usage (tc_update_state tc) = srtp_usage tc"
  by (simp_all add: tc_update_state_def Let_def)

lemma the_channel_cong: "ice_agent tc' = ice_agent tc \<Longrightarrow> the_channel i tc' = the_channel i tc"
  by (simp add: the_channel_def)

text \<open>\<^verbatim>\<open>_update_state\<close> can run any number of times.\<close>

lemma connection_state_cong:
  "chans tc' = chans tc \<Longrightarrow> transports tc' = transports tc \<Longrightarrow> connection_state tc' = connection_state tc"
  by (simp add: connection_state_def dtls_state_count_def ice_state_count_def the_channel_def)

lemma connection_state_update: "connection_state (tc_update_state tc) = connection_state tc"
  by (rule connection_state_cong) simp_all

lemma pc_state_update: "pc_state (tc_update_state tc) = connection_state tc"
  by (simp add: tc_update_state_def Let_def)

lemma update_state_idem: "tc_update_state (tc_update_state tc) = tc_update_state tc"
  using connection_state_update [of tc] pc_state_update [of tc] by (simp add: tc_update_state_def [of "tc_update_state tc"])

lemma set_transport_simps [simp]:
  "ice_agent (set_transport n i t tc) = ice_agent tc" "pc_state (set_transport n i t tc) = pc_state tc"
  "tc_events (set_transport n i t tc) = tc_events tc" "srtp_usage (set_transport n i t tc) = srtp_usage tc"
  by (simp_all add: set_transport_def)

lemma update_entry:
  assumes "map_of ts n = Some (i, t)"
  shows "map fst (AList.update n (i, t') ts) = map fst ts"
    "map (fst \<circ> snd) (AList.update n (i, t') ts) = map (fst \<circ> snd) ts"
    "f t' = f t \<Longrightarrow> map (\<lambda>(_, _, t). f t) (AList.update n (i, t') ts) = map (\<lambda>(_, _, t). f t) ts"
  using assms by (induction ts) (auto split: if_splits)

lemma get_set_transport: "get_transport m (set_transport n i t tc) = (if m = n then Some (i, t) else get_transport m tc)"
  by (simp add: get_transport_def set_transport_def update_conv)

section \<open>The shape of a controller\<close>

text \<open>
  Channels and transports correspond one to one, under the same names; no channel is closed, and
  none reports \<open>k_completed\<close>.
\<close>

definition open_channel :: "IceTransportChannel \<Rightarrow> bool" where
  "open_channel ch \<longleftrightarrow> ch_component ch = RTP \<and> ch_state ch \<noteq> k_closed \<and> ch_state ch \<noteq> k_completed"

definition tc_shape :: "'ctx TransportController \<Rightarrow> bool" where
  "tc_shape tc \<longleftrightarrow> map fst (transports tc) = map transport_name (chans tc)
     \<and> map (fst \<circ> snd) (transports tc) = [0..<length (chans tc)]
     \<and> distinct (map transport_name (chans tc)) \<and> list_all open_channel (chans tc)"

text \<open>The connection state as a function of the state of the agent and those of DTLS.\<close>

definition pc_of :: "IceTransportState \<Rightarrow> DtlsTransportState list \<Rightarrow> PeerConnectionState" where
  "pc_of ice ds =
     (if ice = k_failed \<or> k_dtls_failed \<in> set ds then k_pc_failed
      else if ice = k_disconnected then k_pc_disconnected
      else if ice = k_new \<and> set ds \<subseteq> {k_dtls_new, k_dtls_closed} then k_pc_new
      else if ice = k_new \<or> ice = k_checking \<or> k_dtls_new \<in> set ds \<or> k_dtls_connecting \<in> set ds then k_pc_connecting
      else k_pc_connected)"

lemma dtls_count: "dtls_state_count st tc = count_list (dtls_states tc) st"
proof -
  have "length (filter (\<lambda>(_, _, t). dtls_state (dtls t) = st) ts) = count_list (map (\<lambda>(_, _, t). dtls_state (dtls t)) ts) st"
    for ts :: "(bytes \<times> nat \<times> 'a MediaTransport) list"
    by (induction ts) auto
  then show ?thesis by (simp add: dtls_state_count_def dtls_states_def)
qed

lemma ice_count:
  assumes "tc_shape tc"
  shows "ice_state_count st tc = state_count st (chans tc)"
proof -
  have "ice_state_count st tc = length (filter (\<lambda>i. ch_state (chans tc ! i) = st) (map (fst \<circ> snd) (transports tc)))"
    by (auto simp: ice_state_count_def the_channel_def filter_map o_def intro!: arg_cong [where f = length] filter_cong)
  also have "\<dots> = state_count st (chans tc)"
    using assms unfolding tc_shape_def state_count_def
    by (metis (no_types, lifting) length_filter_map map_nth filter_map length_map comp_apply filter_cong)
  finally show ?thesis .
qed

lemma count_dtls: "count_list ds k_dtls_new + count_list ds k_dtls_connecting + count_list ds k_dtls_connected
    + count_list ds k_dtls_closed + count_list ds k_dtls_failed = length ds"
proof (induction ds)
  case (Cons d ds)
  then show ?case by (cases d) simp_all
qed simp

lemma connection_state_pc_of:
  assumes "tc_shape tc"
  shows "connection_state tc = pc_of (aggregate_state (chans tc)) (dtls_states tc)"
proof -
  let ?ds = "dtls_states tc" and ?chs = "chans tc"
  have n: "length (transports tc) = length ?chs" "length ?ds = length ?chs"
    using assms by (auto simp: tc_shape_def dtls_states_def dest: arg_cong [where f = length])
  have none: "state_count k_completed ?chs = 0" "state_count k_closed ?chs = 0"
    using assms state_count_pos [of k_completed ?chs] state_count_pos [of k_closed ?chs]
    by (auto simp: tc_shape_def list_all_iff open_channel_def)
  have mem: "d \<in> set ?ds \<longleftrightarrow> count_list ?ds d > 0" for d
    using count_list_0_iff [of ?ds d] by auto
  have idle: "set ?ds \<subseteq> {k_dtls_new, k_dtls_closed} \<longleftrightarrow>
      count_list ?ds k_dtls_connecting + count_list ?ds k_dtls_connected + count_list ?ds k_dtls_failed = 0"
    using DtlsTransportState.exhaust by (auto simp: count_list_0_iff)
  show ?thesis
    using count_dtls [of ?ds] count_all_states [of ?chs] none
    unfolding connection_state_def pc_of_def aggregate_state_def dtls_count ice_count [OF assms] n mem idle Let_def
    by auto
qed

section \<open>Delivered signals keep the state reported up to date\<close>

definition reported :: "'ctx TransportController \<Rightarrow> bool" where
  "reported tc \<longleftrightarrow> pc_state tc = pc_of (ag_ice_state (ice_agent tc)) (dtls_states tc)
     \<and> pc_state tc = last_state (tc_events tc) k_pc_new"

definition in_step :: "'ctx TransportController \<Rightarrow> bool" where
  "in_step tc \<longleftrightarrow> tc_shape tc \<and> reported tc \<and> ag_ice_state (ice_agent tc) = aggregate_state (chans tc)"

lemma shape_cong: "chans tc' = chans tc \<Longrightarrow> transports tc' = transports tc \<Longrightarrow> tc_shape tc' = tc_shape tc"
  by (simp add: tc_shape_def)

lemma in_step_update:
  assumes "tc_shape tc" "ag_ice_state (ice_agent tc) = aggregate_state (chans tc)" "pc_state tc = last_state (tc_events tc) k_pc_new"
  shows "in_step (tc_update_state tc)"
  using assms connection_state_pc_of [OF assms(1)]
  by (auto simp: in_step_def reported_def tc_update_state_def Let_def tc_shape_def dtls_states_def last_state_append)

lemma in_step_notify:
  "in_step tc \<Longrightarrow> last_state (tc_events tc @ [e]) k_pc_new = last_state (tc_events tc) k_pc_new \<Longrightarrow> in_step (notify e tc)"
  using shape_cong [of "notify e tc" tc] by (auto simp: in_step_def reported_def dtls_states_def)

lemma in_stepD: "in_step tc \<Longrightarrow> tc_shape tc \<and> ag_ice_state (ice_agent tc) = aggregate_state (chans tc)
    \<and> pc_state tc = last_state (tc_events tc) k_pc_new"
  by (auto simp: in_step_def reported_def)

lemma shape_set_transport:
  assumes "tc_shape tc" "get_transport n tc = Some (i, t)"
  shows "tc_shape (set_transport n i t' tc)"
  using assms update_entry(1,2) [of "transports tc" n i t t'] by (simp add: tc_shape_def get_transport_def set_transport_def)

lemma in_step_dtls_state: "in_step tc \<Longrightarrow> in_step (tc_update_state (see_dtls_state n st tc))"
proof -
  assume a: "in_step tc"
  show ?thesis
    using in_stepD [OF a] shape_set_transport [of tc n]
    by (intro in_step_update) (auto simp: see_dtls_state_def split: option.split)
qed

lemma in_step_signal: "in_step tc \<Longrightarrow> in_step (on_media_signal n s tc)"
  by (cases s) (auto simp: update_state_idem last_state_append intro!: in_step_notify in_step_dtls_state in_step_update dest: in_stepD)

lemma in_step_signals: "in_step tc \<Longrightarrow> in_step (fold (on_media_signal n) ss tc)"
  by (induction ss arbitrary: tc) (simp_all add: in_step_signal)

lemma in_step_replace:
  assumes "in_step tc" "get_transport n tc = Some (i, t)" "dtls_state (dtls t') = dtls_state (dtls t)"
  shows "in_step (set_transport n i t' (tc\<lparr>srtp_usage := u\<rparr>))"
proof -
  have "map (\<lambda>(_, _, t). dtls_state (dtls t)) (AList.update n (i, t') (transports tc))
      = map (\<lambda>(_, _, t). dtls_state (dtls t)) (transports tc)"
    by (rule update_entry(3)) (use assms in \<open>simp_all add: get_transport_def\<close>)
  moreover have "tc_shape (set_transport n i t' tc)" using assms by (auto intro: shape_set_transport dest: in_stepD)
  ultimately show ?thesis using assms(1) by (auto simp: in_step_def reported_def dtls_states_def set_transport_def tc_shape_def)
qed

lemma in_step_media: "in_step tc \<Longrightarrow> yields in_step (run_media n f tc)"
  unfolding run_media_def Let_def
  by (auto intro!: yields_read in_step_signals in_step_replace split: option.split)

lemma in_step_agent:
  assumes "tc_shape tc" "reported tc"
  shows "in_step (on_agent_update tc)"
proof -
  let ?st = "aggregate_state (chans tc)"
  have "in_step (tc_update_state (tc\<lparr>ice_agent := (ice_agent tc)\<lparr>ag_ice_state := ?st\<rparr>\<rparr>))"
    using assms by (intro in_step_update) (auto simp: reported_def tc_shape_def)
  moreover have "in_step tc" if "ag_ice_state (ice_agent tc) = ?st"
    using assms that by (simp add: in_step_def)
  ultimately show ?thesis
    by (auto simp: on_agent_update_def ag_update_state_def Let_def update_state_idem)
qed

section \<open>Media transports behind the controller\<close>

definition media_ok :: "'ctx MediaTransport \<Rightarrow> bool" where
  "media_ok t \<longleftrightarrow> media_inv (libsrtp_usage t - srtp_uses (dtls_srtp t)) t"

definition transports_ok :: "'ctx TransportController \<Rightarrow> bool" where
  "transports_ok tc \<longleftrightarrow> list_all (\<lambda>(_, _, t). media_ok t) (transports tc)"

lemma media_ok_inv: "media_inv u t \<Longrightarrow> media_ok t"
  by (simp add: media_ok_def media_inv_def srtp_ok_def)

lemma media_ok_simps [simp]:
  "media_ok (t\<lparr>ice_writable := b\<rparr>) = media_ok t" "media_ok (t\<lparr>libsrtp_usage := u\<rparr>) = media_ok t" "media_ok (t\<lparr>signals := ss\<rparr>) = media_ok t"
  by (auto simp: media_ok_def media_inv_def srtp_ok_def)

lemma media_run_ok: "media_ok t \<Longrightarrow> media_enabled i t \<Longrightarrow> safely media_ok (media_run lib ssl i t)"
  unfolding media_ok_def by (erule (1) safely_mono [OF media_run_inv]) (auto intro: media_ok_inv simp flip: media_ok_def)

lemma update_twice: "AList.update k v (AList.update k w ts) = AList.update k v ts"
  by (induction ts) auto

lemma list_all_update: "list_all P ts \<Longrightarrow> P (k, v) \<Longrightarrow> list_all P (AList.update k v ts)"
  by (induction ts) auto

text \<open>After the signals were delivered, the transport is in the state its method left it in.\<close>

lemma on_media_signal_simps [simp]:
  "ice_agent (on_media_signal n s tc) = ice_agent tc" "srtp_usage (on_media_signal n s tc) = srtp_usage tc"
  by (cases s; simp add: see_dtls_state_def split: option.split prod.split)+

lemma on_media_signal_transport:
  assumes "get_transport n tc = Some (i, t)"
  shows "transports (on_media_signal n s tc)
    = AList.update n (i, upd_dtls (dtls_state_update (\<lambda>_. see_signal s (dtls_state (dtls t)))) t) (transports tc)"
proof -
  have "AList.update n (i, t) (transports tc) = transports tc"
    using assms by (intro AList.update_triv) (simp add: get_transport_def)
  then show ?thesis using assms by (cases s) (simp_all add: see_dtls_state_def set_transport_def, simp_all add: upd_dtls_def)
qed

lemma fold_signals_transport:
  assumes "get_transport n tc = Some (i, t)"
  shows "transports (fold (on_media_signal n) ss tc)
    = AList.update n (i, upd_dtls (dtls_state_update (\<lambda>_. fold see_signal ss (dtls_state (dtls t)))) t) (transports tc)"
  using assms
proof (induction ss arbitrary: tc t)
  case Nil
  then have "AList.update n (i, t) (transports tc) = transports tc" by (intro AList.update_triv) (simp add: get_transport_def)
  then show ?case by (simp add: upd_dtls_def)
next
  case (Cons s ss)
  let ?t = "upd_dtls (dtls_state_update (\<lambda>_. see_signal s (dtls_state (dtls t)))) t"
  have "get_transport n (on_media_signal n s tc) = Some (i, ?t)"
    using on_media_signal_transport [OF Cons.prems, of s] by (simp add: get_transport_def update_conv)
  from Cons.IH [OF this] show ?case
    using on_media_signal_transport [OF Cons.prems, of s] by (simp add: update_twice upd_dtls_def)
qed

lemma fold_signals_simps [simp]:
  "ice_agent (fold (on_media_signal n) ss tc) = ice_agent tc" "srtp_usage (fold (on_media_signal n) ss tc) = srtp_usage tc"
  by (induction ss arbitrary: tc) simp_all

lemma run_media_final:
  assumes "get_transport n tc = Some (i, t)" "run_media n f tc = Some tc'" "\<And>t. yields (signalled lib t) (f t)"
  obtains t' where "f (t\<lparr>ice_writable := ch_writable (the_channel i tc), libsrtp_usage := srtp_usage tc, signals := []\<rparr>) = Some t'"
    "transports tc' = AList.update n (i, t'\<lparr>signals := []\<rparr>) (transports tc)" "ice_agent tc' = ice_agent tc"
    "srtp_usage tc' = libsrtp_usage t'"
proof -
  let ?t0 = "t\<lparr>ice_writable := ch_writable (the_channel i tc), libsrtp_usage := srtp_usage tc, signals := []\<rparr>"
  obtain t' where t': "f ?t0 = Some t'" using assms(1,2) by (auto simp: run_media_def split: bind_splits)
  let ?seen = "upd_dtls (dtls_state_update (\<lambda>_. dtls_state (dtls t))) t'\<lparr>signals := []\<rparr>"
  let ?tc = "set_transport n i ?seen (tc\<lparr>srtp_usage := libsrtp_usage t'\<rparr>)"
  have run: "tc' = fold (on_media_signal n) (signals t') ?tc" using assms(1,2) t' by (simp add: run_media_def Let_def)
  have "signalled lib ?t0 t'" by (rule yieldsD [OF assms(3) t'])
  then have st: "fold see_signal (signals t') (dtls_state (dtls t)) = dtls_state (dtls t')" by (simp add: signalled_def)
  have "get_transport n ?tc = Some (i, ?seen)" by (simp add: get_set_transport)
  from fold_signals_transport [OF this, of "signals t'"] have "transports tc' = AList.update n (i, t'\<lparr>signals := []\<rparr>) (transports tc)"
    unfolding run by (simp add: st update_twice set_transport_def upd_dtls_def)
  then show thesis using that t' run by simp
qed

lemma run_media_safe:
  assumes "transports_ok tc" "\<And>t. media_ok t \<Longrightarrow> safely media_ok (f t)" "\<And>t. yields (signalled lib t) (f t)"
  shows "safely (\<lambda>tc'. transports_ok tc' \<and> ice_agent tc' = ice_agent tc) (run_media n f tc)"
proof (cases "get_transport n tc")
  case (Some x)
  obtain i t where x: "get_transport n tc = Some (i, t)" using Some by (cases x) simp
  then have "(n, i, t) \<in> set (transports tc)" by (auto simp: get_transport_def dest: map_of_SomeD)
  then have "media_ok t" using assms(1) by (auto simp: transports_ok_def list_all_iff)
  then obtain t' where t': "f (t\<lparr>ice_writable := ch_writable (the_channel i tc), libsrtp_usage := srtp_usage tc, signals := []\<rparr>)
      = Some t'" "media_ok t'"
    using assms(2) [of "t\<lparr>ice_writable := ch_writable (the_channel i tc), libsrtp_usage := srtp_usage tc, signals := []\<rparr>"]
    by (auto elim: safelyE)
  then obtain tc' where r: "run_media n f tc = Some tc'" using x by (simp add: run_media_def Let_def)
  from run_media_final [OF x r assms(3)] t' have "transports tc' = AList.update n (i, t'\<lparr>signals := []\<rparr>) (transports tc)"
    "ice_agent tc' = ice_agent tc" by auto
  then show ?thesis using r t'(2) assms(1) by (simp add: transports_ok_def list_all_update)
qed (use assms(1) in \<open>simp add: run_media_def\<close>)

section \<open>Channels behind the controller\<close>

lemma safely_yields: "safely P r \<Longrightarrow> yields Q r \<Longrightarrow> safely (\<lambda>x. P x \<and> Q x) r"
  by (cases r) simp_all

fun with_seen :: "IceTransportState \<times> bool \<times> bool \<Rightarrow> IceTransportChannel \<Rightarrow> IceTransportChannel" where
  "with_seen (st, wr, rc) ch = ch\<lparr>ch_state := st, ch_writable := wr, ch_receiving := rc\<rparr>"

lemma with_seen_self [simp]: "with_seen (seen_state ch) ch = ch"
  by (simp add: seen_state_def)

lemma with_seen_simps [simp]:
  "seen_state (with_seen s ch) = s" "with_seen s (with_seen s' ch) = with_seen s ch"
  "transport_name (with_seen s ch) = transport_name ch" "ch_component (with_seen s ch) = ch_component ch"
  "ch_state (with_seen s ch) = fst s"
  by (cases s; cases s'; simp add: seen_state_def)+

lemma agent_update_simps [simp]:
  "chans (on_agent_update tc) = chans tc" "transports (on_agent_update tc) = transports tc" "srtp_usage (on_agent_update tc) = srtp_usage tc"
  by (simp_all add: on_agent_update_def ag_update_state_def Let_def)

lemma upd_channel_simps [simp]:
  "chans (upd_channel i f tc) = (chans tc)[i := f (chans tc ! i)]" "transports (upd_channel i f tc) = transports tc"
  "srtp_usage (upd_channel i f tc) = srtp_usage tc" "reported (upd_channel i f tc) = reported tc"
  by (simp_all add: upd_channel_def the_channel_def reported_def dtls_states_def)

lemma shape_upd_channel:
  assumes "tc_shape tc" "i < length (chans tc)" "transport_name (f (chans tc ! i)) = transport_name (chans tc ! i)"
    "open_channel (f (chans tc ! i))"
  shows "tc_shape (upd_channel i f tc)"
proof -
  have "map transport_name ((chans tc)[i := f (chans tc ! i)]) = map transport_name (chans tc)"
    using assms(2,3) by (simp add: map_update list_update_same_conv)
  then show ?thesis using assms by (auto simp: tc_shape_def list_all_iff dest!: set_update_subset_insert [THEN subsetD])
qed

lemma toggle_simps:
  "ch_receiving_update Not ch = ch\<lparr>ch_receiving := \<not> ch_receiving ch\<rparr>" "ch_writable_update Not ch = ch\<lparr>ch_writable := \<not> ch_writable ch\<rparr>"
  by (cases ch; simp)+

text \<open>The slots of the agent run first, then those of the transports.\<close>

definition delivered :: "nat \<Rightarrow> ice_event list \<Rightarrow> 'ctx TransportController \<Rightarrow> 'ctx TransportController \<Rightarrow> bool" where
  "delivered i es tc tc' \<longleftrightarrow> in_step tc' \<and> transports_ok tc'
     \<and> chans tc' = (chans tc)[i := with_seen (fold see_event es (seen_state (chans tc ! i))) (chans tc ! i)]"

lemma agent_step:
  assumes "in_step tc" "i < length (chans tc)" "reported_state e"
  shows "in_step (on_agent_update (upd_channel i (\<lambda>ch. with_seen (see_event e (seen_state ch)) ch) tc))"
proof -
  have "open_channel (chans tc ! i)" using assms(1,2) by (auto simp: in_step_def tc_shape_def list_all_length)
  then have "open_channel (with_seen (see_event e (seen_state (chans tc ! i))) (chans tc ! i))"
    using assms(3) by (cases e) (auto simp: open_channel_def seen_state_def)
  then show ?thesis using assms by (intro in_step_agent shape_upd_channel) (auto simp: in_step_def)
qed

lemma deliver_media:
  assumes "in_step tc1" "transports_ok tc1" "chans tc1 = (chans tc)[i := with_seen (see_event e (seen_state (chans tc ! i))) (chans tc ! i)]"
    "\<And>t. media_ok t \<Longrightarrow> safely media_ok (f t)" "\<And>t. yields (signalled lib t) (f t)"
  shows "safely (delivered i [e] tc) (run_media n f tc1)"
  using safely_yields [OF run_media_safe [OF assms(2,4,5)] in_step_media [OF assms(1)], of n]
  by (rule safely_mono) (auto simp: delivered_def assms(3))

lemma media_slots_ok:
  "media_ok t \<Longrightarrow> safely media_ok (dtls_on_read_packet lib ssl buf ts t)"
  "media_ok t \<Longrightarrow> safely media_ok (dtls_on_writable_state lib ssl t)"
  "media_ok t \<Longrightarrow> media_ok (dtls_set_receiving b t)"
  "media_ok t \<Longrightarrow> safely (\<lambda>x. media_ok (snd x)) (set_remote_fingerprint lib ssl alg d t)"
  "media_ok t \<Longrightarrow> 12 \<le> length data \<Longrightarrow> safely (\<lambda>x. media_ok (snd x)) (srtp_send_rtp lib data t)"
  "media_ok t \<Longrightarrow> media_ok (snd (srtp_send_rtcp lib data t))"
  using media_run_ok [of t "in_ice_packet buf ts"] media_run_ok [of t "in_ice_writable (ice_writable t)"]
    media_run_ok [of t "in_ice_receiving b"] media_run_ok [of t "in_remote_fingerprint alg d"]
    media_run_ok [of t "in_send_rtp data"] media_run_ok [of t "in_send_rtcp data"]
  by (simp_all add: media_enabled_def)

lemma on_channel_event_safe:
  assumes "in_step tc" "transports_ok tc" "i < length (chans tc)" "reported_state e"
  shows "safely (delivered i [e] tc) (on_channel_event lib ssl i e tc)"
proof -
  let ?tc = "on_agent_update (upd_channel i (\<lambda>ch. with_seen (see_event e (seen_state ch)) ch) tc)"
  have step: "in_step ?tc" by (rule agent_step [OF assms(1,3,4)])
  have ok: "transports_ok ?tc" using assms(2) by (simp add: transports_ok_def)
  have note_ok: "in_step (notify x tc)" "transports_ok (notify x tc)" if "\<And>st. x \<noteq> tc_connection_state st" for x
    using assms(1,2) that by (auto simp: transports_ok_def last_state_append intro!: in_step_notify split: tc_event.split)
  show ?thesis
  proof (cases e)
    case ev_receiving_state
    have "upd_channel i (ch_receiving_update Not) tc = upd_channel i (\<lambda>ch. with_seen (see_event e (seen_state ch)) ch) tc"
      by (simp add: ev_receiving_state upd_channel_def seen_state_def toggle_simps)
    with step ok show ?thesis
      by (auto simp: ev_receiving_state Let_def intro!: deliver_media media_slots_ok set_receiving_signals)
  next
    case ev_writable_state
    have "upd_channel i (ch_writable_update Not) tc = upd_channel i (\<lambda>ch. with_seen (see_event e (seen_state ch)) ch) tc"
      by (simp add: ev_writable_state upd_channel_def seen_state_def toggle_simps)
    with step ok show ?thesis
      by (auto simp: ev_writable_state Let_def intro!: deliver_media media_slots_ok dtls_on_writable_state_signals)
  next
    case (ev_ice_state_changed st)
    have "upd_channel i (ch_state_update (\<lambda>_. st)) tc = upd_channel i (\<lambda>ch. with_seen (see_event e (seen_state ch)) ch) tc"
      by (simp add: ev_ice_state_changed upd_channel_def seen_state_def)
    with step ok show ?thesis by (simp add: ev_ice_state_changed delivered_def)
  next
    case (ev_read_packet buf ts)
    then show ?thesis using assms
      by (auto intro!: deliver_media media_slots_ok dtls_on_read_packet_signals)
  qed (use note_ok in \<open>simp_all add: delivered_def\<close>)
qed

lemma on_channel_events_safe:
  assumes "in_step tc" "transports_ok tc" "i < length (chans tc)" "list_all reported_state es"
  shows "safely (delivered i es tc) (on_channel_events lib ssl i es tc)"
  using assms
proof (induction es arbitrary: tc)
  case (Cons e es)
  have "safely (delivered i [e] tc) (on_channel_event lib (ssl (length es)) i e tc)"
    using Cons.prems by (intro on_channel_event_safe) simp_all
  then show ?case unfolding on_channel_events.simps
  proof (rule safely_bind)
    fix tc1 assume d: "delivered i [e] tc tc1"
    have "safely (delivered i es tc1) (on_channel_events lib ssl i es tc1)"
      using Cons.prems d by (intro Cons.IH) (simp_all add: delivered_def)
    then show "safely (delivered i (e # es) tc) (on_channel_events lib ssl i es tc1)"
      by (rule safely_mono) (use d Cons.prems(3) in \<open>simp add: delivered_def\<close>)
  qed
qed (simp add: delivered_def)

lemma aggregate_state_cong: "map ch_state chs = map ch_state chs' \<Longrightarrow> aggregate_state chs = aggregate_state chs'"
proof -
  have "state_count st chs = length (filter ((=) st) (map ch_state chs))" for st chs
    by (simp add: state_count_def filter_map o_def eq_commute)
  then show "map ch_state chs = map ch_state chs' \<Longrightarrow> ?thesis"
    unfolding aggregate_state_def by (metis length_map)
qed

definition tc_good :: "'ctx TransportController \<Rightarrow> bool" where
  "tc_good tc \<longleftrightarrow> in_step tc \<and> transports_ok tc \<and> list_all fine (chans tc)"

lemma fine_trace [simp]: "chan_inv (w\<lparr>trace := es\<rparr>) = chan_inv w" "state_ok (w\<lparr>trace := es\<rparr>) = state_ok w"
  by (simp_all add: chan_inv_def local_candidate_def state_ok_def sel_writable_def conns_receiving_def conns_active_def)

lemma input_trace [simp]:
  "enabled inp (w\<lparr>trace := es\<rparr>) = enabled inp w" "input_safe sha1 inp (w\<lparr>trace := es\<rparr>) = input_safe sha1 inp w"
  by (cases inp, simp_all) (cases inp, simp_all add: addressed_port_def addressed_conn_def cong: option.case_cong)

lemma run_channel_safe:
  assumes "tc_good tc" "i < length (chans tc)" "enabled inp (chans tc ! i)" "input_safe sha1 inp (chans tc ! i)"
  shows "safely (\<lambda>tc'. tc_good tc' \<and> (\<exists>ch'. chan_run sha1 ntop inp ((chans tc ! i)\<lparr>trace := []\<rparr>) = Some ch'
    \<and> chans tc' = (chans tc)[i := ch'\<lparr>trace := []\<rparr>])) (run_channel sha1 ntop lib ssl i inp tc)"
proof -
  let ?ch = "chans tc ! i"
  have fine: "fine (?ch\<lparr>trace := []\<rparr>)" using assms(1,2) by (simp add: tc_good_def list_all_length)
  with assms(3,4) obtain ch' where ch': "chan_run sha1 ntop inp (?ch\<lparr>trace := []\<rparr>) = Some ch'" "fine ch'"
    using chan_run_spec [OF fine, of inp sha1 ntop] by (auto elim: safelyE)
  from chan_run_tells [OF ch'(1)] have ann: "transport_name ch' = transport_name ?ch" "ch_component ch' = ch_component ?ch"
      "seen_state ch' = fold see_event (trace ch') (seen_state ?ch)" "list_all reported_state (trace ch')"
    by (auto simp: announced_def seen_state_def)
  let ?seen = "(with_seen (seen_state ?ch) ch')\<lparr>trace := []\<rparr>"
  let ?tc = "upd_channel i (\<lambda>_. ?seen) tc"
  have open_ch: "open_channel ?ch" using assms(1,2) by (auto simp: tc_good_def in_step_def tc_shape_def list_all_length)
  then have "open_channel ?seen" using ann(2) by (simp add: open_channel_def seen_state_def)
  then have shape: "tc_shape ?tc" using assms(1,2) ann(1) by (intro shape_upd_channel) (auto simp: tc_good_def in_step_def)
  have "map ch_state (chans ?tc) = map ch_state (chans tc)"
    using assms(2) by (simp add: map_update seen_state_def list_update_same_conv)
  then have "aggregate_state (chans ?tc) = aggregate_state (chans tc)"
    by (rule aggregate_state_cong)
  then have step: "in_step ?tc" using assms(1) shape by (simp add: tc_good_def in_step_def) (simp add: upd_channel_def)
  have "safely (delivered i (trace ch') ?tc) (on_channel_events lib ssl i (trace ch') ?tc)"
    using step assms(1,2) ann(4) by (intro on_channel_events_safe) (simp_all add: tc_good_def transports_ok_def)
  moreover have "run_channel sha1 ntop lib ssl i inp tc = on_channel_events lib ssl i (trace ch') ?tc"
    using ch'(1) by (simp add: run_channel_def the_channel_def seen_state_def Let_def)
  moreover have "with_seen (fold see_event (trace ch') (seen_state ?seen)) ?seen = ch'\<lparr>trace := []\<rparr>"
  proof -
    have "seen_state ?seen = seen_state ?ch" by (simp add: seen_state_def)
    moreover have "with_seen (seen_state ch') ?seen = ch'\<lparr>trace := []\<rparr>" by (simp add: seen_state_def)
    ultimately show ?thesis by (simp only: ann(3))
  qed
  ultimately show ?thesis using assms(1,2) ch'
    by (auto elim!: safely_mono simp: delivered_def tc_good_def list_all_iff dest!: set_update_subset_insert [THEN subsetD])
qed

lemma run_channel_unsafe:
  assumes "tc_good tc" "i < length (chans tc)" "enabled inp (chans tc ! i)" "\<not> input_safe sha1 inp (chans tc ! i)"
  shows "run_channel sha1 ntop lib ssl i inp tc = None"
proof -
  have "fine ((chans tc ! i)\<lparr>trace := []\<rparr>)" using assms(1,2) by (simp add: tc_good_def list_all_length)
  from chan_run_spec [OF this, of inp sha1 ntop] assms(3,4) show ?thesis by (simp add: run_channel_def the_channel_def Let_def)
qed

section \<open>Descriptions\<close>

text \<open>Before the answer arrives nothing has happened on any transport.\<close>

definition tc_fresh :: "'ctx TransportController \<Rightarrow> bool" where
  "tc_fresh tc \<longleftrightarrow> tc_good tc \<and> list_all (\<lambda>ch. ch_state ch = k_new) (chans tc) \<and> set (dtls_states tc) \<subseteq> {k_dtls_new}
     \<and> pc_state tc = k_pc_new"

lemma find_channel_Some:
  "find_channel n c chs = Some i \<Longrightarrow> i < length chs \<and> transport_name (chs ! i) = n \<and> ch_component (chs ! i) = c"
  by (induction chs arbitrary: i) (auto split: if_splits)

lemma find_channel_None: "find_channel n c chs = None \<longleftrightarrow> (\<forall>ch \<in> set chs. \<not> (transport_name ch = n \<and> ch_component ch = c))"
  by (induction chs) auto

lemma shape_entry:
  assumes "tc_shape tc" "i < length (chans tc)"
  obtains t where "get_transport (transport_name (chans tc ! i)) tc = Some (i, t)"
proof -
  let ?ts = "transports tc"
  have len: "length ?ts = length (chans tc)" using assms(1) by (auto simp: tc_shape_def dest: arg_cong [where f = length])
  have "fst (?ts ! i) = transport_name (chans tc ! i)"
    using assms len by (auto simp: tc_shape_def dest: arg_cong [where f = "\<lambda>xs. xs ! i"])
  moreover have "fst (snd (?ts ! i)) = i"
    using assms len by (auto simp: tc_shape_def dest: arg_cong [where f = "\<lambda>xs. xs ! i"])
  ultimately have "(transport_name (chans tc ! i), i, snd (snd (?ts ! i))) \<in> set ?ts"
    using assms(2) len by (metis nth_mem prod.collapse)
  moreover have "distinct (map fst ?ts)" using assms(1) by (simp add: tc_shape_def)
  ultimately show thesis using that by (auto simp: get_transport_def)
qed

lemma shape_no_entry:
  assumes "tc_shape tc" "n \<notin> transport_name ` set (chans tc)"
  shows "get_transport n tc = None"
proof -
  have "n \<notin> fst ` set (transports tc)" using assms by (simp add: tc_shape_def flip: set_map)
  then show ?thesis by (simp add: get_transport_def map_of_eq_None_iff)
qed

lemma update_new: "k \<notin> fst ` set ts \<Longrightarrow> AList.update k v ts = ts @ [(k, v)]"
  by (induction ts) auto

lemma fresh_agg: "list_all (\<lambda>ch. ch_state ch = k_new) chs \<Longrightarrow> aggregate_state chs = k_new"
proof -
  assume "list_all (\<lambda>ch. ch_state ch = k_new) chs"
  then have "\<forall>ch \<in> set chs. ch_state ch = k_new" by (simp add: list_all_iff)
  then have "state_count k_new chs = length chs" "state_count k_failed chs = 0" "state_count k_disconnected chs = 0" "state_count k_closed chs = 0"
    by (simp_all add: state_count_all) (auto simp: state_count_def filter_empty_conv)
  then show ?thesis by (simp add: aggregate_state_def)
qed

definition fresh_parts :: "'ctx TransportController \<Rightarrow> bool" where
  "fresh_parts tc \<longleftrightarrow> tc_shape tc \<and> transports_ok tc \<and> list_all fine (chans tc) \<and> list_all (\<lambda>ch. ch_state ch = k_new) (chans tc)
     \<and> set (dtls_states tc) \<subseteq> {k_dtls_new} \<and> pc_state tc = k_pc_new \<and> last_state (tc_events tc) k_pc_new = k_pc_new
     \<and> ag_ice_state (ice_agent tc) = k_new"

lemma fresh_iff: "tc_fresh tc \<longleftrightarrow> fresh_parts tc"
  using fresh_agg [of "chans tc"] by (auto simp: tc_fresh_def fresh_parts_def tc_good_def in_step_def reported_def pc_of_def)

lemma new_media_ok:
  "media_ok (snd (set_local_certificate c (new_MediaTransport cs mux wr u)))"
  "dtls_state (dtls (snd (set_local_certificate c (new_MediaTransport cs mux wr u)))) = k_dtls_new"
  "maybe_setup_dtls_srtp lib ssl (snd (set_local_certificate c (new_MediaTransport cs mux wr u)))
     = Some (snd (set_local_certificate c (new_MediaTransport cs mux wr u)))"
proof -
  have "media_ok (new_MediaTransport cs mux wr u :: 'a MediaTransport)" by (rule media_ok_inv [OF media_reach_inv [OF media_reach.init]])
  from media_run_ok [OF this, of "in_local_certificate c"]
  show "media_ok (snd (set_local_certificate c (new_MediaTransport cs mux wr u :: 'a MediaTransport)))" by (simp add: media_enabled_def)
qed (simp_all add: maybe_setup_dtls_srtp_def is_dtls_writable_def set_local_certificate_def new_MediaTransport_def new_DtlsTransport_def)

lemma set_channel_params_simps [simp]:
  "map transport_name (ag_channels (ag_set_ice_params n c p ag)) = map transport_name (ag_channels ag)"
  "length (ag_channels (ag_set_ice_params n c p ag)) = length (ag_channels ag)"
  "ag_ice_state (ag_set_ice_params n c p ag) = ag_ice_state ag"
  by (auto simp: ag_set_ice_params_def get_channel_def ch_set_ice_params_def map_update list_update_same_conv
      dest!: find_channel_Some split: option.split)

abbreviation ch_key :: "IceTransportChannel \<Rightarrow> bytes \<times> IceCandidateComponent" where
  "ch_key ch \<equiv> (transport_name ch, ch_component ch)"

lemma find_channel_cong: "map ch_key chs = map ch_key chs' \<Longrightarrow> find_channel n c chs = find_channel n c chs'"
proof (induction chs arbitrary: chs')
  case (Cons ch chs)
  then show ?case by (cases chs') auto
qed simp

lemma set_channel_params_key: "map ch_key (ag_channels (ag_set_ice_params n c p ag)) = map ch_key (ag_channels ag)"
  by (auto simp: ag_set_ice_params_def get_channel_def ch_set_ice_params_def map_update list_update_same_conv
      dest!: find_channel_Some split: option.split)

lemma set_channel_params_all:
  "list_all P (ag_channels ag) \<Longrightarrow> (\<And>ch. P ch \<Longrightarrow> P (ch_set_ice_params p ch)) \<Longrightarrow> list_all P (ag_channels (ag_set_ice_params n c p ag))"
  by (auto simp: ag_set_ice_params_def get_channel_def list_all_iff dest!: find_channel_Some set_update_subset_insert [THEN subsetD]
      split: option.split)

lemma fine_ice_params: "fine ch \<Longrightarrow> fine (ch_set_ice_params p ch)"
  by (erule fine_cong) (simp_all add: ch_set_ice_params_def)

definition section_agent :: "SessionDescription \<Rightarrow> bytes \<Rightarrow> IceAgent \<Rightarrow> IceAgent" where
  "section_agent desc m ag = (case get_transport_info m desc of None \<Rightarrow> create_channel m RTP ag
     | Some td \<Rightarrow> ag_set_ice_params m RTP (ice_params_of td) (create_channel m RTP ag))"

lemma section_agent_key: "map ch_key (ag_channels (section_agent desc m ag)) = map ch_key (ag_channels (create_channel m RTP ag))"
  by (simp add: section_agent_def set_channel_params_key split: option.split)

lemma section_agent_all:
  assumes "list_all P (ag_channels ag)" "P (new_IceTransportChannel m RTP)" "\<And>ch p. P ch \<Longrightarrow> P (ch_set_ice_params p ch)"
  shows "list_all P (ag_channels (section_agent desc m ag))"
proof -
  have "list_all P (ag_channels (create_channel m RTP ag))" using assms(1,2) by (simp add: create_channel_def split: option.split)
  then show ?thesis using assms(3) by (auto simp: section_agent_def intro: set_channel_params_all split: option.split)
qed

lemma section_agent_state [simp]: "ag_ice_state (section_agent desc m ag) = ag_ice_state ag"
  by (simp add: section_agent_def create_channel_def split: option.split)

lemma section_agent_channel:
  assumes "list_all open_channel (ag_channels ag)"
  shows "(m \<in> transport_name ` set (ag_channels ag) \<and> map transport_name (ag_channels (section_agent desc m ag)) = map transport_name (ag_channels ag)
        \<and> (\<exists>i < length (ag_channels ag). get_channel m RTP (section_agent desc m ag) = Some i \<and> transport_name (ag_channels ag ! i) = m)) \<or>
     (m \<notin> transport_name ` set (ag_channels ag) \<and> map transport_name (ag_channels (section_agent desc m ag)) = map transport_name (ag_channels ag) @ [m]
        \<and> get_channel m RTP (section_agent desc m ag) = Some (length (ag_channels ag)))"
proof -
  have get: "get_channel m RTP (section_agent desc m ag) = get_channel m RTP (create_channel m RTP ag)"
    unfolding get_channel_def by (rule find_channel_cong [OF section_agent_key])
  have names: "map transport_name (ag_channels (section_agent desc m ag)) = map transport_name (ag_channels (create_channel m RTP ag))"
    using arg_cong [OF section_agent_key [of desc m ag], of "map fst"] by (simp add: o_def)
  show ?thesis
  proof (cases "get_channel m RTP ag")
    case None
    then have "m \<notin> transport_name ` set (ag_channels ag)"
      using assms by (auto simp: get_channel_def find_channel_None list_all_iff open_channel_def)
    moreover have "find_channel m RTP (chs @ [new_IceTransportChannel m RTP]) = Some (length chs)" if "find_channel m RTP chs = None" for chs
      using that by (induction chs) (auto simp: new_IceTransportChannel_def split: if_splits)
    ultimately show ?thesis using None unfolding get names by (simp add: create_channel_def get_channel_def new_IceTransportChannel_def)
  next
    case (Some i)
    then have "i < length (ag_channels ag)" "transport_name (ag_channels ag ! i) = m" by (auto simp: get_channel_def dest: find_channel_Some)
    then show ?thesis using Some nth_mem [of i "ag_channels ag"] unfolding get names by (auto simp: create_channel_def)
  qed
qed

lemma section_shape:
  fixes tc :: "'ctx TransportController" and m desc
  assumes "tc_shape tc"
  defines "ag \<equiv> section_agent desc m (ice_agent tc)"
  obtains i where "get_channel m RTP ag = Some i" "map fst (AList.update m (i, t) (transports tc)) = map transport_name (ag_channels ag)"
    "map (fst \<circ> snd) (AList.update m (i, t) (transports tc)) = [0..<length (ag_channels ag)]" "distinct (map transport_name (ag_channels ag))"
proof -
  have sh: "map fst (transports tc) = map transport_name (chans tc)" "map (fst \<circ> snd) (transports tc) = [0..<length (chans tc)]"
    "distinct (map transport_name (chans tc))" "list_all open_channel (chans tc)"
    using assms(1) by (simp_all add: tc_shape_def)
  from section_agent_channel [OF sh(4), of m desc] consider
      i where "map transport_name (ag_channels ag) = map transport_name (chans tc)" "i < length (chans tc)" "get_channel m RTP ag = Some i"
        "transport_name (chans tc ! i) = m"
    | "m \<notin> transport_name ` set (chans tc)" "map transport_name (ag_channels ag) = map transport_name (chans tc) @ [m]"
        "get_channel m RTP ag = Some (length (chans tc))"
    unfolding ag_def by blast
  then show thesis
  proof cases
    case 1
    from shape_entry [OF assms(1) 1(2)] obtain t0 where "get_transport m tc = Some (i, t0)" using 1(4) by auto
    then show thesis using that [OF 1(3)] 1(1) sh update_entry(1,2) [of "transports tc" m i t0 t] map_eq_imp_length_eq [OF 1(1)]
      by (simp add: get_transport_def)
  next
    case 2
    then have "m \<notin> fst ` set (transports tc)" using sh(1) by (simp flip: set_map)
    moreover have "length (ag_channels ag) = Suc (length (chans tc))" using arg_cong [OF 2(2), of length] by simp
    ultimately show thesis using that [OF 2(3)] 2(1,2) sh update_new [of m "transports tc"] by simp
  qed
qed

lemma add_section_fresh:
  fixes tc :: "'ctx TransportController"
  assumes "fresh_parts tc" "bundled_away desc m \<noteq> None"
  shows "safely fresh_parts (add_section lib ssl desc m tc)"
proof (cases "bundled_away desc m = Some True")
  case False
  define ag where "ag = section_agent desc m (ice_agent tc)"
  define t where "t i = (snd (set_local_certificate (tc_certificate tc) (new_MediaTransport (GetSupportedDtlsSrtpCryptoSuites False False True)
     True (ch_writable (ag_channels ag ! i)) (srtp_usage tc))) :: 'ctx MediaTransport)" for i
  have "tc_shape tc" using assms(1) by (simp add: fresh_parts_def)
  from section_shape [OF this, of m desc "t (the (get_channel m RTP ag))"] obtain i where i: "get_channel m RTP ag = Some i"
    and sh: "map fst (AList.update m (i, t i) (transports tc)) = map transport_name (ag_channels ag)"
    "map (fst \<circ> snd) (AList.update m (i, t i) (transports tc)) = [0..<length (ag_channels ag)]" "distinct (map transport_name (ag_channels ag))"
    unfolding ag_def by (metis option.sel)
  have run: "add_section lib ssl desc m tc
      = Some (set_transport m i (t i) (delete_transport m (tc\<lparr>ice_agent := ag, srtp_usage := libsrtp_usage (t i)\<rparr>)))"
    using False assms(2) i by (auto simp: add_section_def ag_def section_agent_def t_def the_channel_def new_media_ok(3) Let_def split: option.splits)
  have t: "media_ok (t i)" "dtls_state (dtls (t i)) = k_dtls_new" unfolding t_def by (rule new_media_ok)+
  have all: "list_all fine (ag_channels ag)" "list_all (\<lambda>ch. ch_state ch = k_new) (ag_channels ag)" "list_all open_channel (ag_channels ag)"
    unfolding ag_def using assms(1) fine_new fine_ice_params
    by (intro section_agent_all; simp add: fresh_parts_def tc_shape_def open_channel_def ch_set_ice_params_def new_IceTransportChannel_def)+
  have "list_all (\<lambda>(_, _, t). dtls_state (dtls t) = k_dtls_new) (AList.update m (i, t i) (transports tc))"
    using assms(1) t(2) by (intro list_all_update) (auto simp: fresh_parts_def dtls_states_def list_all_iff)
  then have "set (map (\<lambda>(_, _, t). dtls_state (dtls t)) (AList.update m (i, t i) (transports tc))) \<subseteq> {k_dtls_new}"
    by (auto simp: list_all_iff)
  then show ?thesis using assms(1) sh t(1) all unfolding run
    by (auto simp: fresh_parts_def tc_shape_def transports_ok_def dtls_states_def set_transport_def delete_transport_def ag_def list_all_update
        split: option.split)
qed (use assms in \<open>simp add: add_section_def\<close>)

lemma add_sections_fresh:
  "fresh_parts tc \<Longrightarrow> (\<forall>m \<in> set ms. bundled_away desc m \<noteq> None) \<Longrightarrow> safely fresh_parts (add_sections lib ssl desc ms tc)"
proof (induction ms arbitrary: tc)
  case (Cons m ms)
  show ?case unfolding add_sections.simps
    by (rule safely_bind [OF add_section_fresh]) (use Cons in simp_all)
qed simp

definition names :: "'ctx TransportController \<Rightarrow> bytes list" where
  "names tc = map transport_name (chans tc)"

lemma has_transport: "tc_shape tc \<Longrightarrow> get_transport m tc \<noteq> None \<longleftrightarrow> m \<in> set (names tc)"
  by (simp add: get_transport_def map_of_eq_None_iff tc_shape_def names_def flip: set_map)

lemma run_channel_good:
  assumes "tc_good tc" "i < length (chans tc)" "enabled inp (chans tc ! i)" "input_safe sha1 inp (chans tc ! i)"
  shows "safely (\<lambda>tc'. tc_good tc' \<and> names tc' = names tc) (run_channel sha1 ntop lib ssl i inp tc)"
proof (rule safely_mono [OF run_channel_safe [OF assms]], elim conjE exE, intro conjI)
  fix tc' :: "'a TransportController" and ch'
  assume "chan_run sha1 ntop inp ((chans tc ! i)\<lparr>trace := []\<rparr>) = Some ch'" "chans tc' = (chans tc)[i := ch'\<lparr>trace := []\<rparr>]"
  moreover from this(1) have "transport_name ch' = transport_name (chans tc ! i)" by (auto dest: chan_run_tells simp: announced_def)
  ultimately show "names tc' = names tc" using assms(2) by (simp add: names_def map_update list_update_same_conv)
qed

lemma run_media_good:
  assumes "tc_good tc" "\<And>t. media_ok t \<Longrightarrow> safely media_ok (f t)" "\<And>t. yields (signalled lib t) (f t)"
  shows "safely (\<lambda>tc'. tc_good tc' \<and> names tc' = names tc) (run_media n f tc)"
  using safely_yields [OF run_media_safe [where tc = tc and n = n, OF _ assms(2,3)] in_step_media [of tc n f]] assms(1)
  by (auto simp: tc_good_def names_def elim!: safely_mono)

lemma gather_channels_good:
  "tc_good tc \<Longrightarrow> \<forall>i \<in> set ids. i < length (chans tc) \<Longrightarrow>
    safely (\<lambda>tc'. tc_good tc' \<and> names tc' = names tc) (gather_channels sha1 ntop lib ssl bound pa ids tc)"
proof (induction ids arbitrary: tc)
  case (Cons i ids)
  have run: "safely (\<lambda>tc'. tc_good tc' \<and> names tc' = names tc) (run_channel sha1 ntop lib ssl i (in_gathering_candidate (bound i) pa) tc)"
    using Cons.prems by (intro run_channel_good) simp_all
  show ?case unfolding gather_channels.simps
  proof (rule safely_bind [OF run], elim conjE)
    fix tc' :: "'a TransportController"
    assume tc': "tc_good tc'" "names tc' = names tc"
    then have "length (chans tc') = length (chans tc)" unfolding names_def by (blast intro: map_eq_imp_length_eq)
    with Cons.IH [OF tc'(1)] Cons.prems(2) tc'(2)
    show "safely (\<lambda>tc'. tc_good tc' \<and> names tc' = names tc) (gather_channels sha1 ntop lib ssl bound pa ids tc')" by simp
  qed
qed simp

lemma new_controller_fresh: "fresh_parts (tc_set_local_certificate c (new_TransportController u))"
  by (simp add: fresh_parts_def tc_set_local_certificate_def new_TransportController_def new_IceAgent_def tc_shape_def
      transports_ok_def dtls_states_def)

lemma add_sections_names:
  "list_all open_channel (chans tc) \<Longrightarrow> yields (\<lambda>tc'. list_all open_channel (chans tc')
     \<and> set (names tc') \<subseteq> set (names tc) \<union> {m \<in> set ms. bundled_away desc m = Some False}) (add_sections lib ssl desc ms tc)"
proof (induction ms arbitrary: tc)
  case (Cons m ms)
  have del: "chans (delete_transport m tc) = chans tc" for tc :: "'a TransportController"
    by (simp add: delete_transport_def split: option.split)
  have all: "list_all open_channel (ag_channels (section_agent desc m (ice_agent tc)))"
    by (rule section_agent_all [OF Cons.prems]) (simp_all add: open_channel_def ch_set_ice_params_def new_IceTransportChannel_def)
  have "set (map transport_name (ag_channels (section_agent desc m (ice_agent tc)))) \<subseteq> insert m (set (names tc))"
  proof -
    have "map transport_name (ag_channels (section_agent desc m (ice_agent tc))) = names tc
        \<or> map transport_name (ag_channels (section_agent desc m (ice_agent tc))) = names tc @ [m]"
      using section_agent_channel [OF Cons.prems, of m desc] unfolding names_def by blast
    then show ?thesis by (elim disjE) (simp_all only:, auto)
  qed
  then have one: "yields (\<lambda>tc'. list_all open_channel (chans tc') \<and> set (names tc') \<subseteq> set (names tc) \<union> {n. n = m \<and> bundled_away desc m = Some False})
      (add_section lib ssl desc m tc)"
    using all Cons.prems unfolding add_section_def Let_def section_agent_def
    by (intro yields_read) (auto simp: names_def del intro!: yields_read split: if_splits option.splits)
  show ?case unfolding add_sections.simps
    by (rule yields_bind [OF one], rule yields_mono [OF Cons.IH]) (auto dest!: subsetD)
qed simp

lemma set_local_description_good:
  assumes "fresh_parts tc" "\<forall>m \<in> mid ` set (contents desc). bundled_away desc m \<noteq> None"
  shows "safely (\<lambda>(r, tc'). r = 0 \<and> tc_good tc'
      \<and> set (names tc') \<subseteq> set (names tc) \<union> {m \<in> mid ` set (contents desc). bundled_away desc m = Some False})
    (tc_set_local_description sha1 ntop lib ssl bound pa (Some desc) tc)"
proof -
  have "safely fresh_parts (add_sections lib (ssl 0) desc (map mid (contents desc)) tc)" using assms by (intro add_sections_fresh) auto
  then obtain tc1 where tc1: "add_sections lib (ssl 0) desc (map mid (contents desc)) tc = Some tc1" "fresh_parts tc1" by (elim safelyE)
  from tc1(2) have "tc_good tc1" using fresh_iff [of tc1] by (simp add: tc_fresh_def)
  moreover have "list_all open_channel (chans tc)" using assms(1) by (simp add: fresh_parts_def tc_shape_def)
  from yieldsD [OF add_sections_names [OF this] tc1(1)]
  have "set (names tc1) \<subseteq> set (names tc) \<union> {m \<in> mid ` set (contents desc). bundled_away desc m = Some False}" by simp
  ultimately show ?thesis
    using gather_channels_good [of tc1 "[0..<length (chans tc1)]" sha1 ntop lib ssl bound pa]
    by (auto simp: tc_set_local_description_def tc1(1) elim!: safelyE)
qed

text \<open>
  Which sections of an answer can be applied: the bundle group is not empty, and a section with a
  transport has a fingerprint.
\<close>

definition section_safe :: "SessionDescription \<Rightarrow> 'ctx TransportController \<Rightarrow> bytes \<Rightarrow> bool" where
  "section_safe desc tc m \<longleftrightarrow> (case bundled_away desc m of None \<Rightarrow> False | Some True \<Rightarrow> True
     | Some False \<Rightarrow> (case get_transport_info m desc of None \<Rightarrow> True
         | Some td \<Rightarrow> get_transport m tc = None \<or> identity_fingerprint td \<noteq> None))"

lemma remote_section_good:
  assumes "tc_good tc" "section_safe desc tc m"
  shows "safely (\<lambda>tc'. tc_good tc' \<and> names tc' = names tc) (remote_section sha1 ntop lib ssl now desc m tc)"
proof -
  have channel: "safely (\<lambda>tc'. tc_good tc' \<and> names tc' = names tc) (case get_channel m RTP (ice_agent tc) of None \<Rightarrow> Some tc
      | Some i \<Rightarrow> run_channel sha1 ntop lib ssl i (in_set_remote_ice_params now (ice_params_of td)) tc)" for td
    using assms(1) by (auto simp: get_channel_def intro!: run_channel_good dest: find_channel_Some split: option.split)
  have media: "safely (\<lambda>tc'. tc_good tc' \<and> names tc' = names tc) (case get_transport m tc1 of None \<Rightarrow> Some tc1
      | Some _ \<Rightarrow> identity_fingerprint td \<bind> (\<lambda>fp. run_media m
          (\<lambda>t. map_option snd (set_remote_fingerprint lib (ssl 0) (fp_algorithm fp) (fp_digest fp) t)) tc1))"
    if fpr: "get_transport m tc = None \<or> identity_fingerprint td \<noteq> None" and "tc_good tc1 \<and> names tc1 = names tc" for td tc1
  proof (cases "get_transport m tc1")
    case (Some x)
    then have "get_transport m tc \<noteq> None"
      using that(2) assms(1) has_transport [of tc m] has_transport [of tc1 m] by (auto simp: tc_good_def in_step_def)
    then obtain fp where "identity_fingerprint td = Some fp" using fpr by auto
    moreover have "safely (\<lambda>tc'. tc_good tc' \<and> names tc' = names tc1) (run_media m
        (\<lambda>t. map_option snd (set_remote_fingerprint lib (ssl 0) (fp_algorithm fp) (fp_digest fp) t)) tc1)"
      using that(2) by (intro run_media_good [where lib = lib]) (simp_all add: media_slots_ok set_remote_fingerprint_signals)
    ultimately show ?thesis using Some that(2) by simp
  qed (use that in simp)
  show ?thesis
  proof (cases "bundled_away desc m = Some False \<and> get_transport_info m desc \<noteq> None")
    case True
    then obtain td where td: "get_transport_info m desc = Some td" by auto
    with True assms(2) have "get_transport m tc = None \<or> identity_fingerprint td \<noteq> None" by (simp add: section_safe_def)
    from safely_bind [OF channel [of td] media [OF this]] show ?thesis using True td by (simp add: remote_section_def)
  next
    case False
    then show ?thesis using assms by (auto simp: remote_section_def section_safe_def split: option.splits bool.splits)
  qed
qed

lemma remote_section_unsafe:
  assumes "tc_good tc" "\<not> section_safe desc tc m"
  shows "remote_section sha1 ntop lib ssl now desc m tc = None"
proof (cases "bundled_away desc m")
  case (Some b)
  with assms(2) obtain td where td: "b = False" "get_transport_info m desc = Some td" "get_transport m tc \<noteq> None" "identity_fingerprint td = None"
    by (auto simp: section_safe_def split: bool.splits option.splits)
  have "get_transport m tc1 \<noteq> None" if "(case get_channel m RTP (ice_agent tc) of None \<Rightarrow> Some tc
      | Some i \<Rightarrow> run_channel sha1 ntop lib ssl i (in_set_remote_ice_params now (ice_params_of td)) tc) = Some tc1" for tc1
  proof -
    have "safely (\<lambda>tc'. tc_good tc' \<and> names tc' = names tc) (case get_channel m RTP (ice_agent tc) of None \<Rightarrow> Some tc
      | Some i \<Rightarrow> run_channel sha1 ntop lib ssl i (in_set_remote_ice_params now (ice_params_of td)) tc)"
      using assms(1) by (auto simp: get_channel_def intro!: run_channel_good dest: find_channel_Some split: option.split)
    with that have "tc_good tc1" "names tc1 = names tc" by simp_all
    then show ?thesis
      using td(3) assms(1) has_transport [of tc m] has_transport [of tc1 m] by (auto simp: tc_good_def in_step_def)
  qed
  then show ?thesis using Some td by (auto simp: remote_section_def split: option.splits bind_splits)
qed (simp add: remote_section_def)

lemma section_safe_cong:
  assumes "tc_good tc" "tc_good tc'" "names tc' = names tc"
  shows "section_safe desc tc' m = section_safe desc tc m"
proof -
  have "get_transport m tc' = None \<longleftrightarrow> get_transport m tc = None"
    using assms has_transport [of tc m] has_transport [of tc' m] by (auto simp: tc_good_def in_step_def)
  then show ?thesis by (simp add: section_safe_def split: option.split bool.split)
qed

lemma remote_sections_spec:
  assumes "tc_good tc"
  shows "if list_all (section_safe desc tc) ms
    then safely (\<lambda>tc'. tc_good tc' \<and> names tc' = names tc) (remote_sections sha1 ntop lib ssl now desc ms tc)
    else remote_sections sha1 ntop lib ssl now desc ms tc = None"
  using assms
proof (induction ms arbitrary: tc)
  case (Cons m ms)
  show ?case
  proof (cases "section_safe desc tc m")
    case True
    from remote_section_good [OF Cons.prems True, of sha1 ntop lib ssl now] obtain tc1 where tc1: "remote_section sha1 ntop lib ssl now desc m tc = Some tc1"
        "tc_good tc1" "names tc1 = names tc" by (auto elim: safelyE)
    have "list_all (section_safe desc tc1) ms = list_all (section_safe desc tc) ms"
      using section_safe_cong [OF Cons.prems tc1(2,3)] by (simp add: list_all_iff)
    with Cons.IH [OF tc1(2)] show ?thesis using True tc1 by (simp split: if_splits)
  qed (use remote_section_unsafe [OF Cons.prems] in simp)
qed simp

section \<open>Runs of a controller\<close>

text \<open>
  The events of a controller: a datagram or a timer of one of its channels, an adapter that acts on
  its own, the answer, and packets to send.
\<close>

datatype tc_input =
    in_channel nat chan_input
  | in_adapter bytes "ssl_action list"
  | in_answer int SessionDescription
  | in_rtp bytes bytes
  | in_rtcp bytes bytes

fun tc_run :: "(bytes \<Rightarrow> bytes) \<Rightarrow> (IPAddress \<Rightarrow> bytes) \<Rightarrow> 'ctx libsrtp \<Rightarrow> (nat \<Rightarrow> ssl_stream) \<Rightarrow> tc_input
    \<Rightarrow> 'ctx TransportController \<Rightarrow> 'ctx TransportController option" where
  "tc_run sha1 ntop lib ssl (in_channel i inp) tc = run_channel sha1 ntop lib ssl i inp tc"
| "tc_run sha1 ntop lib ssl (in_adapter name acts) tc =
     run_media name (\<lambda>t. if ssl_adapter (dtls t) then ssl_run lib (ssl 0) acts t else Some t) tc"
| "tc_run sha1 ntop lib ssl (in_answer now desc) tc =
     map_option snd (tc_set_remote_description sha1 ntop lib ssl now (Some desc) tc)"
| "tc_run sha1 ntop lib ssl (in_rtp name data) tc = tc_send_rtp lib name data tc"
| "tc_run sha1 ntop lib ssl (in_rtcp name data) tc = tc_send_rtcp lib name data tc"

fun tc_enabled :: "tc_input \<Rightarrow> 'ctx TransportController \<Rightarrow> bool" where
  "tc_enabled (in_channel i inp) tc \<longleftrightarrow> i < length (chans tc) \<and> enabled inp (chans tc ! i)"
| "tc_enabled (in_rtp name data) tc \<longleftrightarrow> 12 \<le> length data"
| "tc_enabled _ tc \<longleftrightarrow> True"

fun tc_input_safe :: "(bytes \<Rightarrow> bytes) \<Rightarrow> tc_input \<Rightarrow> 'ctx TransportController \<Rightarrow> bool" where
  "tc_input_safe sha1 (in_channel i inp) tc \<longleftrightarrow> input_safe sha1 inp (chans tc ! i)"
| "tc_input_safe sha1 (in_answer now desc) tc \<longleftrightarrow> list_all (section_safe desc tc) (map mid (contents desc))"
| "tc_input_safe sha1 _ tc \<longleftrightarrow> True"

text \<open>A controller starts with a certificate and the description of an offer.\<close>

inductive tc_reach :: "(bytes \<Rightarrow> bytes) \<Rightarrow> (IPAddress \<Rightarrow> bytes) \<Rightarrow> 'ctx libsrtp \<Rightarrow> 'ctx TransportController \<Rightarrow> bool"
  for sha1 ntop lib where
  offer: "list_all (\<lambda>m. bundled_away desc m \<noteq> None) (map mid (contents desc)) \<Longrightarrow>
    tc_set_local_description sha1 ntop lib ssl bound pa (Some desc)
      (tc_set_local_certificate cert (new_TransportController usage)) = Some (r, tc) \<Longrightarrow> tc_reach sha1 ntop lib tc"
| step: "tc_reach sha1 ntop lib tc \<Longrightarrow> tc_enabled inp tc \<Longrightarrow> tc_run sha1 ntop lib ssl inp tc = Some tc' \<Longrightarrow> tc_reach sha1 ntop lib tc'"

lemma adapter_ok: "media_ok t \<Longrightarrow> safely media_ok (if ssl_adapter (dtls t) then ssl_run lib ssl acts t else Some t)"
  using media_run_ok [of t "in_ssl acts" lib ssl] by (simp add: media_enabled_def)

lemma tc_run_spec:
  assumes "tc_good tc" "tc_enabled inp tc"
  shows "if tc_input_safe sha1 inp tc then safely (\<lambda>tc'. tc_good tc' \<and> names tc' = names tc) (tc_run sha1 ntop lib ssl inp tc) else tc_run sha1 ntop lib ssl inp tc = None"
proof (cases inp)
  case (in_channel i ci)
  then show ?thesis
    using assms run_channel_unsafe [OF assms(1), of i ci sha1 ntop lib ssl]
      run_channel_good [OF assms(1), of i ci sha1 ntop lib ssl]
    by simp
next
  case (in_answer now desc)
  then show ?thesis
    using remote_sections_spec [OF assms(1), of desc "map mid (contents desc)" sha1 ntop lib ssl now]
    by (auto simp: tc_set_remote_description_def option.map_comp o_def option.map_ident split: if_splits)
next
  case (in_adapter name acts)
  have "yields (signalled lib t) (if ssl_adapter (dtls t) then ssl_run lib (ssl 0) acts t else Some t)" for t :: "'a MediaTransport"
    by (simp add: ssl_run_signals)
  from run_media_good [OF assms(1) adapter_ok this] show ?thesis using in_adapter by simp
next
  case (in_rtp name data)
  have "safely media_ok (map_option snd (srtp_send_rtp lib data t))" if "media_ok t" for t :: "'a MediaTransport"
    using media_slots_ok(5) [OF that] assms(2) in_rtp by simp
  moreover have "yields (signalled lib t) (map_option snd (srtp_send_rtp lib data t))" for t :: "'a MediaTransport"
    by (simp add: send_signals)
  ultimately show ?thesis using run_media_good [OF assms(1), where lib = lib] in_rtp by (simp add: tc_send_rtp_def)
next
  case (in_rtcp name data)
  have "safely media_ok (Some (snd (srtp_send_rtcp lib data t)))" if "media_ok t" for t :: "'a MediaTransport"
    using media_slots_ok(6) [OF that] by simp
  moreover have "yields (signalled lib t) (Some (snd (srtp_send_rtcp lib data t)))" for t :: "'a MediaTransport"
    by (simp add: send_signals)
  ultimately show ?thesis using run_media_good [OF assms(1), where lib = lib] in_rtcp by (simp add: tc_send_rtcp_def)
qed

lemma tc_reach_good: "tc_reach sha1 ntop lib tc \<Longrightarrow> tc_good tc"
proof (induction rule: tc_reach.induct)
  case (offer desc ssl bound pa cert usage r tc)
  then have "\<forall>m \<in> mid ` set (contents desc). bundled_away desc m \<noteq> None" by (auto simp: list_all_iff)
  from set_local_description_good [OF new_controller_fresh [of cert usage] this, of sha1 ntop lib ssl bound pa] offer(2) show ?case by simp
next
  case (step tc inp ssl tc')
  from tc_run_spec [OF step.IH step.hyps(2), of sha1 ntop lib ssl] step.hyps(3) show ?case by (simp split: if_splits)
qed

section \<open>The events of a controller only grow\<close>

fun genuine_event :: "'ctx libsrtp \<Rightarrow> tc_event \<Rightarrow> bool" where
  "genuine_event lib (tc_rtp_packet p ts) = decrypted lib p"
| "genuine_event lib _ = True"

definition grows :: "'ctx libsrtp \<Rightarrow> 'ctx TransportController \<Rightarrow> 'ctx TransportController \<Rightarrow> bool" where
  "grows lib tc tc' \<longleftrightarrow> (\<exists>es. tc_events tc' = tc_events tc @ es \<and> list_all (genuine_event lib) es)"

lemma grows_same: "tc_events tc' = tc_events tc \<Longrightarrow> grows lib v tc \<Longrightarrow> grows lib v tc'"
  by (simp add: grows_def)

lemma grows_refl [simp]: "grows lib tc tc"
  by (simp add: grows_def)

lemma grows_trans: "grows lib v tc \<Longrightarrow> grows lib tc tc' \<Longrightarrow> grows lib v tc'"
  by (auto simp: grows_def)

lemma grows_notify: "grows lib v tc \<Longrightarrow> genuine_event lib e \<Longrightarrow> grows lib v (notify e tc)"
  by (auto simp: grows_def)

lemma grows_update: "grows lib v tc \<Longrightarrow> grows lib v (tc_update_state tc)"
  by (auto simp: tc_update_state_def Let_def intro!: grows_notify elim: grows_same [rotated])

lemma grows_signal: "grows lib v tc \<Longrightarrow> genuine_signal lib s \<Longrightarrow> grows lib v (on_media_signal n s tc)"
  by (cases s) (auto intro!: grows_notify grows_update elim: grows_same [rotated] simp: see_dtls_state_def split: option.split)

lemma grows_signals: "grows lib v tc \<Longrightarrow> list_all (genuine_signal lib) ss \<Longrightarrow> grows lib v (fold (on_media_signal n) ss tc)"
  by (induction ss arbitrary: tc) (simp_all add: grows_signal)

lemma grows_media:
  assumes "grows lib v tc" "\<And>t. yields (signalled lib t) (f t)"
  shows "yields (grows lib v) (run_media n f tc)"
proof (cases "get_transport n tc")
  case (Some x)
  obtain i t where x: "x = (i, t)" by (cases x)
  let ?t0 = "t\<lparr>ice_writable := ch_writable (the_channel i tc), libsrtp_usage := srtp_usage tc, signals := []\<rparr>"
  have "grows lib v (fold (on_media_signal n) (signals t') (set_transport n i u (tc\<lparr>srtp_usage := w\<rparr>)))" if "f ?t0 = Some t'" for t' u w
  proof (rule grows_signals)
    show "grows lib v (set_transport n i u (tc\<lparr>srtp_usage := w\<rparr>))" by (rule grows_same [OF _ assms(1)]) simp
    show "list_all (genuine_signal lib) (signals t')" using yieldsD [OF assms(2) that] by (simp add: signalled_def)
  qed
  then show ?thesis using Some x by (auto simp: run_media_def Let_def intro: yields_read)
qed (simp add: run_media_def assms(1))

lemma grows_agent: "grows lib v tc \<Longrightarrow> grows lib v (on_agent_update tc)"
  by (auto simp: on_agent_update_def ag_update_state_def Let_def intro!: grows_update elim: grows_same [rotated])

lemma grows_channel_event: "grows lib v tc \<Longrightarrow> yields (grows lib v) (on_channel_event lib ssl i e tc)"
proof -
  assume g: "grows lib v tc"
  have up: "grows lib v (on_agent_update (upd_channel i f tc))" for f
    by (rule grows_agent, rule grows_same [OF _ g]) (simp add: upd_channel_def)
  show ?thesis
    by (cases e) (auto simp: Let_def g intro!: up grows_notify grows_media dtls_on_writable_state_signals dtls_on_read_packet_signals
        set_receiving_signals)
qed

lemma grows_channel_events: "grows lib v tc \<Longrightarrow> yields (grows lib v) (on_channel_events lib ssl i es tc)"
  by (induction es arbitrary: tc) (auto intro!: yields_keep grows_channel_event)

lemma grows_channel: "grows lib v tc \<Longrightarrow> yields (grows lib v) (run_channel sha1 ntop lib ssl i inp tc)"
  unfolding run_channel_def Let_def
  by (rule yields_read, rule grows_channel_events) (erule grows_same [rotated], simp add: upd_channel_def)

lemma grows_remote_section: "grows lib v tc \<Longrightarrow> yields (grows lib v) (remote_section sha1 ntop lib ssl now desc m tc)"
proof -
  assume g: "grows lib v tc"
  show ?thesis
    using g unfolding remote_section_def
    by (intro yields_read) (auto intro!: yields_keep yields_read grows_media set_remote_fingerprint_signals split: option.split,
        (erule (1) yieldsD [OF grows_channel])+)
qed

lemma grows_remote_sections: "grows lib v tc \<Longrightarrow> yields (grows lib v) (remote_sections sha1 ntop lib ssl now desc ms tc)"
  by (induction ms arbitrary: tc) (auto intro!: yields_keep grows_remote_section)

lemma tc_run_grows: "yields (grows lib tc) (tc_run sha1 ntop lib ssl inp tc)"
  by (cases inp) (auto simp: tc_set_remote_description_def tc_send_rtp_def tc_send_rtcp_def option.map_comp o_def option.map_ident
      intro!: grows_channel grows_media grows_remote_sections send_signals ssl_run_signals)

lemma grows_add_section: "grows lib v tc \<Longrightarrow> yields (grows lib v) (add_section lib ssl desc m tc)"
proof -
  have "tc_events (delete_transport m tc) = tc_events tc" for tc :: "'a TransportController"
    by (simp add: delete_transport_def split: option.split)
  then show "grows lib v tc \<Longrightarrow> ?thesis" unfolding add_section_def Let_def by (auto intro!: yields_read simp: grows_def)
qed

lemma set_local_description_grows:
  "yields (grows lib tc) (map_option snd (tc_set_local_description sha1 ntop lib ssl bound pa desc tc))"
proof -
  have add: "yields (grows lib v) (add_sections lib ssl desc ms tc)" if "grows lib v tc" for v tc :: "'a TransportController" and ssl desc ms
    using that by (induction ms arbitrary: tc) (auto intro!: yields_keep grows_add_section)
  have gather: "yields (grows lib v) (gather_channels sha1 ntop lib ssl bound pa ids tc)" if "grows lib v tc" for v tc :: "'a TransportController" and ids
    using that by (induction ids arbitrary: tc) (auto intro!: yields_keep grows_channel)
  show ?thesis unfolding tc_set_local_description_def
    by (auto intro!: yields_bind [OF add [OF grows_refl]] yields_bind [OF gather] split: option.split)
qed

section \<open>Claims\<close>

text \<open>
  C13. The controller over everything below it fails exactly on two kinds of input: a packet that
  the channel cannot handle safely, and an answer with a section that has a transport but no
  fingerprint (or whose bundle group is empty).  In every other case the event is handled to its end
  and all ICE, DTLS and SRTP state stays consistent for the next one.
\<close>

theorem controller_fails_iff:
  assumes "tc_reach sha1 ntop lib tc" "tc_enabled inp tc"
  shows "tc_run sha1 ntop lib ssl inp tc = None \<longleftrightarrow> \<not> tc_input_safe sha1 inp tc"
  using tc_run_spec [OF tc_reach_good [OF assms(1)] assms(2), of sha1 ntop lib ssl] by (auto elim: safelyE split: if_splits)

text \<open>
  C12. In every reachable state, the connection state reported last to the peer connection is the
  one the transports are in now: failed if any ICE or DTLS transport failed, else disconnected if an
  ICE channel is, else new if all of them are new (or DTLS is closed), else connecting while any is
  still on its way, else connected.  No change of a part is missed.
\<close>

theorem connection_state_up_to_date:
  assumes "tc_reach sha1 ntop lib tc"
  shows "last_state (tc_events tc) k_pc_new =
    (if (\<exists>ch \<in> set (chans tc). ch_state ch = k_failed) \<or> k_dtls_failed \<in> set (dtls_states tc) then k_pc_failed
     else if \<exists>ch \<in> set (chans tc). ch_state ch = k_disconnected then k_pc_disconnected
     else if (\<forall>ch \<in> set (chans tc). ch_state ch = k_new) \<and> set (dtls_states tc) \<subseteq> {k_dtls_new, k_dtls_closed} then k_pc_new
     else if (\<exists>ch \<in> set (chans tc). ch_state ch \<noteq> k_connected) \<or> k_dtls_new \<in> set (dtls_states tc)
       \<or> k_dtls_connecting \<in> set (dtls_states tc) then k_pc_connecting
     else k_pc_connected)"
proof -
  have step: "in_step tc" using tc_reach_good [OF assms] by (simp add: tc_good_def)
  then have shape: "tc_shape tc" by (simp add: in_step_def)
  then have st: "list_all (\<lambda>ch. ch_state ch \<noteq> k_completed \<and> ch_state ch \<noteq> k_closed) (chans tc)"
    by (auto simp: tc_shape_def open_channel_def list_all_iff)
  have "last_state (tc_events tc) k_pc_new = pc_of (aggregate_state (chans tc)) (dtls_states tc)"
    using step by (auto simp: in_step_def reported_def)
  then show ?thesis unfolding aggregate_state_worst [OF st] pc_of_def
    using shape by (auto simp: tc_shape_def dtls_states_def)
qed

section \<open>Witnesses\<close>

text \<open>A controller with one audio section, and an answer without a fingerprint.\<close>

definition sample_section :: "SdpType \<Rightarrow> TransportDescription list \<Rightarrow> SessionDescription" where
  "sample_section ty tds = (new_SessionDescription ty)\<lparr>contents := [AudioContentDescription k_inactive], transport_infos := tds\<rparr>"

definition sample_tc :: "srtp_policy TransportController" where
  "sample_tc = \<lparr>ice_agent = \<lparr>ag_channels = [new_IceTransportChannel (bytes_of ''audio'') RTP], ag_ice_state = k_new\<rparr>,
     transports = [(bytes_of ''audio'', 0, snd (set_local_certificate (Some 7) (new_MediaTransport [kSrtpAes128CmSha1_80] True False 0)))],
     tc_certificate = Some 7, pc_state = k_pc_new, srtp_usage = 0, tc_events = []\<rparr>"

lemma sample_section_simps [simp]:
  "map mid (contents (sample_section ty tds)) = [bytes_of ''audio'']" "bundled_away (sample_section ty tds) m = Some False"
  "get_transport_info m (sample_section ty tds) = find (\<lambda>td. td_mid td = m) tds"
  by (simp_all add: sample_section_def AudioContentDescription_def media_mid_def bundled_away_def is_bundle_def get_group_by_name_def
      new_SessionDescription_def get_transport_info_def)

lemma new_media_usage: "libsrtp_usage (snd (set_local_certificate c (new_MediaTransport cs mux wr u))) = u"
  by (simp add: set_local_certificate_def new_MediaTransport_def upd_dtls_def)

lemma sample_tc_reach: "tc_reach toy_sha1 sample_ntop sample_lib sample_tc"
proof (rule tc_reach.offer)
  show "list_all (\<lambda>m. bundled_away (sample_section k_offer []) m \<noteq> None) (map mid (contents (sample_section k_offer [])))" by simp
  show "tc_set_local_description toy_sha1 sample_ntop sample_lib (\<lambda>_. sample_ssl) (\<lambda>_ _. None) pa (Some (sample_section k_offer []))
      (tc_set_local_certificate (Some 7) (new_TransportController 0)) = Some (0, sample_tc)" for pa
    by (simp add: tc_set_local_description_def add_section_def new_media_ok(3) tc_set_local_certificate_def new_TransportController_def
        new_IceAgent_def create_channel_def get_channel_def the_channel_def delete_transport_def get_transport_def set_transport_def
        run_channel_def ch_gathering_candidate_def upd_channel_def GetSupportedDtlsSrtpCryptoSuites_def
        new_media_usage
        new_IceTransportChannel_def sample_tc_def)
qed

theorem controller_fails_iff_witness:
  "tc_run toy_sha1 sample_ntop sample_lib (\<lambda>_. sample_ssl)
     (in_answer 0 (sample_section k_answer [new_TransportDescription\<lparr>td_mid := bytes_of ''audio''\<rparr>])) sample_tc = None"
  using controller_fails_iff [OF sample_tc_reach, of "in_answer 0 (sample_section k_answer [new_TransportDescription\<lparr>td_mid := bytes_of ''audio''\<rparr>])"]
  by (simp add: section_safe_def sample_tc_def get_transport_def new_TransportDescription_def)

theorem connection_state_up_to_date_witness: "last_state (tc_events sample_tc) k_pc_new = k_pc_new"
  unfolding connection_state_up_to_date [OF sample_tc_reach]
  by (simp add: sample_tc_def dtls_states_def new_IceTransportChannel_def new_media_ok(2))

end
