(* ===== verification/Peer_Connection.thy ===== *)
theory Peer_Connection
  imports Transport_Safety
begin

text \<open>
  \<^verbatim>\<open>pc/peer_connection.cpp\<close>: a peer connection over its transport controller, and the
  destructors below it.  What libraries and the operating system answer during an event is one
  record.  The signals of the controller are delivered after the controller ran, in order; those the
  peer connection raises itself are appended to \<open>pc_events\<close>.
\<close>

section \<open>State\<close>

text \<open>
  \<open>sys_direction\<close> is the uninitialised direction of a new content, \<open>sys_ice\<close> the
  random credentials, \<open>sys_bound\<close> the ports given to new sockets and \<open>sys_ssl\<close>
  the answers of the SSL adapters.
\<close>

record 'ctx system =
  sys_sha1 :: "bytes \<Rightarrow> bytes"
  sys_ntop :: "IPAddress \<Rightarrow> bytes"
  sys_lib :: "'ctx libsrtp"
  sys_ssl :: "nat \<Rightarrow> ssl_stream"
  sys_bound :: "nat \<Rightarrow> Network \<Rightarrow> int option"
  sys_allocator :: PortAllocator
  sys_now :: int
  sys_direction :: RtpDirection
  sys_ice :: IceParameters

datatype pc_event =
    pc_connection_state PeerConnectionState
  | pc_rtp_packet bytes
  | pc_rtcp_packet bytes

text \<open>A certificate is its address and the fingerprint that can be computed from it, if any.\<close>

type_synonym certificate = "nat \<times> SSLFingerprint option"

record 'ctx PeerConnection =
  local_desc :: "SessionDescription option"
  remote_desc :: "SessionDescription option"
  pc_certificate :: "certificate option"
  controller :: "'ctx TransportController"
  destroy_timer :: bool
  audio_source :: "StreamParams list"
  video_source :: "StreamParams list"
  pc_events :: "pc_event list"

definition new_PeerConnection :: "int \<Rightarrow> 'ctx PeerConnection" where
  "new_PeerConnection usage = \<lparr>local_desc = None, remote_desc = None, pc_certificate = None,
     controller = new_TransportController usage, destroy_timer = False, audio_source = [], video_source = [], pc_events = []\<rparr>"

section \<open>Slots of the controller\<close>

text \<open>The candidates of the first content with that name are replaced.\<close>

fun put_candidates :: "bytes \<Rightarrow> Candidate list \<Rightarrow> MediaContentDescription list \<Rightarrow> MediaContentDescription list" where
  "put_candidates name cs [] = []"
| "put_candidates name cs (c # cts) = (if name = mid c then add_candidates cs c # cts else c # put_candidates name cs cts)"

definition pc_on_candidate_allocate_done :: "bytes \<Rightarrow> Candidate list \<Rightarrow> 'ctx PeerConnection \<Rightarrow> 'ctx PeerConnection" where
  "pc_on_candidate_allocate_done name cs pc = (case local_desc pc of None \<Rightarrow> pc
     | Some desc \<Rightarrow> pc\<lparr>local_desc := Some (desc\<lparr>contents := put_candidates name cs (contents desc)\<rparr>)\<rparr>)"

fun on_tc_event :: "tc_event \<Rightarrow> 'ctx PeerConnection \<Rightarrow> 'ctx PeerConnection" where
  "on_tc_event (tc_candidate_allocate_done name component cs) pc = pc_on_candidate_allocate_done name cs pc"
| "on_tc_event (tc_connection_state st) pc = pc\<lparr>pc_events := pc_events pc @ [pc_connection_state st]\<rparr>"
| "on_tc_event (tc_rtp_packet p ts) pc = pc\<lparr>pc_events := pc_events pc @ [pc_rtp_packet p]\<rparr>"
| "on_tc_event (tc_rtcp_packet p ts) pc = pc\<lparr>pc_events := pc_events pc @ [pc_rtcp_packet p]\<rparr>"
| "on_tc_event (tc_send_to name port buf addr) pc = pc"
| "on_tc_event (tc_channel_send name data) pc = pc"

definition run_controller :: "('ctx TransportController \<Rightarrow> 'ctx TransportController option) \<Rightarrow> 'ctx PeerConnection
    \<Rightarrow> 'ctx PeerConnection option" where
  "run_controller f pc = do {
     tc \<leftarrow> f (controller pc);
     Some (fold on_tc_event (drop (length (tc_events (controller pc))) (tc_events tc)) (pc\<lparr>controller := tc\<rparr>))
   }"

section \<open>Operations\<close>

definition pc_init :: "certificate option \<Rightarrow> 'ctx PeerConnection \<Rightarrow> 'ctx PeerConnection" where
  "pc_init cert pc = pc\<lparr>pc_certificate := cert, controller := tc_set_local_certificate (map_option fst cert) (controller pc)\<rparr>"

text \<open>The timer deletes the peer connection 10 ms later; a timer that is already set is replaced.\<close>

definition pc_destroy :: "'ctx PeerConnection \<Rightarrow> 'ctx PeerConnection" where
  "pc_destroy pc = pc\<lparr>destroy_timer := True\<rparr>"

definition pc_create_offer :: "'ctx system \<Rightarrow> RTCOfferAnswerOptions \<Rightarrow> 'ctx PeerConnection
    \<Rightarrow> (bytes \<times> 'ctx PeerConnection) option" where
  "pc_create_offer sys options pc =
     (if dtls_on options \<and> pc_certificate pc = None then Some ([], pc)
      else do {
        let desc = offer_description (sys_direction sys) options (sys_ice sys) (map_option snd (pc_certificate pc))
          (audio_source pc) (video_source pc);
        pc \<leftarrow> run_controller (\<lambda>tc. map_option snd (tc_set_local_description (sys_sha1 sys) (sys_ntop sys) (sys_lib sys) (sys_ssl sys)
          (sys_bound sys) (sys_allocator sys) (Some desc) tc)) (pc\<lparr>local_desc := Some desc\<rparr>);
        desc \<leftarrow> local_desc pc;
        Some (sdp_to_string (sys_ntop sys) desc, pc)
      })"

definition pc_set_remote_sdp :: "'ctx system \<Rightarrow> bytes \<Rightarrow> 'ctx PeerConnection \<Rightarrow> (int \<times> 'ctx PeerConnection) option" where
  "pc_set_remote_sdp sys sdp pc = do {
     (ret, desc) \<leftarrow> parse_remote_sdp (sys_direction sys) sdp;
     let pc = (case desc of None \<Rightarrow> pc | Some _ \<Rightarrow> pc\<lparr>remote_desc := desc\<rparr>);
     if ret \<noteq> 0 then Some (ret, pc)
     else do {
       pc \<leftarrow> run_controller (\<lambda>tc. map_option snd (tc_set_remote_description (sys_sha1 sys) (sys_ntop sys) (sys_lib sys) (sys_ssl sys)
         (sys_now sys) (remote_desc pc) tc)) pc;
       Some (0, pc)
     }
   }"

text \<open>Media is sent on the transport named audio, whatever the offer contains.\<close>

definition pc_send_rtp :: "'ctx system \<Rightarrow> bytes \<Rightarrow> 'ctx PeerConnection \<Rightarrow> 'ctx PeerConnection option" where
  "pc_send_rtp sys data pc = run_controller (tc_send_rtp (sys_lib sys) (bytes_of ''audio'') data) pc"

definition pc_send_rtcp :: "'ctx system \<Rightarrow> bytes \<Rightarrow> 'ctx PeerConnection \<Rightarrow> 'ctx PeerConnection option" where
  "pc_send_rtcp sys data pc = run_controller (tc_send_rtcp (sys_lib sys) (bytes_of ''audio'') data) pc"

section \<open>Destructors\<close>

text \<open>
  \<^verbatim>\<open>~IceAgent\<close> deletes its channels in order.  A channel that raises a signal while it is
  destroyed makes the agent read the state of every channel, also of those already deleted.
\<close>

fun agent_slot :: "ice_event \<Rightarrow> bool" where
  "agent_slot ev_receiving_state = True"
| "agent_slot ev_writable_state = True"
| "agent_slot (ev_ice_state_changed st) = True"
| "agent_slot _ = False"

fun delete_channels :: "int \<Rightarrow> bool \<Rightarrow> IceTransportChannel list \<Rightarrow> unit option" where
  "delete_channels now some_deleted [] = Some ()"
| "delete_channels now some_deleted (ch # chs) = do {
     ch' \<leftarrow> delete_channel now (ch\<lparr>trace := []\<rparr>);
     if some_deleted \<and> list_ex agent_slot (trace ch') then None else delete_channels now True chs
   }"

text \<open>The SRTP transports go first, with their sessions, then the DTLS transports, then the agent.
  The result is the usage counter of libsrtp.\<close>

definition delete_TransportController :: "int \<Rightarrow> 'ctx TransportController \<Rightarrow> int option" where
  "delete_TransportController now tc = do {
     let usage = fold (\<lambda>(_, _, t) usage. snd (reset_params (dtls_srtp t) usage)) (transports tc) (srtp_usage tc);
     _ \<leftarrow> delete_channels now False (ag_channels (ice_agent tc));
     Some usage
   }"

end
