(* ===== verification/Peer_Safety.thy ===== *)
theory Peer_Safety
  imports Peer_Connection Sdp_Offer
begin

text \<open>
  A peer connection over its controller: deleting it is safe, and its methods keep the invariant of
  the controller, raise the connection states the controller reports, and hand on only RTP packets
  that libsrtp decrypted.
\<close>

section \<open>Deleting a channel\<close>

text \<open>
  While the connections of a channel are destroyed one after the other, the controller can keep a
  pointer to a deleted connection; it is not followed any more.
\<close>

definition dying :: "IceTransportChannel \<Rightarrow> bool" where
  "dying w \<longleftrightarrow> list_all (\<lambda>p. conn_view_of (local_candidate w) (heap w) p \<noteq> None) (c_connections (ice_controller w))
     \<and> (\<forall>s. selected_connection w = Some s \<longrightarrow> c_selected (ice_controller w) = Some s \<and> heap w s \<noteq> None)"

definition same_graph :: "IceTransportChannel \<Rightarrow> IceTransportChannel \<Rightarrow> bool" where
  "same_graph w w' \<longleftrightarrow> heap w' = heap w \<and> ice_controller w' = ice_controller w
     \<and> selected_connection w' = selected_connection w \<and> ports w' = ports w"

lemma view_live: "conn_view_of lc h p \<noteq> None \<Longrightarrow> h p \<noteq> None"
  by (cases "h p") (auto simp: conn_view_of_def)

lemma dying_live: "dying w \<Longrightarrow> p \<in> set (c_connections (ice_controller w)) \<Longrightarrow> heap w p \<noteq> None"
  using view_live by (fastforce simp: dying_def list_all_iff)

lemma same_graph_dying: "same_graph w w' \<Longrightarrow> dying w' = dying w"
proof -
  assume "same_graph w w'"
  moreover from this have "local_candidate w' = local_candidate w" by (simp add: same_graph_def local_candidate_def fun_eq_iff)
  ultimately show ?thesis by (simp add: same_graph_def dying_def)
qed

lemma same_graphD:
  "same_graph w w' \<Longrightarrow> dying w \<Longrightarrow> dying w' \<and> heap w' = heap w \<and> ice_controller w' = ice_controller w \<and> selected_connection w' = selected_connection w"
  using same_graph_dying [of w w'] by (simp add: same_graph_def)

lemma update_state_dying: "dying w \<Longrightarrow> safely (same_graph w) (update_state w)"
proof -
  assume d: "dying w"
  have any: "any_conn P (heap w) (c_connections (ice_controller w)) \<noteq> None" for P
    using any_conn_live [of "c_connections (ice_controller w)" "heap w" P] dying_live [OF d] by simp
  have "(case selected_connection w of None \<Rightarrow> Some False | Some p \<Rightarrow> map_option conn_writable (heap w p)) \<noteq> None"
    using d by (auto simp: dying_def split: option.split)
  moreover have "same_graph w (set_receiving r (set_writable b w))" for r b
    by (simp add: same_graph_def set_receiving_def set_writable_def emit_def Let_def)
  moreover have "same_graph w (emit e (v\<lparr>ch_state := st\<rparr>)) = same_graph w v" for e v st by (simp add: same_graph_def emit_def)
  moreover have "heap (set_writable b w) = heap w" "ice_controller (set_writable b w) = ice_controller w"
    "heap (set_receiving r v) = heap v" "ice_controller (set_receiving r v) = ice_controller v" for b r v
    by (simp_all add: set_writable_def set_receiving_def emit_def Let_def)
  moreover obtain r a where "any_conn conn_receiving (heap w) (c_connections (ice_controller w)) = Some r"
    "any_conn conn_active (heap w) (c_connections (ice_controller w)) = Some a" using any by blast
  ultimately show ?thesis by (auto simp: update_state_def compute_ice_transport_state_def Let_def)
qed

lemma sort_dying:
  assumes "list_all (\<lambda>p. conn_view_of (local_candidate w) (heap w) p \<noteq> None) (c_connections (ice_controller w))"
    "selected_connection w = None" "c_selected (ice_controller w) = Some s" "heap w s \<noteq> None"
  shows "safely (\<lambda>w'. dying w' \<and> dom (heap w') = dom (heap w) \<and> set (c_connections (ice_controller w')) = set (c_connections (ice_controller w))
    \<and> set_option (selected_connection w') \<subseteq> set (c_connections (ice_controller w))) (sort_connections_and_update_state now w)"
proof -
  have "ctl_live (local_candidate w) (heap w) (ice_controller w)" using assms by (simp add: ctl_live_def)
  then obtain ctl res where so: "sort_and_switch_connection (local_candidate w) (heap w) (ice_controller w) = Some (ctl, res)"
    using sort_and_switch_total by blast
  note perm = sort_and_switch_perm [OF so]
  let ?w = "w\<lparr>ice_controller := ctl\<rparr>"
  have lc: "local_candidate (v\<lparr>ice_controller := c\<rparr>) = local_candidate v" "local_candidate (v\<lparr>heap := h\<rparr>) = local_candidate v"
      "local_candidate (v\<lparr>selected_connection := x\<rparr>) = local_candidate v" for v c h x
    by (simp_all add: fun_eq_iff local_candidate_def)
  have views: "conn_view_of (local_candidate w) (heap w) p \<noteq> None" if "p \<in> set (c_connections ctl)" for p
    using assms(1) perm(5) that by (simp add: list_all_iff)
  have sel: "q \<in> set (c_connections ctl)" if "res = Some q" for q using sort_switch_member [OF so that] perm(5) by simp
  have upd: "conn_view_of lc' (h(q \<mapsto> set_selected True c)) p \<noteq> None" if "conn_view_of lc' h p \<noteq> None" "h q = Some c" for lc' h q c p
    using that by (cases "p = q") (auto simp: conn_view_of_def set_selected_def split: bind_splits)
  have switch: "safely (\<lambda>w'. dying w' \<and> dom (heap w') = dom (heap w) \<and> set (c_connections (ice_controller w')) = set (c_connections (ice_controller w))
      \<and> (\<exists>s'. c_selected (ice_controller w') = Some s' \<and> heap w' s' \<noteq> None)
      \<and> set_option (selected_connection w') \<subseteq> set (c_connections (ice_controller w))) (maybe_switch_selected_connection res ?w)"
  proof (cases res)
    case None
    then show ?thesis using views assms(2-4) perm(2,5) by (simp add: maybe_switch_selected_connection_def dying_def list_all_iff lc)
  next
    case (Some q)
    obtain c where c: "heap w q = Some c" using view_live [OF views [OF sel [OF Some]]] by auto
    then show ?thesis using Some views assms(2) perm(5) sel [OF Some] upd [where h = "heap w" and q = q and c = c, OF _ c]
      by (auto simp: maybe_switch_selected_connection_def switch_selected_connection_def upd_conn_def set_selected_connection_def
          dying_def list_all_iff lc Let_def)
  qed
  have update: "safely (\<lambda>w''. same_graph w' w'') (update_state w' \<bind> maybe_start_pinging now)"
    if "dying w'" "c_selected (ice_controller w') = Some s'" "heap w' s' \<noteq> None" for w' s'
  proof (rule safely_bind [OF update_state_dying [OF that(1)]])
    fix x assume x: "same_graph w' x"
    then have "dying x" "sel_live (heap x) (ice_controller x)"
      using that same_graph_dying [OF x] by (auto simp: same_graph_def sel_live_def)
    then have "has_pingable_connection (heap x) now (ice_controller x) \<noteq> None"
      using any_pingable_live [of "heap x" "ice_controller x" "c_connections (ice_controller x)" now] dying_live [of x]
      by (simp add: has_pingable_connection_def)
    then show "safely (same_graph w') (maybe_start_pinging now x)" using x by (auto simp: maybe_start_pinging_def same_graph_def)
  qed
  have "safely (\<lambda>w'. dying w' \<and> dom (heap w') = dom (heap w) \<and> set (c_connections (ice_controller w')) = set (c_connections (ice_controller w))
      \<and> set_option (selected_connection w') \<subseteq> set (c_connections (ice_controller w)))
      (maybe_switch_selected_connection res ?w \<bind> (\<lambda>w. update_state w \<bind> maybe_start_pinging now))"
  proof (rule safely_bind [OF switch], elim conjE exE)
    fix w' s' assume w': "dying w'" "dom (heap w') = dom (heap w)" "set (c_connections (ice_controller w')) = set (c_connections (ice_controller w))"
      "set_option (selected_connection w') \<subseteq> set (c_connections (ice_controller w))" "c_selected (ice_controller w') = Some s'" "heap w' s' \<noteq> None"
    show "safely (\<lambda>w'. dying w' \<and> dom (heap w') = dom (heap w) \<and> set (c_connections (ice_controller w')) = set (c_connections (ice_controller w))
      \<and> set_option (selected_connection w') \<subseteq> set (c_connections (ice_controller w))) (update_state w' \<bind> maybe_start_pinging now)"
      by (rule safely_mono [OF update [OF w'(1,5,6)]]) (drule same_graphD [OF _ w'(1)], simp add: w')
  qed
  then show ?thesis unfolding sort_connections_and_update_state_def so by simp
qed

lemma destroy_dying:
  assumes "dying w" "heap w p \<noteq> None"
  shows "safely (\<lambda>w'. dying w' \<and> dom (heap w') = dom (heap w) - {p}) (destroy now p w)"
proof -
  let ?w = "w\<lparr>ice_controller := ctl_on_connection_destroyed p (ice_controller w)\<rparr>"
  have lc: "local_candidate (v\<lparr>ice_controller := c\<rparr>) = local_candidate v" "local_candidate (v\<lparr>heap := h\<rparr>) = local_candidate v"
      "local_candidate (v\<lparr>selected_connection := x\<rparr>) = local_candidate v" for v c h x
    by (simp_all add: fun_eq_iff local_candidate_def)
  have conns: "p \<notin> set (c_connections (ice_controller ?w))" "c_selected (ice_controller ?w) = c_selected (ice_controller w)"
    by (simp_all add: ctl_on_connection_destroyed_def)
  have dw: "dying ?w" using assms(1) by (auto simp: dying_def list_all_iff lc ctl_on_connection_destroyed_def)
  have free: "dying (w'\<lparr>heap := (heap w')(p := None)\<rparr>)"
    if "dying w'" "p \<notin> set (c_connections (ice_controller w'))" "selected_connection w' \<noteq> Some p" for w'
    using that by (auto simp: dying_def list_all_iff lc conn_view_of_def)
  show ?thesis
  proof (cases "selected_connection w = Some p")
    case True
    obtain c where c: "heap w p = Some c" using assms(2) by auto
    let ?v = "?w\<lparr>selected_connection := None, heap := (heap w)(p \<mapsto> set_selected False c)\<rparr>"
    have views: "list_all (\<lambda>q. conn_view_of (local_candidate ?v) (heap ?v) q \<noteq> None) (c_connections (ice_controller ?v))"
      using dw c conns(1) by (auto simp: dying_def list_all_iff lc conn_view_of_def set_selected_def split: bind_splits)
    have "c_selected (ice_controller ?v) = Some p" using True assms(1) conns(2) by (simp add: dying_def)
    from sort_dying [OF views _ this, of now] have "safely (\<lambda>w'. dying w' \<and> dom (heap w') = dom (heap w) \<and> p \<notin> set (c_connections (ice_controller w'))
        \<and> selected_connection w' \<noteq> Some p) (sort_connections_and_update_state now ?v)"
      by (rule safely_mono [rotated 2]) (use c conns(1) in auto)
    then show ?thesis using True c free
      by (auto simp: destroy_def on_connection_destroyed_def switch_selected_connection_def upd_conn_def Let_def elim!: safelyE)
  next
    case False
    have "safely (\<lambda>w'. dying w' \<and> dom (heap w') = dom (heap w) \<and> p \<notin> set (c_connections (ice_controller w')) \<and> selected_connection w' \<noteq> Some p)
        (update_state ?w)"
      by (rule safely_mono [OF update_state_dying [OF dw]]) (drule same_graphD [OF _ dw], use conns(1) False in simp)
    then show ?thesis using False assms(2) free by (auto simp: destroy_def on_connection_destroyed_def Let_def elim!: safelyE)
  qed
qed

lemma destroy_all_dying:
  "dying w \<Longrightarrow> distinct ps \<Longrightarrow> set ps \<subseteq> dom (heap w) \<Longrightarrow> safely (\<lambda>_. True) (destroy_all now ps w)"
proof (induction ps arbitrary: w)
  case (Cons p ps)
  have "heap w p \<noteq> None" using Cons.prems by auto
  from destroy_dying [OF Cons.prems(1) this, of now] show ?case
    unfolding destroy_all.simps by (rule safely_bind) (use Cons in \<open>auto intro!: Cons.IH\<close>)
qed simp

lemma delete_channel_safe: "fine w \<Longrightarrow> \<exists>w'. delete_channel now w = Some w'"
proof -
  assume w: "fine w"
  let ?w = "w\<lparr>ping_watcher := None\<rparr>"
  have lc: "local_candidate ?w = local_candidate w" by (simp add: fun_eq_iff local_candidate_def)
  have "dying ?w" using chan_inv_parts(7) [of w] w by (auto simp: dying_def ctl_live_def lc chan_inv_def split: option.splits)
  moreover have "distinct (c_connections (ice_controller w))" "set (c_connections (ice_controller w)) = dom (heap w)"
    using w by (auto simp: chan_inv_def ctl_inv_def)
  ultimately show ?thesis using destroy_all_dying [of ?w "c_connections (ice_controller w)" now]
    by (auto simp: delete_channel_def elim!: safelyE)
qed

lemma delete_TransportController_safe:
  assumes "tc_good tc" "length (chans tc) \<le> 1"
  shows "\<exists>u. delete_TransportController now tc = Some u"
proof (cases "chans tc")
  case (Cons ch chs)
  then have "fine (ch\<lparr>trace := []\<rparr>)" "chs = []" using assms by (simp_all add: tc_good_def)
  then show ?thesis using delete_channel_safe [of "ch\<lparr>trace := []\<rparr>" now] Cons by (auto simp: delete_TransportController_def)
qed (simp add: delete_TransportController_def)

section \<open>Methods of a peer connection\<close>

fun pc_events_of :: "tc_event list \<Rightarrow> pc_event list" where
  "pc_events_of [] = []"
| "pc_events_of (tc_connection_state st # es) = pc_connection_state st # pc_events_of es"
| "pc_events_of (tc_rtp_packet p ts # es) = pc_rtp_packet p # pc_events_of es"
| "pc_events_of (tc_rtcp_packet p ts # es) = pc_rtcp_packet p # pc_events_of es"
| "pc_events_of (_ # es) = pc_events_of es"

fun last_pc_state :: "pc_event list \<Rightarrow> PeerConnectionState \<Rightarrow> PeerConnectionState" where
  "last_pc_state [] st = st"
| "last_pc_state (pc_connection_state st' # es) st = last_pc_state es st'"
| "last_pc_state (_ # es) st = last_pc_state es st"

fun genuine_packet :: "'ctx libsrtp \<Rightarrow> pc_event \<Rightarrow> bool" where
  "genuine_packet lib (pc_rtp_packet p) = decrypted lib p"
| "genuine_packet lib _ = True"

lemma last_pc_state_of: "last_pc_state (pc_events_of es) st = last_state es st"
  by (induction es arbitrary: st rule: pc_events_of.induct) simp_all

lemma genuine_pc_events: "list_all (genuine_event lib) es \<Longrightarrow> list_all (genuine_packet lib) (pc_events_of es)"
  by (induction es rule: pc_events_of.induct) simp_all

lemma last_state_split: "last_state (es @ es') st = last_state es' (last_state es st)"
  by (induction es st rule: last_state.induct) simp_all

lemma on_tc_event_simps [simp]:
  "controller (on_tc_event e pc) = controller pc" "destroy_timer (on_tc_event e pc) = destroy_timer pc"
  "remote_desc (on_tc_event e pc) = remote_desc pc" "local_desc (on_tc_event e pc) = None \<longleftrightarrow> local_desc pc = None"
  "pc_events (on_tc_event e pc) = pc_events pc @ pc_events_of [e]"
  by (cases e; simp add: pc_on_candidate_allocate_done_def split: option.split)+

lemma fold_tc_events:
  "controller (fold on_tc_event es pc) = controller pc" "destroy_timer (fold on_tc_event es pc) = destroy_timer pc"
  "remote_desc (fold on_tc_event es pc) = remote_desc pc" "local_desc (fold on_tc_event es pc) = None \<longleftrightarrow> local_desc pc = None"
  by (induction es arbitrary: pc) simp_all

lemma fold_tc_events_out: "pc_events (fold on_tc_event es pc) = pc_events pc @ pc_events_of es"
proof (induction es arbitrary: pc)
  case (Cons e es)
  have "pc_events_of (e # es) = pc_events_of [e] @ pc_events_of es" by (cases e) simp_all
  with Cons show ?case by simp
qed simp

text \<open>
  What a method of a peer connection does that a stream can see: the invariant below is kept, the
  signals raised end in the state the controller has, and their RTP packets are genuine.
\<close>

definition pc_step :: "'ctx libsrtp \<Rightarrow> 'ctx PeerConnection \<Rightarrow> 'ctx PeerConnection \<Rightarrow> bool" where
  "pc_step lib pc pc' \<longleftrightarrow> tc_good (controller pc') \<and> length (chans (controller pc')) \<le> 1 \<and> destroy_timer pc' = destroy_timer pc
     \<and> (\<exists>es. pc_events pc' = pc_events pc @ es \<and> list_all (genuine_packet lib) es
          \<and> pc_state (controller pc') = last_pc_state es (pc_state (controller pc)))"

definition pc_good :: "'ctx PeerConnection \<Rightarrow> bool" where
  "pc_good pc \<longleftrightarrow> tc_good (controller pc) \<and> length (chans (controller pc)) \<le> 1"

lemma good_state: "tc_good tc \<Longrightarrow> pc_state tc = last_state (tc_events tc) k_pc_new"
  using in_stepD [of tc] by (simp add: tc_good_def)

lemma names_length: "length (names tc) = length (chans tc)"
  by (simp add: names_def)

lemma run_controller_step:
  assumes "tc_good (controller pc)" "safely (\<lambda>tc. tc_good tc \<and> length (chans tc) \<le> 1) (f (controller pc))"
    "yields (grows lib (controller pc)) (f (controller pc))"
  shows "safely (\<lambda>pc'. pc_step lib pc pc' \<and> (local_desc pc' = None \<longleftrightarrow> local_desc pc = None)) (run_controller f pc)"
proof -
  obtain tc where tc: "f (controller pc) = Some tc" "tc_good tc" "length (chans tc) \<le> 1" using assms(2) by (auto elim: safelyE)
  with assms(3) obtain es where es: "tc_events tc = tc_events (controller pc) @ es" "list_all (genuine_event lib) es"
    by (auto simp: grows_def)
  have "pc_state tc = last_pc_state (pc_events_of es) (pc_state (controller pc))"
    using good_state [OF tc(2)] good_state [OF assms(1)] es(1) by (simp add: last_state_split last_pc_state_of)
  then show ?thesis
    using tc es genuine_pc_events [OF es(2)] by (auto simp: run_controller_def pc_step_def fold_tc_events fold_tc_events_out)
qed

lemma tc_run_step:
  assumes "pc_good pc" "tc_enabled inp (controller pc)"
  shows "if tc_input_safe sha1 inp (controller pc) then safely (pc_step lib pc) (run_controller (tc_run sha1 ntop lib ssl inp) pc)
    else run_controller (tc_run sha1 ntop lib ssl inp) pc = None"
proof (cases "tc_input_safe sha1 inp (controller pc)")
  case True
  have g: "tc_good (controller pc)" "length (chans (controller pc)) \<le> 1" using assms(1) by (simp_all add: pc_good_def)
  have "safely (\<lambda>tc. tc_good tc \<and> names tc = names (controller pc)) (tc_run sha1 ntop lib ssl inp (controller pc))"
    using tc_run_spec [OF g(1) assms(2), of sha1 ntop lib ssl] True by simp
  then have "safely (\<lambda>tc. tc_good tc \<and> length (chans tc) \<le> 1) (tc_run sha1 ntop lib ssl inp (controller pc))"
    by (rule safely_mono) (use g(2) names_length in metis)
  from run_controller_step [where f = "tc_run sha1 ntop lib ssl inp", OF g(1) this tc_run_grows] True show ?thesis by (auto elim: safely_mono)
next
  case False
  then show ?thesis using tc_run_spec [OF _ assms(2), of sha1 ntop lib ssl] assms(1) by (simp add: run_controller_def pc_good_def)
qed

section \<open>Offers are bundled\<close>

lemma bundle_names:
  "distinct (map mid cs) \<Longrightarrow> set (content_names g) \<inter> set (map mid cs) = {} \<Longrightarrow>
    content_names (fold (\<lambda>c. add_content_name (mid c)) cs g) = content_names g @ map mid cs"
  "group_semantics (fold (\<lambda>c. add_content_name (mid c)) cs g) = group_semantics g"
  by (induction cs arbitrary: g) (auto simp: add_content_name_def has_content_name_def)

lemma bundled_group:
  assumes "content_groups desc = [g]" "group_semantics g = bytes_of ''BUNDLE''" "content_names g = map mid (contents desc)"
    "m \<in> mid ` set (contents desc)"
  shows "bundled_away desc m = Some (m \<noteq> mid (hd (contents desc)))"
  using assms by (cases "contents desc") (auto simp: bundled_away_def is_bundle_def get_first_bundle_mid_def get_group_by_name_def)

lemma offer_bundled:
  fixes ice dir cert as vs
  assumes "use_rtp_mux options"
  defines "desc \<equiv> offer_description dir options ice cert as vs"
  assumes "m \<in> mid ` set (contents desc)"
  shows "bundled_away desc m = Some (m \<noteq> mid (hd (contents desc)))"
proof -
  define a where "a = offer_content (send_audio options) (recv_audio options) options (AudioContentDescription dir) as ice cert
    (new_SessionDescription k_offer)"
  define v where "v = offer_content (send_video options) (recv_video options) options (VideoContentDescription dir) vs ice cert a"
  let ?g = "fold (\<lambda>c. add_content_name (mid c)) (contents v) (new_ContentGroup (bytes_of ''BUNDLE''))"
  have dv: "desc = (if content_names ?g \<noteq> [] then add_group ?g v else v)"
    unfolding desc_def offer_description_def v_def a_def using assms(1) by (simp add: Let_def)
  have "bytes_of ''video'' \<noteq> bytes_of ''audio''" by (simp add: bytes_of_def)
  then have "distinct (map mid (contents v))"
    by (simp add: v_def a_def offer_content_simps new_SessionDescription_def AudioContentDescription_def VideoContentDescription_def media_mid_def)
  then have g: "content_names ?g = map mid (contents v)" "group_semantics ?g = bytes_of ''BUNDLE''"
    by (simp_all add: bundle_names new_ContentGroup_def)
  have c: "contents desc = contents v" by (simp add: dv add_group_def)
  then have "contents v \<noteq> []" using assms(3) by auto
  then have "content_groups desc = [?g]"
    using g(1) by (simp add: dv add_group_def) (simp add: v_def a_def offer_content_simps new_SessionDescription_def)
  then show ?thesis using g c assms(3) by (intro bundled_group) simp_all
qed

section \<open>Operations of a peer connection\<close>

definition pc_fresh :: "'ctx PeerConnection \<Rightarrow> bool" where
  "pc_fresh pc \<longleftrightarrow> fresh_parts (controller pc) \<and> chans (controller pc) = []"

lemma pc_step_refl: "pc_good pc \<Longrightarrow> pc_step lib pc pc"
  by (auto simp: pc_step_def pc_good_def intro: exI [of _ "[]"])

lemma pc_step_good: "pc_step lib pc pc' \<Longrightarrow> pc_good pc'"
  by (simp add: pc_step_def pc_good_def)

lemma pc_step_cong:
  "pc_step lib pc pc' \<Longrightarrow> controller pc = controller pc0 \<Longrightarrow> destroy_timer pc = destroy_timer pc0 \<Longrightarrow> pc_events pc = pc_events pc0
    \<Longrightarrow> pc_step lib pc0 pc'"
  by (simp add: pc_step_def)

lemma fresh_good: "fresh_parts tc \<Longrightarrow> tc_good tc"
  using fresh_iff [of tc] by (simp add: tc_fresh_def)

lemma create_offer_step:
  assumes "pc_fresh pc" "use_rtp_mux options"
  shows "safely (\<lambda>x. pc_step (sys_lib sys) pc (snd x)) (pc_create_offer sys options pc)"
proof (cases "dtls_on options \<and> pc_certificate pc = None")
  case True
  then show ?thesis using assms(1) by (simp add: pc_create_offer_def pc_fresh_def pc_good_def fresh_good pc_step_refl)
next
  case False
  define desc where "desc = offer_description (sys_direction sys) options (sys_ice sys) (map_option snd (pc_certificate pc))
          (audio_source pc) (video_source pc)"
  let ?pc = "pc\<lparr>local_desc := Some desc\<rparr>"
  let ?f = "\<lambda>tc. map_option snd (tc_set_local_description (sys_sha1 sys) (sys_ntop sys) (sys_lib sys) (sys_ssl sys)
          (sys_bound sys) (sys_allocator sys) (Some desc) tc)"
  have b: "bundled_away desc m = Some (m \<noteq> mid (hd (contents desc)))" if "m \<in> mid ` set (contents desc)" for m
    using offer_bundled [OF assms(2)] that unfolding desc_def .
  have fr: "fresh_parts (controller pc)" "names (controller pc) = []" using assms(1) by (simp_all add: pc_fresh_def names_def)
  have one: "length (chans tc) \<le> 1" if "tc_good tc"
    "set (names tc) \<subseteq> set (names (controller pc)) \<union> {m \<in> mid ` set (contents desc). bundled_away desc m = Some False}"
    for tc :: "'a TransportController"
  proof -
    have "distinct (names tc)" using that(1) by (simp add: tc_good_def in_step_def tc_shape_def names_def)
    moreover have sub: "set (names tc) \<subseteq> {mid (hd (contents desc))}" using that(2) fr(2) b by auto
    ultimately show ?thesis using names_length [of tc] card_mono [OF _ sub] by (simp add: distinct_card [symmetric])
  qed
  have "safely (\<lambda>tc. tc_good tc \<and> length (chans tc) \<le> 1) (?f (controller ?pc))"
    using set_local_description_good [OF fr(1), of desc "sys_sha1 sys" "sys_ntop sys" "sys_lib sys" "sys_ssl sys" "sys_bound sys" "sys_allocator sys"] b one
    by (auto elim!: safelyE)
  from run_controller_step [where f = ?f and pc = ?pc, OF _ this set_local_description_grows] fr(1)
  have "safely (\<lambda>pc'. pc_step (sys_lib sys) ?pc pc' \<and> local_desc pc' \<noteq> None) (run_controller ?f ?pc)"
    by (auto simp: fresh_good)
  then obtain pc' where pc': "run_controller ?f ?pc = Some pc'" "pc_step (sys_lib sys) ?pc pc'" "local_desc pc' \<noteq> None" by (auto elim: safelyE)
  from pc'(2) have "pc_step (sys_lib sys) pc pc'" by (rule pc_step_cong) simp_all
  with pc' False show ?thesis by (auto simp: pc_create_offer_def Let_def simp flip: desc_def)
qed

text \<open>The answers a peer connection can take.\<close>

definition answer_safe :: "RtpDirection \<Rightarrow> bytes \<Rightarrow> 'ctx TransportController \<Rightarrow> bool" where
  "answer_safe dir sdp tc \<longleftrightarrow> (case parse_remote_sdp dir sdp of None \<Rightarrow> False
     | Some (ret, desc) \<Rightarrow> ret \<noteq> 0 \<or> (case desc of None \<Rightarrow> True
         | Some desc \<Rightarrow> list_all (section_safe desc tc) (map mid (contents desc))))"

lemma parse_ok_desc: "parse_remote_sdp dir sdp = Some (0, desc) \<Longrightarrow> desc \<noteq> None"
  by (auto simp: parse_remote_sdp_def Let_def split: if_splits bind_splits)

lemma set_remote_sdp_step:
  assumes "pc_good pc"
  shows "if answer_safe (sys_direction sys) sdp (controller pc)
    then safely (\<lambda>x. pc_step (sys_lib sys) pc (snd x)) (pc_set_remote_sdp sys sdp pc) else pc_set_remote_sdp sys sdp pc = None"
proof (cases "parse_remote_sdp (sys_direction sys) sdp")
  case (Some x)
  obtain ret desc where x: "x = (ret, desc)" by (cases x)
  show ?thesis
  proof (cases "ret = 0")
    case True
    then obtain d where d: "desc = Some d" using Some x parse_ok_desc [of "sys_direction sys" sdp desc] by auto
    let ?pc = "pc\<lparr>remote_desc := Some d\<rparr>" and ?inp = "in_answer (sys_now sys) d"
    have "pc_good ?pc" using assms by (simp add: pc_good_def)
    from tc_run_step [OF this, of ?inp "sys_sha1 sys" "sys_lib sys" "sys_ntop sys" "sys_ssl sys"]
    have run: "if list_all (section_safe d (controller pc)) (map mid (contents d))
      then safely (pc_step (sys_lib sys) ?pc) (run_controller (tc_run (sys_sha1 sys) (sys_ntop sys) (sys_lib sys) (sys_ssl sys) ?inp) ?pc)
      else run_controller (tc_run (sys_sha1 sys) (sys_ntop sys) (sys_lib sys) (sys_ssl sys) ?inp) ?pc = None" by simp
    have same: "run_controller (\<lambda>tc. map_option snd (tc_set_remote_description (sys_sha1 sys) (sys_ntop sys) (sys_lib sys) (sys_ssl sys)
        (sys_now sys) (Some d) tc)) ?pc = run_controller (tc_run (sys_sha1 sys) (sys_ntop sys) (sys_lib sys) (sys_ssl sys) ?inp) ?pc"
      by (simp add: run_controller_def)
    have eq: "pc_set_remote_sdp sys sdp pc = map_option (Pair 0) (run_controller (tc_run (sys_sha1 sys) (sys_ntop sys) (sys_lib sys) (sys_ssl sys) ?inp) ?pc)"
      using Some x d True by (cases "run_controller (tc_run (sys_sha1 sys) (sys_ntop sys) (sys_lib sys) (sys_ssl sys) ?inp) ?pc")
        (simp_all add: pc_set_remote_sdp_def Let_def same)
    have "answer_safe (sys_direction sys) sdp (controller pc) \<longleftrightarrow> list_all (section_safe d (controller pc)) (map mid (contents d))"
      using Some x d True by (simp add: answer_safe_def)
    with run show ?thesis unfolding eq by (auto elim!: safely_mono pc_step_cong split: if_splits)
  next
    case False
    have "pc_step (sys_lib sys) pc (case desc of None \<Rightarrow> pc | Some _ \<Rightarrow> pc\<lparr>remote_desc := desc\<rparr>)"
      using pc_step_refl [OF assms, of "sys_lib sys"] by (auto simp: pc_step_def split: option.split)
    then show ?thesis using Some x False by (simp add: pc_set_remote_sdp_def answer_safe_def Let_def)
  qed
qed (simp add: pc_set_remote_sdp_def answer_safe_def)

end
