(* ===== verification/Rtc_Stream.thy ===== *)
theory Rtc_Stream
  imports Peer_Safety
begin

text \<open>
  \<^verbatim>\<open>stream/rtc_stream.cpp\<close>, \<^verbatim>\<open>stream/push_stream.cpp\<close>,
  \<^verbatim>\<open>stream/pull_stream.cpp\<close> and \<^verbatim>\<open>stream/rtc_stream_manager.cpp\<close>: the
  streams of a worker and the media that goes between them.  Streams and peer connections live in
  \<open>streams\<close> and \<open>pcs\<close>, under the same number; a deleted stream is gone at once,
  its peer connection 10 ms later.  The result \<open>None\<close> is the use of a deleted object or
  undefined behaviour below.
\<close>

section \<open>State\<close>

datatype RtcStreamType = k_push | k_pull

type_synonym uid = "64 word"

record RtcStream =
  stream_type :: RtcStreamType
  stream_uid :: uid
  stream_name :: bytes
  stream_audio :: bool
  stream_video :: bool
  stream_state :: PeerConnectionState
  ice_timeout_watcher :: bool

definition new_RtcStream :: "RtcStreamType \<Rightarrow> uid \<Rightarrow> bytes \<Rightarrow> bool \<Rightarrow> bool \<Rightarrow> RtcStream" where
  "new_RtcStream ty uid name audio video = \<lparr>stream_type = ty, stream_uid = uid, stream_name = name, stream_audio = audio,
     stream_video = video, stream_state = k_pc_new, ice_timeout_watcher = False\<rparr>"

text \<open>The usage counter of libsrtp belongs to the process; a peer connection reads it where it is.\<close>

record 'ctx RtcStreamManager =
  push_streams :: "bytes \<rightharpoonup> nat"
  pull_streams :: "bytes \<rightharpoonup> nat"
  streams :: "nat \<rightharpoonup> RtcStream"
  pcs :: "nat \<rightharpoonup> 'ctx PeerConnection"
  next_stream :: nat
  process_usage :: int

definition new_RtcStreamManager :: "'ctx RtcStreamManager" where
  "new_RtcStreamManager = \<lparr>push_streams = Map.empty, pull_streams = Map.empty, streams = Map.empty, pcs = Map.empty,
     next_stream = 0, process_usage = 0\<rparr>"

section \<open>Deleting streams\<close>

text \<open>\<^verbatim>\<open>~RtcStream\<close>: the timer is deleted and the peer connection is told to go.\<close>

definition delete_stream :: "nat \<Rightarrow> 'ctx RtcStreamManager \<Rightarrow> 'ctx RtcStreamManager option" where
  "delete_stream p mg = do {
     _ \<leftarrow> streams mg p;
     pc \<leftarrow> pcs mg p;
     Some (mg\<lparr>streams := (streams mg)(p := None), pcs := (pcs mg)(p \<mapsto> pc_destroy pc)\<rparr>)
   }"

definition remove_push_stream :: "uid \<Rightarrow> bytes \<Rightarrow> 'ctx RtcStreamManager \<Rightarrow> 'ctx RtcStreamManager option" where
  "remove_push_stream uid name mg = (case push_streams mg name of None \<Rightarrow> Some mg
     | Some p \<Rightarrow> do {
         s \<leftarrow> streams mg p;
         if uid = stream_uid s then delete_stream p (mg\<lparr>push_streams := (push_streams mg)(name := None)\<rparr>) else Some mg
       })"

definition remove_pull_stream :: "uid \<Rightarrow> bytes \<Rightarrow> 'ctx RtcStreamManager \<Rightarrow> 'ctx RtcStreamManager option" where
  "remove_pull_stream uid name mg = (case pull_streams mg name of None \<Rightarrow> Some mg
     | Some p \<Rightarrow> do {
         s \<leftarrow> streams mg p;
         if uid = stream_uid s then delete_stream p (mg\<lparr>pull_streams := (pull_streams mg)(name := None)\<rparr>) else Some mg
       })"

definition remove_stream :: "RtcStream \<Rightarrow> 'ctx RtcStreamManager \<Rightarrow> 'ctx RtcStreamManager option" where
  "remove_stream s mg = (case stream_type s of
       k_push \<Rightarrow> remove_push_stream (stream_uid s) (stream_name s) mg
     | k_pull \<Rightarrow> remove_pull_stream (stream_uid s) (stream_name s) mg)"

section \<open>Calls into a peer connection\<close>

text \<open>A method of the peer connection \<open>p\<close>; the signals it raised are the second result.\<close>

definition call_pc :: "nat \<Rightarrow> ('ctx PeerConnection \<Rightarrow> ('r \<times> 'ctx PeerConnection) option) \<Rightarrow> 'ctx RtcStreamManager
    \<Rightarrow> ('r \<times> pc_event list \<times> 'ctx RtcStreamManager) option" where
  "call_pc p f mg = do {
     pc \<leftarrow> pcs mg p;
     (r, pc) \<leftarrow> f (pc\<lparr>controller := (controller pc)\<lparr>srtp_usage := process_usage mg\<rparr>, pc_events := []\<rparr>);
     Some (r, pc_events pc, mg\<lparr>pcs := (pcs mg)(p \<mapsto> pc), process_usage := srtp_usage (controller pc)\<rparr>)
   }"

text \<open>
  Sending media on a stream.  Protecting and sending a packet raises no signal of the peer
  connection, so nothing is delivered.
\<close>

definition send_on :: "nat \<Rightarrow> ('ctx PeerConnection \<Rightarrow> 'ctx PeerConnection option) \<Rightarrow> 'ctx RtcStreamManager
    \<Rightarrow> 'ctx RtcStreamManager option" where
  "send_on p f mg = do {
     _ \<leftarrow> streams mg p;
     (_, _, mg) \<leftarrow> call_pc p (\<lambda>pc. map_option (Pair ()) (f pc)) mg;
     Some mg
   }"

section \<open>The listener\<close>

definition mg_on_connection_state :: "RtcStream \<Rightarrow> PeerConnectionState \<Rightarrow> 'ctx RtcStreamManager
    \<Rightarrow> 'ctx RtcStreamManager option" where
  "mg_on_connection_state s st mg = (if st = k_pc_failed then remove_stream s mg else Some mg)"

definition mg_on_rtp_packet_received :: "'ctx system \<Rightarrow> RtcStream \<Rightarrow> bytes \<Rightarrow> 'ctx RtcStreamManager
    \<Rightarrow> 'ctx RtcStreamManager option" where
  "mg_on_rtp_packet_received sys s data mg = (case stream_type s of
       k_push \<Rightarrow> (case pull_streams mg (stream_name s) of None \<Rightarrow> Some mg
         | Some q \<Rightarrow> send_on q (pc_send_rtp sys data) mg)
     | k_pull \<Rightarrow> Some mg)"

definition mg_on_rtcp_packet_received :: "'ctx system \<Rightarrow> RtcStream \<Rightarrow> bytes \<Rightarrow> 'ctx RtcStreamManager
    \<Rightarrow> 'ctx RtcStreamManager option" where
  "mg_on_rtcp_packet_received sys s data mg = (case stream_type s of
       k_push \<Rightarrow> (case pull_streams mg (stream_name s) of None \<Rightarrow> Some mg
         | Some q \<Rightarrow> send_on q (pc_send_rtcp sys data) mg)
     | k_pull \<Rightarrow> (case push_streams mg (stream_name s) of None \<Rightarrow> Some mg
         | Some q \<Rightarrow> send_on q (pc_send_rtcp sys data) mg))"

definition mg_on_stream_exception :: "RtcStream \<Rightarrow> 'ctx RtcStreamManager \<Rightarrow> 'ctx RtcStreamManager option" where
  "mg_on_stream_exception s mg = remove_stream s mg"

section \<open>Slots of a stream\<close>

definition stream_on_connection_state :: "nat \<Rightarrow> RtcStream \<Rightarrow> PeerConnectionState \<Rightarrow> 'ctx RtcStreamManager
    \<Rightarrow> 'ctx RtcStreamManager option" where
  "stream_on_connection_state p s st mg =
     (if stream_state s = st then Some mg
      else let s = s\<lparr>stream_state := st\<rparr>;
               s = (if st = k_pc_connected then s\<lparr>ice_timeout_watcher := False\<rparr> else s)
           in mg_on_connection_state s st (mg\<lparr>streams := (streams mg)(p \<mapsto> s)\<rparr>))"

text \<open>The slots of a deleted stream are disconnected.\<close>

definition on_pc_event :: "'ctx system \<Rightarrow> nat \<Rightarrow> pc_event \<Rightarrow> 'ctx RtcStreamManager \<Rightarrow> 'ctx RtcStreamManager option" where
  "on_pc_event sys p ev mg = (case streams mg p of None \<Rightarrow> Some mg
     | Some s \<Rightarrow> (case ev of
           pc_connection_state st \<Rightarrow> stream_on_connection_state p s st mg
         | pc_rtp_packet data \<Rightarrow> mg_on_rtp_packet_received sys s data mg
         | pc_rtcp_packet data \<Rightarrow> mg_on_rtcp_packet_received sys s data mg))"

fun on_pc_events :: "'ctx system \<Rightarrow> nat \<Rightarrow> pc_event list \<Rightarrow> 'ctx RtcStreamManager \<Rightarrow> 'ctx RtcStreamManager option" where
  "on_pc_events sys p [] mg = Some mg"
| "on_pc_events sys p (e # es) mg = do { mg \<leftarrow> on_pc_event sys p e mg; on_pc_events sys p es mg }"

definition run_pc :: "'ctx system \<Rightarrow> nat \<Rightarrow> ('ctx PeerConnection \<Rightarrow> ('r \<times> 'ctx PeerConnection) option) \<Rightarrow> 'ctx RtcStreamManager
    \<Rightarrow> ('r \<times> 'ctx RtcStreamManager) option" where
  "run_pc sys p f mg = do {
     (r, es, mg) \<leftarrow> call_pc p f mg;
     map_option (Pair r) (on_pc_events sys p es mg)
   }"

text \<open>\<^verbatim>\<open>ice_timeout_cb\<close>; the timer fires once.\<close>

definition ice_timeout_cb :: "nat \<Rightarrow> 'ctx RtcStreamManager \<Rightarrow> 'ctx RtcStreamManager option" where
  "ice_timeout_cb p mg = do {
     s \<leftarrow> streams mg p;
     let mg = mg\<lparr>streams := (streams mg)(p \<mapsto> s\<lparr>ice_timeout_watcher := False\<rparr>)\<rparr>;
     if stream_state s \<noteq> k_pc_connected then mg_on_stream_exception s mg else Some mg
   }"

text \<open>\<^verbatim>\<open>destroy_timer_cb\<close> deletes the peer connection.\<close>

definition destroy_timer_cb :: "'ctx system \<Rightarrow> nat \<Rightarrow> 'ctx RtcStreamManager \<Rightarrow> 'ctx RtcStreamManager option" where
  "destroy_timer_cb sys p mg = do {
     pc \<leftarrow> pcs mg p;
     usage \<leftarrow> delete_TransportController (sys_now sys) ((controller pc)\<lparr>srtp_usage := process_usage mg\<rparr>);
     Some (mg\<lparr>pcs := (pcs mg)(p := None), process_usage := usage\<rparr>)
   }"

section \<open>Streams\<close>

definition push_options :: "RtcStream \<Rightarrow> RTCOfferAnswerOptions" where
  "push_options s = default_options\<lparr>send_audio := False, send_video := False,
     recv_audio := stream_audio s, recv_video := stream_video s\<rparr>"

definition pull_options :: "RtcStream \<Rightarrow> RTCOfferAnswerOptions" where
  "pull_options s = default_options\<lparr>send_audio := stream_audio s, send_video := stream_video s,
     recv_audio := False, recv_video := False\<rparr>"

definition stream_create_offer :: "'ctx system \<Rightarrow> nat \<Rightarrow> 'ctx RtcStreamManager \<Rightarrow> (bytes \<times> 'ctx RtcStreamManager) option" where
  "stream_create_offer sys p mg = do {
     s \<leftarrow> streams mg p;
     run_pc sys p (pc_create_offer sys (case stream_type s of k_push \<Rightarrow> push_options s | k_pull \<Rightarrow> pull_options s)) mg
   }"

definition stream_start :: "certificate option \<Rightarrow> nat \<Rightarrow> 'ctx RtcStreamManager \<Rightarrow> 'ctx RtcStreamManager option" where
  "stream_start cert p mg = do {
     s \<leftarrow> streams mg p;
     pc \<leftarrow> pcs mg p;
     Some (mg\<lparr>streams := (streams mg)(p \<mapsto> s\<lparr>ice_timeout_watcher := True\<rparr>), pcs := (pcs mg)(p \<mapsto> pc_init cert pc)\<rparr>)
   }"

definition get_source :: "bytes \<Rightarrow> 'ctx PeerConnection \<Rightarrow> StreamParams list" where
  "get_source m pc = (case remote_desc pc of None \<Rightarrow> []
     | Some desc \<Rightarrow> (case get_content m desc of None \<Rightarrow> [] | Some content \<Rightarrow> send_streams content))"

text \<open>A new stream, its peer connection and the sources it sends.\<close>

definition spawn_stream :: "RtcStream \<Rightarrow> StreamParams list \<Rightarrow> StreamParams list \<Rightarrow> 'ctx RtcStreamManager
    \<Rightarrow> nat \<times> 'ctx RtcStreamManager" where
  "spawn_stream s audio video mg = (let p = next_stream mg
     in (p, mg\<lparr>streams := (streams mg)(p \<mapsto> s), next_stream := p + 1,
            pcs := (pcs mg)(p \<mapsto> (new_PeerConnection (process_usage mg))\<lparr>audio_source := audio, video_source := video\<rparr>)\<rparr>))"

section \<open>Operations of the manager\<close>

definition create_push_stream :: "'ctx system \<Rightarrow> uid \<Rightarrow> bytes \<Rightarrow> bool \<Rightarrow> bool \<Rightarrow> certificate option \<Rightarrow> 'ctx RtcStreamManager
    \<Rightarrow> (int \<times> bytes \<times> 'ctx RtcStreamManager) option" where
  "create_push_stream sys uid name audio video cert mg = do {
     mg \<leftarrow> (case push_streams mg name of None \<Rightarrow> Some mg
       | Some p \<Rightarrow> delete_stream p (mg\<lparr>push_streams := (push_streams mg)(name := None)\<rparr>));
     let (p, mg) = spawn_stream (new_RtcStream k_push uid name audio video) [] [] mg;
     mg \<leftarrow> stream_start cert p mg;
     (offer, mg) \<leftarrow> stream_create_offer sys p mg;
     Some (0, offer, mg\<lparr>push_streams := (push_streams mg)(name \<mapsto> p)\<rparr>)
   }"

definition create_pull_stream :: "'ctx system \<Rightarrow> uid \<Rightarrow> bytes \<Rightarrow> bool \<Rightarrow> bool \<Rightarrow> certificate option \<Rightarrow> 'ctx RtcStreamManager
    \<Rightarrow> (int \<times> bytes \<times> 'ctx RtcStreamManager) option" where
  "create_pull_stream sys uid name audio video cert mg = (case push_streams mg name of None \<Rightarrow> Some (-1, [], mg)
     | Some q \<Rightarrow> do {
         mg \<leftarrow> remove_pull_stream uid name mg;
         _ \<leftarrow> streams mg q;
         pc \<leftarrow> pcs mg q;
         let (p, mg) = spawn_stream (new_RtcStream k_pull uid name audio video)
           (get_source (bytes_of ''audio'') pc) (get_source (bytes_of ''video'') pc) mg;
         mg \<leftarrow> stream_start cert p mg;
         (offer, mg) \<leftarrow> stream_create_offer sys p mg;
         Some (0, offer, mg\<lparr>pull_streams := (pull_streams mg)(name \<mapsto> p)\<rparr>)
       })"

definition answer_stream :: "'ctx system \<Rightarrow> uid \<Rightarrow> bytes \<Rightarrow> nat option \<Rightarrow> 'ctx RtcStreamManager
    \<Rightarrow> (int \<times> 'ctx RtcStreamManager) option" where
  "answer_stream sys uid answer p mg = (case p of None \<Rightarrow> Some (-1, mg)
     | Some p \<Rightarrow> do {
         s \<leftarrow> streams mg p;
         if uid \<noteq> stream_uid s then Some (-1, mg)
         else do {
           (_, mg) \<leftarrow> run_pc sys p (pc_set_remote_sdp sys answer) mg;
           Some (0, mg)
         }
       })"

definition set_answer :: "'ctx system \<Rightarrow> uid \<Rightarrow> bytes \<Rightarrow> bytes \<Rightarrow> bytes \<Rightarrow> 'ctx RtcStreamManager
    \<Rightarrow> (int \<times> 'ctx RtcStreamManager) option" where
  "set_answer sys uid name answer ty mg =
     (if ty = bytes_of ''push'' then answer_stream sys uid answer (push_streams mg name) mg
      else if ty = bytes_of ''pull'' then answer_stream sys uid answer (pull_streams mg name) mg
      else Some (0, mg))"

definition stop_push :: "uid \<Rightarrow> bytes \<Rightarrow> 'ctx RtcStreamManager \<Rightarrow> (int \<times> 'ctx RtcStreamManager) option" where
  "stop_push uid name mg = map_option (Pair 0) (remove_push_stream uid name mg)"

definition stop_pull :: "uid \<Rightarrow> bytes \<Rightarrow> 'ctx RtcStreamManager \<Rightarrow> (int \<times> 'ctx RtcStreamManager) option" where
  "stop_pull uid name mg = map_option (Pair 0) (remove_pull_stream uid name mg)"

end
