(* ===== verification/Stream_Safety.thy ===== *)
theory Stream_Safety
  imports Rtc_Stream
begin

text \<open>
  The streams of a worker and their manager: an invariant of the tables, the streams and the peer
  connections, which every event keeps; what an event may do to be undefined behaviour is pushed
  down to the transports.  \<open>keeps_header\<close> states what is relied on of libsrtp: a decrypted
  RTP packet still has its header of twelve bytes.
\<close>

section \<open>Offers and outgoing media raise no signal\<close>

definition silent :: "'ctx TransportController \<Rightarrow> 'ctx TransportController \<Rightarrow> bool" where
  "silent tc tc' \<longleftrightarrow> (\<exists>es. tc_events tc' = tc_events tc @ es \<and> pc_events_of es = [])"

lemma silent_refl [simp]: "silent tc tc"
  by (simp add: silent_def)

lemma pc_events_append: "pc_events_of (es @ es') = pc_events_of es @ pc_events_of es'"
  by (induction es rule: pc_events_of.induct) simp_all

lemma silent_trans: "silent u tc \<Longrightarrow> silent tc tc' \<Longrightarrow> silent u tc'"
  by (auto simp: silent_def pc_events_append)

lemma silent_same: "tc_events tc' = tc_events tc \<Longrightarrow> silent u tc \<Longrightarrow> silent u tc'"
  by (simp add: silent_def)

lemma silent_notify: "silent u tc \<Longrightarrow> pc_events_of [e] = [] \<Longrightarrow> silent u (notify e tc)"
  by (auto simp: silent_def notify_def pc_events_append)

fun outgoing :: "media_signal \<Rightarrow> bool" where
  "outgoing (sig_ice_send p) = True"
| "outgoing _ = False"

lemma outgoing_quiet: "list_all outgoing ss \<Longrightarrow> silent u tc \<Longrightarrow> silent u (fold (on_media_signal n) ss tc)"
proof (induction ss arbitrary: tc)
  case (Cons s ss)
  then show ?case by (cases s) (simp_all add: silent_notify)
qed simp

lemma send_outgoing:
  "yields (\<lambda>x. list_all outgoing (signals (snd x))) (srtp_send_rtp lib data (t\<lparr>signals := []\<rparr>))"
  "list_all outgoing (signals (snd (srtp_send_rtcp lib data (t\<lparr>signals := []\<rparr>))))"
  by (auto simp: srtp_send_rtp_def srtp_send_rtcp_def raise_def Let_def intro!: yields_read split: prod.split option.split)

lemma send_quiet: "yields (silent tc) (tc_send_rtp lib n data tc)" "yields (silent tc) (tc_send_rtcp lib n data tc)"
proof -
  have run: "yields (silent tc) (run_media n f tc)" if "\<And>t. yields (\<lambda>t'. list_all outgoing (signals t')) (f (t\<lparr>signals := []\<rparr>))"
    for f :: "'a MediaTransport \<Rightarrow> 'a MediaTransport option"
  proof (cases "get_transport n tc")
    case (Some x)
    obtain i t where x: "x = (i, t)" by (cases x)
    have "yields (\<lambda>t'. list_all outgoing (signals t')) (f (t\<lparr>ice_writable := w, libsrtp_usage := u, signals := []\<rparr>))" for w u
      using that [of "t\<lparr>ice_writable := w, libsrtp_usage := u\<rparr>"] by simp
    then show ?thesis using Some x
      by (auto simp: run_media_def Let_def intro!: yields_bind outgoing_quiet) (simp add: silent_def)
  qed (simp add: run_media_def)
  show "yields (silent tc) (tc_send_rtp lib n data tc)" "yields (silent tc) (tc_send_rtcp lib n data tc)"
    unfolding tc_send_rtp_def tc_send_rtcp_def by (rule run; simp add: send_outgoing)+
qed

lemma gather_trace: "trace w = [] \<Longrightarrow> list_all (\<lambda>e. \<exists>cs. e = ev_candidate_allocate_done cs) (trace (ch_gathering_candidate ntop bound pa w))"
proof -
  have "trace (gather_ports ntop bound ns w) = trace w" for ns w
    by (induction ns arbitrary: w) (auto simp: Let_def split: prod.split option.split)
  then show "trace w = [] \<Longrightarrow> ?thesis" by (simp add: ch_gathering_candidate_def emit_def Let_def)
qed

lemma allocate_quiet:
  "list_all (\<lambda>e. \<exists>cs. e = ev_candidate_allocate_done cs) es \<Longrightarrow> silent u tc \<Longrightarrow> yields (silent u) (on_channel_events lib ssl i es tc)"
  by (induction es arbitrary: tc) (auto simp: silent_notify)

lemma gather_quiet: "silent u tc \<Longrightarrow> yields (silent u) (gather_channels sha1 ntop lib ssl bound pa ids tc)"
proof (induction ids arbitrary: tc)
  case (Cons i ids)
  have "yields (silent u) (run_channel sha1 ntop lib ssl i (in_gathering_candidate (bound i) pa) tc)"
    unfolding run_channel_def Let_def chan_run.simps using Cons.prems
    by (auto simp: upd_channel_def intro!: allocate_quiet gather_trace elim: silent_same [rotated])
  then show ?case by (simp add: yields_keep Cons.IH)
qed simp

lemma add_sections_quiet: "silent u tc \<Longrightarrow> yields (silent u) (add_sections lib ssl desc ms tc)"
proof (induction ms arbitrary: tc)
  case (Cons m ms)
  have "yields (silent u) (add_section lib ssl desc m tc)" using Cons.prems
    by (auto simp: add_section_def Let_def delete_transport_def set_transport_def intro!: yields_read elim!: silent_same [rotated] split: option.split)
  then show ?case by (simp add: yields_keep Cons.IH)
qed simp

lemma local_description_quiet:
  "yields (silent tc) (map_option snd (tc_set_local_description sha1 ntop lib ssl bound pa d tc))"
  unfolding tc_set_local_description_def
  by (auto intro!: yields_bind [OF add_sections_quiet [OF silent_refl]] yields_bind [OF gather_quiet] split: option.split)

lemma quiet_controller: "yields (silent (controller pc)) (f (controller pc)) \<Longrightarrow> yields (\<lambda>pc'. pc_events pc' = pc_events pc) (run_controller f pc)"
  by (auto simp: run_controller_def silent_def fold_tc_events_out intro!: yields_bind)

lemma create_offer_quiet: "yields (\<lambda>x. pc_events (snd x) = pc_events pc) (pc_create_offer sys options pc)"
proof -
  have run: "yields (\<lambda>pc'. pc_events pc' = pc_events pc) (run_controller (\<lambda>tc. map_option snd (tc_set_local_description sha1 ntop lib ssl bound pa d tc))
      (pc\<lparr>local_desc := x\<rparr>))" for sha1 ntop lib ssl bound pa d x
    using quiet_controller [where pc = "pc\<lparr>local_desc := x\<rparr>"
        and f = "\<lambda>tc. map_option snd (tc_set_local_description sha1 ntop lib ssl bound pa d tc)", OF local_description_quiet] by simp
  show ?thesis by (auto simp: pc_create_offer_def Let_def intro!: yields_read dest: yieldsD [OF run])
qed

lemma pc_send_quiet:
  "yields (\<lambda>pc'. pc_events pc' = pc_events pc) (pc_send_rtp sys data pc)" "yields (\<lambda>pc'. pc_events pc' = pc_events pc) (pc_send_rtcp sys data pc)"
  unfolding pc_send_rtp_def pc_send_rtcp_def by (rule quiet_controller, rule send_quiet)+

section \<open>The invariant of a manager\<close>

text \<open>
  \<open>listed F ty table ss\<close>: a table of streams of type \<open>ty\<close> refers to live streams under
  their own names; none of them has failed, except those in \<open>F\<close>.  In \<open>mg_inv F p es\<close>
  the signals \<open>es\<close> of the peer connection \<open>p\<close> are still to be delivered.
\<close>

definition listed :: "nat set \<Rightarrow> RtcStreamType \<Rightarrow> (bytes \<rightharpoonup> nat) \<Rightarrow> (nat \<rightharpoonup> RtcStream) \<Rightarrow> bool" where
  "listed F ty table ss \<longleftrightarrow> (\<forall>n q. table n = Some q \<longrightarrow> (\<exists>s. ss q = Some s \<and> stream_type s = ty \<and> stream_name s = n
     \<and> (stream_state s = k_pc_failed \<longrightarrow> q \<in> F)))"

definition mg_inv :: "nat set \<Rightarrow> nat \<Rightarrow> pc_event list \<Rightarrow> 'ctx RtcStreamManager \<Rightarrow> bool" where
  "mg_inv F p es mg \<longleftrightarrow>
     (\<forall>q s. streams mg q = Some s \<longrightarrow> (\<exists>pc. pcs mg q = Some pc
        \<and> pc_state (controller pc) = last_pc_state (if q = p then es else []) (stream_state s)))
     \<and> (\<forall>q pc. pcs mg q = Some pc \<longrightarrow> q < next_stream mg \<and> pc_good pc \<and> (destroy_timer pc \<longleftrightarrow> streams mg q = None))
     \<and> listed F k_push (push_streams mg) (streams mg) \<and> listed F k_pull (pull_streams mg) (streams mg)"

definition unlisted :: "nat \<Rightarrow> 'ctx RtcStreamManager \<Rightarrow> bool" where
  "unlisted p mg \<longleftrightarrow> (\<forall>n. push_streams mg n \<noteq> Some p \<and> pull_streams mg n \<noteq> Some p)"

abbreviation mg_good :: "'ctx RtcStreamManager \<Rightarrow> bool" where
  "mg_good \<equiv> mg_inv {} 0 []"

lemma mg_inv_done: "mg_inv F p [] = mg_inv F q []"
  by (simp add: fun_eq_iff mg_inv_def)

lemma mg_invD:
  assumes "mg_inv F p es mg"
  shows "streams mg q = Some s \<Longrightarrow> \<exists>pc. pcs mg q = Some pc
      \<and> pc_state (controller pc) = last_pc_state (if q = p then es else []) (stream_state s)"
    "pcs mg q = Some pc \<Longrightarrow> q < next_stream mg \<and> pc_good pc \<and> (destroy_timer pc \<longleftrightarrow> streams mg q = None)"
    "push_streams mg n = Some q \<Longrightarrow> \<exists>s. streams mg q = Some s \<and> stream_type s = k_push \<and> stream_name s = n
      \<and> (stream_state s = k_pc_failed \<longrightarrow> q \<in> F)"
    "pull_streams mg n = Some q \<Longrightarrow> \<exists>s. streams mg q = Some s \<and> stream_type s = k_pull \<and> stream_name s = n
      \<and> (stream_state s = k_pc_failed \<longrightarrow> q \<in> F)"
  using assms unfolding mg_inv_def listed_def by blast+

lemma mg_inv_live:
  assumes "mg_inv F p es mg" "streams mg q = Some s"
  obtains pc where "pcs mg q = Some pc" "pc_good pc" "\<not> destroy_timer pc"
    "pc_state (controller pc) = last_pc_state (if q = p then es else []) (stream_state s)" "q < next_stream mg"
proof -
  obtain pc where pc: "pcs mg q = Some pc" "pc_state (controller pc) = last_pc_state (if q = p then es else []) (stream_state s)"
    using mg_invD(1) [OF assms] by blast
  with mg_invD(2) [OF assms(1) pc(1)] assms(2) show thesis by (intro that [of pc]) simp_all
qed

text \<open>Updating a peer connection.\<close>

lemma mg_inv_pc:
  assumes "mg_inv F p es mg" "pcs mg q = Some pc" "pc_good pc'" "destroy_timer pc' = destroy_timer pc"
    "pc_state (controller pc') = pc_state (controller pc)"
  shows "mg_inv F p es (mg\<lparr>pcs := (pcs mg)(q \<mapsto> pc'), process_usage := u\<rparr>)"
  using assms unfolding mg_inv_def by (auto split: if_splits)

text \<open>A stream that no table refers to, and deleting a stream.\<close>

lemma mg_inv_unlisted: "mg_inv {p} q es mg \<Longrightarrow> unlisted p mg \<Longrightarrow> mg_inv {} q es mg"
  unfolding mg_inv_def listed_def unlisted_def by blast

lemma delete_stream_inv:
  assumes "mg_inv F p es mg" "streams mg q = Some s" "unlisted q mg"
  shows "safely (mg_inv F p es) (delete_stream q mg)"
proof -
  obtain pc where pc: "pcs mg q = Some pc" "pc_good pc" "q < next_stream mg" using mg_inv_live [OF assms(1,2)] by blast
  then show ?thesis using assms(1,2,3)
    unfolding mg_inv_def listed_def unlisted_def delete_stream_def pc_good_def pc_destroy_def by auto
qed

lemma unlist_push: "mg_inv F p es mg \<Longrightarrow> mg_inv F p es (mg\<lparr>push_streams := (push_streams mg)(n := None)\<rparr>)"
  and unlist_pull: "mg_inv F p es mg \<Longrightarrow> mg_inv F p es (mg\<lparr>pull_streams := (pull_streams mg)(n := None)\<rparr>)"
  unfolding mg_inv_def listed_def by simp_all

lemma unlisted_push:
  assumes "mg_inv F p es mg" "push_streams mg n = Some q"
  shows "unlisted q (mg\<lparr>push_streams := (push_streams mg)(n := None)\<rparr>)"
  using mg_invD(3) [OF assms] mg_invD(3,4) [OF assms(1), where q = q] by (auto simp: unlisted_def split: if_splits)

lemma unlisted_pull:
  assumes "mg_inv F p es mg" "pull_streams mg n = Some q"
  shows "unlisted q (mg\<lparr>pull_streams := (pull_streams mg)(n := None)\<rparr>)"
  using mg_invD(4) [OF assms] mg_invD(3,4) [OF assms(1), where q = q] by (auto simp: unlisted_def split: if_splits)

lemma remove_push_inv:
  assumes "mg_inv F p es mg"
  shows "safely (mg_inv F p es) (remove_push_stream uid n mg)"
proof (cases "push_streams mg n")
  case (Some q)
  then obtain s where "streams mg q = Some s" using mg_invD(3) [OF assms] by blast
  then show ?thesis
    using delete_stream_inv [OF unlist_push [OF assms, of n] _ unlisted_push [OF assms Some], of s] Some assms by (simp add: remove_push_stream_def)
qed (use assms in \<open>simp add: remove_push_stream_def\<close>)

lemma remove_pull_inv:
  assumes "mg_inv F p es mg"
  shows "safely (mg_inv F p es) (remove_pull_stream uid n mg)"
proof (cases "pull_streams mg n")
  case (Some q)
  then obtain s where "streams mg q = Some s" using mg_invD(4) [OF assms] by blast
  then show ?thesis
    using delete_stream_inv [OF unlist_pull [OF assms, of n] _ unlisted_pull [OF assms Some], of s] Some assms by (simp add: remove_pull_stream_def)
qed (use assms in \<open>simp add: remove_pull_stream_def\<close>)

definition has_uid :: "'ctx RtcStreamManager \<Rightarrow> (bytes \<rightharpoonup> nat) \<Rightarrow> bytes \<Rightarrow> uid \<Rightarrow> bool" where
  "has_uid mg table n uid \<longleftrightarrow> map_option stream_uid (Option.bind (table n) (streams mg)) = Some uid"

lemma remove_tables:
  "yields (\<lambda>mg'. pull_streams mg' = pull_streams mg \<and> push_streams mg' =
     (if has_uid mg (push_streams mg) n uid then (push_streams mg)(n := None) else push_streams mg)) (remove_push_stream uid n mg)"
  "yields (\<lambda>mg'. push_streams mg' = push_streams mg \<and> pull_streams mg' =
     (if has_uid mg (pull_streams mg) n uid then (pull_streams mg)(n := None) else pull_streams mg)) (remove_pull_stream uid n mg)"
  by (auto simp: remove_push_stream_def remove_pull_stream_def delete_stream_def has_uid_def intro!: yields_read split: option.split)

lemma remove_stream_inv:
  assumes "mg_inv F p es mg" "streams mg q = Some s"
  shows "safely (\<lambda>mg'. mg_inv F p es mg' \<and> unlisted q mg') (remove_stream s mg)"
proof -
  have "safely (mg_inv F p es) (remove_stream s mg)"
    using assms(1) by (simp add: remove_stream_def remove_push_inv remove_pull_inv split: RtcStreamType.split)
  moreover have "yields (unlisted q) (remove_stream s mg)"
  proof -
    have mine: "push_streams mg n = Some q \<Longrightarrow> n = stream_name s \<and> stream_type s = k_push"
      "pull_streams mg n = Some q \<Longrightarrow> n = stream_name s \<and> stream_type s = k_pull" for n
      using mg_invD(3,4) [OF assms(1), of n q] assms(2) by auto
    then show ?thesis using assms(2) unfolding remove_stream_def
      by (cases "stream_type s") (auto simp: unlisted_def has_uid_def intro!: yields_mono [OF remove_tables(1)] yields_mono [OF remove_tables(2)] split: if_splits)
  qed
  ultimately show ?thesis by (rule safely_yields)
qed

section \<open>Delivering signals\<close>

definition keeps_header :: "'ctx libsrtp \<Rightarrow> bool" where
  "keeps_header lib \<longleftrightarrow> (\<forall>ctx buf p. snd (srtp_unprotect lib ctx buf) = Some p \<longrightarrow> 12 \<le> length p)"

lemma genuine_length: "keeps_header lib \<Longrightarrow> decrypted lib p \<Longrightarrow> 12 \<le> length p"
  by (auto simp: keeps_header_def decrypted_def)

lemma usage_good [simp]:
  "tc_good (tc\<lparr>srtp_usage := u\<rparr>) = tc_good tc" "fresh_parts (tc\<lparr>srtp_usage := u\<rparr>) = fresh_parts tc" "tc_enabled inp (tc\<lparr>srtp_usage := u\<rparr>) = tc_enabled inp tc"
  "tc_input_safe sha1 inp (tc\<lparr>srtp_usage := u\<rparr>) = tc_input_safe sha1 inp tc"
  "section_safe desc (tc\<lparr>srtp_usage := u\<rparr>) = section_safe desc tc"
proof -
  have sec: "section_safe desc (tc\<lparr>srtp_usage := u\<rparr>) = section_safe desc tc" for desc
    by (auto simp: fun_eq_iff section_safe_def get_transport_def split: option.split bool.split)
  show "section_safe desc (tc\<lparr>srtp_usage := u\<rparr>) = section_safe desc tc" by (rule sec)
  show "tc_input_safe sha1 inp (tc\<lparr>srtp_usage := u\<rparr>) = tc_input_safe sha1 inp tc" by (cases inp) (simp_all add: sec)
  show "tc_enabled inp (tc\<lparr>srtp_usage := u\<rparr>) = tc_enabled inp tc" by (cases inp) simp_all
  show "tc_good (tc\<lparr>srtp_usage := u\<rparr>) = tc_good tc" "fresh_parts (tc\<lparr>srtp_usage := u\<rparr>) = fresh_parts tc"
    by (simp_all add: tc_good_def fresh_parts_def in_step_def tc_shape_def reported_def transports_ok_def dtls_states_def)
qed

definition borrowed :: "int \<Rightarrow> 'ctx PeerConnection \<Rightarrow> 'ctx PeerConnection" where
  "borrowed u pc = pc\<lparr>controller := (controller pc)\<lparr>srtp_usage := u\<rparr>, pc_events := []\<rparr>"

lemma borrowed_simps [simp]:
  "pc_good (borrowed u pc) = pc_good pc" "destroy_timer (borrowed u pc) = destroy_timer pc" "pc_events (borrowed u pc) = []"
  "pc_state (controller (borrowed u pc)) = pc_state (controller pc)" "tc_enabled inp (controller (borrowed u pc)) = tc_enabled inp (controller pc)"
  "tc_input_safe sha1 inp (controller (borrowed u pc)) = tc_input_safe sha1 inp (controller pc)"
  "answer_safe dir sdp (controller (borrowed u pc)) = answer_safe dir sdp (controller pc)"
  "pc_fresh (borrowed u pc) = pc_fresh pc"
  by (simp_all add: borrowed_def pc_good_def answer_safe_def pc_fresh_def cong: option.case_cong)

lemma send_on_inv:
  assumes "mg_inv F p es mg" "streams mg q = Some s"
    "\<And>pc. pc_good pc \<Longrightarrow> safely (pc_step lib pc) (f pc)" "\<And>pc. yields (\<lambda>pc'. pc_events pc' = pc_events pc) (f pc)"
  shows "safely (mg_inv F p es) (send_on q f mg)"
proof -
  obtain pc where pc: "pcs mg q = Some pc" "pc_good pc" using mg_inv_live [OF assms(1,2)] by blast
  let ?b = "borrowed (process_usage mg) pc"
  obtain pc' where pc': "f ?b = Some pc'" "pc_step lib ?b pc'" using assms(3) [of ?b] pc(2) by (auto elim: safelyE)
  then have "pc_events pc' = []" using yieldsD [OF assms(4) pc'(1)] by simp
  then have "pc_good pc'" "destroy_timer pc' = destroy_timer pc" "pc_state (controller pc') = pc_state (controller pc)"
    using pc'(2) by (auto simp: pc_step_def pc_good_def)
  from mg_inv_pc [OF assms(1) pc(1) this] pc(1) assms(2) pc'(1) show ?thesis by (simp add: send_on_def call_pc_def flip: borrowed_def)
qed

lemma pc_send_step:
  "pc_good pc \<Longrightarrow> 12 \<le> length data \<Longrightarrow> safely (pc_step (sys_lib sys) pc) (pc_send_rtp sys data pc)"
  "pc_good pc \<Longrightarrow> safely (pc_step (sys_lib sys) pc) (pc_send_rtcp sys data pc)"
  using tc_run_step [of pc "in_rtp (bytes_of ''audio'') data" undefined "sys_lib sys" undefined undefined]
    tc_run_step [of pc "in_rtcp (bytes_of ''audio'') data" undefined "sys_lib sys" undefined undefined]
  by (simp_all add: pc_send_rtp_def pc_send_rtcp_def run_controller_def)

lemma listed_update:
  assumes "listed F ty table ss" "ss p = Some s" "stream_type s' = stream_type s" "stream_name s' = stream_name s"
    "stream_state s' = k_pc_failed \<Longrightarrow> p \<in> F \<or> stream_state s = k_pc_failed"
  shows "listed F ty table (ss(p \<mapsto> s'))"
  unfolding listed_def
proof (intro allI impI)
  fix n q assume "table n = Some q"
  then obtain r where "ss q = Some r" "stream_type r = ty" "stream_name r = n" "stream_state r = k_pc_failed \<longrightarrow> q \<in> F"
    using assms(1) unfolding listed_def by blast
  then show "\<exists>r. (ss(p \<mapsto> s')) q = Some r \<and> stream_type r = ty \<and> stream_name r = n \<and> (stream_state r = k_pc_failed \<longrightarrow> q \<in> F)"
    using assms(2-5) by (cases "q = p") auto
qed

lemma mg_inv_state:
  assumes "mg_inv F p (pc_connection_state st # es) mg" "streams mg p = Some s" "stream_type s' = stream_type s" "stream_name s' = stream_name s"
    "stream_state s' = st" "st = k_pc_failed \<Longrightarrow> p \<in> F"
  shows "mg_inv F p es (mg\<lparr>streams := (streams mg)(p \<mapsto> s')\<rparr>)"
  using assms listed_update [where ss = "streams mg" and F = F, OF _ assms(2,3,4)] unfolding mg_inv_def by (auto split: if_splits)

lemma mg_inv_timer:
  assumes "mg_inv F q es mg" "streams mg p = Some s"
  shows "mg_inv F q es (mg\<lparr>streams := (streams mg)(p \<mapsto> s\<lparr>ice_timeout_watcher := b\<rparr>)\<rparr>)"
  using assms listed_update [where ss = "streams mg" and F = F and s' = "s\<lparr>ice_timeout_watcher := b\<rparr>", OF _ assms(2)] unfolding mg_inv_def by (auto split: if_splits)

lemma mg_inv_skip:
  "mg_inv F p (e # es) mg \<Longrightarrow> streams mg p = Some s \<Longrightarrow> (\<And>st. e = pc_connection_state st \<Longrightarrow> stream_state s = st) \<Longrightarrow> mg_inv F p es mg"
  "mg_inv F p es mg \<Longrightarrow> streams mg p = None \<Longrightarrow> mg_inv F p es' mg"
  unfolding mg_inv_def by (cases e; fastforce) (auto split: if_splits)

lemma stream_on_connection_state_inv:
  assumes "mg_inv {} p (pc_connection_state st # es) mg" "streams mg p = Some s"
  shows "safely (mg_inv {} p es) (stream_on_connection_state p s st mg)"
proof (cases "stream_state s = st")
  case True
  then show ?thesis using mg_inv_skip(1) [OF assms] by (simp add: stream_on_connection_state_def)
next
  case False
  let ?s = "if st = k_pc_connected then s\<lparr>stream_state := st, ice_timeout_watcher := False\<rparr> else s\<lparr>stream_state := st\<rparr>"
  let ?mg = "mg\<lparr>streams := (streams mg)(p \<mapsto> ?s)\<rparr>"
  have weak: "mg_inv {p} p (pc_connection_state st # es) mg" using assms(1) unfolding mg_inv_def listed_def by blast
  have run: "stream_on_connection_state p s st mg = mg_on_connection_state ?s st ?mg"
    using False by (simp add: stream_on_connection_state_def Let_def)
  show ?thesis
  proof (cases "st = k_pc_failed")
    case True
    have "mg_inv {p} p es ?mg" by (rule mg_inv_state [OF weak assms(2)]) (simp_all add: True)
    from remove_stream_inv [OF this, of p ?s] have "safely (\<lambda>mg'. mg_inv {p} p es mg' \<and> unlisted p mg') (remove_stream ?s ?mg)" by simp
    then show ?thesis unfolding run using True by (auto simp: mg_on_connection_state_def elim!: safely_mono intro: mg_inv_unlisted)
  next
    case ok: False
    have "mg_inv {} p es ?mg" by (rule mg_inv_state [OF assms]) (simp_all add: ok)
    then show ?thesis unfolding run using ok by (simp add: mg_on_connection_state_def)
  qed
qed

lemma forward_inv:
  assumes "mg_inv F p es mg" "keeps_header (sys_lib sys)"
  shows "decrypted (sys_lib sys) data \<Longrightarrow> safely (mg_inv F p es) (mg_on_rtp_packet_received sys s data mg)"
    "safely (mg_inv F p es) (mg_on_rtcp_packet_received sys s data mg)"
proof -
  have live: "\<exists>s. streams mg q = Some s" if "push_streams mg n = Some q \<or> pull_streams mg n = Some q" for n q
    using that mg_invD(3,4) [OF assms(1)] by blast
  have rtcp: "safely (mg_inv F p es) (send_on q (pc_send_rtcp sys data) mg)" if "streams mg q = Some r" for q r
    by (rule send_on_inv [OF assms(1) that, where lib = "sys_lib sys"]) (simp_all add: pc_send_step pc_send_quiet)
  have rtp: "safely (mg_inv F p es) (send_on q (pc_send_rtp sys data) mg)" if "streams mg q = Some r" "decrypted (sys_lib sys) data" for q r
    using genuine_length [OF assms(2) that(2)] by (intro send_on_inv [OF assms(1) that(1), where lib = "sys_lib sys"]) (simp_all add: pc_send_step pc_send_quiet)
  show "decrypted (sys_lib sys) data \<Longrightarrow> safely (mg_inv F p es) (mg_on_rtp_packet_received sys s data mg)"
    using assms(1) live rtp by (fastforce simp: mg_on_rtp_packet_received_def split: RtcStreamType.split option.split)
  show "safely (mg_inv F p es) (mg_on_rtcp_packet_received sys s data mg)"
    using assms(1) live rtcp by (fastforce simp: mg_on_rtcp_packet_received_def split: RtcStreamType.split option.split)
qed

lemma on_pc_event_inv:
  assumes "mg_inv {} p (e # es) mg" "keeps_header (sys_lib sys)" "genuine_packet (sys_lib sys) e"
  shows "safely (mg_inv {} p es) (on_pc_event sys p e mg)"
proof (cases "streams mg p")
  case None
  then show ?thesis using mg_inv_skip(2) [OF assms(1)] by (simp add: on_pc_event_def)
next
  case (Some s)
  show ?thesis
  proof (cases e)
    case (pc_connection_state st)
    then show ?thesis using stream_on_connection_state_inv assms(1) Some by (simp add: on_pc_event_def)
  next
    case (pc_rtp_packet data)
    then show ?thesis using forward_inv(1) [OF mg_inv_skip(1) [OF assms(1) Some] assms(2)] assms(3) Some by (simp add: on_pc_event_def)
  next
    case (pc_rtcp_packet data)
    then show ?thesis using forward_inv(2) [OF mg_inv_skip(1) [OF assms(1) Some] assms(2)] Some by (simp add: on_pc_event_def)
  qed
qed

lemma on_pc_events_inv:
  "mg_inv {} p es mg \<Longrightarrow> keeps_header (sys_lib sys) \<Longrightarrow> list_all (genuine_packet (sys_lib sys)) es \<Longrightarrow>
    safely (mg_inv {} p []) (on_pc_events sys p es mg)"
  by (induction es arbitrary: mg) (auto intro!: safely_bind [OF on_pc_event_inv])

lemma pc_step_inv:
  assumes "mg_good mg" "pcs mg p = Some pc" "pc_step lib (borrowed u pc) pc'"
  shows "mg_inv {} p (pc_events pc') (mg\<lparr>pcs := (pcs mg)(p \<mapsto> pc'), process_usage := v\<rparr>) \<and> list_all (genuine_packet lib) (pc_events pc')"
proof -
  have "list_all (genuine_packet lib) (pc_events pc')" "destroy_timer pc' = destroy_timer pc" "pc_good pc'"
    "pc_state (controller pc') = last_pc_state (pc_events pc') (pc_state (controller pc))"
    using assms(3) by (auto simp: pc_step_def pc_good_def)
  with assms(1,2) show ?thesis unfolding mg_inv_def by (auto 4 3 split: if_splits dest: spec [of _ p])
qed

lemma run_pc_inv:
  assumes "mg_good mg" "keeps_header (sys_lib sys)" "pcs mg p = Some pc"
    "safely (\<lambda>x. pc_step (sys_lib sys) (borrowed (process_usage mg) pc) (snd x)) (f (borrowed (process_usage mg) pc))"
  shows "safely (\<lambda>x. mg_good (snd x)) (run_pc sys p f mg)"
proof -
  obtain r pc' where f: "f (borrowed (process_usage mg) pc) = Some (r, pc')" "pc_step (sys_lib sys) (borrowed (process_usage mg) pc) pc'"
    using assms(4) by (auto elim: safelyE)
  from on_pc_events_inv [OF conjunct1 [OF pc_step_inv [OF assms(1,3) f(2), of "srtp_usage (controller pc')"]] assms(2)]
    pc_step_inv [OF assms(1,3) f(2)] show ?thesis using assms(3) f(1) by (simp add: run_pc_def call_pc_def mg_inv_done [of "{}" p 0] flip: borrowed_def)
qed

section \<open>Creating streams\<close>

definition open_stream :: "'ctx system \<Rightarrow> certificate option \<Rightarrow> RtcStream \<Rightarrow> StreamParams list \<Rightarrow> StreamParams list \<Rightarrow> 'ctx RtcStreamManager
    \<Rightarrow> (bytes \<times> 'ctx RtcStreamManager) option" where
  "open_stream sys cert s audio video mg = do {
     let (p, mg) = spawn_stream s audio video mg;
     mg \<leftarrow> stream_start cert p mg;
     stream_create_offer sys p mg
   }"

definition opened :: "RtcStream \<Rightarrow> 'ctx RtcStreamManager \<Rightarrow> 'ctx RtcStreamManager \<Rightarrow> bool" where
  "opened s mg mg' \<longleftrightarrow> push_streams mg' = push_streams mg \<and> pull_streams mg' = pull_streams mg \<and> next_stream mg' = Suc (next_stream mg)
     \<and> streams mg' = (streams mg)(next_stream mg \<mapsto> s\<lparr>ice_timeout_watcher := True\<rparr>)"

lemma opened_stream: "opened s mg mg' \<Longrightarrow> streams mg' (next_stream mg) = Some (s\<lparr>ice_timeout_watcher := True\<rparr>)"
  by (simp add: opened_def)

lemma mg_inv_next: "mg_inv F p es mg \<Longrightarrow> pcs mg (next_stream mg) = None \<and> streams mg (next_stream mg) = None \<and> unlisted (next_stream mg) mg"
  using mg_invD(2) [of F p es mg "next_stream mg"] mg_invD(1) [of F p es mg "next_stream mg"]
    mg_invD(3,4) [of F p es mg _ "next_stream mg"]
  by (cases "pcs mg (next_stream mg)"; cases "streams mg (next_stream mg)") (auto simp: unlisted_def)

lemma listed_other: "listed F ty table ss \<Longrightarrow> ss q = None \<Longrightarrow> listed F ty table (ss(q \<mapsto> s))"
  unfolding listed_def by (metis fun_upd_apply option.distinct(1))

lemma new_pc_fresh: "pc_fresh (pc_init cert (new_PeerConnection u\<lparr>audio_source := a, video_source := v\<rparr>))"
  using new_controller_fresh [of "map_option fst cert" u]
  by (simp add: pc_fresh_def pc_init_def new_PeerConnection_def)
    (simp add: tc_set_local_certificate_def new_TransportController_def new_IceAgent_def)

lemma pc_fresh_good: "pc_fresh pc \<Longrightarrow> pc_good pc \<and> pc_state (controller pc) = k_pc_new"
  by (simp add: pc_fresh_def pc_good_def fresh_good) (simp add: fresh_parts_def)

lemma open_stream_inv:
  assumes "mg_good mg" "stream_state s = k_pc_new" "keeps_header (sys_lib sys)"
  shows "safely (\<lambda>(_, mg'). mg_good mg' \<and> opened s mg mg') (open_stream sys cert s a v mg)"
proof -
  let ?p = "next_stream mg" and ?s = "s\<lparr>ice_timeout_watcher := True\<rparr>"
    and ?pc = "pc_init cert (new_PeerConnection (process_usage mg)\<lparr>audio_source := a, video_source := v\<rparr>)"
    and ?opt = "case stream_type s of k_push \<Rightarrow> push_options (s\<lparr>ice_timeout_watcher := True\<rparr>) | k_pull \<Rightarrow> pull_options (s\<lparr>ice_timeout_watcher := True\<rparr>)"
  define mg1 where "mg1 = mg\<lparr>streams := (streams mg)(?p \<mapsto> ?s), next_stream := ?p + 1, pcs := (pcs mg)(?p \<mapsto> ?pc)\<rparr>"
  have fresh: "pc_fresh ?pc" by (rule new_pc_fresh)
  then have good: "pc_good ?pc" "pc_state (controller ?pc) = k_pc_new" using pc_fresh_good by blast+
  have timer: "\<not> destroy_timer ?pc" by (simp add: pc_init_def new_PeerConnection_def)
  have inv: "mg_good mg1" using assms(1,2) mg_inv_next [OF assms(1)] good timer unfolding mg_inv_def mg1_def
    by (auto simp: listed_other less_SucI split: if_splits)
  have start: "stream_start cert ?p (snd (spawn_stream s a v mg)) = Some mg1"
    by (simp add: stream_start_def spawn_stream_def mg1_def Let_def)
  let ?b = "borrowed (process_usage mg) ?pc"
  have mux: "use_rtp_mux ?opt" by (simp add: push_options_def pull_options_def default_options_def split: RtcStreamType.split)
  have step: "safely (\<lambda>x. pc_step (sys_lib sys) ?b (snd x)) (pc_create_offer sys ?opt ?b)"
    using fresh mux by (intro create_offer_step) simp_all
  then obtain offer pc' where off: "pc_create_offer sys ?opt ?b = Some (offer, pc')" by (auto elim: safelyE)
  have "pc_events pc' = []" using yieldsD [OF create_offer_quiet off] by simp
  with off have run: "run_pc sys ?p (pc_create_offer sys ?opt) mg1
      = Some (offer, mg1\<lparr>pcs := (pcs mg1)(?p \<mapsto> pc'), process_usage := srtp_usage (controller pc')\<rparr>)"
    by (simp add: run_pc_def call_pc_def mg1_def flip: borrowed_def)
  have "safely (\<lambda>x. mg_good (snd x)) (run_pc sys ?p (pc_create_offer sys ?opt) mg1)"
    using step by (intro run_pc_inv [OF inv assms(3), of ?p ?pc]) (simp_all add: mg1_def)
  moreover have "streams mg1 ?p = Some ?s" by (simp add: mg1_def)
  ultimately show ?thesis using start run
    by (simp add: open_stream_def spawn_stream_def Let_def stream_create_offer_def) (simp add: mg1_def opened_def)
qed

lemma enlist_push: "mg_inv F q es mg \<Longrightarrow> streams mg p = Some s \<Longrightarrow> stream_type s = k_push \<Longrightarrow> stream_name s = n \<Longrightarrow> stream_state s \<noteq> k_pc_failed
    \<Longrightarrow> mg_inv F q es (mg\<lparr>push_streams := (push_streams mg)(n \<mapsto> p)\<rparr>)"
  and enlist_pull: "mg_inv F q es mg \<Longrightarrow> streams mg p = Some s \<Longrightarrow> stream_type s = k_pull \<Longrightarrow> stream_name s = n \<Longrightarrow> stream_state s \<noteq> k_pc_failed
    \<Longrightarrow> mg_inv F q es (mg\<lparr>pull_streams := (pull_streams mg)(n \<mapsto> p)\<rparr>)"
  by (simp_all add: mg_inv_def listed_def)

text \<open>The old stream of a name goes before the new one is made.\<close>

definition vacate :: "bytes \<Rightarrow> 'ctx RtcStreamManager \<Rightarrow> 'ctx RtcStreamManager option" where
  "vacate n mg = (case push_streams mg n of None \<Rightarrow> Some mg
     | Some p \<Rightarrow> delete_stream p (mg\<lparr>push_streams := (push_streams mg)(n := None)\<rparr>))"

lemma create_push_via:
  "create_push_stream sys uid n audio video cert mg = do {
     mg \<leftarrow> vacate n mg;
     (offer, mg') \<leftarrow> open_stream sys cert (new_RtcStream k_push uid n audio video) [] [] mg;
     Some (0, offer, mg'\<lparr>push_streams := (push_streams mg')(n \<mapsto> next_stream mg)\<rparr>)
   }"
  by (simp add: create_push_stream_def vacate_def open_stream_def spawn_stream_def Let_def)

lemma create_pull_via:
  assumes "push_streams mg n = Some q" "remove_pull_stream uid n mg = Some mg1" "streams mg1 q = Some s" "pcs mg1 q = Some pc"
  shows "create_pull_stream sys uid n audio video cert mg = do {
     (offer, mg') \<leftarrow> open_stream sys cert (new_RtcStream k_pull uid n audio video) (get_source (bytes_of ''audio'') pc) (get_source (bytes_of ''video'') pc) mg1;
     Some (0, offer, mg'\<lparr>pull_streams := (pull_streams mg')(n \<mapsto> next_stream mg1)\<rparr>)
   }"
  using assms by (simp add: create_pull_stream_def open_stream_def spawn_stream_def Let_def)

lemma vacate_inv:
  assumes "mg_good mg"
  shows "safely mg_good (vacate n mg)"
  using assms mg_invD(3) [OF assms(1)] delete_stream_inv [OF unlist_push [OF assms(1), of n]] unlisted_push [OF assms(1)]
  by (fastforce simp: vacate_def split: option.split)

lemma new_stream_state [simp]: "stream_state (new_RtcStream ty uid n audio video) = k_pc_new"
  by (simp add: new_RtcStream_def)

lemma create_push_inv:
  assumes "mg_good mg" "keeps_header (sys_lib sys)"
  shows "safely (\<lambda>(_, _, mg'). mg_good mg') (create_push_stream sys uid n audio video cert mg)"
  unfolding create_push_via
  by (rule safely_bind [OF vacate_inv [OF assms(1)]], rule safely_bind [OF open_stream_inv [OF _ _ assms(2)]])
    (auto simp: new_RtcStream_def intro!: enlist_push dest: opened_stream)

text \<open>What a pull of an existing stream starts from.\<close>

lemma pull_source:
  assumes "mg_good mg" "push_streams mg n = Some q"
  obtains mg1 s pc where "remove_pull_stream uid n mg = Some mg1" "mg_good mg1" "streams mg1 q = Some s" "pcs mg1 q = Some pc"
proof -
  obtain mg1 where mg1: "remove_pull_stream uid n mg = Some mg1" "mg_good mg1" using remove_pull_inv [OF assms(1), of uid n] by (auto elim: safelyE)
  then have "push_streams mg1 n = Some q" using yieldsD [OF remove_tables(2) mg1(1)] assms(2) by simp
  then show thesis using mg_invD(3) [OF mg1(2)] mg_inv_live [OF mg1(2)] that [OF mg1] by metis
qed

lemma create_pull_inv:
  assumes "mg_good mg" "keeps_header (sys_lib sys)"
  shows "safely (\<lambda>(_, _, mg'). mg_good mg') (create_pull_stream sys uid n audio video cert mg)"
proof (cases "push_streams mg n")
  case (Some q)
  from pull_source [OF assms(1) Some, of uid] obtain mg1 s pc
    where mg1: "remove_pull_stream uid n mg = Some mg1" "mg_good mg1" "streams mg1 q = Some s" "pcs mg1 q = Some pc" .
  show ?thesis unfolding create_pull_via [OF Some mg1(1,3,4)]
    by (rule safely_bind [OF open_stream_inv [OF mg1(2) _ assms(2)]]) (auto simp: new_RtcStream_def intro!: enlist_pull dest: opened_stream)
qed (use assms(1) in \<open>simp add: create_pull_stream_def\<close>)

section \<open>Runs of a manager\<close>

text \<open>
  The events of a manager: the commands of the signalling side, a datagram, timer or adapter of the
  transports of one of its peer connections, and the timers of streams and peer connections.
\<close>

datatype mg_input =
    cmd_push uid bytes bool bool "certificate option"
  | cmd_pull uid bytes bool bool "certificate option"
  | cmd_answer uid bytes bytes bytes
  | cmd_stop_push uid bytes
  | cmd_stop_pull uid bytes
  | on_transport nat tc_input
  | on_ice_timeout nat
  | on_destroy_timer nat

fun mg_run :: "'ctx system \<Rightarrow> mg_input \<Rightarrow> 'ctx RtcStreamManager \<Rightarrow> (int \<times> 'ctx RtcStreamManager) option" where
  "mg_run sys (cmd_push uid n audio video cert) mg = map_option (\<lambda>(r, _, mg). (r, mg)) (create_push_stream sys uid n audio video cert mg)"
| "mg_run sys (cmd_pull uid n audio video cert) mg = map_option (\<lambda>(r, _, mg). (r, mg)) (create_pull_stream sys uid n audio video cert mg)"
| "mg_run sys (cmd_answer uid n answer ty) mg = set_answer sys uid n answer ty mg"
| "mg_run sys (cmd_stop_push uid n) mg = stop_push uid n mg"
| "mg_run sys (cmd_stop_pull uid n) mg = stop_pull uid n mg"
| "mg_run sys (on_transport p inp) mg = run_pc sys p (\<lambda>pc. map_option (Pair 0)
     (run_controller (tc_run (sys_sha1 sys) (sys_ntop sys) (sys_lib sys) (sys_ssl sys) inp) pc)) mg"
| "mg_run sys (on_ice_timeout p) mg = map_option (Pair 0) (ice_timeout_cb p mg)"
| "mg_run sys (on_destroy_timer p) mg = map_option (Pair 0) (destroy_timer_cb sys p mg)"

fun from_network :: "tc_input \<Rightarrow> bool" where
  "from_network (in_channel i inp) = True"
| "from_network (in_adapter n acts) = True"
| "from_network _ = False"

fun mg_enabled :: "mg_input \<Rightarrow> 'ctx RtcStreamManager \<Rightarrow> bool" where
  "mg_enabled (on_transport p inp) mg \<longleftrightarrow> from_network inp \<and> (case pcs mg p of None \<Rightarrow> False | Some pc \<Rightarrow> tc_enabled inp (controller pc))"
| "mg_enabled (on_ice_timeout p) mg \<longleftrightarrow> (case streams mg p of None \<Rightarrow> False | Some s \<Rightarrow> ice_timeout_watcher s)"
| "mg_enabled (on_destroy_timer p) mg \<longleftrightarrow> (case pcs mg p of None \<Rightarrow> False | Some pc \<Rightarrow> destroy_timer pc)"
| "mg_enabled _ mg \<longleftrightarrow> True"

text \<open>The stream an answer is for.\<close>

definition answered :: "uid \<Rightarrow> bytes \<Rightarrow> bytes \<Rightarrow> 'ctx RtcStreamManager \<Rightarrow> nat option" where
  "answered uid n ty mg =
     (let found = (if ty = bytes_of ''push'' then push_streams mg n else if ty = bytes_of ''pull'' then pull_streams mg n else None)
      in case Option.bind found (streams mg) of None \<Rightarrow> None | Some s \<Rightarrow> if stream_uid s = uid then found else None)"

fun mg_input_safe :: "'ctx system \<Rightarrow> mg_input \<Rightarrow> 'ctx RtcStreamManager \<Rightarrow> bool" where
  "mg_input_safe sys (cmd_answer uid n answer ty) mg \<longleftrightarrow> (case Option.bind (answered uid n ty mg) (pcs mg) of None \<Rightarrow> True
     | Some pc \<Rightarrow> answer_safe (sys_direction sys) answer (controller pc))"
| "mg_input_safe sys (on_transport p inp) mg \<longleftrightarrow> (case pcs mg p of None \<Rightarrow> False | Some pc \<Rightarrow> tc_input_safe (sys_sha1 sys) inp (controller pc))"
| "mg_input_safe sys _ mg \<longleftrightarrow> True"

lemma run_pc_None: "pcs mg p = Some pc \<Longrightarrow> f (borrowed (process_usage mg) pc) = None \<Longrightarrow> run_pc sys p f mg = None"
  by (simp add: run_pc_def call_pc_def flip: borrowed_def)

lemma answer_stream_spec:
  assumes "mg_good mg" "keeps_header (sys_lib sys)" "p \<noteq> None \<Longrightarrow> \<exists>s. streams mg (the p) = Some s"
  shows "if (\<exists>q s pc. p = Some q \<and> streams mg q = Some s \<and> stream_uid s = uid \<and> pcs mg q = Some pc \<and> \<not> answer_safe (sys_direction sys) answer (controller pc))
    then answer_stream sys uid answer p mg = None
    else safely (\<lambda>x. mg_good (snd x)) (answer_stream sys uid answer p mg)"
proof (cases p)
  case (Some q)
  then obtain s where s: "streams mg q = Some s" using assms(3) by auto
  then obtain pc where pc: "pcs mg q = Some pc" "pc_good pc" using mg_inv_live [OF assms(1)] by metis
  let ?b = "borrowed (process_usage mg) pc"
  show ?thesis
  proof (cases "answer_safe (sys_direction sys) answer (controller pc)")
    case True
    have "safely (\<lambda>x. mg_good (snd x)) (run_pc sys q (pc_set_remote_sdp sys answer) mg)"
      using set_remote_sdp_step [of ?b sys answer] pc True by (intro run_pc_inv [OF assms(1,2) pc(1)]) simp
    then show ?thesis using Some s pc True assms(1)
      by (auto simp: answer_stream_def elim!: safelyE)
  next
    case False
    then have "run_pc sys q (pc_set_remote_sdp sys answer) mg = None"
      using set_remote_sdp_step [of ?b sys answer] pc by (intro run_pc_None [OF pc(1)]) simp
    then show ?thesis using Some s pc False assms(1) by (auto simp: answer_stream_def)
  qed
qed (use assms(1) in \<open>simp add: answer_stream_def\<close>)

lemma answered_Some: "answered uid n ty mg = Some q \<longleftrightarrow> (\<exists>s. streams mg q = Some s \<and> stream_uid s = uid
    \<and> (ty = bytes_of ''push'' \<and> push_streams mg n = Some q \<or> ty = bytes_of ''pull'' \<and> pull_streams mg n = Some q))"
  by (auto simp: answered_def Let_def bytes_of_def split: option.splits bind_splits if_splits)

lemma set_answer_spec:
  assumes "mg_good mg" "keeps_header (sys_lib sys)"
  shows "if mg_input_safe sys (cmd_answer uid n answer ty) mg then safely (\<lambda>x. mg_good (snd x)) (set_answer sys uid n answer ty mg)
    else set_answer sys uid n answer ty mg = None"
proof -
  let ?found = "if ty = bytes_of ''push'' then push_streams mg n else if ty = bytes_of ''pull'' then pull_streams mg n else None"
  have live: "\<exists>s. streams mg (the ?found) = Some s" if "?found \<noteq> None"
    using that mg_invD(3,4) [OF assms(1)] by (auto split: if_splits) (blast+)
  have "(\<exists>q s pc. ?found = Some q \<and> streams mg q = Some s \<and> stream_uid s = uid \<and> pcs mg q = Some pc
      \<and> \<not> answer_safe (sys_direction sys) answer (controller pc)) \<longleftrightarrow> \<not> mg_input_safe sys (cmd_answer uid n answer ty) mg"
    by (cases "answered uid n ty mg") (auto simp: answered_def Let_def split: option.splits bind_splits if_splits)
  moreover have "set_answer sys uid n answer ty mg = (if ty = bytes_of ''push'' \<or> ty = bytes_of ''pull''
      then answer_stream sys uid answer ?found mg else Some (0, mg))"
    by (simp add: set_answer_def)
  ultimately show ?thesis using answer_stream_spec [OF assms live, of uid answer] assms(1) by (auto split: if_splits)
qed

lemma ice_timeout_inv:
  assumes "mg_good mg" "streams mg p = Some s"
  shows "safely mg_good (ice_timeout_cb p mg)"
proof -
  let ?s = "s\<lparr>ice_timeout_watcher := False\<rparr>"
  have inv: "mg_good (mg\<lparr>streams := (streams mg)(p \<mapsto> ?s)\<rparr>)" by (rule mg_inv_timer [OF assms])
  show ?thesis using remove_stream_inv [OF inv, of p ?s] inv assms(2)
    by (auto simp: ice_timeout_cb_def mg_on_stream_exception_def remove_stream_def Let_def elim!: safely_mono split: RtcStreamType.splits)
qed

lemma destroy_timer_inv:
  assumes "mg_good mg" "pcs mg p = Some pc" "destroy_timer pc"
  shows "safely mg_good (destroy_timer_cb sys p mg)"
proof -
  have pc: "pc_good pc" "streams mg p = None" using mg_invD(2) [OF assms(1,2)] assms(3) by simp_all
  then have "tc_good ((controller pc)\<lparr>srtp_usage := process_usage mg\<rparr>)" "length (chans ((controller pc)\<lparr>srtp_usage := process_usage mg\<rparr>)) \<le> 1"
    by (simp_all add: pc_good_def)
  from delete_TransportController_safe [OF this, of "sys_now sys"]
  obtain u where u: "delete_TransportController (sys_now sys) ((controller pc)\<lparr>srtp_usage := process_usage mg\<rparr>) = Some u" by blast
  have "mg_good (mg\<lparr>pcs := (pcs mg)(p := None), process_usage := u\<rparr>)"
    using assms(1) pc(2) unfolding mg_inv_def by (auto split: if_splits)
  then show ?thesis using assms(2) u by (simp add: destroy_timer_cb_def)
qed

lemma mg_run_spec:
  assumes "mg_good mg" "keeps_header (sys_lib sys)" "mg_enabled inp mg"
  shows "if mg_input_safe sys inp mg then safely (\<lambda>x. mg_good (snd x)) (mg_run sys inp mg) else mg_run sys inp mg = None"
proof (cases inp)
  case (cmd_push uid n audio video cert)
  then show ?thesis using create_push_inv [OF assms(1,2), of uid n audio video cert] by (auto elim!: safely_mono)
next
  case (cmd_pull uid n audio video cert)
  then show ?thesis using create_pull_inv [OF assms(1,2), of uid n audio video cert] by (auto elim!: safely_mono)
next
  case (cmd_answer uid n answer ty)
  then show ?thesis using set_answer_spec [OF assms(1,2), of uid n answer ty] by simp
next
  case (cmd_stop_push uid n)
  then show ?thesis using remove_push_inv [OF assms(1), of uid n] by (simp add: stop_push_def)
next
  case (cmd_stop_pull uid n)
  then show ?thesis using remove_pull_inv [OF assms(1), of uid n] by (simp add: stop_pull_def)
next
  case (on_transport p ti)
  then obtain pc where pc: "pcs mg p = Some pc" "tc_enabled ti (controller pc)" using assms(3) by (auto split: option.splits)
  let ?f = "\<lambda>pc. map_option (Pair (0 :: int)) (run_controller (tc_run (sys_sha1 sys) (sys_ntop sys) (sys_lib sys) (sys_ssl sys) ti) pc)"
    and ?b = "borrowed (process_usage mg) pc"
  have "pc_good ?b" "tc_enabled ti (controller ?b)" using mg_invD(2) [OF assms(1) pc(1)] pc(2) by simp_all
  from tc_run_step [OF this, of "sys_sha1 sys" "sys_lib sys" "sys_ntop sys" "sys_ssl sys"]
  have step: "if tc_input_safe (sys_sha1 sys) ti (controller pc) then safely (\<lambda>x. pc_step (sys_lib sys) ?b (snd x)) (?f ?b) else ?f ?b = None" by simp
  show ?thesis using on_transport pc(1) step run_pc_inv [OF assms(1,2) pc(1), of ?f] run_pc_None [OF pc(1), of ?f sys]
    by (cases "tc_input_safe (sys_sha1 sys) ti (controller pc)") simp_all
next
  case (on_ice_timeout p)
  then show ?thesis using assms(3) ice_timeout_inv [OF assms(1)] by (auto split: option.splits)
next
  case (on_destroy_timer p)
  then show ?thesis using assms(3) destroy_timer_inv [OF assms(1)] by (auto split: option.splits)
qed

text \<open>The libraries and the clock can answer differently for each event; libsrtp keeps RTP headers.\<close>

inductive mg_reach :: "'ctx RtcStreamManager \<Rightarrow> bool" where
  start: "mg_reach new_RtcStreamManager"
| step: "mg_reach mg \<Longrightarrow> keeps_header (sys_lib sys) \<Longrightarrow> mg_enabled inp mg \<Longrightarrow> mg_run sys inp mg = Some (r, mg') \<Longrightarrow> mg_reach mg'"

lemma mg_reach_good: "mg_reach mg \<Longrightarrow> mg_good mg"
proof (induction rule: mg_reach.induct)
  case start
  show ?case by (simp add: mg_inv_def listed_def new_RtcStreamManager_def)
next
  case (step mg sys inp r mg')
  from mg_run_spec [OF step.IH step.hyps(2,3)] step.hyps(4) show ?case by (auto split: if_splits)
qed

lemma pull_result:
  assumes "mg_good mg" "keeps_header (sys_lib sys)" "push_streams mg n = Some q" "\<not> has_uid mg (pull_streams mg) n uid"
  shows "\<exists>mg'. mg_run sys (cmd_pull uid n audio video cert) mg = Some (0, mg') \<and> push_streams mg' = push_streams mg
    \<and> pull_streams mg' = (pull_streams mg)(n \<mapsto> next_stream mg) \<and> next_stream mg' = Suc (next_stream mg)
    \<and> streams mg' = (streams mg)(next_stream mg \<mapsto> new_RtcStream k_pull uid n audio video\<lparr>ice_timeout_watcher := True\<rparr>)"
proof -
  let ?s = "new_RtcStream k_pull uid n audio video"
  have none: "remove_pull_stream uid n mg = Some mg"
    using assms(4) mg_invD(4) [OF assms(1), of n] by (cases "pull_streams mg n") (fastforce simp: remove_pull_stream_def has_uid_def)+
  obtain s pc where q: "streams mg q = Some s" "pcs mg q = Some pc" using mg_invD(3) [OF assms(1,3)] mg_inv_live [OF assms(1)] by metis
  let ?a = "get_source (bytes_of ''audio'') pc" and ?v = "get_source (bytes_of ''video'') pc"
  obtain offer mg1 where "open_stream sys cert ?s ?a ?v mg = Some (offer, mg1)" "opened ?s mg mg1"
    using open_stream_inv [OF assms(1) _ assms(2), of ?s cert ?a ?v] by (auto elim: safelyE)
  then show ?thesis by (simp add: create_pull_via [OF assms(3) none q] opened_def)
qed

lemma push_result:
  assumes "mg_good mg" "keeps_header (sys_lib sys)" "push_streams mg n = None"
  shows "\<exists>mg'. mg_run sys (cmd_push uid n audio video cert) mg = Some (0, mg') \<and> push_streams mg' = (push_streams mg)(n \<mapsto> next_stream mg)
    \<and> pull_streams mg' = pull_streams mg \<and> next_stream mg' = Suc (next_stream mg)
    \<and> streams mg' = (streams mg)(next_stream mg \<mapsto> new_RtcStream k_push uid n audio video\<lparr>ice_timeout_watcher := True\<rparr>)"
proof -
  let ?s = "new_RtcStream k_push uid n audio video"
  obtain offer mg1 where "open_stream sys cert ?s [] [] mg = Some (offer, mg1)" "opened ?s mg mg1"
    using open_stream_inv [OF assms(1) _ assms(2), of ?s cert "[]" "[]"] by (auto elim: safelyE)
  then show ?thesis using assms(3) by (simp add: create_push_via vacate_def opened_def)
qed

section \<open>Claims\<close>

text \<open>
  C2. The media side of the server as a whole, from the commands of the signalling side down to
  ICE, DTLS and SRTP, has undefined behaviour on exactly two kinds of input: a datagram that a
  channel cannot handle safely, and an answer for the right stream whose text cannot be parsed
  safely or lacks a fingerprint.  Creating, stopping and replacing streams, forwarding media between
  them, time-outs and the delayed deletion of peer connections never use a deleted object.
\<close>

theorem manager_fails_iff:
  assumes "mg_reach mg" "mg_enabled inp mg" "keeps_header (sys_lib sys)"
  shows "mg_run sys inp mg = None \<longleftrightarrow> \<not> mg_input_safe sys inp mg"
  using mg_run_spec [OF mg_reach_good [OF assms(1)] assms(3,2)] by (auto elim: safelyE split: if_splits)

text \<open>
  C7. In every reachable state of a manager each stream has its peer connection and has recorded
  the connection state its transports are in now; the tables refer to live streams of their kind
  under their own names, none of which has failed; and a peer connection outlives its stream only
  with its deletion timer set.
\<close>

theorem stream_states_up_to_date:
  assumes "mg_reach mg"
  shows "(\<forall>p s. streams mg p = Some s \<longrightarrow> (\<exists>pc. pcs mg p = Some pc \<and> stream_state s = connection_state (controller pc)))
    \<and> (\<forall>n p. push_streams mg n = Some p \<longrightarrow> (\<exists>s. streams mg p = Some s \<and> stream_type s = k_push \<and> stream_name s = n \<and> stream_state s \<noteq> k_pc_failed))
    \<and> (\<forall>n p. pull_streams mg n = Some p \<longrightarrow> (\<exists>s. streams mg p = Some s \<and> stream_type s = k_pull \<and> stream_name s = n \<and> stream_state s \<noteq> k_pc_failed))
    \<and> (\<forall>p pc. pcs mg p = Some pc \<longrightarrow> (destroy_timer pc \<longleftrightarrow> streams mg p = None))"
proof -
  have inv: "mg_good mg" by (rule mg_reach_good [OF assms])
  have "\<exists>pc. pcs mg p = Some pc \<and> stream_state s = connection_state (controller pc)" if live: "streams mg p = Some s" for p s
  proof -
    obtain pc where pc: "pcs mg p = Some pc" "pc_good pc" "pc_state (controller pc) = stream_state s"
      using mg_inv_live [OF inv live] by auto
    then have "in_step (controller pc)" by (simp add: pc_good_def tc_good_def)
    with pc show ?thesis by (auto simp: in_step_def reported_def connection_state_pc_of)
  qed
  moreover have "listed {} k_push (push_streams mg) (streams mg)" "listed {} k_pull (pull_streams mg) (streams mg)"
    using inv by (simp_all add: mg_inv_def)
  ultimately show ?thesis using mg_invD(2) [OF inv] by (intro conjI) (simp_all add: listed_def)
qed

section \<open>Witnesses\<close>

text \<open>A server without network interfaces.\<close>

definition sample_sys :: "srtp_policy system" where
  "sample_sys = \<lparr>sys_sha1 = toy_sha1, sys_ntop = sample_ntop, sys_lib = sample_lib, sys_ssl = (\<lambda>_. sample_ssl), sys_bound = (\<lambda>_ _. None),
     sys_allocator = \<lparr>pa_networks = [], pa_min_port = 0, pa_max_port = 0\<rparr>, sys_now = 0, sys_direction = k_inactive,
     sys_ice = \<lparr>ice_ufrag = [1], ice_pwd = [2]\<rparr>\<rparr>"

lemma sample_keeps_header: "keeps_header (sys_lib sample_sys)"
  by (auto simp: keeps_header_def sample_sys_def sample_lib_def split: if_splits)

theorem manager_fails_iff_witness:
  "mg_run sample_sys (cmd_push 7 (bytes_of ''s'') True True (Some (7, None))) new_RtcStreamManager \<noteq> None"
  using manager_fails_iff [OF mg_reach.start, of "cmd_push 7 (bytes_of ''s'') True True (Some (7, None))" sample_sys] sample_keeps_header by simp

theorem stream_states_up_to_date_witness:
  "\<exists>mg :: srtp_policy RtcStreamManager. mg_reach mg \<and> (\<exists>p s pc. push_streams mg (bytes_of ''s'') = Some p \<and> streams mg p = Some s
     \<and> pcs mg p = Some pc \<and> stream_state s = connection_state (controller pc) \<and> \<not> destroy_timer pc)"
proof -
  obtain mg :: "srtp_policy RtcStreamManager" where mg: "mg_run sample_sys (cmd_push 7 (bytes_of ''s'') True True (Some (7, None))) new_RtcStreamManager = Some (0, mg)"
    "push_streams mg (bytes_of ''s'') = Some 0"
    using push_result [OF mg_reach_good [OF mg_reach.start] sample_keeps_header, of "bytes_of ''s''" 7 True True "Some (7, None)"]
    by (auto simp: new_RtcStreamManager_def)
  have "mg_reach mg" by (rule mg_reach.step [OF mg_reach.start sample_keeps_header _ mg(1)]) simp
  moreover from stream_states_up_to_date [OF this] mg(2) obtain s pc
    where "streams mg 0 = Some s" "pcs mg 0 = Some pc" "stream_state s = connection_state (controller pc)" "\<not> destroy_timer pc" by (metis option.distinct(1))
  ultimately show ?thesis using mg(2) by blast
qed

end
