(* ===== verification/Stream_Registry.thy ===== *)
theory Stream_Registry
  imports Stream_Safety
begin

text \<open>
  The stream manager as a registry of publishers and subscribers, and what happens to streams that
  are replaced in it.
\<close>

section \<open>The registry of streams\<close>

text \<open>
  What the signalling side knows of a manager: who pushes and who pulls a stream of a given name.
  A stream can be lost, when its connection fails or is not there in time.
\<close>

record registry =
  reg_push :: "bytes \<rightharpoonup> uid"
  reg_pull :: "bytes \<rightharpoonup> uid"

type_synonym stream_label = "RtcStreamType \<times> uid \<times> bytes"

fun reg_drop :: "stream_label \<Rightarrow> registry \<Rightarrow> registry" where
  "reg_drop (k_push, uid, n) r = (if reg_push r n = Some uid then r\<lparr>reg_push := (reg_push r)(n := None)\<rparr> else r)"
| "reg_drop (k_pull, uid, n) r = (if reg_pull r n = Some uid then r\<lparr>reg_pull := (reg_pull r)(n := None)\<rparr> else r)"

definition reg_lose :: "bool \<Rightarrow> stream_label option \<Rightarrow> registry \<Rightarrow> registry" where
  "reg_lose lost l r = (case l of Some l \<Rightarrow> if lost then reg_drop l r else r | None \<Rightarrow> r)"

text \<open>\<open>who\<close> names the streams of the events, \<open>lost\<close> tells whether the stream is lost.\<close>

fun reg_step :: "(nat \<rightharpoonup> stream_label) \<Rightarrow> bool \<Rightarrow> mg_input \<Rightarrow> registry \<Rightarrow> int \<times> registry" where
  "reg_step who lost (cmd_push uid n audio video cert) r = (0, r\<lparr>reg_push := (reg_push r)(n \<mapsto> uid)\<rparr>)"
| "reg_step who lost (cmd_pull uid n audio video cert) r =
     (if reg_push r n = None then (-1, r) else (0, r\<lparr>reg_pull := (reg_pull r)(n \<mapsto> uid)\<rparr>))"
| "reg_step who lost (cmd_answer uid n answer ty) r =
     (if ty = bytes_of ''push'' then if reg_push r n = Some uid then (0, reg_lose lost (Some (k_push, uid, n)) r) else (-1, r)
      else if ty = bytes_of ''pull'' then if reg_pull r n = Some uid then (0, reg_lose lost (Some (k_pull, uid, n)) r) else (-1, r)
      else (0, r))"
| "reg_step who lost (cmd_stop_push uid n) r = (0, reg_drop (k_push, uid, n) r)"
| "reg_step who lost (cmd_stop_pull uid n) r = (0, reg_drop (k_pull, uid, n) r)"
| "reg_step who lost (on_transport p inp) r = (0, reg_lose lost (who p) r)"
| "reg_step who lost (on_ice_timeout p) r = (0, reg_lose lost (who p) r)"
| "reg_step who lost (on_destroy_timer p) r = (0, r)"

definition label :: "RtcStream \<Rightarrow> stream_label" where
  "label s = (stream_type s, stream_uid s, stream_name s)"

definition labels :: "'ctx RtcStreamManager \<Rightarrow> nat \<rightharpoonup> stream_label" where
  "labels mg p = map_option label (streams mg p)"

definition registry_of :: "'ctx RtcStreamManager \<Rightarrow> registry" where
  "registry_of mg = \<lparr>reg_push = (\<lambda>n. map_option stream_uid (Option.bind (push_streams mg n) (streams mg))),
     reg_pull = (\<lambda>n. map_option stream_uid (Option.bind (pull_streams mg n) (streams mg)))\<rparr>"

lemma registry_cong:
  assumes "push_streams mg' = push_streams mg" "pull_streams mg' = pull_streams mg"
    "\<And>q. \<not> unlisted q mg \<Longrightarrow> map_option stream_uid (streams mg' q) = map_option stream_uid (streams mg q)"
  shows "registry_of mg' = registry_of mg"
proof -
  have "map_option stream_uid (Option.bind t (streams mg')) = map_option stream_uid (Option.bind t (streams mg))"
    if "t = None \<or> \<not> unlisted (the t) mg" for t
    using that assms(3) by (cases t) auto
  moreover have "push_streams mg n = None \<or> \<not> unlisted (the (push_streams mg n)) mg" "pull_streams mg n = None \<or> \<not> unlisted (the (pull_streams mg n)) mg" for n
    by (auto simp: unlisted_def)
  ultimately show ?thesis using assms(1,2) by (simp add: registry_of_def)
qed

lemma reg_drop_twice [simp]: "reg_drop l (reg_drop l r) = reg_drop l r"
  by (cases "(l, r)" rule: reg_drop.cases) simp_all

lemma delete_stream_registry: "unlisted q mg \<Longrightarrow> yields (\<lambda>mg'. registry_of mg' = registry_of mg) (delete_stream q mg)"
  by (auto simp: delete_stream_def intro!: yields_read registry_cong)

lemma remove_push_registry:
  assumes "mg_inv F p es mg"
  shows "yields (\<lambda>mg'. registry_of mg' = reg_drop (k_push, uid, n) (registry_of mg)) (remove_push_stream uid n mg)"
proof (cases "push_streams mg n")
  case (Some q)
  then obtain s where s: "streams mg q = Some s" using mg_invD(3) [OF assms] by blast
  let ?mg = "mg\<lparr>push_streams := (push_streams mg)(n := None)\<rparr>"
  have "registry_of ?mg = reg_drop (k_push, stream_uid s, n) (registry_of mg)"
    using Some s by (auto simp: registry_of_def fun_eq_iff)
  then show ?thesis using Some s delete_stream_registry [OF unlisted_push [OF assms Some]]
    by (auto simp: remove_push_stream_def registry_of_def elim!: yields_mono)
qed (simp add: remove_push_stream_def registry_of_def)

lemma remove_pull_registry:
  assumes "mg_inv F p es mg"
  shows "yields (\<lambda>mg'. registry_of mg' = reg_drop (k_pull, uid, n) (registry_of mg)) (remove_pull_stream uid n mg)"
proof (cases "pull_streams mg n")
  case (Some q)
  then obtain s where s: "streams mg q = Some s" using mg_invD(4) [OF assms] by blast
  let ?mg = "mg\<lparr>pull_streams := (pull_streams mg)(n := None)\<rparr>"
  have "registry_of ?mg = reg_drop (k_pull, stream_uid s, n) (registry_of mg)"
    using Some s by (auto simp: registry_of_def fun_eq_iff)
  then show ?thesis using Some s delete_stream_registry [OF unlisted_pull [OF assms Some]]
    by (auto simp: remove_pull_stream_def registry_of_def elim!: yields_mono)
qed (simp add: remove_pull_stream_def registry_of_def)

lemma remove_stream_registry:
  "mg_inv F p es mg \<Longrightarrow> yields (\<lambda>mg'. registry_of mg' = reg_drop (label s) (registry_of mg)) (remove_stream s mg)"
  by (cases "stream_type s") (simp_all add: remove_stream_def label_def remove_push_registry remove_pull_registry del: reg_drop.simps)

text \<open>What the signals of one peer connection do to the registry.\<close>

definition loses :: "nat \<Rightarrow> stream_label option \<Rightarrow> registry \<Rightarrow> 'ctx RtcStreamManager \<Rightarrow> bool" where
  "loses p l r mg \<longleftrightarrow> (\<exists>lost. registry_of mg = reg_lose lost l r) \<and> (labels mg p = None \<or> labels mg p = l)"

lemma loses_refl: "loses p (labels mg p) (registry_of mg) mg"
  by (auto simp: loses_def reg_lose_def intro!: exI [of _ False] split: option.split)

lemma loses_same: "loses p l r mg \<Longrightarrow> registry_of mg' = registry_of mg \<Longrightarrow> labels mg' p = labels mg p \<Longrightarrow> loses p l r mg'"
  by (simp add: loses_def)

lemma loses_drop: "loses p l r mg \<Longrightarrow> labels mg p = Some k \<Longrightarrow> registry_of mg' = reg_drop k (registry_of mg) \<Longrightarrow> labels mg' p = None \<or> labels mg' p = Some k
    \<Longrightarrow> loses p l r mg'"
  by (auto simp: loses_def reg_lose_def intro!: exI [of _ True] split: option.splits if_splits)

lemma send_on_registry: "yields (\<lambda>mg'. registry_of mg' = registry_of mg \<and> labels mg' = labels mg) (send_on q f mg)"
  by (auto simp: send_on_def call_pc_def registry_of_def labels_def fun_eq_iff intro!: yields_read split: prod.split)

lemma remove_labels: "yields (\<lambda>mg'. labels mg' q = None \<or> labels mg' q = labels mg q) (remove_stream s mg)"
  by (auto simp: remove_stream_def remove_push_stream_def remove_pull_stream_def delete_stream_def labels_def intro!: yields_read
      split: RtcStreamType.split option.split)

lemma stream_on_connection_state_registry:
  assumes "mg_inv {} p (pc_connection_state st # es) mg" "streams mg p = Some s" "loses p l r mg"
  shows "yields (loses p l r) (stream_on_connection_state p s st mg)"
proof -
  let ?s = "if st = k_pc_connected then s\<lparr>stream_state := st, ice_timeout_watcher := False\<rparr> else s\<lparr>stream_state := st\<rparr>"
  let ?mg = "mg\<lparr>streams := (streams mg)(p \<mapsto> ?s)\<rparr>"
  have weak: "mg_inv {p} p (pc_connection_state st # es) mg" using assms(1) unfolding mg_inv_def listed_def by blast
  have inv: "mg_inv {p} p es ?mg" by (rule mg_inv_state [OF weak assms(2)]) simp_all
  have lab: "label ?s = label s" by (simp add: label_def)
  have same: "registry_of ?mg = registry_of mg" using assms(2) by (intro registry_cong) auto
  have labs: "labels ?mg p = labels mg p" "labels mg p = Some (label s)" using assms(2) lab by (simp_all add: labels_def)
  have "yields (loses p l r) (remove_stream ?s ?mg)"
    using remove_stream_registry [OF inv, of ?s] remove_labels [of p ?mg ?s] loses_drop [OF assms(3) labs(2)]
    unfolding yields_def same labs lab by metis
  then show ?thesis using loses_same [OF assms(3) same labs(1)] assms(3)
    by (cases "st = k_pc_failed") (simp_all add: stream_on_connection_state_def mg_on_connection_state_def Let_def)
qed

lemma on_pc_event_registry:
  assumes "mg_inv {} p (e # es) mg" "loses p l r mg"
  shows "yields (loses p l r) (on_pc_event sys p e mg)"
proof (cases "streams mg p")
  case (Some s)
  have send: "yields (loses p l r) (send_on q f mg)" for q f
    by (rule yields_mono [OF send_on_registry]) (auto intro: loses_same [OF assms(2)])
  show ?thesis
  proof (cases e)
    case (pc_connection_state st)
    then show ?thesis using stream_on_connection_state_registry Some assms by (simp add: on_pc_event_def)
  qed (use Some send assms(2) in \<open>simp_all add: on_pc_event_def mg_on_rtp_packet_received_def mg_on_rtcp_packet_received_def
      split: RtcStreamType.split option.split\<close>)
qed (use assms(2) in \<open>simp add: on_pc_event_def\<close>)

lemma on_pc_events_registry:
  "mg_inv {} p es mg \<Longrightarrow> keeps_header (sys_lib sys) \<Longrightarrow> list_all (genuine_packet (sys_lib sys)) es \<Longrightarrow> loses p l r mg
    \<Longrightarrow> yields (loses p l r) (on_pc_events sys p es mg)"
proof (induction es arbitrary: mg)
  case (Cons e es)
  have "safely (\<lambda>mg'. mg_inv {} p es mg' \<and> loses p l r mg') (on_pc_event sys p e mg)"
    using Cons.prems by (intro safely_yields on_pc_event_inv on_pc_event_registry) simp_all
  then show ?case using Cons.IH Cons.prems(2,3) by (auto elim!: safelyE)
qed simp

lemma call_pc_labels: "call_pc p f mg = Some (r, es, mg') \<Longrightarrow> registry_of mg' = registry_of mg \<and> labels mg' = labels mg"
  by (auto simp: call_pc_def registry_of_def labels_def fun_eq_iff split: bind_splits prod.splits)

lemma run_pc_registry:
  assumes "mg_good mg" "keeps_header (sys_lib sys)" "pcs mg p = Some pc"
    "yields (\<lambda>x. pc_step (sys_lib sys) (borrowed (process_usage mg) pc) (snd x)) (f (borrowed (process_usage mg) pc))"
  shows "yields (\<lambda>x. loses p (labels mg p) (registry_of mg) (snd x)) (run_pc sys p f mg)"
proof (cases "f (borrowed (process_usage mg) pc)")
  case (Some x)
  obtain r pc' where f: "f (borrowed (process_usage mg) pc) = Some (r, pc')" "pc_step (sys_lib sys) (borrowed (process_usage mg) pc) pc'"
    using assms(4) Some by (cases x) auto
  let ?mg = "mg\<lparr>pcs := (pcs mg)(p \<mapsto> pc'), process_usage := srtp_usage (controller pc')\<rparr>"
  have call: "call_pc p f mg = Some (r, pc_events pc', ?mg)" using assms(3) f(1) by (simp add: call_pc_def flip: borrowed_def)
  have "loses p (labels mg p) (registry_of mg) ?mg" using loses_refl [of p ?mg] call_pc_labels [OF call] by simp
  moreover have "mg_inv {} p (pc_events pc') ?mg \<and> list_all (genuine_packet (sys_lib sys)) (pc_events pc')"
    using pc_step_inv [OF assms(1,3) f(2)] by simp
  ultimately show ?thesis using on_pc_events_registry [OF _ assms(2)] call by (auto simp: run_pc_def)
qed (use assms(3) in \<open>simp add: run_pc_None\<close>)

lemma open_stream_registry:
  assumes "mg_good mg" "opened s mg mg'"
  shows "registry_of mg' = registry_of mg"
  using assms(2) mg_inv_next [OF assms(1)] by (intro registry_cong) (auto simp: opened_def)

lemma enlist_registry:
  "streams mg p = Some s \<Longrightarrow> registry_of (mg\<lparr>push_streams := (push_streams mg)(n \<mapsto> p)\<rparr>) = (registry_of mg)\<lparr>reg_push := (reg_push (registry_of mg))(n \<mapsto> stream_uid s)\<rparr>"
  "streams mg p = Some s \<Longrightarrow> registry_of (mg\<lparr>pull_streams := (pull_streams mg)(n \<mapsto> p)\<rparr>) = (registry_of mg)\<lparr>reg_pull := (reg_pull (registry_of mg))(n \<mapsto> stream_uid s)\<rparr>"
  by (auto simp: registry_of_def fun_eq_iff)

lemma create_push_registry:
  assumes "mg_good mg" "keeps_header (sys_lib sys)"
  shows "yields (\<lambda>(res, _, mg'). (res, registry_of mg') = (0, (registry_of mg)\<lparr>reg_push := (reg_push (registry_of mg))(n \<mapsto> uid)\<rparr>))
    (create_push_stream sys uid n audio video cert mg)"
proof -
  let ?s = "new_RtcStream k_push uid n audio video" and ?put = "\<lambda>r. r\<lparr>reg_push := (reg_push r)(n \<mapsto> uid)\<rparr>"
  have "yields (\<lambda>v. ?put (registry_of v) = ?put (registry_of mg)) (vacate n mg)"
    by (cases "push_streams mg n")
      (auto simp: vacate_def registry_of_def fun_eq_iff intro!: yields_mono [OF delete_stream_registry [OF unlisted_push [OF assms(1)]]])
  with vacate_inv [OF assms(1), of n] obtain v where v: "vacate n mg = Some v" "mg_good v" "?put (registry_of v) = ?put (registry_of mg)"
    by (auto elim: safelyE)
  obtain offer mg1 where mg1: "open_stream sys cert ?s [] [] v = Some (offer, mg1)" "opened ?s v mg1"
    using open_stream_inv [OF v(2) _ assms(2), of ?s cert "[]" "[]"] by (auto elim: safelyE)
  moreover have "streams mg1 (next_stream v) = Some (?s\<lparr>ice_timeout_watcher := True\<rparr>)" using mg1(2) by (simp add: opened_def)
  ultimately show ?thesis using open_stream_registry [OF v(2) mg1(2)] v(1,3)
    by (simp add: create_push_via enlist_registry new_RtcStream_def)
qed

lemma create_pull_registry:
  assumes "mg_good mg" "keeps_header (sys_lib sys)"
  shows "yields (\<lambda>(res, _, mg'). (res, registry_of mg') = reg_step who lost (cmd_pull uid n audio video cert) (registry_of mg))
    (create_pull_stream sys uid n audio video cert mg)"
proof (cases "push_streams mg n")
  case (Some q)
  let ?s = "new_RtcStream k_pull uid n audio video" and ?put = "\<lambda>r. r\<lparr>reg_pull := (reg_pull r)(n \<mapsto> uid)\<rparr>"
  from pull_source [OF assms(1) Some, of uid] obtain v s pc
    where v: "remove_pull_stream uid n mg = Some v" "mg_good v" "streams v q = Some s" "pcs v q = Some pc" .
  have put: "?put (registry_of v) = ?put (registry_of mg)" using yieldsD [OF remove_pull_registry [OF assms(1)] v(1)] by simp
  have found: "reg_push (registry_of mg) n \<noteq> None" using mg_invD(3) [OF assms(1) Some] Some by (auto simp: registry_of_def)
  let ?a = "get_source (bytes_of ''audio'') pc" and ?v = "get_source (bytes_of ''video'') pc"
  obtain offer mg1 where mg1: "open_stream sys cert ?s ?a ?v v = Some (offer, mg1)" "opened ?s v mg1"
    using open_stream_inv [OF v(2) _ assms(2), of ?s cert ?a ?v] by (auto elim: safelyE)
  moreover have "streams mg1 (next_stream v) = Some (?s\<lparr>ice_timeout_watcher := True\<rparr>)" using mg1(2) by (simp add: opened_def)
  ultimately show ?thesis using open_stream_registry [OF v(2) mg1(2)] put found
    by (simp add: create_pull_via [OF Some v(1,3,4)] enlist_registry new_RtcStream_def)
qed (simp add: create_pull_stream_def registry_of_def)

lemma loses_label: "loses p l r mg \<Longrightarrow> \<exists>lost. registry_of mg = reg_lose lost l r"
  by (simp add: loses_def)

lemma answer_stream_registry:
  assumes "mg_good mg" "keeps_header (sys_lib sys)" "streams mg q = Some s" "answer_stream sys uid answer (Some q) mg = Some (res, mg')"
  shows "if uid = stream_uid s then res = 0 \<and> (\<exists>lost. registry_of mg' = reg_lose lost (Some (label s)) (registry_of mg))
    else res = -1 \<and> mg' = mg"
proof (cases "uid = stream_uid s")
  case True
  obtain pc where pc: "pcs mg q = Some pc" "pc_good pc" using mg_inv_live [OF assms(1,3)] by metis
  have "yields (\<lambda>x. pc_step (sys_lib sys) (borrowed (process_usage mg) pc) (snd x)) (pc_set_remote_sdp sys answer (borrowed (process_usage mg) pc))"
    using set_remote_sdp_step [of "borrowed (process_usage mg) pc" sys answer] pc(2) by (auto elim: safelyE split: if_splits)
  from run_pc_registry [where f = "pc_set_remote_sdp sys answer", OF assms(1,2) pc(1) this] True assms(3,4) show ?thesis
    by (auto simp: answer_stream_def labels_def dest!: loses_label yieldsD split: bind_splits)
qed (use assms(3,4) in \<open>simp add: answer_stream_def\<close>)

lemma answer_registry:
  assumes "mg_good mg" "keeps_header (sys_lib sys)" "set_answer sys uid n answer ty mg = Some (res, mg')"
  shows "\<exists>lost. reg_step who lost (cmd_answer uid n answer ty) (registry_of mg) = (res, registry_of mg')"
proof -
  have neq: "bytes_of ''pull'' \<noteq> bytes_of ''push''" by (simp add: bytes_of_def)
  have miss: "answer_stream sys uid answer None mg = Some (-1, mg)" by (simp add: answer_stream_def)
  consider "ty \<noteq> bytes_of ''push''" "ty \<noteq> bytes_of ''pull''" | "ty = bytes_of ''push''" | "ty = bytes_of ''pull''" by blast
  then show ?thesis
  proof cases
    case 2
    show ?thesis
    proof (cases "push_streams mg n")
      case (Some q)
      then obtain s where s: "streams mg q = Some s" "stream_type s = k_push" "stream_name s = n" using mg_invD(3) [OF assms(1)] by blast
      from answer_stream_registry [OF assms(1,2) s(1), of uid answer res mg'] assms(3) Some s 2 show ?thesis
        by (auto simp: set_answer_def registry_of_def label_def split: if_splits)
    qed (use assms(3) 2 miss in \<open>simp add: set_answer_def registry_of_def\<close>)
  next
    case 3
    show ?thesis
    proof (cases "pull_streams mg n")
      case (Some q)
      then obtain s where s: "streams mg q = Some s" "stream_type s = k_pull" "stream_name s = n" using mg_invD(4) [OF assms(1)] by blast
      from answer_stream_registry [OF assms(1,2) s(1), of uid answer res mg'] assms(3) Some s 3 neq show ?thesis
        by (auto simp: set_answer_def registry_of_def label_def split: if_splits)
    qed (use assms(3) 3 neq miss in \<open>simp add: set_answer_def registry_of_def\<close>)
  qed (use assms(3) in \<open>simp add: set_answer_def\<close>)
qed

lemma ice_timeout_registry:
  assumes "mg_good mg" "streams mg p = Some s" "ice_timeout_cb p mg = Some mg'"
  shows "\<exists>lost. registry_of mg' = reg_lose lost (labels mg p) (registry_of mg)"
proof -
  let ?mg = "mg\<lparr>streams := (streams mg)(p \<mapsto> s\<lparr>ice_timeout_watcher := False\<rparr>)\<rparr>"
  have inv: "mg_good ?mg" by (rule mg_inv_timer [OF assms(1,2)])
  have same: "registry_of ?mg = registry_of mg" using assms(2) by (intro registry_cong) auto
  show ?thesis
  proof (cases "stream_state s = k_pc_connected")
    case True
    then show ?thesis using assms(2,3) same by (intro exI [of _ False]) (simp add: ice_timeout_cb_def labels_def reg_lose_def)
  next
    case False
    then have "remove_stream s ?mg = Some mg'" using assms(2,3) by (simp add: ice_timeout_cb_def mg_on_stream_exception_def)
    from yieldsD [OF remove_stream_registry [OF inv] this] show ?thesis
      using assms(2) same by (intro exI [of _ True]) (simp add: labels_def reg_lose_def)
  qed
qed

lemma transport_registry:
  assumes "mg_good mg" "keeps_header (sys_lib sys)" "pcs mg p = Some pc" "tc_enabled inp (controller pc)"
    "mg_run sys (on_transport p inp) mg = Some (res, mg')"
  shows "res = 0 \<and> (\<exists>lost. registry_of mg' = reg_lose lost (labels mg p) (registry_of mg))"
proof -
  let ?f = "\<lambda>pc. map_option (Pair (0 :: int)) (run_controller (tc_run (sys_sha1 sys) (sys_ntop sys) (sys_lib sys) (sys_ssl sys) inp) pc)"
    and ?b = "borrowed (process_usage mg) pc"
  have "pc_good ?b" "tc_enabled inp (controller ?b)" using mg_invD(2) [OF assms(1,3)] assms(4) by simp_all
  from tc_run_step [OF this, of "sys_sha1 sys" "sys_lib sys" "sys_ntop sys" "sys_ssl sys"]
  have "yields (\<lambda>x. pc_step (sys_lib sys) ?b (snd x)) (?f ?b)" by (auto elim: safelyE split: if_splits)
  from yieldsD [OF run_pc_registry [where f = ?f, OF assms(1,2,3) this]] assms(5)
  show ?thesis by (auto simp: run_pc_def call_pc_def dest!: loses_label split: bind_splits)
qed

section \<open>Properties of the stream table\<close>

text \<open>
  A property of a manager that its events keep follows from a few laws: about deleting a listed
  stream, updating a stream in place, adding a stream and listing it.  The transports do not matter.
\<close>

fun new_streams :: "mg_input \<Rightarrow> RtcStream list" where
  "new_streams (cmd_push uid n audio video cert) = [new_RtcStream k_push uid n audio video]"
| "new_streams (cmd_pull uid n audio video cert) = [new_RtcStream k_pull uid n audio video]"
| "new_streams _ = []"

locale table_property =
  fixes P :: "'ctx RtcStreamManager \<Rightarrow> bool" and new_ok :: "RtcStream \<Rightarrow> bool"
  assumes drop_push: "P mg \<Longrightarrow> push_streams mg n = Some p \<Longrightarrow> yields P (delete_stream p (mg\<lparr>push_streams := (push_streams mg)(n := None)\<rparr>))"
    and drop_pull: "P mg \<Longrightarrow> pull_streams mg n = Some p \<Longrightarrow> yields P (delete_stream p (mg\<lparr>pull_streams := (pull_streams mg)(n := None)\<rparr>))"
    and upd_stream: "P mg \<Longrightarrow> streams mg p = Some s \<Longrightarrow> label s' = label s \<Longrightarrow> P (mg\<lparr>streams := (streams mg)(p \<mapsto> s')\<rparr>)"
    and upd_pcs: "P (mg\<lparr>pcs := ps\<rparr>) = P mg"
    and upd_usage: "P (mg\<lparr>process_usage := u\<rparr>) = P mg"
    and spawn: "P mg \<Longrightarrow> new_ok s \<Longrightarrow> P (mg\<lparr>streams := (streams mg)(next_stream mg \<mapsto> s), next_stream := Suc (next_stream mg)\<rparr>)"
    and list_push: "P v \<Longrightarrow> P mg \<Longrightarrow> P (mg\<lparr>push_streams := (push_streams mg)(n \<mapsto> next_stream v)\<rparr>)"
    and list_pull: "P v \<Longrightarrow> P mg \<Longrightarrow> P (mg\<lparr>pull_streams := (pull_streams mg)(n \<mapsto> next_stream v)\<rparr>)"
begin

lemma keeps_pc: "P mg \<Longrightarrow> P (mg\<lparr>pcs := ps, process_usage := u\<rparr>)"
  using upd_usage [of u "mg\<lparr>pcs := ps\<rparr>"] upd_pcs by simp

lemma keeps_remove:
  assumes "P mg"
  shows "yields P (remove_push_stream uid n mg)" "yields P (remove_pull_stream uid n mg)" "yields P (remove_stream s mg)" "yields P (vacate n mg)"
proof -
  show push: "yields P (remove_push_stream uid n mg)" for uid n
    using assms by (auto simp: remove_push_stream_def intro!: yields_read drop_push split: option.split)
  show pull: "yields P (remove_pull_stream uid n mg)" for uid n
    using assms by (auto simp: remove_pull_stream_def intro!: yields_read drop_pull split: option.split)
  show "yields P (remove_stream s mg)" by (simp add: remove_stream_def push pull split: RtcStreamType.split)
  show "yields P (vacate n mg)" using assms by (auto simp: vacate_def intro!: drop_push split: option.split)
qed

lemma keeps_send: "P mg \<Longrightarrow> yields P (send_on p f mg)"
  by (auto simp: send_on_def call_pc_def intro!: yields_read keeps_pc split: prod.split)

lemma keeps_event: "P mg \<Longrightarrow> yields P (on_pc_event sys p e mg)"
  by (auto simp: on_pc_event_def stream_on_connection_state_def mg_on_connection_state_def mg_on_rtp_packet_received_def
      mg_on_rtcp_packet_received_def Let_def label_def intro!: keeps_send keeps_remove(3) upd_stream
      split: option.split pc_event.split RtcStreamType.split)

lemma keeps_events: "P mg \<Longrightarrow> yields P (on_pc_events sys p es mg)"
  by (induction es arbitrary: mg) (auto intro!: yields_bind [OF keeps_event])

lemma keeps_run_pc: "P mg \<Longrightarrow> yields (\<lambda>x. P (snd x)) (run_pc sys p f mg)"
  by (auto simp: run_pc_def call_pc_def intro!: yields_read keeps_events keeps_pc split: prod.split)

lemma keeps_open:
  assumes "P mg" "new_ok s"
  shows "yields (\<lambda>x. P (snd x)) (open_stream sys cert s a v mg)"
proof -
  let ?p = "next_stream mg"
  let ?mg = "mg\<lparr>streams := (streams mg)(?p \<mapsto> s), next_stream := Suc ?p\<rparr>"
  have "P (?mg\<lparr>streams := (streams ?mg)(?p \<mapsto> s\<lparr>ice_timeout_watcher := True\<rparr>)\<rparr>)"
    using spawn [OF assms] by (rule upd_stream) (simp_all add: label_def)
  then have "P (?mg\<lparr>streams := (streams ?mg)(?p \<mapsto> s\<lparr>ice_timeout_watcher := True\<rparr>), pcs := ps\<rparr>)" for ps using upd_pcs by fastforce
  then have "yields (\<lambda>x. P (snd x)) (run_pc sys ?p f (?mg\<lparr>streams := (streams ?mg)(?p \<mapsto> s\<lparr>ice_timeout_watcher := True\<rparr>), pcs := ps\<rparr>))" for f ps
    by (rule keeps_run_pc)
  then show ?thesis by (simp add: open_stream_def spawn_stream_def stream_start_def stream_create_offer_def Let_def)
qed

lemma keeps_create:
  assumes "P mg"
  shows "new_ok (new_RtcStream k_push uid n audio video) \<Longrightarrow> yields (\<lambda>(_, _, mg'). P mg') (create_push_stream sys uid n audio video cert mg)"
    "new_ok (new_RtcStream k_pull uid n audio video) \<Longrightarrow> yields (\<lambda>(_, _, mg'). P mg') (create_pull_stream sys uid n audio video cert mg)"
proof -
  have via: "yields (\<lambda>(_, _, mg'). P mg') (open_stream sys cert s a b v \<bind> (\<lambda>(offer, mg'). Some (0 :: int, offer, f mg')))"
    if "P v" "new_ok s" "\<And>v'. P v' \<Longrightarrow> P (f v')" for v f s a b
    using that by (auto intro!: yields_bind [OF keeps_open])
  show "yields (\<lambda>(_, _, mg'). P mg') (create_push_stream sys uid n audio video cert mg)" if "new_ok (new_RtcStream k_push uid n audio video)"
    unfolding create_push_via by (rule yields_bind [OF keeps_remove(4) [OF assms]], rule via [OF _ that]) (auto intro: list_push)
  show "yields (\<lambda>(_, _, mg'). P mg') (create_pull_stream sys uid n audio video cert mg)" if new: "new_ok (new_RtcStream k_pull uid n audio video)"
  proof (cases "push_streams mg n")
    case (Some p)
    show ?thesis
    proof (cases "\<exists>v s pc. remove_pull_stream uid n mg = Some v \<and> streams v p = Some s \<and> pcs v p = Some pc")
      case True
      then obtain v s pc where v: "remove_pull_stream uid n mg = Some v" "streams v p = Some s" "pcs v p = Some pc" by blast
      have "P v" by (rule yieldsD [OF keeps_remove(2) [OF assms] v(1)])
      then show ?thesis unfolding create_pull_via [OF Some v] by (intro via [OF _ new]) (auto intro: list_pull)
    qed (auto simp: create_pull_stream_def Some intro!: yields_read)
  qed (use assms in \<open>simp add: create_pull_stream_def\<close>)
qed

lemma keeps_answer: "P mg \<Longrightarrow> yields (\<lambda>x. P (snd x)) (answer_stream sys uid answer p mg)"
  by (cases p; cases "streams mg (the p)") (auto simp: answer_stream_def intro!: yields_bind [OF keeps_run_pc])

lemma keeps_timers: "P mg \<Longrightarrow> yields P (ice_timeout_cb p mg)" "P mg \<Longrightarrow> yields P (destroy_timer_cb sys p mg)"
  by (auto simp: ice_timeout_cb_def mg_on_stream_exception_def Let_def label_def intro!: yields_read keeps_remove(3) upd_stream)
    (auto simp: destroy_timer_cb_def intro!: yields_read keeps_pc)

lemma keeps_run: "P mg \<Longrightarrow> list_all new_ok (new_streams inp) \<Longrightarrow> yields (\<lambda>x. P (snd x)) (mg_run sys inp mg)"
  by (cases inp) (auto simp: stop_push_def stop_pull_def set_answer_def keeps_remove keeps_answer keeps_run_pc keeps_timers
      intro: yields_mono [OF keeps_create(1)] yields_mono [OF keeps_create(2)])

end

section \<open>Streams that are not deleted\<close>

text \<open>A stream that no table refers to is never deleted.\<close>

definition leaked :: "nat \<Rightarrow> 'ctx RtcStreamManager \<Rightarrow> bool" where
  "leaked q mg \<longleftrightarrow> unlisted q mg \<and> streams mg q \<noteq> None \<and> q < next_stream mg"

interpretation leaked: table_property "leaked q" "\<lambda>_. True"
  by unfold_locales (auto simp: leaked_def unlisted_def delete_stream_def intro!: yields_read)

definition named_in :: "(bytes \<Rightarrow> bool) \<Rightarrow> 'ctx RtcStreamManager \<Rightarrow> bool" where
  "named_in N mg \<longleftrightarrow> (\<forall>p s. streams mg p = Some s \<longrightarrow> N (stream_name s))"

interpretation named_in: table_property "named_in N" "\<lambda>s. N (stream_name s)"
  by unfold_locales (auto simp: named_in_def label_def delete_stream_def intro!: yields_read split: if_splits)

inductive mg_later :: "'ctx RtcStreamManager \<Rightarrow> 'ctx RtcStreamManager \<Rightarrow> bool" where
  now: "mg_later mg mg"
| later: "mg_later mg mg1 \<Longrightarrow> keeps_header (sys_lib sys) \<Longrightarrow> mg_enabled inp mg1 \<Longrightarrow> mg_run sys inp mg1 = Some (r, mg2) \<Longrightarrow> mg_later mg mg2"

lemma leaked_later: "mg_later mg mg' \<Longrightarrow> leaked q mg \<Longrightarrow> leaked q mg'"
proof (induction rule: mg_later.induct)
  case (later mg mg1 sys inp r mg2)
  then show ?case using leaked.keeps_run [of q mg1 inp sys] by (auto simp: list_all_iff dest: yieldsD)
qed

lemma later_reach: "mg_later mg mg' \<Longrightarrow> mg_reach mg \<Longrightarrow> mg_reach mg'"
  by (induction rule: mg_later.induct) (auto intro: mg_reach.step)

section \<open>Claims\<close>

text \<open>
  C3. The manager implements a registry of publishers and subscribers: a push sets the publisher
  of a name, whoever had it before; a pull sets the subscriber and is refused when nobody publishes
  the name; an answer is accepted only from the registered user; a stop takes effect only for the
  registered user.  Nothing else changes the registry, except that the stream an event belongs to
  may be lost.
\<close>

theorem manager_refines_registry:
  assumes "mg_reach mg" "keeps_header (sys_lib sys)" "mg_enabled inp mg" "mg_run sys inp mg = Some (res, mg')"
  shows "\<exists>lost. reg_step (labels mg) lost inp (registry_of mg) = (res, registry_of mg')"
proof -
  have inv: "mg_good mg" by (rule mg_reach_good [OF assms(1)])
  show ?thesis
  proof (cases inp)
    case (cmd_push uid n audio video cert)
    then show ?thesis using create_push_registry [OF inv assms(2), of n uid audio video cert] assms(4) by auto
  next
    case (cmd_pull uid n audio video cert)
    then show ?thesis using create_pull_registry [OF inv assms(2), of "labels mg" undefined uid n audio video cert] assms(4) by auto
  next
    case (cmd_answer uid n answer ty)
    then show ?thesis using answer_registry [OF inv assms(2)] assms(4) by simp
  next
    case (cmd_stop_push uid n)
    then show ?thesis using remove_push_registry [OF inv, of uid n] assms(4) by (auto simp: stop_push_def dest: yieldsD)
  next
    case (cmd_stop_pull uid n)
    then show ?thesis using remove_pull_registry [OF inv, of uid n] assms(4) by (auto simp: stop_pull_def dest: yieldsD)
  next
    case (on_transport p ti)
    then obtain pc where "pcs mg p = Some pc" "tc_enabled ti (controller pc)" using assms(3) by (auto split: option.splits)
    from transport_registry [OF inv assms(2) this, of res mg'] on_transport assms(4) show ?thesis by auto
  next
    case (on_ice_timeout p)
    then obtain s where "streams mg p = Some s" using assms(3) by (auto split: option.splits)
    from ice_timeout_registry [OF inv this, of mg'] on_ice_timeout assms(4) show ?thesis by auto
  next
    case (on_destroy_timer p)
    then show ?thesis using assms(4) by (auto simp: destroy_timer_cb_def registry_of_def split: bind_splits)
  qed
qed

text \<open>
  C39. A second user who pulls a stream takes the place of the first in the table, but the first
  user's stream is not deleted: whatever happens afterwards, it and its peer connection stay
  allocated, and no command can reach them any more.
\<close>

theorem replaced_pull_stream_leaks:
  assumes "mg_reach mg" "keeps_header (sys_lib sys)" "pull_streams mg n = Some q" "streams mg q = Some s" "stream_uid s \<noteq> uid"
    "mg_run sys (cmd_pull uid n audio video cert) mg = Some (0, mg1)" "mg_later mg1 mg2"
  shows "(\<exists>s. streams mg2 q = Some s) \<and> (\<exists>pc. pcs mg2 q = Some pc) \<and> unlisted q mg2"
proof -
  have inv: "mg_good mg" by (rule mg_reach_good [OF assms(1)])
  have free: "\<not> has_uid mg (pull_streams mg) n uid" using assms(3-5) by (simp add: has_uid_def)
  have "\<exists>p. push_streams mg n = Some p" using assms(6) by (auto simp: create_pull_stream_def split: option.splits)
  then have mg1: "push_streams mg1 = push_streams mg" "pull_streams mg1 = (pull_streams mg)(n \<mapsto> next_stream mg)" "next_stream mg1 = Suc (next_stream mg)"
    "streams mg1 = (streams mg)(next_stream mg \<mapsto> new_RtcStream k_pull uid n audio video\<lparr>ice_timeout_watcher := True\<rparr>)"
    using pull_result [OF inv assms(2) _ free, of _ audio video cert] assms(6) by auto
  have q: "q < next_stream mg" "stream_type s = k_pull" "stream_name s = n"
    using mg_inv_live [OF inv assms(4)] mg_invD(4) [OF inv assms(3)] assms(4) by auto
  have "leaked q mg1" unfolding leaked_def unlisted_def mg1 using q assms(4) mg_invD(3,4) [OF inv, of _ q] by auto
  then have l: "leaked q mg2" by (rule leaked_later [OF assms(7)])
  have "mg_reach mg1" using mg_reach.step [OF assms(1,2) _ assms(6)] by simp
  then have "mg_good mg2" by (intro mg_reach_good later_reach [OF assms(7)])
  then show ?thesis using l mg_inv_live [of "{}" 0 "[]" mg2 q] by (auto simp: leaked_def)
qed

text \<open>
  C40. A stream that was replaced still acts in the name of its user: when its timer expires, or
  it fails, before it is connected, the manager deletes the newer stream of the same user and name,
  even a connected one, and keeps the old one.
\<close>

theorem stale_timeout_removes_successor:
  assumes "mg_reach mg" "streams mg q = Some s" "stream_type s = k_pull" "ice_timeout_watcher s" "stream_state s \<noteq> k_pc_connected"
    "pull_streams mg (stream_name s) = Some p" "p \<noteq> q" "streams mg p = Some s'" "stream_uid s' = stream_uid s"
  shows "\<exists>mg'. mg_run sys (on_ice_timeout q) mg = Some (0, mg') \<and> streams mg' p = None \<and> pull_streams mg' (stream_name s) = None
    \<and> (\<exists>s. streams mg' q = Some s)"
proof -
  obtain pc where "pcs mg p = Some pc" using mg_inv_live [OF mg_reach_good [OF assms(1)] assms(8)] by metis
  then show ?thesis using assms
    by (simp add: ice_timeout_cb_def mg_on_stream_exception_def remove_stream_def remove_pull_stream_def delete_stream_def Let_def)
qed

section \<open>Witnesses\<close>

text \<open>User 1 publishes a stream; then the users 2, 3 and 2 again pull it.\<close>

abbreviation sample_name :: bytes where
  "sample_name \<equiv> bytes_of ''s''"

lemma sample_pulls:
  "\<exists>mg1 mg2 mg3 mg4 :: srtp_policy RtcStreamManager.
     mg_run sample_sys (cmd_push 1 sample_name True True (Some (7, None))) new_RtcStreamManager = Some (0, mg1) \<and>
     mg_run sample_sys (cmd_pull 2 sample_name True True (Some (7, None))) mg1 = Some (0, mg2) \<and>
     mg_run sample_sys (cmd_pull 3 sample_name True True (Some (7, None))) mg2 = Some (0, mg3) \<and>
     mg_run sample_sys (cmd_pull 2 sample_name True True (Some (7, None))) mg3 = Some (0, mg4) \<and>
     mg_reach mg1 \<and> mg_reach mg2 \<and> mg_reach mg3 \<and> mg_reach mg4 \<and>
     pull_streams mg2 sample_name = Some 1 \<and> streams mg2 1 = Some (new_RtcStream k_pull 2 sample_name True True\<lparr>ice_timeout_watcher := True\<rparr>) \<and>
     pull_streams mg4 sample_name = Some 3 \<and> streams mg4 1 = Some (new_RtcStream k_pull 2 sample_name True True\<lparr>ice_timeout_watcher := True\<rparr>) \<and>
     streams mg4 3 = Some (new_RtcStream k_pull 2 sample_name True True\<lparr>ice_timeout_watcher := True\<rparr>)"
proof -
  note k = sample_keeps_header and reach = mg_reach.step [OF _ sample_keeps_header]
  obtain mg1 :: "srtp_policy RtcStreamManager"
    where mg1: "mg_run sample_sys (cmd_push 1 sample_name True True (Some (7, None))) new_RtcStreamManager = Some (0, mg1)"
      "push_streams mg1 sample_name = Some 0" "pull_streams mg1 = Map.empty" "next_stream mg1 = 1"
    using push_result [OF mg_reach_good [OF mg_reach.start] k, of sample_name 1 True True "Some (7, None)"] by (auto simp: new_RtcStreamManager_def)
  have r1: "mg_reach mg1" by (rule reach [OF mg_reach.start _ mg1(1)]) simp
  obtain mg2 where mg2: "mg_run sample_sys (cmd_pull 2 sample_name True True (Some (7, None))) mg1 = Some (0, mg2)"
      "push_streams mg2 sample_name = Some 0" "pull_streams mg2 sample_name = Some 1" "next_stream mg2 = 2"
      "streams mg2 1 = Some (new_RtcStream k_pull 2 sample_name True True\<lparr>ice_timeout_watcher := True\<rparr>)"
    using pull_result [OF mg_reach_good [OF r1] k mg1(2), of 2 True True "Some (7, None)"] mg1(2-4) by (auto simp: has_uid_def)
  have r2: "mg_reach mg2" by (rule reach [OF r1 _ mg2(1)]) simp
  have "\<not> has_uid mg2 (pull_streams mg2) sample_name 3" using mg2(3,5) by (simp add: has_uid_def new_RtcStream_def)
  from pull_result [OF mg_reach_good [OF r2] k mg2(2) this, of True True "Some (7, None)"]
  obtain mg3 where mg3: "mg_run sample_sys (cmd_pull 3 sample_name True True (Some (7, None))) mg2 = Some (0, mg3)"
      "push_streams mg3 sample_name = Some 0" "pull_streams mg3 sample_name = Some 2" "next_stream mg3 = 3"
      "streams mg3 = (streams mg2)(2 \<mapsto> new_RtcStream k_pull 3 sample_name True True\<lparr>ice_timeout_watcher := True\<rparr>)"
    using mg2(2-4) by auto
  have r3: "mg_reach mg3" by (rule reach [OF r2 _ mg3(1)]) simp
  have "\<not> has_uid mg3 (pull_streams mg3) sample_name 2" using mg3(3,5) by (simp add: has_uid_def new_RtcStream_def)
  from pull_result [OF mg_reach_good [OF r3] k mg3(2) this, of True True "Some (7, None)"]
  obtain mg4 where mg4: "mg_run sample_sys (cmd_pull 2 sample_name True True (Some (7, None))) mg3 = Some (0, mg4)"
      "pull_streams mg4 sample_name = Some 3"
      "streams mg4 = (streams mg3)(3 \<mapsto> new_RtcStream k_pull 2 sample_name True True\<lparr>ice_timeout_watcher := True\<rparr>)"
    using mg3(2-4) by auto
  have r4: "mg_reach mg4" by (rule reach [OF r3 _ mg4(1)]) simp
  have "streams mg4 1 = streams mg2 1" "streams mg4 3 = Some (new_RtcStream k_pull 2 sample_name True True\<lparr>ice_timeout_watcher := True\<rparr>)"
    by (simp_all add: mg4(3) mg3(5))
  with r1 r2 r3 r4 mg1(1) mg2(1,3,5) mg3(1) mg4(1,2) show ?thesis by metis
qed

theorem manager_refines_registry_witness:
  "\<exists>mg1 mg2 :: srtp_policy RtcStreamManager. mg_run sample_sys (cmd_pull 2 sample_name True True (Some (7, None))) mg1 = Some (0, mg2)
     \<and> registry_of mg2 = (registry_of mg1)\<lparr>reg_pull := (reg_pull (registry_of mg1))(sample_name \<mapsto> 2)\<rparr>"
proof -
  obtain mg1 mg2 :: "srtp_policy RtcStreamManager"
    where mg: "mg_run sample_sys (cmd_pull 2 sample_name True True (Some (7, None))) mg1 = Some (0, mg2)" "mg_reach mg1"
    using sample_pulls by blast
  from manager_refines_registry [OF mg(2) sample_keeps_header _ mg(1)]
  have "registry_of mg2 = (registry_of mg1)\<lparr>reg_pull := (reg_pull (registry_of mg1))(sample_name \<mapsto> 2)\<rparr>" by (auto split: if_splits)
  with mg(1) show ?thesis by blast
qed

theorem replaced_pull_stream_leaks_witness:
  "\<exists>mg2 mg3 :: srtp_policy RtcStreamManager. mg_run sample_sys (cmd_pull 3 sample_name True True (Some (7, None))) mg2 = Some (0, mg3)
     \<and> pull_streams mg2 sample_name = Some 1 \<and> (\<exists>s. streams mg3 1 = Some s) \<and> unlisted 1 mg3"
proof -
  obtain mg2 mg3 :: "srtp_policy RtcStreamManager"
    where mg: "mg_run sample_sys (cmd_pull 3 sample_name True True (Some (7, None))) mg2 = Some (0, mg3)" "mg_reach mg2"
      "pull_streams mg2 sample_name = Some 1" "streams mg2 1 = Some (new_RtcStream k_pull 2 sample_name True True\<lparr>ice_timeout_watcher := True\<rparr>)"
    using sample_pulls by blast
  from replaced_pull_stream_leaks [OF mg(2) sample_keeps_header mg(3,4) _ mg(1) mg_later.now] mg(1,3)
  show ?thesis by (auto simp: new_RtcStream_def)
qed

theorem stale_timeout_removes_successor_witness:
  "\<exists>mg mg' :: srtp_policy RtcStreamManager. mg_reach mg \<and> pull_streams mg sample_name = Some 3
     \<and> mg_run sample_sys (on_ice_timeout 1) mg = Some (0, mg') \<and> streams mg' 3 = None"
proof -
  obtain mg :: "srtp_policy RtcStreamManager"
    where mg: "mg_reach mg" "pull_streams mg sample_name = Some 3"
      "streams mg 1 = Some (new_RtcStream k_pull 2 sample_name True True\<lparr>ice_timeout_watcher := True\<rparr>)"
      "streams mg 3 = Some (new_RtcStream k_pull 2 sample_name True True\<lparr>ice_timeout_watcher := True\<rparr>)"
    using sample_pulls by blast
  from stale_timeout_removes_successor [OF mg(1,3), of 3 _ sample_sys, OF _ _ _ _ _ mg(4)] mg(1,2) show ?thesis
    by (auto simp: new_RtcStream_def)
qed

end
