(* ===== verification/Stream_Media.thy ===== *)
theory Stream_Media
  imports Stream_Registry
begin

text \<open>
  Media between streams: a packet of a publisher reaches the subscriber's channel, and a stream
  without audio is never sent anything.
\<close>

section \<open>The names of the transports\<close>

lemma run_media_agent: "yields (\<lambda>tc'. ice_agent tc' = ice_agent tc) (run_media n f tc)"
  by (auto simp: run_media_def Let_def intro!: yields_read split: option.split)

lemma send_names: "yields (\<lambda>pc'. names (controller pc') = names (controller pc)) (pc_send_rtp sys data pc)"
  "yields (\<lambda>pc'. names (controller pc') = names (controller pc)) (pc_send_rtcp sys data pc)"
  by (auto simp: pc_send_rtp_def pc_send_rtcp_def tc_send_rtp_def tc_send_rtcp_def run_controller_def fold_tc_events names_def
      dest: yieldsD [OF run_media_agent] intro!: yields_read)

lemma tc_run_names:
  assumes "pc_good pc" "tc_enabled inp (controller pc)"
  shows "yields (\<lambda>pc'. names (controller pc') = names (controller pc)) (run_controller (tc_run sha1 ntop lib ssl inp) pc)"
  using tc_run_spec [OF _ assms(2), of sha1 ntop lib ssl] assms(1)
  by (auto simp: run_controller_def pc_good_def fold_tc_events intro!: yields_read elim: safelyE split: if_splits)

lemma set_remote_sdp_names:
  assumes "pc_good pc"
  shows "yields (\<lambda>x. names (controller (snd x)) = names (controller pc)) (pc_set_remote_sdp sys sdp pc)"
proof -
  have run: "yields (\<lambda>pc'. names (controller pc') = names (controller pc)) (run_controller (\<lambda>tc. map_option snd
      (tc_set_remote_description (sys_sha1 sys) (sys_ntop sys) (sys_lib sys) (sys_ssl sys) (sys_now sys) (Some d) tc)) (pc\<lparr>remote_desc := r\<rparr>))" for d r
    using tc_run_names [of "pc\<lparr>remote_desc := r\<rparr>" "in_answer (sys_now sys) d" "sys_sha1 sys" "sys_ntop sys" "sys_lib sys" "sys_ssl sys"] assms
    by (simp add: pc_good_def run_controller_def)
  show ?thesis unfolding pc_set_remote_sdp_def Let_def
    by (rule yields_read) (auto dest!: parse_ok_desc intro!: yields_bind [OF run] split: option.split prod.split)
qed

text \<open>The offer of a stream without audio has no section named audio.\<close>

lemma video_only_offer:
  assumes "pc_fresh pc" "use_rtp_mux options" "\<not> send_audio options" "\<not> recv_audio options"
  shows "yields (\<lambda>x. bytes_of ''audio'' \<notin> set (names (controller (snd x)))) (pc_create_offer sys options pc)"
proof -
  define desc where "desc = offer_description (sys_direction sys) options (sys_ice sys) (map_option snd (pc_certificate pc))
          (audio_source pc) (video_source pc)"
  let ?f = "\<lambda>tc. map_option snd (tc_set_local_description (sys_sha1 sys) (sys_ntop sys) (sys_lib sys) (sys_ssl sys)
          (sys_bound sys) (sys_allocator sys) (Some desc) tc)"
  have "contents desc = contents (offer_content (send_video options) (recv_video options) options (VideoContentDescription (sys_direction sys))
      (video_source pc) (sys_ice sys) (map_option snd (pc_certificate pc)) (offer_content False False options (AudioContentDescription (sys_direction sys))
      (audio_source pc) (sys_ice sys) (map_option snd (pc_certificate pc)) (new_SessionDescription k_offer)))"
    using assms(3,4) by (simp add: desc_def offer_description_def Let_def add_group_def)
  moreover have "content_type (VideoContentDescription d) = MEDIA_TYPE_VIDEO" for d by (simp add: VideoContentDescription_def)
  moreover have "bytes_of ''video'' \<noteq> bytes_of ''audio''" by (simp add: bytes_of_def)
  ultimately have mids: "bytes_of ''audio'' \<notin> mid ` set (contents desc)"
    by (auto simp: offer_content_simps new_SessionDescription_def media_mid_def split: if_splits)
  have fr: "fresh_parts (controller pc)" "names (controller pc) = []" using assms(1) by (simp_all add: pc_fresh_def names_def)
  have b: "\<forall>m \<in> mid ` set (contents desc). bundled_away desc m \<noteq> None" using offer_bundled [OF assms(2)] unfolding desc_def by blast
  have "yields (\<lambda>tc. bytes_of ''audio'' \<notin> set (names tc)) (?f (controller pc))"
    using set_local_description_good [OF fr(1) b, of "sys_sha1 sys" "sys_ntop sys" "sys_lib sys" "sys_ssl sys" "sys_bound sys" "sys_allocator sys"] mids fr(2)
    by (auto elim!: safelyE)
  then have "yields (\<lambda>pc'. bytes_of ''audio'' \<notin> set (names (controller pc'))) (run_controller ?f (pc\<lparr>local_desc := Some desc\<rparr>))"
    by (auto simp: run_controller_def fold_tc_events intro!: yields_bind)
  then show ?thesis using fr(2)
    by (auto simp: pc_create_offer_def Let_def intro!: yields_bind yields_read simp flip: desc_def)
qed

section \<open>Streams without audio\<close>

definition no_audio_transport :: "'ctx RtcStreamManager \<Rightarrow> bool" where
  "no_audio_transport mg \<longleftrightarrow> (\<forall>p s pc. streams mg p = Some s \<longrightarrow> pcs mg p = Some pc \<longrightarrow> \<not> stream_audio s
     \<longrightarrow> bytes_of ''audio'' \<notin> set (names (controller pc)))"

lemma no_audio_upd:
  "no_audio_transport mg \<Longrightarrow> streams mg p = Some s \<Longrightarrow> stream_audio s' = stream_audio s \<Longrightarrow> no_audio_transport (mg\<lparr>streams := (streams mg)(p \<mapsto> s')\<rparr>)"
  by (simp add: no_audio_transport_def)

lemma no_audio_delete: "no_audio_transport mg \<Longrightarrow> yields no_audio_transport (delete_stream q mg)"
  by (auto simp: delete_stream_def no_audio_transport_def intro!: yields_read)

lemma no_audio_tables [simp]:
  "no_audio_transport (mg\<lparr>push_streams := t\<rparr>) = no_audio_transport mg" "no_audio_transport (mg\<lparr>pull_streams := t\<rparr>) = no_audio_transport mg"
  by (simp_all add: no_audio_transport_def)

lemma no_audio_remove:
  "no_audio_transport mg \<Longrightarrow> yields no_audio_transport (remove_push_stream uid n mg)"
  "no_audio_transport mg \<Longrightarrow> yields no_audio_transport (remove_pull_stream uid n mg)"
  "no_audio_transport mg \<Longrightarrow> yields no_audio_transport (remove_stream s mg)"
  by (auto simp: remove_stream_def remove_push_stream_def remove_pull_stream_def intro!: yields_read no_audio_delete
      split: option.split RtcStreamType.split)

lemma no_audio_call:
  assumes "no_audio_transport mg" "\<And>pc. pcs mg q = Some pc \<Longrightarrow> yields (\<lambda>x. names (controller (snd x)) = names (controller pc)) (f (borrowed (process_usage mg) pc))"
  shows "yields (\<lambda>(_, _, mg'). no_audio_transport mg') (call_pc q f mg)"
  using assms unfolding call_pc_def borrowed_def [symmetric]
  by (auto simp: no_audio_transport_def intro!: yields_read split: prod.split dest: yieldsD)

lemma borrowed_names [simp]: "names (controller (borrowed u pc)) = names (controller pc)"
  by (simp add: borrowed_def names_def)

lemma no_audio_send:
  assumes "no_audio_transport mg" "\<And>pc. yields (\<lambda>pc'. names (controller pc') = names (controller pc)) (f pc)"
  shows "yields no_audio_transport (send_on q f mg)"
proof -
  have "yields (\<lambda>(_, _, mg'). no_audio_transport mg') (call_pc q (\<lambda>pc. map_option (Pair ()) (f pc)) mg)"
    using assms(2) [of "borrowed (process_usage mg) pc" for pc] by (intro no_audio_call [OF assms(1)]) simp
  then show ?thesis unfolding send_on_def by (intro yields_read) (auto intro: yields_bind)
qed

lemma no_audio_event: "no_audio_transport mg \<Longrightarrow> yields no_audio_transport (on_pc_event sys p e mg)"
  by (auto simp: on_pc_event_def stream_on_connection_state_def mg_on_connection_state_def mg_on_rtp_packet_received_def
      mg_on_rtcp_packet_received_def Let_def intro!: no_audio_send send_names no_audio_remove no_audio_upd
      split: option.split pc_event.split RtcStreamType.split)

lemma no_audio_events: "no_audio_transport mg \<Longrightarrow> yields no_audio_transport (on_pc_events sys p es mg)"
  by (induction es arbitrary: mg) (auto intro!: yields_bind [OF no_audio_event])

lemma no_audio_run_pc:
  assumes "no_audio_transport mg" "\<And>pc. pcs mg q = Some pc \<Longrightarrow> yields (\<lambda>x. names (controller (snd x)) = names (controller pc)) (f (borrowed (process_usage mg) pc))"
  shows "yields (\<lambda>x. no_audio_transport (snd x)) (run_pc sys q f mg)"
  unfolding run_pc_def by (rule yields_bind [OF no_audio_call [OF assms]]) (auto intro: no_audio_events)

lemma no_audio_open:
  assumes "mg_good mg" "no_audio_transport mg"
  shows "yields (\<lambda>x. no_audio_transport (snd x)) (open_stream sys cert s a v mg)"
proof -
  let ?p = "next_stream mg" and ?s = "s\<lparr>ice_timeout_watcher := True\<rparr>"
    and ?pc = "pc_init cert (new_PeerConnection (process_usage mg)\<lparr>audio_source := a, video_source := v\<rparr>)"
  define mg1 where "mg1 = mg\<lparr>next_stream := ?p + 1, streams := (streams mg)(?p \<mapsto> ?s), pcs := (pcs mg)(?p \<mapsto> ?pc)\<rparr>"
  let ?opt = "case stream_type s of k_push \<Rightarrow> push_options ?s | k_pull \<Rightarrow> pull_options ?s"
  let ?b = "borrowed (process_usage mg) ?pc"
  have open_eq: "open_stream sys cert s a v mg = run_pc sys ?p (pc_create_offer sys ?opt) mg1"
    by (simp add: open_stream_def spawn_stream_def stream_start_def stream_create_offer_def Let_def mg1_def)
  have fresh: "pc_fresh ?b" using new_pc_fresh by simp
  have opts: "use_rtp_mux ?opt" "\<not> stream_audio s \<Longrightarrow> \<not> send_audio ?opt \<and> \<not> recv_audio ?opt"
    by (simp_all add: push_options_def pull_options_def default_options_def split: RtcStreamType.split)
  have "no_audio_transport (mg1\<lparr>pcs := (pcs mg1)(?p \<mapsto> pc'), process_usage := u\<rparr>)" if "pc_create_offer sys ?opt ?b = Some (r, pc')" for r pc' u
    using yieldsD [OF video_only_offer [OF fresh opts(1)] that] opts(2) assms(2) by (auto simp: no_audio_transport_def mg1_def)
  then have "yields (\<lambda>(_, _, mg'). no_audio_transport mg') (call_pc ?p (pc_create_offer sys ?opt) mg1)"
    unfolding call_pc_def borrowed_def [symmetric] by (auto simp: mg1_def intro!: yields_read split: prod.split)
  then show ?thesis unfolding open_eq run_pc_def by (rule yields_bind) (auto intro: no_audio_events)
qed

lemma no_audio_create:
  assumes "mg_good mg" "no_audio_transport mg"
  shows "yields (\<lambda>(_, _, mg'). no_audio_transport mg') (create_push_stream sys uid n audio video cert mg)"
    "yields (\<lambda>(_, _, mg'). no_audio_transport mg') (create_pull_stream sys uid n audio video cert mg)"
proof -
  have via: "yields (\<lambda>(_, _, mg'). no_audio_transport mg') (open_stream sys cert s a b v \<bind> (\<lambda>(offer, mg'). Some (0 :: int, offer, f mg')))"
    if "mg_good v" "no_audio_transport v" "\<And>v'. no_audio_transport v' \<Longrightarrow> no_audio_transport (f v')" for v :: "'a RtcStreamManager" and f s a b
    using that by (auto intro!: yields_bind [OF no_audio_open])
  have "yields no_audio_transport (vacate n mg)" using assms(2) by (auto simp: vacate_def intro!: no_audio_delete split: option.split)
  then show "yields (\<lambda>(_, _, mg'). no_audio_transport mg') (create_push_stream sys uid n audio video cert mg)"
    unfolding create_push_via using vacate_inv [OF assms(1), of n] by (auto intro!: via elim!: safelyE)
  show "yields (\<lambda>(_, _, mg'). no_audio_transport mg') (create_pull_stream sys uid n audio video cert mg)"
  proof (cases "push_streams mg n")
    case (Some q)
    from pull_source [OF assms(1) Some, of uid] obtain mg1 s pc
      where mg1: "remove_pull_stream uid n mg = Some mg1" "mg_good mg1" "streams mg1 q = Some s" "pcs mg1 q = Some pc" .
    have "no_audio_transport mg1" by (rule yieldsD [OF no_audio_remove(2) [OF assms(2)] mg1(1)])
    then show ?thesis unfolding create_pull_via [OF Some mg1(1,3,4)] using mg1(2) by (intro via) simp_all
  qed (use assms(2) in \<open>simp add: create_pull_stream_def\<close>)
qed

lemma no_audio_answer:
  assumes "mg_good mg" "no_audio_transport mg"
  shows "yields (\<lambda>x. no_audio_transport (snd x)) (answer_stream sys uid answer p mg)"
proof -
  have run: "yields (\<lambda>x. no_audio_transport (snd x)) (run_pc sys q (pc_set_remote_sdp sys answer) mg)" for q
    using mg_invD(2) [OF assms(1), of q] set_remote_sdp_names [of "borrowed (process_usage mg) pc" sys answer for pc]
    by (intro no_audio_run_pc [OF assms(2)]) simp
  show ?thesis using assms(2) by (cases p; cases "streams mg (the p)") (auto simp: answer_stream_def intro!: yields_bind [OF run])
qed

lemma no_audio_mg_run:
  assumes "mg_good mg" "no_audio_transport mg" "mg_enabled inp mg"
  shows "yields (\<lambda>x. no_audio_transport (snd x)) (mg_run sys inp mg)"
proof (cases inp)
  case (cmd_push uid n audio video cert)
  then show ?thesis by (auto intro!: yields_mono [OF no_audio_create(1) [OF assms(1,2)]])
next
  case (cmd_pull uid n audio video cert)
  then show ?thesis by (auto intro!: yields_mono [OF no_audio_create(2) [OF assms(1,2)]])
next
  case (on_transport p ti)
  then obtain pc where pc: "pcs mg p = Some pc" "tc_enabled ti (controller pc)" using assms(3) by (auto split: option.splits)
  have "pc_good (borrowed (process_usage mg) pc)" using mg_invD(2) [OF assms(1) pc(1)] by simp
  from tc_run_names [OF this, of ti "sys_sha1 sys" "sys_ntop sys" "sys_lib sys" "sys_ssl sys"] pc on_transport
  show ?thesis by (auto intro!: no_audio_run_pc [OF assms(2)])
next
  case (on_ice_timeout p)
  then show ?thesis using assms(2)
    by (auto simp: ice_timeout_cb_def mg_on_stream_exception_def Let_def intro!: yields_read no_audio_remove no_audio_upd)
next
  case (on_destroy_timer p)
  then show ?thesis using assms(2) by (auto simp: destroy_timer_cb_def no_audio_transport_def intro!: yields_read)
qed (use assms(2) no_audio_answer [OF assms(1,2)] in \<open>simp_all add: stop_push_def stop_pull_def set_answer_def no_audio_remove\<close>)

lemma no_audio_reach: "mg_reach mg \<Longrightarrow> no_audio_transport mg"
proof (induction rule: mg_reach.induct)
  case (step mg sys inp r mg')
  from yieldsD [OF no_audio_mg_run [OF mg_reach_good [OF step.hyps(1)] step.IH step.hyps(3)] step.hyps(4)] show ?case by simp
qed (simp add: no_audio_transport_def new_RtcStreamManager_def)

section \<open>Claims\<close>

text \<open>
  C16. Media is relayed: when a publisher sends an RTP packet, the subscriber of its stream has an
  audio transport with SRTP in operation and libsrtp protects the packet, the protected packet is
  handed to the ICE channel of the subscriber.  Nothing else changes: the other peer connections,
  the streams and the tables stay as they are, and in the subscriber's connection only the sending
  SRTP session and the last sequence number of the audio transport are updated (with the copies of
  the writability and of the usage counter that the transport works with).
\<close>

theorem rtp_packet_relayed:
  assumes "streams mg p = Some s" "stream_type s = k_push" "pull_streams mg (stream_name s) = Some q" "streams mg q = Some s'" "pcs mg q = Some pc"
    "get_transport (bytes_of ''audio'') (controller pc) = Some (i, t)" "is_srtp_active (dtls_srtp t)" "12 \<le> length data"
    "protect_rtp (sys_lib sys) data (int (length data) + fst (get_send_auth_tag_len (dtls_srtp t))) (dtls_srtp t) = (Some out, t')"
  shows "on_pc_event sys p (pc_rtp_packet data) mg = Some (mg\<lparr>pcs := (pcs mg)(q \<mapsto> pc\<lparr>pc_events := [], controller :=
      (set_transport (bytes_of ''audio'') i
         (t\<lparr>ice_writable := ch_writable (the_channel i (controller pc)), libsrtp_usage := process_usage mg,
            dtls_srtp := t'\<lparr>last_send_seq_num := be16_of (take 2 (drop 2 data))\<rparr>, signals := []\<rparr>)
         ((controller pc)\<lparr>srtp_usage := process_usage mg\<rparr>))\<lparr>
           tc_events := tc_events (controller pc) @ [tc_channel_send (bytes_of ''audio'') out]\<rparr>\<rparr>)\<rparr>)"
proof -
  have seq: "parse_rtp_sequence_number data = Some (be16_of (take 2 (drop 2 data)))"
    using assms(8) by (simp add: parse_rtp_sequence_number_def GetBE16_def mem_read_def)
  show ?thesis using assms seq
    by (auto simp: on_pc_event_def mg_on_rtp_packet_received_def send_on_def call_pc_def pc_send_rtp_def run_controller_def
        tc_send_rtp_def run_media_def get_transport_def srtp_send_rtp_def raise_def notify_def set_transport_def upd_dtls_def the_channel_def
        split: prod.splits)
qed

text \<open>
  C38. A stream that was requested without audio never gets any media: its only transport is named
  video, but packets are always sent on the transport named audio.  Sending RTP or RTCP on it changes
  nothing, in every reachable state.
\<close>

theorem video_only_stream_gets_nothing:
  assumes "mg_reach mg" "streams mg p = Some s" "\<not> stream_audio s" "pcs mg p = Some pc"
  shows "pc_send_rtp sys data pc = Some pc \<and> pc_send_rtcp sys data pc = Some pc"
proof -
  have "bytes_of ''audio'' \<notin> set (names (controller pc))" using no_audio_reach [OF assms(1)] assms(2-4) by (simp add: no_audio_transport_def)
  moreover have "tc_shape (controller pc)"
    using mg_invD(2) [OF mg_reach_good [OF assms(1)] assms(4)] by (simp add: pc_good_def tc_good_def in_step_def)
  ultimately have "get_transport (bytes_of ''audio'') (controller pc) = None" using has_transport by blast
  then show ?thesis by (simp add: pc_send_rtp_def pc_send_rtcp_def run_controller_def tc_send_rtp_def tc_send_rtcp_def run_media_def)
qed

section \<open>Witnesses\<close>

definition sample_relay :: "srtp_policy RtcStreamManager" where
  "sample_relay = new_RtcStreamManager\<lparr>
     push_streams := [sample_name \<mapsto> 0], pull_streams := [sample_name \<mapsto> 1],
     streams := [0 \<mapsto> new_RtcStream k_push 1 sample_name True True, 1 \<mapsto> new_RtcStream k_pull 2 sample_name True True],
     pcs := [1 \<mapsto> (new_PeerConnection 2)\<lparr>controller := (new_TransportController 2)\<lparr>transports := [(bytes_of ''audio'', 0, sample_connected)]\<rparr>\<rparr>]\<rparr>"

theorem rtp_packet_relayed_witness:
  "\<exists>mg' pc'. on_pc_event sample_sys 0 (pc_rtp_packet sample_rtp) sample_relay = Some mg' \<and> pcs mg' 1 = Some pc'
    \<and> tc_events (controller pc') = [tc_channel_send (bytes_of ''audio'') (sample_rtp @ [1, 2])]"
proof -
  have "protect_rtp (sys_lib sample_sys) sample_rtp (int (length sample_rtp) + fst (get_send_auth_tag_len (dtls_srtp sample_connected))) (dtls_srtp sample_connected)
      = (Some (sample_rtp @ [1, 2]), dtls_srtp sample_connected)"
    by (simp add: protect_rtp_def session_protect_def get_send_auth_tag_len_def sample_connected_def sample_connecting_def sample_media_def
        sample_session_def sample_sys_def sample_lib_def sample_rtp_def new_MediaTransport_def upd_dtls_def raise_def)
  moreover have "is_srtp_active (dtls_srtp sample_connected)" by (simp add: is_srtp_active_def sample_connected_def)
  ultimately show ?thesis
    using rtp_packet_relayed [of sample_relay 0 "new_RtcStream k_push 1 sample_name True True" 1 "new_RtcStream k_pull 2 sample_name True True"
        "(new_PeerConnection 2)\<lparr>controller := (new_TransportController 2)\<lparr>transports := [(bytes_of ''audio'', 0, sample_connected)]\<rparr>\<rparr>" 0 sample_connected sample_rtp sample_sys]
    by (auto simp: sample_relay_def new_RtcStream_def get_transport_def sample_rtp_def new_TransportController_def)
qed

theorem video_only_stream_gets_nothing_witness:
  "\<exists>mg :: srtp_policy RtcStreamManager. mg_reach mg \<and> (\<exists>pc. pcs mg 0 = Some pc \<and> pc_send_rtp sample_sys sample_rtp pc = Some pc)"
proof -
  obtain mg :: "srtp_policy RtcStreamManager" where mg: "mg_run sample_sys (cmd_push 7 sample_name False True (Some (7, None))) new_RtcStreamManager = Some (0, mg)"
    "streams mg 0 = Some (new_RtcStream k_push 7 sample_name False True\<lparr>ice_timeout_watcher := True\<rparr>)"
    using push_result [OF mg_reach_good [OF mg_reach.start] sample_keeps_header, of sample_name 7 False True "Some (7, None)"]
    by (auto simp: new_RtcStreamManager_def)
  have r: "mg_reach mg" by (rule mg_reach.step [OF mg_reach.start sample_keeps_header _ mg(1)]) simp
  then obtain pc where "pcs mg 0 = Some pc" using mg_inv_live [OF mg_reach_good mg(2)] by metis
  with video_only_stream_gets_nothing [OF r mg(2) _ this, of sample_sys sample_rtp] r show ?thesis by (auto simp: new_RtcStream_def)
qed

end
