(* ===== verification/Rtc_Server.thy ===== *)
theory Rtc_Server
  imports Rtc_Stream Lock_Free_Queue Signaling_Worker
begin

text \<open>
  \<^verbatim>\<open>server/rtc_server.cpp\<close> and \<^verbatim>\<open>server/rtc_worker.cpp\<close>: the server that
  distributes the commands of the signalling side over its workers, and the workers that run them on
  their stream managers.  A thread reads its pipe one notification at a time; the pipes are lists of
  pending notifications.  The lock-free queue between the server and a worker is used by one thread
  on each side, so each of its calls can be taken as one step.
\<close>

section \<open>A worker\<close>

text \<open>
  The queue holds pointers to messages.  \<open>rw_replies\<close> are the messages handed back to the
  signalling workers, with the number of the worker.
\<close>

record 'ctx RtcWorker =
  rw_id :: nat
  rw_q_msg :: "RtcMsg option LockFreeQueue"
  rw_manager :: "'ctx RtcStreamManager"
  rw_pipe :: "int list"
  rw_stopped :: bool
  rw_replies :: "(nat \<times> RtcMsg) list"

definition new_RtcWorker :: "nat \<Rightarrow> 'ctx RtcWorker" where
  "new_RtcWorker i = \<lparr>rw_id = i, rw_q_msg = new_LockFreeQueue 0 None, rw_manager = new_RtcStreamManager, rw_pipe = [],
     rw_stopped = False, rw_replies = []\<rparr>"

definition RW_QUIT :: int where "RW_QUIT = 0"
definition RW_RTC_MSG :: int where "RW_RTC_MSG = 1"

definition rw_push_msg :: "RtcMsg \<Rightarrow> 'ctx RtcWorker \<Rightarrow> 'ctx RtcWorker option" where
  "rw_push_msg msg w = map_option (\<lambda>q. w\<lparr>rw_q_msg := q\<rparr>) (produce (fresh_node (rw_q_msg w)) (Some msg) (rw_q_msg w))"

definition rw_pop_msg :: "'ctx RtcWorker \<Rightarrow> (RtcMsg option option \<times> 'ctx RtcWorker) option" where
  "rw_pop_msg w = map_option (\<lambda>(m, q). (m, w\<lparr>rw_q_msg := q\<rparr>)) (consume (rw_q_msg w))"

text \<open>\<open>ok\<close> is the outcome of the write to the pipe.\<close>

definition rw_notify :: "bool \<Rightarrow> int \<Rightarrow> 'ctx RtcWorker \<Rightarrow> int \<times> 'ctx RtcWorker" where
  "rw_notify ok msg w = (if ok then (0, w\<lparr>rw_pipe := rw_pipe w @ [msg]\<rparr>) else (-1, w))"

definition rw_send_rtc_msg :: "bool \<Rightarrow> RtcMsg \<Rightarrow> 'ctx RtcWorker \<Rightarrow> (int \<times> 'ctx RtcWorker) option" where
  "rw_send_rtc_msg ok msg w = map_option (rw_notify ok RW_RTC_MSG) (rw_push_msg msg w)"

section \<open>Commands\<close>

text \<open>\<open>fp\<close> gives the fingerprint that can be computed from a certificate.\<close>

definition cert_of :: "(nat \<Rightarrow> SSLFingerprint option) \<Rightarrow> RtcMsg \<Rightarrow> certificate option" where
  "cert_of fp msg = map_option (\<lambda>a. (a, fp a)) (m_certificate msg)"

definition rw_reply :: "int \<Rightarrow> bytes \<Rightarrow> RtcMsg \<Rightarrow> 'ctx RtcWorker \<Rightarrow> 'ctx RtcWorker" where
  "rw_reply ret offer msg w =
     (let msg = msg\<lparr>m_sdp := offer\<rparr>;
          msg = (if ret \<noteq> 0 then msg\<lparr>m_err_no := -1\<rparr> else msg)
      in case m_worker msg of None \<Rightarrow> w | Some i \<Rightarrow> w\<lparr>rw_replies := rw_replies w @ [(i, msg)]\<rparr>)"

definition rw_process_push :: "'ctx system \<Rightarrow> (nat \<Rightarrow> SSLFingerprint option) \<Rightarrow> RtcMsg \<Rightarrow> 'ctx RtcWorker \<Rightarrow> 'ctx RtcWorker option" where
  "rw_process_push sys fp msg w = do {
     (ret, offer, mg) \<leftarrow> create_push_stream sys (m_uid msg) (m_stream_name msg) (m_audio msg \<noteq> 0) (m_video msg \<noteq> 0) (cert_of fp msg) (rw_manager w);
     Some (rw_reply ret offer msg (w\<lparr>rw_manager := mg\<rparr>))
   }"

definition rw_process_pull :: "'ctx system \<Rightarrow> (nat \<Rightarrow> SSLFingerprint option) \<Rightarrow> RtcMsg \<Rightarrow> 'ctx RtcWorker \<Rightarrow> 'ctx RtcWorker option" where
  "rw_process_pull sys fp msg w = do {
     (ret, offer, mg) \<leftarrow> create_pull_stream sys (m_uid msg) (m_stream_name msg) (m_audio msg \<noteq> 0) (m_video msg \<noteq> 0) (cert_of fp msg) (rw_manager w);
     Some (rw_reply ret offer msg (w\<lparr>rw_manager := mg\<rparr>))
   }"

definition rw_process_answer :: "'ctx system \<Rightarrow> RtcMsg \<Rightarrow> 'ctx RtcWorker \<Rightarrow> 'ctx RtcWorker option" where
  "rw_process_answer sys msg w = do {
     (ret, mg) \<leftarrow> set_answer sys (m_uid msg) (m_stream_name msg) (m_sdp msg) (m_stream_type msg) (rw_manager w);
     Some (w\<lparr>rw_manager := mg\<rparr>)
   }"

definition rw_process_stop_push :: "RtcMsg \<Rightarrow> 'ctx RtcWorker \<Rightarrow> 'ctx RtcWorker option" where
  "rw_process_stop_push msg w = do {
     (ret, mg) \<leftarrow> stop_push (m_uid msg) (m_stream_name msg) (rw_manager w);
     Some (w\<lparr>rw_manager := mg\<rparr>)
   }"

definition rw_process_stop_pull :: "RtcMsg \<Rightarrow> 'ctx RtcWorker \<Rightarrow> 'ctx RtcWorker option" where
  "rw_process_stop_pull msg w = do {
     (ret, mg) \<leftarrow> stop_pull (m_uid msg) (m_stream_name msg) (rw_manager w);
     Some (w\<lparr>rw_manager := mg\<rparr>)
   }"

definition rw_dispatch :: "'ctx system \<Rightarrow> (nat \<Rightarrow> SSLFingerprint option) \<Rightarrow> RtcMsg \<Rightarrow> 'ctx RtcWorker \<Rightarrow> 'ctx RtcWorker option" where
  "rw_dispatch sys fp msg w =
     (if m_cmdno msg = CMDNO_PUSH then rw_process_push sys fp msg w
      else if m_cmdno msg = CMDNO_PULL then rw_process_pull sys fp msg w
      else if m_cmdno msg = CMDNO_STOPPUSH then rw_process_stop_push msg w
      else if m_cmdno msg = CMDNO_STOPPULL then rw_process_stop_pull msg w
      else if m_cmdno msg = CMDNO_ANSWER then rw_process_answer sys msg w
      else Some w)"

definition rw_process_rtc_msg :: "'ctx system \<Rightarrow> (nat \<Rightarrow> SSLFingerprint option) \<Rightarrow> 'ctx RtcWorker \<Rightarrow> 'ctx RtcWorker option" where
  "rw_process_rtc_msg sys fp w = do {
     (m, w) \<leftarrow> rw_pop_msg w;
     (case m of None \<Rightarrow> Some w | Some m \<Rightarrow> Option.bind m (\<lambda>msg. rw_dispatch sys fp msg w))
   }"

definition rw_process_notify :: "'ctx system \<Rightarrow> (nat \<Rightarrow> SSLFingerprint option) \<Rightarrow> int \<Rightarrow> 'ctx RtcWorker \<Rightarrow> 'ctx RtcWorker option" where
  "rw_process_notify sys fp msg w =
     (if msg = RW_QUIT then Some (w\<lparr>rw_stopped := True\<rparr>)
      else if msg = RW_RTC_MSG then rw_process_rtc_msg sys fp w
      else Some w)"

definition rw_recv_notify :: "'ctx system \<Rightarrow> (nat \<Rightarrow> SSLFingerprint option) \<Rightarrow> 'ctx RtcWorker \<Rightarrow> 'ctx RtcWorker option" where
  "rw_recv_notify sys fp w = (case rw_pipe w of [] \<Rightarrow> Some w
     | msg # msgs \<Rightarrow> rw_process_notify sys fp msg (w\<lparr>rw_pipe := msgs\<rparr>))"

section \<open>The server\<close>

text \<open>
  A certificate is its address and the time at which it expires.  \<open>rs_usage\<close> is the usage
  counter of libsrtp, which the workers share under a lock.
\<close>

record 'ctx RtcServer =
  rs_worker_num :: int
  rs_workers :: "'ctx RtcWorker list"
  rs_q_msg :: "RtcMsg list"
  rs_certificate :: "(nat \<times> int) option"
  rs_pipe :: "int list"
  rs_stopped :: bool
  rs_usage :: int

definition RS_QUIT :: int where "RS_QUIT = 0"
definition RS_RTC_MSG :: int where "RS_RTC_MSG = 1"

definition new_RtcServer :: "int \<Rightarrow> 'ctx RtcServer" where
  "new_RtcServer worker_num = \<lparr>rs_worker_num = worker_num, rs_workers = [], rs_q_msg = [], rs_certificate = None, rs_pipe = [],
     rs_stopped = False, rs_usage = 0\<rparr>"

text \<open>\<open>generated\<close> is the result of the certificate generator.\<close>

definition HasExpired :: "int \<Rightarrow> nat \<times> int \<Rightarrow> bool" where
  "HasExpired now cert \<longleftrightarrow> snd cert \<le> now"

definition generate_and_check_certificate :: "int \<Rightarrow> (nat \<times> int) option \<Rightarrow> 'ctx RtcServer \<Rightarrow> int \<times> 'ctx RtcServer" where
  "generate_and_check_certificate now generated rs =
     (let cert = (case rs_certificate rs of None \<Rightarrow> generated
          | Some c \<Rightarrow> if HasExpired now c then generated else Some c)
      in ((if cert = None then -1 else 0), rs\<lparr>rs_certificate := cert\<rparr>))"

text \<open>Workers are created until one cannot be initialised or started.\<close>

fun create_workers :: "(nat \<Rightarrow> bool) \<Rightarrow> nat \<Rightarrow> nat \<Rightarrow> 'ctx RtcServer \<Rightarrow> int \<times> 'ctx RtcServer" where
  "create_workers ok i 0 rs = (0, rs)"
| "create_workers ok i (Suc n) rs =
     (if ok i then create_workers ok (Suc i) n (rs\<lparr>rs_workers := rs_workers rs @ [new_RtcWorker i]\<rparr>) else (-1, rs))"

text \<open>
  The options read from the YAML file are arguments; \<open>piped\<close> is the outcome of creating the pipe.
\<close>

definition rs_init :: "int \<Rightarrow> (nat \<times> int) option \<Rightarrow> bool \<Rightarrow> (nat \<Rightarrow> bool) \<Rightarrow> 'ctx RtcServer \<Rightarrow> int \<times> 'ctx RtcServer" where
  "rs_init now generated piped ok rs =
     (case generate_and_check_certificate now generated rs of (ret, rs) \<Rightarrow>
        if ret \<noteq> 0 then (-1, rs) else if \<not> piped then (-1, rs) else create_workers ok 0 (nat (rs_worker_num rs)) rs)"

definition rs_notify :: "bool \<Rightarrow> int \<Rightarrow> 'ctx RtcServer \<Rightarrow> int \<times> 'ctx RtcServer" where
  "rs_notify ok msg rs = (if ok then (0, rs\<lparr>rs_pipe := rs_pipe rs @ [msg]\<rparr>) else (-1, rs))"

definition rs_push_msg :: "RtcMsg \<Rightarrow> 'ctx RtcServer \<Rightarrow> 'ctx RtcServer" where
  "rs_push_msg msg rs = rs\<lparr>rs_q_msg := rs_q_msg rs @ [msg]\<rparr>"

definition rs_pop_msg :: "'ctx RtcServer \<Rightarrow> RtcMsg option \<times> 'ctx RtcServer" where
  "rs_pop_msg rs = (case rs_q_msg rs of [] \<Rightarrow> (None, rs) | msg # q \<Rightarrow> (Some msg, rs\<lparr>rs_q_msg := q\<rparr>))"

definition rs_send_rtc_msg :: "bool \<Rightarrow> RtcMsg \<Rightarrow> 'ctx RtcServer \<Rightarrow> int \<times> 'ctx RtcServer" where
  "rs_send_rtc_msg ok msg rs = rs_notify ok RS_RTC_MSG (rs_push_msg msg rs)"

definition get_worker :: "bytes \<Rightarrow> 'ctx RtcServer \<Rightarrow> nat option" where
  "get_worker name rs =
     (if length (rs_workers rs) = 0 \<or> int (length (rs_workers rs)) \<noteq> rs_worker_num rs then None
      else Some (unat (ComputeCrc32 name mod word_of_int (rs_worker_num rs))))"

definition rs_process_rtc_msg :: "int \<Rightarrow> (nat \<times> int) option \<Rightarrow> bool \<Rightarrow> 'ctx RtcServer \<Rightarrow> 'ctx RtcServer option" where
  "rs_process_rtc_msg now generated ok rs = (case rs_pop_msg rs of
       (None, rs) \<Rightarrow> Some rs
     | (Some msg, rs) \<Rightarrow> (case generate_and_check_certificate now generated rs of (ret, rs) \<Rightarrow>
         if ret \<noteq> 0 then Some rs
         else let msg = msg\<lparr>m_certificate := map_option fst (rs_certificate rs)\<rparr>
              in case get_worker (m_stream_name msg) rs of None \<Rightarrow> Some rs
                 | Some i \<Rightarrow> do {
                     (_, w) \<leftarrow> rw_send_rtc_msg ok msg (rs_workers rs ! i);
                     Some (rs\<lparr>rs_workers := (rs_workers rs)[i := w]\<rparr>)
                   }))"

text \<open>The server tells each worker to stop; then it waits for their threads.\<close>

definition rs_stop :: "bool \<Rightarrow> 'ctx RtcServer \<Rightarrow> 'ctx RtcServer" where
  "rs_stop ok rs = rs\<lparr>rs_stopped := True, rs_workers := map (\<lambda>w. snd (rw_notify ok RW_QUIT w)) (rs_workers rs)\<rparr>"

definition rs_process_notify :: "int \<Rightarrow> (nat \<times> int) option \<Rightarrow> bool \<Rightarrow> int \<Rightarrow> 'ctx RtcServer \<Rightarrow> 'ctx RtcServer option" where
  "rs_process_notify now generated ok msg rs =
     (if msg = RS_QUIT then Some (rs_stop ok rs)
      else if msg = RS_RTC_MSG then rs_process_rtc_msg now generated ok rs
      else Some rs)"

definition rs_recv_notify :: "int \<Rightarrow> (nat \<times> int) option \<Rightarrow> bool \<Rightarrow> 'ctx RtcServer \<Rightarrow> 'ctx RtcServer option" where
  "rs_recv_notify now generated ok rs = (case rs_pipe rs of [] \<Rightarrow> Some rs
     | msg # msgs \<Rightarrow> rs_process_notify now generated ok msg (rs\<lparr>rs_pipe := msgs\<rparr>))"

text \<open>Something that happens in the thread of worker \<open>i\<close>.\<close>

definition run_worker :: "nat \<Rightarrow> ('ctx RtcWorker \<Rightarrow> 'ctx RtcWorker option) \<Rightarrow> 'ctx RtcServer \<Rightarrow> 'ctx RtcServer option" where
  "run_worker i f rs = do {
     let w = rs_workers rs ! i;
     w \<leftarrow> f (w\<lparr>rw_manager := (rw_manager w)\<lparr>process_usage := rs_usage rs\<rparr>\<rparr>);
     Some (rs\<lparr>rs_workers := (rs_workers rs)[i := w], rs_usage := process_usage (rw_manager w)\<rparr>)
   }"

end
