(* ===== verification/Server_Safety.thy ===== *)
theory Server_Safety
  imports Stream_Media Rtc_Server
begin

text \<open>
  The server with its workers and their stream managers, run in any interleaving of its threads:
  the invariant of the queues between the threads, exactly which inputs are undefined behaviour,
  the order in which commands are executed, and where the streams of a name live.
\<close>

section \<open>Commands\<close>

definition command :: "(nat \<Rightarrow> SSLFingerprint option) \<Rightarrow> RtcMsg \<Rightarrow> mg_input option" where
  "command fp msg =
     (if m_cmdno msg = CMDNO_PUSH then Some (cmd_push (m_uid msg) (m_stream_name msg) (m_audio msg \<noteq> 0) (m_video msg \<noteq> 0) (cert_of fp msg))
      else if m_cmdno msg = CMDNO_PULL then Some (cmd_pull (m_uid msg) (m_stream_name msg) (m_audio msg \<noteq> 0) (m_video msg \<noteq> 0) (cert_of fp msg))
      else if m_cmdno msg = CMDNO_STOPPUSH then Some (cmd_stop_push (m_uid msg) (m_stream_name msg))
      else if m_cmdno msg = CMDNO_STOPPULL then Some (cmd_stop_pull (m_uid msg) (m_stream_name msg))
      else if m_cmdno msg = CMDNO_ANSWER then Some (cmd_answer (m_uid msg) (m_stream_name msg) (m_sdp msg) (m_stream_type msg))
      else None)"

text \<open>What a worker does in its thread leaves the queue and the pipe as they are.\<close>

definition same_inbox :: "'ctx RtcWorker \<Rightarrow> 'ctx RtcWorker \<Rightarrow> bool" where
  "same_inbox w w' \<longleftrightarrow> rw_q_msg w' = rw_q_msg w \<and> rw_pipe w' = rw_pipe w \<and> rw_stopped w' = rw_stopped w"

lemma rw_reply_simps [simp]: "rw_manager (rw_reply ret offer msg w) = rw_manager w" "same_inbox v (rw_reply ret offer msg w) = same_inbox v w"
  "same_inbox w (w\<lparr>rw_manager := mg\<rparr>)"
  by (auto simp: rw_reply_def same_inbox_def Let_def split: option.split)

lemma bind_same_map: "(\<And>x. map_option f (g x) = Some (h x)) \<Longrightarrow> map_option f (r \<bind> g) = map_option h r"
  by (cases r) simp_all

lemma dispatch_command:
  assumes "command fp msg = Some c"
  shows "map_option rw_manager (rw_dispatch sys fp msg w) = map_option snd (mg_run sys c (rw_manager w))" "yields (same_inbox w) (rw_dispatch sys fp msg w)"
proof -
  show "map_option rw_manager (rw_dispatch sys fp msg w) = map_option snd (mg_run sys c (rw_manager w))"
    using assms
    by (auto simp: command_def rw_dispatch_def rw_process_push_def rw_process_pull_def rw_process_stop_push_def rw_process_stop_pull_def
        rw_process_answer_def option.map_comp o_def intro!: bind_same_map split: if_splits)
  show "yields (same_inbox w) (rw_dispatch sys fp msg w)"
    using assms
    by (auto simp: command_def rw_dispatch_def rw_process_push_def rw_process_pull_def rw_process_stop_push_def rw_process_stop_pull_def
        rw_process_answer_def intro!: yields_read split: if_splits)
qed

lemma dispatch_unknown: "command fp msg = None \<Longrightarrow> rw_dispatch sys fp msg w = Some w"
  by (simp add: command_def rw_dispatch_def split: if_splits)

lemma command_enabled: "command fp msg = Some c \<Longrightarrow> mg_enabled c mg"
  by (auto simp: command_def split: if_splits)

lemma command_names: "command fp msg = Some c \<Longrightarrow> list_all (\<lambda>s. stream_name s = m_stream_name msg) (new_streams c)"
  by (auto simp: command_def new_RtcStream_def split: if_splits)

section \<open>One worker\<close>

text \<open>\<open>worker_inv N w q\<close>: the messages \<open>q\<close> are queued; they and the streams have names in \<open>N\<close>.\<close>

definition worker_inv :: "(bytes \<Rightarrow> bool) \<Rightarrow> 'ctx RtcWorker \<Rightarrow> RtcMsg list \<Rightarrow> bool" where
  "worker_inv N w q \<longleftrightarrow> lfq_repr (rw_q_msg w) (map Some q) \<and> mg_good (rw_manager w) \<and> named_in N (rw_manager w)
     \<and> list_all (\<lambda>m. N (m_stream_name m)) q"

text \<open>The message a worker executes next.\<close>

definition next_msg :: "'ctx RtcWorker \<Rightarrow> RtcMsg option" where
  "next_msg w = (case rw_pipe w of [] \<Rightarrow> None
     | n # _ \<Rightarrow> if n = RW_RTC_MSG then (case consume (rw_q_msg w) of Some (Some m, _) \<Rightarrow> m | _ \<Rightarrow> None) else None)"

lemma mg_good_usage [simp]: "mg_good (mg\<lparr>process_usage := u\<rparr>) = mg_good mg" "named_in N (mg\<lparr>process_usage := u\<rparr>) = named_in N mg"
  "mg_enabled inp (mg\<lparr>process_usage := u\<rparr>) = mg_enabled inp mg" "mg_input_safe sys inp (mg\<lparr>process_usage := u\<rparr>) = mg_input_safe sys inp mg"
  by (simp add: mg_inv_def, simp add: named_in_def) (cases inp; simp add: answered_def)+

lemma worker_new: "worker_inv N (new_RtcWorker i) []"
  using mg_reach_good [OF mg_reach.start] by (simp add: worker_inv_def new_RtcWorker_def lfq_repr_new named_in_def new_RtcStreamManager_def)

lemma worker_send:
  assumes "worker_inv N w q" "N (m_stream_name msg)"
  shows "safely (\<lambda>x. worker_inv N (snd x) (q @ [msg])) (rw_send_rtc_msg ok msg w)"
proof -
  have "lfq_repr (rw_q_msg w) (map Some q)" using assms(1) by (simp add: worker_inv_def)
  from lfq.enq_law [OF this, of "Some msg"] assms show ?thesis
    by (auto simp: rw_send_rtc_msg_def rw_push_msg_def rw_notify_def worker_inv_def)
qed

lemma worker_event:
  assumes "worker_inv N w q" "keeps_header (sys_lib sys)" "mg_enabled inp (rw_manager w)" "list_all (\<lambda>s. N (stream_name s)) (new_streams inp)"
  shows "if mg_input_safe sys inp (rw_manager w) then safely (\<lambda>(_, mg). worker_inv N (w\<lparr>rw_manager := mg\<rparr>) q) (mg_run sys inp (rw_manager w))
    else mg_run sys inp (rw_manager w) = None"
proof -
  have mg: "mg_good (rw_manager w)" "named_in N (rw_manager w)" using assms(1) by (simp_all add: worker_inv_def)
  from mg_run_spec [OF mg(1) assms(2,3)] named_in.keeps_run [OF mg(2) assms(4), of sys] assms(1) show ?thesis
    by (auto simp: worker_inv_def elim!: safelyE split: if_splits)
qed

lemma worker_dispatch:
  assumes "worker_inv N w q" "keeps_header (sys_lib sys)" "N (m_stream_name msg)"
  shows "if (case command fp msg of None \<Rightarrow> True | Some c \<Rightarrow> mg_input_safe sys c (rw_manager w))
    then safely (\<lambda>w'. worker_inv N w' q \<and> same_inbox w w') (rw_dispatch sys fp msg w) else rw_dispatch sys fp msg w = None"
proof (cases "command fp msg")
  case None
  then show ?thesis using assms(1) by (simp add: dispatch_unknown same_inbox_def)
next
  case (Some c)
  have names: "list_all (\<lambda>s. N (stream_name s)) (new_streams c)" using command_names [OF Some] assms(3) by (auto simp: list_all_iff)
  note run = worker_event [OF assms(1,2) command_enabled [OF Some] names] and d = dispatch_command [OF Some, where sys = sys and w = w]
  show ?thesis
  proof (cases "rw_dispatch sys fp msg w")
    case None
    then show ?thesis using d(1) run Some by (auto elim: safelyE split: if_splits)
  next
    case (Some w')
    then obtain r where r: "mg_run sys c (rw_manager w) = Some (r, rw_manager w')" using d(1) by (cases "mg_run sys c (rw_manager w)") auto
    then have "worker_inv N (w\<lparr>rw_manager := rw_manager w'\<rparr>) q" "mg_input_safe sys c (rw_manager w)" using run by (auto split: if_splits)
    moreover have "same_inbox w w'" using d(2) Some by simp
    ultimately show ?thesis using Some \<open>command fp msg = Some c\<close> by (auto simp: worker_inv_def same_inbox_def)
  qed
qed

lemma worker_executes:
  assumes "worker_inv N w (m # ms)" "rw_pipe w = RW_RTC_MSG # ns"
  shows "map_option rw_manager (rw_recv_notify sys fp w) = (case command fp m of None \<Rightarrow> Some (rw_manager w)
    | Some c \<Rightarrow> map_option snd (mg_run sys c (rw_manager w)))"
proof -
  have "lfq_repr (rw_q_msg w) (Some m # map Some ms)" using assms(1) by (simp add: worker_inv_def)
  from lfq.deq_some [OF this] obtain q where "consume (rw_q_msg w) = Some (Some (Some m), q)" by blast
  then have "rw_recv_notify sys fp w = rw_dispatch sys fp m (w\<lparr>rw_pipe := ns, rw_q_msg := q\<rparr>)"
    using assms(2) by (simp add: rw_recv_notify_def rw_process_notify_def RW_QUIT_def RW_RTC_MSG_def rw_process_rtc_msg_def rw_pop_msg_def)
  then show ?thesis using dispatch_command(1) [of fp m _ sys] by (cases "command fp m") (simp_all add: dispatch_unknown)
qed

lemma worker_recv:
  assumes "worker_inv N w q" "keeps_header (sys_lib sys)"
  shows "if (case Option.bind (next_msg w) (command fp) of None \<Rightarrow> True | Some c \<Rightarrow> mg_input_safe sys c (rw_manager w))
    then safely (\<lambda>w'. worker_inv N w' (case next_msg w of None \<Rightarrow> q | Some _ \<Rightarrow> tl q)) (rw_recv_notify sys fp w)
      \<and> (\<forall>m. next_msg w = Some m \<longrightarrow> q \<noteq> [] \<and> hd q = m)
    else rw_recv_notify sys fp w = None"
proof (cases "\<exists>msgs. rw_pipe w = RW_RTC_MSG # msgs")
  case False
  then show ?thesis using assms(1)
    by (auto simp: next_msg_def rw_recv_notify_def rw_process_notify_def RW_QUIT_def RW_RTC_MSG_def worker_inv_def split: list.split)
next
  case True
  then obtain msgs where p: "rw_pipe w = RW_RTC_MSG # msgs" by blast
  then have recv: "rw_recv_notify sys fp w = rw_process_rtc_msg sys fp (w\<lparr>rw_pipe := msgs\<rparr>)"
    by (simp add: rw_recv_notify_def rw_process_notify_def RW_QUIT_def RW_RTC_MSG_def)
  have repr: "lfq_repr (rw_q_msg w) (map Some q)" using assms(1) by (simp add: worker_inv_def)
  show ?thesis
  proof (cases q)
    case Nil
    with repr obtain q' where "consume (rw_q_msg w) = Some (None, q')" "lfq_repr q' []" using lfq.deq_none by fastforce
    then show ?thesis using assms(1) p Nil recv
      by (simp add: rw_process_rtc_msg_def rw_pop_msg_def next_msg_def worker_inv_def)
  next
    case (Cons m ms)
    with repr obtain q' where c: "consume (rw_q_msg w) = Some (Some (Some m), q')" "lfq_repr q' (map Some ms)"
      using lfq.deq_some [of "rw_q_msg w" "Some m" "map Some ms"] by auto
    let ?w = "w\<lparr>rw_pipe := msgs, rw_q_msg := q'\<rparr>"
    have "worker_inv N ?w ms" "N (m_stream_name m)" using assms(1) c(2) Cons by (simp_all add: worker_inv_def)
    from worker_dispatch [OF this(1) assms(2) this(2), of fp] c p Cons recv show ?thesis
      by (auto simp: rw_process_rtc_msg_def rw_pop_msg_def next_msg_def elim!: safely_mono split: if_splits option.splits)
  qed
qed

section \<open>Runs of the server\<close>

text \<open>
  The threads of the process: signalling workers send messages, the server and the workers read
  their pipes, and the workers handle what arrives from the network and the timers.
\<close>

datatype server_input =
    in_send bool RtcMsg
  | in_server_notify int "(nat \<times> int) option" bool
  | in_worker_notify nat
  | in_worker_event nat mg_input

fun srv_run :: "'ctx system \<Rightarrow> (nat \<Rightarrow> SSLFingerprint option) \<Rightarrow> server_input \<Rightarrow> 'ctx RtcServer \<Rightarrow> 'ctx RtcServer option" where
  "srv_run sys fp (in_send ok msg) rs = Some (snd (rs_send_rtc_msg ok msg rs))"
| "srv_run sys fp (in_server_notify now generated ok) rs = rs_recv_notify now generated ok rs"
| "srv_run sys fp (in_worker_notify i) rs = run_worker i (rw_recv_notify sys fp) rs"
| "srv_run sys fp (in_worker_event i inp) rs =
     run_worker i (\<lambda>w. map_option (\<lambda>(_, mg). w\<lparr>rw_manager := mg\<rparr>) (mg_run sys inp (rw_manager w))) rs"

fun media_input :: "mg_input \<Rightarrow> bool" where
  "media_input (on_transport p inp) = True"
| "media_input (on_ice_timeout p) = True"
| "media_input (on_destroy_timer p) = True"
| "media_input _ = False"

fun srv_enabled :: "server_input \<Rightarrow> 'ctx RtcServer \<Rightarrow> bool" where
  "srv_enabled (in_send ok msg) rs \<longleftrightarrow> True"
| "srv_enabled (in_server_notify now generated ok) rs \<longleftrightarrow> \<not> rs_stopped rs"
| "srv_enabled (in_worker_notify i) rs \<longleftrightarrow> i < length (rs_workers rs) \<and> \<not> rw_stopped (rs_workers rs ! i)"
| "srv_enabled (in_worker_event i inp) rs \<longleftrightarrow> i < length (rs_workers rs) \<and> \<not> rw_stopped (rs_workers rs ! i) \<and> media_input inp
     \<and> mg_enabled inp (rw_manager (rs_workers rs ! i))"

fun srv_input_safe :: "'ctx system \<Rightarrow> (nat \<Rightarrow> SSLFingerprint option) \<Rightarrow> server_input \<Rightarrow> 'ctx RtcServer \<Rightarrow> bool" where
  "srv_input_safe sys fp (in_worker_notify i) rs \<longleftrightarrow> (case Option.bind (next_msg (rs_workers rs ! i)) (command fp) of None \<Rightarrow> True
     | Some c \<Rightarrow> mg_input_safe sys c (rw_manager (rs_workers rs ! i)))"
| "srv_input_safe sys fp (in_worker_event i inp) rs \<longleftrightarrow> mg_input_safe sys inp (rw_manager (rs_workers rs ! i))"
| "srv_input_safe sys fp _ rs \<longleftrightarrow> True"

text \<open>
  The history of a run: the messages sent to the server, those it took from its queue with the
  certificate they got (none when there was none and the message is dropped), and those each
  worker executed.
\<close>

record server_log =
  sent :: "RtcMsg list"
  handled :: "(RtcMsg \<times> nat option) list"
  executed :: "nat \<Rightarrow> RtcMsg list"

definition next_handled :: "int \<Rightarrow> (nat \<times> int) option \<Rightarrow> 'ctx RtcServer \<Rightarrow> (RtcMsg \<times> nat option) list" where
  "next_handled now generated rs = (case (rs_pipe rs, rs_q_msg rs) of
       (n # _, msg # _) \<Rightarrow> if n = RS_RTC_MSG
         then [(msg, map_option fst (rs_certificate (snd (generate_and_check_certificate now generated rs))))] else []
     | _ \<Rightarrow> [])"

fun srv_log :: "server_input \<Rightarrow> 'ctx RtcServer \<Rightarrow> server_log \<Rightarrow> server_log" where
  "srv_log (in_send ok msg) rs h = h\<lparr>sent := sent h @ [msg]\<rparr>"
| "srv_log (in_server_notify now generated ok) rs h = h\<lparr>handled := handled h @ next_handled now generated rs\<rparr>"
| "srv_log (in_worker_notify i) rs h = (case next_msg (rs_workers rs ! i) of None \<Rightarrow> h
     | Some msg \<Rightarrow> h\<lparr>executed := (executed h)(i := executed h i @ [msg])\<rparr>)"
| "srv_log (in_worker_event i inp) rs h = h"

fun forwarded :: "(RtcMsg \<times> nat option) list \<Rightarrow> RtcMsg list" where
  "forwarded [] = []"
| "forwarded ((msg, None) # hs) = forwarded hs"
| "forwarded ((msg, Some c) # hs) = msg\<lparr>m_certificate := Some c\<rparr> # forwarded hs"

text \<open>
  A message carries a raw pointer to the certificate of the server, and the transports keep it.
  Once the certificate has expired the server replaces it, which frees the old one; the objects
  behind those pointers are not part of the state, so \<open>renewal\<close> says whether such steps are
  among those considered.
\<close>

fun keeps_certificate :: "server_input \<Rightarrow> 'ctx RtcServer \<Rightarrow> bool" where
  "keeps_certificate (in_server_notify now generated ok) rs \<longleftrightarrow> (case rs_certificate rs of None \<Rightarrow> True | Some c \<Rightarrow> \<not> HasExpired now c)"
| "keeps_certificate _ rs \<longleftrightarrow> True"

inductive srv_reach :: "bool \<Rightarrow> 'ctx RtcServer \<Rightarrow> server_log \<Rightarrow> bool" for renewal where
  start: "n < 2 ^ 31 \<Longrightarrow> rs_init now generated piped ok (new_RtcServer n) = (0, rs)
    \<Longrightarrow> srv_reach renewal rs \<lparr>sent = [], handled = [], executed = (\<lambda>_. [])\<rparr>"
| step: "srv_reach renewal rs h \<Longrightarrow> keeps_header (sys_lib sys) \<Longrightarrow> srv_enabled inp rs \<Longrightarrow> renewal \<or> keeps_certificate inp rs
    \<Longrightarrow> srv_run sys fp inp rs = Some rs' \<Longrightarrow> srv_reach renewal rs' (srv_log inp rs h)"

section \<open>The invariant of the server\<close>

definition srv_inv :: "'ctx RtcServer \<Rightarrow> server_log \<Rightarrow> bool" where
  "srv_inv rs h \<longleftrightarrow> length (rs_workers rs) = nat (rs_worker_num rs) \<and> rs_worker_num rs < 2 ^ 31 \<and> sent h = map fst (handled h) @ rs_q_msg rs
     \<and> (\<forall>i < length (rs_workers rs). \<exists>q. worker_inv (\<lambda>n. get_worker n rs = Some i) (rs_workers rs ! i) q
        \<and> executed h i @ q = filter (\<lambda>m. get_worker (m_stream_name m) rs = Some i) (forwarded (handled h)))"

lemma get_worker_cong: "length (rs_workers rs') = length (rs_workers rs) \<Longrightarrow> rs_worker_num rs' = rs_worker_num rs \<Longrightarrow> get_worker n rs' = get_worker n rs"
  by (simp add: get_worker_def)

lemma get_worker_bound:
  assumes "get_worker n rs = Some i" "rs_worker_num rs < 2 ^ 31"
  shows "i < length (rs_workers rs)"
proof -
  have ne: "rs_workers rs \<noteq> []" and k2: "int (length (rs_workers rs)) = rs_worker_num rs" "i = unat (ComputeCrc32 n mod word_of_int (rs_worker_num rs))"
    using assms(1) by (auto simp: get_worker_def split: if_splits)
  have "0 < int (length (rs_workers rs))" using ne by simp
  then have k: "0 < rs_worker_num rs" "int (length (rs_workers rs)) = rs_worker_num rs" "i = unat (ComputeCrc32 n mod word_of_int (rs_worker_num rs))"
    using k2 by simp_all
  have "unat (word_of_int (rs_worker_num rs) :: u32) = nat (rs_worker_num rs)" using k(1) assms(2) by (simp add: unsigned_of_int take_bit_int_eq_self)
  then have "i = unat (ComputeCrc32 n) mod nat (rs_worker_num rs)" by (simp add: k(3) unat_mod)
  moreover have "0 < nat (rs_worker_num rs)" using k(1) by simp
  ultimately have "i < nat (rs_worker_num rs)" by simp
  with k(2) show ?thesis by linarith
qed

lemma forwarded_append [simp]: "forwarded (hs @ hs') = forwarded hs @ forwarded hs'"
  by (induction hs rule: forwarded.induct) simp_all

lemma create_workers_spec:
  "create_workers ok i n rs = (0, rs') \<Longrightarrow> rs' = rs\<lparr>rs_workers := rs_workers rs @ map new_RtcWorker [i..<i + n]\<rparr>"
proof (induction n arbitrary: i rs)
  case (Suc n)
  have "[i..<i + Suc n] = i # [Suc i..<Suc i + n]" by (simp add: upt_conv_Cons del: upt_Suc)
  then show ?case using Suc.prems Suc.IH [of "Suc i" "rs\<lparr>rs_workers := rs_workers rs @ [new_RtcWorker i]\<rparr>"] by (simp del: upt_Suc split: if_splits)
qed simp

lemma srv_inv_start:
  assumes "n < 2 ^ 31" "rs_init now generated piped ok (new_RtcServer n) = (0, rs)"
  shows "srv_inv rs \<lparr>sent = [], handled = [], executed = (\<lambda>_. [])\<rparr>"
proof -
  have "rs_workers rs = map new_RtcWorker [0..<nat n]" "rs_worker_num rs = n" "rs_q_msg rs = []"
    using assms(2) by (auto simp: rs_init_def generate_and_check_certificate_def new_RtcServer_def Let_def split: if_splits dest!: create_workers_spec)
  then show ?thesis using assms(1) by (auto simp: srv_inv_def worker_new intro!: exI [of _ "[]"])
qed

lemma srv_inv_worker:
  assumes "srv_inv rs h" "i < length (rs_workers rs)"
  obtains q where "worker_inv (\<lambda>n. get_worker n rs = Some i) (rs_workers rs ! i) q"
    "executed h i @ q = filter (\<lambda>m. get_worker (m_stream_name m) rs = Some i) (forwarded (handled h))"
  using assms unfolding srv_inv_def by blast

text \<open>One worker changes its state, and perhaps its part of the history.\<close>

lemma srv_inv_upd:
  assumes "srv_inv rs h" "worker_inv (\<lambda>n. get_worker n rs = Some i) w q"
    "rs' = rs\<lparr>rs_workers := (rs_workers rs)[i := w], rs_usage := u\<rparr>"
    "sent h' = sent h" "handled h' = handled h" "\<And>j. j \<noteq> i \<Longrightarrow> executed h' j = executed h j"
    "executed h' i @ q = filter (\<lambda>m. get_worker (m_stream_name m) rs = Some i) (forwarded (handled h))"
  shows "srv_inv rs' h'"
proof -
  have get: "get_worker n rs' = get_worker n rs" for n by (rule get_worker_cong) (simp_all add: assms(3))
  have "\<exists>q. worker_inv (\<lambda>n. get_worker n rs = Some j) ((rs_workers rs)[i := w] ! j) q
      \<and> executed h' j @ q = filter (\<lambda>m. get_worker (m_stream_name m) rs = Some j) (forwarded (handled h))" if j: "j < length (rs_workers rs)" for j
  proof (cases "j = i")
    case False
    obtain p where "worker_inv (\<lambda>n. get_worker n rs = Some j) (rs_workers rs ! j) p"
      "executed h j @ p = filter (\<lambda>m. get_worker (m_stream_name m) rs = Some j) (forwarded (handled h))" by (rule srv_inv_worker [OF assms(1) j])
    then show ?thesis using False assms(6) by auto
  qed (use assms(2,7) j in auto)
  then show ?thesis using assms(1,4,5) unfolding srv_inv_def get by (simp add: assms(3))
qed

lemma run_worker_usage:
  "worker_inv N (w\<lparr>rw_manager := (rw_manager w)\<lparr>process_usage := u\<rparr>\<rparr>) q = worker_inv N w q"
  "next_msg (w\<lparr>rw_manager := mg\<rparr>) = next_msg w"
  by (simp add: worker_inv_def) (cases "rw_pipe w"; simp add: next_msg_def)

lemma worker_notify_spec:
  assumes "srv_inv rs h" "keeps_header (sys_lib sys)" "i < length (rs_workers rs)"
  shows "if srv_input_safe sys fp (in_worker_notify i) rs
    then safely (\<lambda>rs'. srv_inv rs' (srv_log (in_worker_notify i) rs h)) (srv_run sys fp (in_worker_notify i) rs)
    else srv_run sys fp (in_worker_notify i) rs = None"
proof -
  obtain q where q: "worker_inv (\<lambda>n. get_worker n rs = Some i) (rs_workers rs ! i) q"
    "executed h i @ q = filter (\<lambda>m. get_worker (m_stream_name m) rs = Some i) (forwarded (handled h))" by (rule srv_inv_worker [OF assms(1,3)])
  let ?w = "rs_workers rs ! i"
  let ?v = "?w\<lparr>rw_manager := (rw_manager ?w)\<lparr>process_usage := rs_usage rs\<rparr>\<rparr>"
  have "worker_inv (\<lambda>n. get_worker n rs = Some i) ?v q" using q(1) by (simp only: run_worker_usage)
  note spec = worker_recv [OF this assms(2), of fp, unfolded run_worker_usage]
  show ?thesis
  proof (cases "srv_input_safe sys fp (in_worker_notify i) rs")
    case True
    then have s: "safely (\<lambda>w'. worker_inv (\<lambda>n. get_worker n rs = Some i) w' (case next_msg ?w of None \<Rightarrow> q | Some _ \<Rightarrow> tl q)) (rw_recv_notify sys fp ?v)"
      "\<And>m. next_msg ?w = Some m \<Longrightarrow> q \<noteq> [] \<and> hd q = m"
      using spec by (auto split: if_splits option.splits)
    from s(1) obtain w' where w': "rw_recv_notify sys fp ?v = Some w'"
      "worker_inv (\<lambda>n. get_worker n rs = Some i) w' (case next_msg ?w of None \<Rightarrow> q | Some _ \<Rightarrow> tl q)" by (rule safelyE)
    have "srv_inv (rs\<lparr>rs_workers := (rs_workers rs)[i := w'], rs_usage := process_usage (rw_manager w')\<rparr>) (srv_log (in_worker_notify i) rs h)"
      by (rule srv_inv_upd [OF assms(1) w'(2) refl]) (use q(2) s(2) in \<open>auto split: option.splits\<close>)
    then show ?thesis using True w'(1) by (simp add: run_worker_def)
  next
    case False
    then have "rw_recv_notify sys fp ?v = None" using spec by (auto split: if_splits option.splits)
    then show ?thesis using False by (simp add: run_worker_def)
  qed
qed

lemma worker_event_spec:
  assumes "srv_inv rs h" "keeps_header (sys_lib sys)" "i < length (rs_workers rs)" "media_input inp" "mg_enabled inp (rw_manager (rs_workers rs ! i))"
  shows "if srv_input_safe sys fp (in_worker_event i inp) rs
    then safely (\<lambda>rs'. srv_inv rs' h) (srv_run sys fp (in_worker_event i inp) rs) else srv_run sys fp (in_worker_event i inp) rs = None"
proof -
  obtain q where q: "worker_inv (\<lambda>n. get_worker n rs = Some i) (rs_workers rs ! i) q"
    "executed h i @ q = filter (\<lambda>m. get_worker (m_stream_name m) rs = Some i) (forwarded (handled h))" by (rule srv_inv_worker [OF assms(1,3)])
  let ?w = "rs_workers rs ! i"
  let ?v = "?w\<lparr>rw_manager := (rw_manager ?w)\<lparr>process_usage := rs_usage rs\<rparr>\<rparr>"
  have v: "worker_inv (\<lambda>n. get_worker n rs = Some i) ?v q" using q(1) by (simp only: run_worker_usage)
  have "mg_enabled inp (rw_manager ?v)" "list_all (\<lambda>s. get_worker (stream_name s) rs = Some i) (new_streams inp)"
    using assms(4,5) by (simp, cases inp) simp_all
  from worker_event [OF v assms(2) this] show ?thesis
    by (auto simp: run_worker_def elim!: safelyE intro!: srv_inv_upd [OF assms(1) _ refl _ _ _ q(2)] split: if_splits)
qed

lemma srv_inv_frame:
  assumes "srv_inv rs h" "rs_worker_num rs' = rs_worker_num rs" "list_all2 (\<lambda>w w'. rw_q_msg w' = rw_q_msg w \<and> rw_manager w' = rw_manager w) (rs_workers rs) (rs_workers rs')"
    "sent h' = map fst (handled h') @ rs_q_msg rs'" "executed h' = executed h" "forwarded (handled h') = forwarded (handled h)"
  shows "srv_inv rs' h'"
proof -
  have len: "length (rs_workers rs') = length (rs_workers rs)" using assms(3) by (simp add: list_all2_lengthD)
  have get: "get_worker n rs' = get_worker n rs" for n by (rule get_worker_cong) (simp_all add: assms(2) len)
  have "worker_inv N (rs_workers rs' ! i) q = worker_inv N (rs_workers rs ! i) q" if "i < length (rs_workers rs)" for N i q
    using list_all2_nthD [OF assms(3) that] by (simp add: worker_inv_def)
  then show ?thesis using assms(1,2,4-6) unfolding srv_inv_def get len by simp
qed

lemma srv_inv_forward:
  assumes "srv_inv rs h" "get_worker (m_stream_name msg) rs = Some i" "c = Some a" "rs_q_msg rs = msg # q"
  shows "safely (\<lambda>x. srv_inv (rs\<lparr>rs_pipe := p, rs_q_msg := q, rs_certificate := cert, rs_workers := (rs_workers rs)[i := snd x]\<rparr>)
      (h\<lparr>handled := handled h @ [(msg, c)]\<rparr>)) (rw_send_rtc_msg ok (msg\<lparr>m_certificate := c\<rparr>) (rs_workers rs ! i))"
proof -
  let ?m = "msg\<lparr>m_certificate := c\<rparr>" and ?N = "\<lambda>j n. get_worker n rs = Some j"
  have i: "i < length (rs_workers rs)" by (rule get_worker_bound [OF assms(2)]) (use assms(1) in \<open>simp add: srv_inv_def\<close>)
  obtain qi where qi: "worker_inv (?N i) (rs_workers rs ! i) qi" "executed h i @ qi = filter (\<lambda>m. ?N i (m_stream_name m)) (forwarded (handled h))"
    by (rule srv_inv_worker [OF assms(1) i])
  from worker_send [OF qi(1), of ?m ok] assms(2) obtain x where x: "rw_send_rtc_msg ok ?m (rs_workers rs ! i) = Some x" "worker_inv (?N i) (snd x) (qi @ [?m])"
    by (auto elim: safelyE)
  let ?rs = "rs\<lparr>rs_pipe := p, rs_q_msg := q, rs_certificate := cert, rs_workers := (rs_workers rs)[i := snd x]\<rparr>"
    and ?h = "h\<lparr>handled := handled h @ [(msg, c)]\<rparr>"
  have get: "get_worker n ?rs = get_worker n rs" for n by (rule get_worker_cong) simp_all
  have "\<exists>q. worker_inv (?N j) ((rs_workers rs)[i := snd x] ! j) q \<and> executed h j @ q = filter (\<lambda>m. ?N j (m_stream_name m)) (forwarded (handled h) @ [?m])"
    if j: "j < length (rs_workers rs)" for j
  proof (cases "j = i")
    case False
    obtain r where "worker_inv (?N j) (rs_workers rs ! j) r" "executed h j @ r = filter (\<lambda>m. ?N j (m_stream_name m)) (forwarded (handled h))"
      by (rule srv_inv_worker [OF assms(1) j])
    then show ?thesis using False assms(2) by auto
  qed (use x(2) qi(2) assms(2) i in \<open>auto intro!: exI [of _ "qi @ [?m]"]\<close>)
  then have "srv_inv ?rs ?h" using assms(1,3,4) unfolding srv_inv_def get by simp
  with x(1) show ?thesis by simp
qed

lemma server_notify_spec:
  assumes "srv_inv rs h"
  shows "safely (\<lambda>rs'. srv_inv rs' (srv_log (in_server_notify now generated ok) rs h)) (rs_recv_notify now generated ok rs)"
proof (cases "rs_pipe rs")
  case Nil
  then show ?thesis using assms by (simp add: rs_recv_notify_def next_handled_def)
next
  case (Cons n ns)
  have same: "list_all2 (\<lambda>w w'. rw_q_msg w' = rw_q_msg w \<and> rw_manager w' = rw_manager w) (rs_workers rs) (rs_workers rs)" by (simp add: list_all2_same)
  have sent: "sent h = map fst (handled h) @ rs_q_msg rs" using assms by (simp add: srv_inv_def)
  show ?thesis
  proof (cases "n = RS_RTC_MSG \<and> rs_q_msg rs \<noteq> []")
    case False
    have quit: "srv_inv (rs_stop ok (rs\<lparr>rs_pipe := ns\<rparr>)) h"
      by (rule srv_inv_frame [OF assms]) (auto simp: rs_stop_def list_all2_conv_all_nth rw_notify_def sent)
    have keep: "srv_inv (rs\<lparr>rs_pipe := ns\<rparr>) h" by (rule srv_inv_frame [OF assms]) (simp_all add: same sent)
    show ?thesis using False Cons quit keep
      by (auto simp: rs_recv_notify_def rs_process_notify_def rs_process_rtc_msg_def rs_pop_msg_def next_handled_def split: list.split)
  next
    case True
    then obtain msg q where mq: "n = RS_RTC_MSG" "rs_q_msg rs = msg # q" by (cases "rs_q_msg rs") auto
    define cert where "cert = rs_certificate (snd (generate_and_check_certificate now generated rs))"
    let ?rs = "rs\<lparr>rs_pipe := ns, rs_q_msg := q, rs_certificate := cert\<rparr>" and ?c = "map_option fst cert"
    have log: "srv_log (in_server_notify now generated ok) rs h = h\<lparr>handled := handled h @ [(msg, ?c)]\<rparr>"
      using Cons mq by (simp add: next_handled_def cert_def)
    have get: "get_worker m ?rs = get_worker m rs" for m by (rule get_worker_cong) simp_all
    have run: "rs_recv_notify now generated ok rs = (if cert = None then Some ?rs else case get_worker (m_stream_name msg) rs of None \<Rightarrow> Some ?rs
        | Some i \<Rightarrow> map_option (\<lambda>x. ?rs\<lparr>rs_workers := (rs_workers rs)[i := snd x]\<rparr>) (rw_send_rtc_msg ok (msg\<lparr>m_certificate := ?c\<rparr>) (rs_workers rs ! i)))"
      using Cons mq get [of "m_stream_name msg"] unfolding cert_def
      by (cases "rs_certificate (snd (generate_and_check_certificate now generated rs))")
        (auto simp: rs_recv_notify_def rs_process_notify_def RS_QUIT_def RS_RTC_MSG_def rs_process_rtc_msg_def rs_pop_msg_def
          generate_and_check_certificate_def Let_def map_conv_bind_option o_def case_prod_unfold split: option.splits if_splits)
    have drop: "srv_inv ?rs (h\<lparr>handled := handled h @ [(msg, c)]\<rparr>)" if "c = None \<or> get_worker (m_stream_name msg) rs = None" for c
    proof -
      have "filter (\<lambda>m. get_worker (m_stream_name m) rs = Some i) (forwarded [(msg, c)]) = []" for i using that by (cases c) auto
      then show ?thesis using assms mq(2) unfolding srv_inv_def get by simp
    qed
    have fwd: "safely (\<lambda>x. srv_inv (?rs\<lparr>rs_workers := (rs_workers rs)[i := snd x]\<rparr>) (h\<lparr>handled := handled h @ [(msg, ?c)]\<rparr>))
        (rw_send_rtc_msg ok (msg\<lparr>m_certificate := ?c\<rparr>) (rs_workers rs ! i))"
      if "get_worker (m_stream_name msg) rs = Some i" "?c = Some a" for i a
      using srv_inv_forward [OF assms that mq(2), where p = ns and cert = cert and ok = ok] by simp
    show ?thesis
    proof (cases cert)
      case None
      then show ?thesis using drop [of ?c] unfolding log run by simp
    next
      case (Some a)
      then show ?thesis using drop [of ?c] fwd [of _ "fst a"] unfolding log run
        by (cases "get_worker (m_stream_name msg) rs") (auto elim!: safelyE)
    qed
  qed
qed

lemma srv_run_spec:
  assumes "srv_inv rs h" "keeps_header (sys_lib sys)" "srv_enabled inp rs"
  shows "if srv_input_safe sys fp inp rs then safely (\<lambda>rs'. srv_inv rs' (srv_log inp rs h)) (srv_run sys fp inp rs) else srv_run sys fp inp rs = None"
proof (cases inp)
  case (in_send ok msg)
  have "srv_inv (snd (rs_send_rtc_msg ok msg rs)) (h\<lparr>sent := sent h @ [msg]\<rparr>)"
    by (rule srv_inv_frame [OF assms(1)])
      (use assms(1) in \<open>auto simp: rs_send_rtc_msg_def rs_notify_def rs_push_msg_def srv_inv_def list_all2_same\<close>)
  then show ?thesis using in_send by simp
next
  case (in_server_notify now generated ok)
  then show ?thesis using server_notify_spec [OF assms(1)] by simp
next
  case (in_worker_notify i)
  with assms(3) have "i < length (rs_workers rs)" by simp
  then show ?thesis unfolding in_worker_notify by (rule worker_notify_spec [OF assms(1,2)])
next
  case (in_worker_event i ev)
  then show ?thesis using worker_event_spec [OF assms(1,2), of i ev fp] assms(3)
    by (simp del: srv_run.simps srv_input_safe.simps)
qed

lemma srv_reach_inv: "srv_reach renewal rs h \<Longrightarrow> srv_inv rs h"
proof (induction rule: srv_reach.induct)
  case (step rs h sys inp fp rs')
  then show ?case using srv_run_spec [OF step.IH step.hyps(2,3), of fp] by (simp split: if_splits)
qed (rule srv_inv_start)

section \<open>Claims\<close>

text \<open>
  C1. As long as its certificate is not replaced, the server with all its threads, in any
  interleaving, has undefined behaviour on exactly the inputs that are unsafe for the stream manager
  of one worker: an unsafe answer that a worker executes, or an unsafe datagram.  The queues between
  the threads never hand out a deleted or null message.
\<close>

theorem server_fails_iff:
  assumes "srv_reach False rs h" "keeps_header (sys_lib sys)" "srv_enabled inp rs" "keeps_certificate inp rs"
  shows "srv_run sys fp inp rs = None \<longleftrightarrow> \<not> srv_input_safe sys fp inp rs"
  using srv_run_spec [OF srv_reach_inv [OF assms(1)] assms(2,3), of fp] by (auto elim: safelyE split: if_splits)

lemma srv_executes:
  assumes "worker_inv N (rs_workers rs ! i) (m # ms)" "i < length (rs_workers rs)" "rw_pipe (rs_workers rs ! i) = RW_RTC_MSG # ns"
  shows "map_option (\<lambda>rs'. rw_manager (rs_workers rs' ! i)) (srv_run sys fp (in_worker_notify i) rs)
    = (let mg = (rw_manager (rs_workers rs ! i))\<lparr>process_usage := rs_usage rs\<rparr>
       in case command fp m of None \<Rightarrow> Some mg | Some c \<Rightarrow> map_option snd (mg_run sys c mg))"
proof -
  let ?w = "rs_workers rs ! i"
  let ?v = "?w\<lparr>rw_manager := (rw_manager ?w)\<lparr>process_usage := rs_usage rs\<rparr>\<rparr>"
  have v: "worker_inv N ?v (m # ms)" "rw_pipe ?v = RW_RTC_MSG # ns" using assms(1,3) by (simp_all add: run_worker_usage)
  have "map_option (\<lambda>rs'. rw_manager (rs_workers rs' ! i)) (srv_run sys fp (in_worker_notify i) rs) = map_option rw_manager (rw_recv_notify sys fp ?v)"
    using assms(2) by (cases "rw_recv_notify sys fp ?v") (simp_all add: run_worker_def)
  then show ?thesis using worker_executes [OF v, of sys fp] by (cases "command fp m") (simp_all add: Let_def)
qed

text \<open>
  C4. Commands are executed in the order in which they were sent, per stream name: the server
  handles the messages in the order of sending, and what a worker has executed, followed by what is
  still in its queue, is the sequence of the messages handled so far whose names belong to the worker
  (without those for which no certificate could be made).  A worker that reads a notification
  executes the oldest message of its queue: its stream manager becomes what the command of the
  message makes of it.
\<close>

theorem commands_in_order:
  assumes "srv_reach renewal rs h"
  shows "sent h = map fst (handled h) @ rs_q_msg rs
    \<and> (\<forall>i < length (rs_workers rs). \<exists>q. lfq_repr (rw_q_msg (rs_workers rs ! i)) (map Some q)
        \<and> executed h i @ q = filter (\<lambda>m. get_worker (m_stream_name m) rs = Some i) (forwarded (handled h))
        \<and> (\<forall>m ms ns sys fp. q = m # ms \<longrightarrow> rw_pipe (rs_workers rs ! i) = RW_RTC_MSG # ns \<longrightarrow>
            map_option (\<lambda>rs'. rw_manager (rs_workers rs' ! i)) (srv_run sys fp (in_worker_notify i) rs)
              = (let mg = (rw_manager (rs_workers rs ! i))\<lparr>process_usage := rs_usage rs\<rparr>
                 in case command fp m of None \<Rightarrow> Some mg | Some c \<Rightarrow> map_option snd (mg_run sys c mg))))"
proof (intro conjI allI impI)
  show "sent h = map fst (handled h) @ rs_q_msg rs" using srv_reach_inv [OF assms] by (simp add: srv_inv_def)
  fix i assume i: "i < length (rs_workers rs)"
  obtain q where q: "worker_inv (\<lambda>n. get_worker n rs = Some i) (rs_workers rs ! i) q"
    "executed h i @ q = filter (\<lambda>m. get_worker (m_stream_name m) rs = Some i) (forwarded (handled h))"
    by (rule srv_inv_worker [OF srv_reach_inv [OF assms] i])
  moreover have "lfq_repr (rw_q_msg (rs_workers rs ! i)) (map Some q)" using q(1) by (simp add: worker_inv_def)
  ultimately show "\<exists>q. lfq_repr (rw_q_msg (rs_workers rs ! i)) (map Some q)
        \<and> executed h i @ q = filter (\<lambda>m. get_worker (m_stream_name m) rs = Some i) (forwarded (handled h))
        \<and> (\<forall>m ms ns sys fp. q = m # ms \<longrightarrow> rw_pipe (rs_workers rs ! i) = RW_RTC_MSG # ns \<longrightarrow>
            map_option (\<lambda>rs'. rw_manager (rs_workers rs' ! i)) (srv_run sys fp (in_worker_notify i) rs)
              = (let mg = (rw_manager (rs_workers rs ! i))\<lparr>process_usage := rs_usage rs\<rparr>
                 in case command fp m of None \<Rightarrow> Some mg | Some c \<Rightarrow> map_option snd (mg_run sys c mg)))"
    using srv_executes [OF _ i] by blast
qed

text \<open>
  C8. All streams of one name, publisher and subscribers, live in the stream manager of one
  worker, the one the checksum of the name selects, so media is forwarded inside one thread.
\<close>

theorem streams_of_a_name_on_one_worker:
  assumes "srv_reach renewal rs h" "i < length (rs_workers rs)" "streams (rw_manager (rs_workers rs ! i)) p = Some s"
  shows "get_worker (stream_name s) rs = Some i \<and> rs_worker_num rs = int (length (rs_workers rs))
    \<and> i = unat (ComputeCrc32 (stream_name s)) mod length (rs_workers rs)"
proof -
  have inv: "srv_inv rs h" by (rule srv_reach_inv [OF assms(1)])
  obtain q where "worker_inv (\<lambda>n. get_worker n rs = Some i) (rs_workers rs ! i) q" by (rule srv_inv_worker [OF inv assms(2)])
  then have g: "get_worker (stream_name s) rs = Some i" using assms(3) by (auto simp: worker_inv_def named_in_def)
  then have n: "int (length (rs_workers rs)) = rs_worker_num rs" by (auto simp: get_worker_def split: if_splits)
  have "length (rs_workers rs) < 2 ^ 32" using inv n by (auto simp: srv_inv_def)
  then have "unat (word_of_nat (length (rs_workers rs)) :: u32) = length (rs_workers rs)"
    by (simp add: unsigned_of_nat take_bit_nat_eq_self)
  then have "unat (word_of_int (rs_worker_num rs) :: u32) = length (rs_workers rs)"
    by (simp flip: n)
  then show ?thesis using g n by (auto simp: get_worker_def unat_mod split: if_splits)
qed

section \<open>Witnesses\<close>

text \<open>A server with one worker that is sent one command to publish.\<close>

definition sample_msg :: RtcMsg where
  "sample_msg = new_RtcMsg\<lparr>m_cmdno := CMDNO_PUSH, m_uid := 7, m_stream_name := sample_name, m_audio := 1\<rparr>"

definition sample_forwarded :: RtcMsg where
  "sample_forwarded = sample_msg\<lparr>m_certificate := Some 7\<rparr>"

definition sample_server :: "srtp_policy RtcServer" where
  "sample_server = (new_RtcServer 1)\<lparr>rs_workers := [new_RtcWorker 0], rs_certificate := Some (7, 100)\<rparr>"

lemma sample_start: "srv_reach False sample_server \<lparr>sent = [], handled = [], executed = (\<lambda>_. [])\<rparr>"
  by (rule srv_reach.start [where n = 1 and now = 0 and generated = "Some (7, 100)" and piped = True and ok = "\<lambda>_. True"])
    (simp_all add: rs_init_def generate_and_check_certificate_def new_RtcServer_def sample_server_def)

lemma get_only_worker: "length (rs_workers rs) = 1 \<Longrightarrow> rs_worker_num rs = 1 \<Longrightarrow> get_worker n rs = Some 0"
  by (simp add: get_worker_def)

lemma sample_queued:
  obtains rs h where "srv_reach False (rs :: srtp_policy RtcServer) h" "handled h = [(sample_msg, Some 7)]" "executed h 0 = []"
    "length (rs_workers rs) = 1" "rs_worker_num rs = 1" "rs_q_msg rs = []" "rs_usage rs = 0" "\<not> rw_stopped (rs_workers rs ! 0)"
    "rw_manager (rs_workers rs ! 0) = new_RtcStreamManager" "rw_pipe (rs_workers rs ! 0) = [RW_RTC_MSG]"
    "lfq_repr (rw_q_msg (rs_workers rs ! 0)) [Some sample_forwarded]"
proof -
  let ?h = "\<lparr>sent = [sample_msg], handled = [], executed = (\<lambda>_. [])\<rparr>"
  define s1 where "s1 = sample_server\<lparr>rs_q_msg := [sample_msg], rs_pipe := [RS_RTC_MSG]\<rparr>"
  have "srv_run sample_sys (\<lambda>_. None) (in_send True sample_msg) sample_server = Some s1"
    by (simp add: rs_send_rtc_msg_def rs_notify_def rs_push_msg_def s1_def sample_server_def new_RtcServer_def)
  from srv_reach.step [OF sample_start sample_keeps_header _ _ this] have r1: "srv_reach False s1 ?h" by simp
  have "lfq_repr (rw_q_msg (new_RtcWorker 0 :: srtp_policy RtcWorker)) []" by (simp add: new_RtcWorker_def lfq_repr_new)
  from lfq.enq_law [OF this, of "Some sample_forwarded"] obtain q where q: "produce (fresh_node (rw_q_msg (new_RtcWorker 0 :: srtp_policy RtcWorker))) (Some sample_forwarded)
      (rw_q_msg (new_RtcWorker 0 :: srtp_policy RtcWorker)) = Some q" "lfq_repr q [Some sample_forwarded]" by auto
  let ?w = "(new_RtcWorker 0)\<lparr>rw_q_msg := q, rw_pipe := [RW_RTC_MSG]\<rparr>"
  let ?s = "s1\<lparr>rs_q_msg := [], rs_pipe := [], rs_workers := [?w]\<rparr>"
  have "rw_send_rtc_msg True sample_forwarded (new_RtcWorker 0 :: srtp_policy RtcWorker) = Some (0, ?w)"
    using q(1) by (simp add: rw_send_rtc_msg_def rw_push_msg_def rw_notify_def new_RtcWorker_def)
  then have "srv_run sample_sys (\<lambda>_. None) (in_server_notify 0 None True) s1 = Some ?s"
    by (simp add: rs_recv_notify_def rs_process_notify_def rs_process_rtc_msg_def rs_pop_msg_def RS_QUIT_def RS_RTC_MSG_def s1_def
        sample_server_def new_RtcServer_def generate_and_check_certificate_def HasExpired_def get_only_worker flip: sample_forwarded_def)
  from srv_reach.step [OF r1 sample_keeps_header _ _ this] have "srv_reach False ?s (srv_log (in_server_notify 0 None True) s1 ?h)"
    by (simp add: s1_def sample_server_def new_RtcServer_def HasExpired_def)
  from that [OF this] q(2) show ?thesis
    by (simp add: s1_def sample_server_def new_RtcServer_def next_handled_def generate_and_check_certificate_def HasExpired_def new_RtcWorker_def)
qed

theorem server_fails_iff_witness:
  "\<exists>rs :: srtp_policy RtcServer. \<exists>h. srv_reach False rs h \<and> next_msg (rs_workers rs ! 0) = Some sample_forwarded
     \<and> srv_run sample_sys (\<lambda>_. None) (in_worker_notify 0) rs \<noteq> None"
proof (rule sample_queued)
  fix rs :: "srtp_policy RtcServer" and h
  assume r: "srv_reach False rs h" "length (rs_workers rs) = 1" "\<not> rw_stopped (rs_workers rs ! 0)" "rw_pipe (rs_workers rs ! 0) = [RW_RTC_MSG]"
    "lfq_repr (rw_q_msg (rs_workers rs ! 0)) [Some sample_forwarded]"
  then have n: "next_msg (rs_workers rs ! 0) = Some sample_forwarded" using lfq.deq_some [OF r(5)] by (auto simp: next_msg_def)
  have "srv_input_safe sample_sys (\<lambda>_. None) (in_worker_notify 0) rs"
    by (simp add: n sample_forwarded_def sample_msg_def command_def)
  with server_fails_iff [OF r(1) sample_keeps_header, of "in_worker_notify 0" "\<lambda>_. None"] n r show ?thesis
    by (auto simp del: srv_run.simps srv_input_safe.simps)
qed

theorem commands_in_order_witness:
  "\<exists>rs :: srtp_policy RtcServer. \<exists>h. srv_reach False rs h \<and> sent h = [sample_msg]
     \<and> (\<exists>q. lfq_repr (rw_q_msg (rs_workers rs ! 0)) (map Some q) \<and> q = [sample_forwarded])"
proof (rule sample_queued)
  fix rs :: "srtp_policy RtcServer" and h
  assume r: "srv_reach False rs h" "handled h = [(sample_msg, Some 7)]" "executed h 0 = []" "length (rs_workers rs) = 1" "rs_worker_num rs = 1"
    "rs_q_msg rs = []"
  then show ?thesis using commands_in_order [OF r(1)] by (auto simp: get_only_worker sample_forwarded_def intro!: exI [of _ rs] exI [of _ h])
qed

theorem streams_of_a_name_on_one_worker_witness:
  "\<exists>rs :: srtp_policy RtcServer. \<exists>h. srv_reach False rs h \<and> streams (rw_manager (rs_workers rs ! 0)) 0 \<noteq> None \<and> get_worker sample_name rs = Some 0"
proof (rule sample_queued)
  fix rs :: "srtp_policy RtcServer" and h
  assume r: "srv_reach False rs h" "length (rs_workers rs) = 1" "rs_usage rs = 0" "\<not> rw_stopped (rs_workers rs ! 0)" "rw_pipe (rs_workers rs ! 0) = [RW_RTC_MSG]"
    "lfq_repr (rw_q_msg (rs_workers rs ! 0)) [Some sample_forwarded]" "rw_manager (rs_workers rs ! 0) = new_RtcStreamManager"
  obtain q where q: "consume (rw_q_msg (rs_workers rs ! 0)) = Some (Some (Some sample_forwarded), q)" using lfq.deq_some [OF r(6)] by auto
  let ?w = "(rs_workers rs ! 0)\<lparr>rw_pipe := [], rw_q_msg := q\<rparr>" and ?s = "new_RtcStream k_push 7 sample_name True False\<lparr>ice_timeout_watcher := True\<rparr>"
  obtain mg :: "srtp_policy RtcStreamManager" where mg: "mg_run sample_sys (cmd_push 7 sample_name True False (Some (7, None))) new_RtcStreamManager = Some (0, mg)"
    "streams mg 0 = Some ?s"
    using push_result [OF mg_reach_good [OF mg_reach.start] sample_keeps_header, of sample_name 7 True False "Some (7, None)"]
    by (auto simp: new_RtcStreamManager_def)
  have "map_option rw_manager (rw_dispatch sample_sys (\<lambda>_. None) sample_forwarded ?w) = Some mg"
    using dispatch_command(1) [of "\<lambda>_. None" sample_forwarded "cmd_push 7 sample_name True False (Some (7, None))" sample_sys ?w] mg(1) r(7)
    by (auto simp: command_def sample_forwarded_def sample_msg_def new_RtcMsg_def cert_of_def)
  then obtain w where w: "rw_dispatch sample_sys (\<lambda>_. None) sample_forwarded ?w = Some w" "rw_manager w = mg" by auto
  let ?rs = "rs\<lparr>rs_workers := [w], rs_usage := process_usage mg\<rparr>"
  have same: "(rs_workers rs ! 0)\<lparr>rw_manager := (rw_manager (rs_workers rs ! 0))\<lparr>process_usage := rs_usage rs\<rparr>\<rparr> = rs_workers rs ! 0"
    using r(3,7) by (cases "rs_workers rs ! 0") (simp add: new_RtcStreamManager_def)
  have "rw_recv_notify sample_sys (\<lambda>_. None) (rs_workers rs ! 0) = Some w"
    using q w(1) r(5) by (simp add: rw_recv_notify_def rw_process_notify_def rw_process_rtc_msg_def rw_pop_msg_def RW_QUIT_def RW_RTC_MSG_def)
  then have "srv_run sample_sys (\<lambda>_. None) (in_worker_notify 0) rs = Some ?rs"
    using r(2) w(2) by (auto simp: run_worker_def Let_def same length_Suc_conv)
  from srv_reach.step [OF r(1) sample_keeps_header _ _ this] r have reach: "srv_reach False ?rs (srv_log (in_worker_notify 0) rs h)"
    by (simp del: srv_log.simps)
  from streams_of_a_name_on_one_worker [OF this, of 0 0 ?s] reach w mg show ?thesis
    by (auto simp: new_RtcStream_def simp del: srv_log.simps)
qed

end
