(* ===== verification/Spec2Isabelle.thy ===== *)
theory Spec2Isabelle
  imports Stun_Codec Ice_Agent Lock_Free_Queue Signaling_Safety Signaling_Server Sdp_Offer Server_Safety
begin

text \<open>
  A verification development for the \<^verbatim>\<open>rtcserver\<close> WebRTC media server (the program under
  \<^verbatim>\<open>rtcserver/src\<close>, with the parts of the vendored \<^verbatim>\<open>libwebrtc/src/rtc_base\<close> it
  relies on).

  \<^bold>\<open>The program.\<close>  A signalling server accepts TCP connections and deals them to signalling
  workers, which frame requests, parse their JSON bodies and send the commands push, pull, answer,
  stop push and stop pull to the RTC server.  The RTC server distributes the commands over RTC
  workers by the checksum of the stream name, through a lock-free queue and a pipe.  Each RTC worker
  owns a stream manager: a table of publishing and one of subscribing streams, each stream with a
  peer connection.  A peer connection makes an SDP offer, parses the answer of the client and drives
  a transport controller: an ICE agent with its channels (UDP ports, candidate pairs, STUN checks)
  and, on top of each channel, a DTLS transport and an SRTP transport.  Media of a publisher is
  decrypted, handed to the stream manager, and encrypted again for the subscriber.

  \<^bold>\<open>Conventions.\<close>  Objects reached through pointers live in explicit heaps (maps from addresses),
  so that a deleted object is one that is not in the map.  The result \<open>None\<close> of an operation is
  undefined behaviour of the source: an access outside a buffer, a null or dangling pointer, a second
  deletion, an uncaught exception, or the end of the process by a failed allocation.  Machine
  integers keep their width; \<^verbatim>\<open>int\<close> and \<^verbatim>\<open>size_t\<close> values that matter are wrapped
  explicitly.  Signals and callbacks are lists of events in the order in which they are raised.
  What the kernel, libsrtp, OpenSSL, jsoncpp and the clock answer is an argument of the operation.

  \<^bold>\<open>Theories.\<close>
  \<^item> \<^verbatim>\<open>Prelude\<close>: integer types, byte strings, checked memory reads, the predicates
    \<open>safely\<close> and \<open>yields\<close> on results, and the named collections of rewrite rules.
  \<^item> \<^verbatim>\<open>ByteBuffer\<close>, \<^verbatim>\<open>Digest\<close>, \<^verbatim>\<open>String_Encode\<close>, \<^verbatim>\<open>Sds\<close>,
    \<^verbatim>\<open>Ip_Address\<close>, \<^verbatim>\<open>Stable_Sort\<close>: byte order and buffers (\<^verbatim>\<open>byte_order.h\<close>,
    \<^verbatim>\<open>byte_buffer.cc\<close>; the locale \<open>byte_source\<close>), CRC-32 and HMAC with a bit-serial
    reference, splitting and number conversion, growable strings, address classes, and
    \<^verbatim>\<open>std::stable_sort\<close> under the locale of a strict weak order.
  \<^item> \<^verbatim>\<open>Stun\<close>, \<^verbatim>\<open>Stun_Codec\<close> (\<^verbatim>\<open>ice/stun.cpp\<close>): messages and attributes;
    round trip, fingerprint, end-to-end integrity, where the integrity check leaves the packet, and
    the classes of parsed attributes.
  \<^item> \<^verbatim>\<open>Ice_Connection\<close>, \<^verbatim>\<open>Ice_Controller\<close>, \<^verbatim>\<open>Udp_Port\<close>,
    \<^verbatim>\<open>Ice_Channel\<close>, \<^verbatim>\<open>Ice_Channel_Inv\<close>, \<^verbatim>\<open>Ice_Agent\<close> (\<^verbatim>\<open>ice/*.cpp\<close>,
    \<^verbatim>\<open>base/network.cpp\<close>): candidate pairs, selection and pinging, ports and authentication
    (against HMAC as RFC 2104 defines it), the channel with its object graph, and the agent.  The
    invariant of the graph is proved for every reachable state of a channel; exactly the packets that
    cause undefined behaviour are characterised.
  \<^item> \<^verbatim>\<open>Sockets\<close>, \<^verbatim>\<open>Async_Udp_Socket\<close>, \<^verbatim>\<open>Lock_Free_Queue\<close>
    (\<^verbatim>\<open>base/*.cpp\<close>): result conventions of the system calls and the port search, the
    datagram queue with its write watcher, and the queue between two threads, sequentially (the
    locale \<open>fifo_queue\<close>: it returns what a list returns) and under every interleaving.
  \<^item> \<^verbatim>\<open>Signaling_Worker\<close>, \<^verbatim>\<open>Signaling_Safety\<close>, \<^verbatim>\<open>Signaling_Server\<close>
    (\<^verbatim>\<open>server/signaling_*.cpp\<close>, \<^verbatim>\<open>tcp_connection.cpp\<close>): framing for every
    chunking, the connection table, replies, inputs that hang or end the process, and dealing of
    connections in turn.
  \<^item> \<^verbatim>\<open>Session_Description\<close>, \<^verbatim>\<open>Sdp_Parser\<close>, \<^verbatim>\<open>Sdp_Round_Trip\<close>,
    \<^verbatim>\<open>Sdp_Offer\<close> (\<^verbatim>\<open>pc/session_description.cpp\<close>, the SDP part of
    \<^verbatim>\<open>pc/peer_connection.cpp\<close>): printing and parsing of descriptions and their round trip.
  \<^item> \<^verbatim>\<open>Rtp_Utils\<close>, \<^verbatim>\<open>Srtp\<close>, \<^verbatim>\<open>Dtls_Transport\<close>, \<^verbatim>\<open>Dtls_Safety\<close>
    (\<^verbatim>\<open>pc/srtp_*.cpp\<close>, \<^verbatim>\<open>pc/dtls_*.cpp\<close>): the media transports under every
    behaviour of the SSL adapter: safety, installation of the keys, media only after the handshake.
  \<^item> \<^verbatim>\<open>Transport_Controller\<close>, \<^verbatim>\<open>Transport_Signals\<close>, \<^verbatim>\<open>Transport_Safety\<close>,
    \<^verbatim>\<open>Peer_Connection\<close>, \<^verbatim>\<open>Peer_Safety\<close> (\<^verbatim>\<open>pc/transport_controller.cpp\<close>,
    \<^verbatim>\<open>pc/peer_connection.cpp\<close>): composition of ICE, DTLS and SRTP; the reported connection
    state is always that of the parts, and undefined behaviour is pushed down to packets and answers.
  \<^item> \<^verbatim>\<open>Rtc_Stream\<close>, \<^verbatim>\<open>Stream_Safety\<close>, \<^verbatim>\<open>Stream_Registry\<close>,
    \<^verbatim>\<open>Stream_Media\<close> (\<^verbatim>\<open>stream/*.cpp\<close>): streams and their manager: safety of every
    command, timer and event, refinement of a registry of publishers and subscribers (the locale
    \<open>table_property\<close> for facts that every event keeps), relaying of packets, leaks and mix-ups
    of replaced streams.
  \<^item> \<^verbatim>\<open>Rtc_Server\<close>, \<^verbatim>\<open>Server_Safety\<close> (\<^verbatim>\<open>server/rtc_server.cpp\<close>,
    \<^verbatim>\<open>server/rtc_worker.cpp\<close>): the server with all its threads: undefined behaviour exactly
    on unsafe answers and datagrams, commands in order, one worker per stream name.

  \<^bold>\<open>Reachable states.\<close>  Components that keep state have an inductive predicate of reachable
  states (\<open>chan_reach\<close>, \<open>mg_reach\<close>, \<open>srv_reach\<close> and others) whose steps are the
  events the event loop can deliver; safety statements hold for all of them.  No bound is put on the
  length of runs.  Loops are recursive functions with a termination proof; the query loop of the
  signalling worker, which need not end, is a partial function, and \<open>query_rounds\<close> tells a loop
  that goes on forever from one that fails.  The parameter \<open>limit\<close> of the string operations is
  the amount of memory the allocator can provide.

  \<^bold>\<open>Not modelled.\<close>  The Windows branches; logging, configuration files, start-up and paths;
  OpenSSL, libsrtp, jsoncpp, yaml-cpp and libev, which are parameters (of libsrtp the safety
  statements assume that a decrypted RTP packet still has its header of 12 bytes); the rest of
  libwebrtc; the client SDK and the Go front end, which are other programs.  The order in which the
  event loop runs callbacks is left open.  A packet that the DTLS or SRTP transport sends is recorded
  as handed to its ICE channel; the channel's own sending is part of the channel model.  The lifetime
  of the server certificate is not part of the state: when an expired certificate is replaced, raw
  pointers to the old one stay in use, so the safety of the whole server is stated for runs without a
  replacement.
\<close>

end
